(* ===== verification/Go_Prelude.thy ===== *)
theory Go_Prelude
  imports Main "HOL-Library.Word" "HOL-Library.Multiset" "HOL-Library.List_Lexorder"
    "HOL-Library.Char_ord" "HOL-Library.Monad_Syntax"
begin

text \<open>
  Shared vocabulary of the development: Go run-time conventions (slices, indexing, errors as
  values, panics), three-way comparison functions, and the generic list lemmas the component
  theories use.

  Conventions used everywhere:
  \<^item> \<open>'a option\<close> as the result of an operation: \<open>None\<close> means the Go code does not return
    normally (it panics, blocks forever or loops forever), \<open>Some x\<close> means it returns \<open>x\<close>;
  \<^item> \<open>go_error + 'a\<close>: the pair \<open>(value, error)\<close> of Go, \<open>Inl e\<close> when the error is not nil;
  \<^item> \<open>go_error option\<close>: a lone \<open>error\<close> result, \<open>None\<close> for nil.
\<close>

section \<open>Theorem collections\<close>

named_theorems go_simps \<open>evaluation rules for the Go run-time conventions\<close>
named_theorems inv_intros \<open>preservation rules: an operation keeps its component's invariant\<close>

section \<open>Errors\<close>

text \<open>
  \<open>ErrMsg\<close> is \<open>errors.New\<close>/\<open>errors.Newf\<close> (and any foreign error with that text),
  \<open>ErrWrap\<close> is \<open>errors.Wrap\<close>/\<open>errors.Wrapf\<close> (a prefix over a cause that \<open>errors.Is\<close> and
  \<open>errors.As\<close> still find), \<open>ErrCanceled\<close> is \<open>context.Canceled\<close>, and \<open>ErrOperator\<close> is the
  \<open>*operatorError\<close> of \<open>verifyservice/error.go\<close> (category, code, message, details as
  (field, reason) pairs, cause).
\<close>

datatype operatorErrorDetail = OperatorErrorDetail (odField: string) (odReason: string)

datatype go_error =
    ErrMsg string
  | ErrWrap string go_error
  | ErrCanceled
  | ErrOperator operatorError
and operatorError =
    OperatorError (oeCategory: string) (oeCode: string) (oeMessage: string)
      (oeDetails: "operatorErrorDetail list") (oeCause: "go_error option")

type_synonym 'a result = "go_error + 'a"

text \<open>\<open>strings.Join\<close> and the text of an error (\<open>err.Error()\<close>); the second equation group is
  \<open>(*operatorError).Error\<close>.\<close>

fun strings_Join :: "string list \<Rightarrow> string \<Rightarrow> string" where
  "strings_Join [] sep = []"
| "strings_Join [x] sep = x"
| "strings_Join (x # y # xs) sep = x @ sep @ strings_Join (y # xs) sep"

definition detail_reasons :: "operatorErrorDetail list \<Rightarrow> string list" where
  "detail_reasons details =
     concat (map (\<lambda>d. if odField d \<noteq> [] \<and> odReason d \<noteq> [] then [odField d @ '' '' @ odReason d]
                       else if odReason d \<noteq> [] then [odReason d] else []) details)"

primrec err_Error :: "go_error \<Rightarrow> string" and operatorError_Error :: "operatorError \<Rightarrow> string" where
  "err_Error (ErrMsg m) = m"
| "err_Error (ErrWrap m e) = m @ '': '' @ err_Error e"
| "err_Error ErrCanceled = ''context canceled''"
| "err_Error (ErrOperator oe) = operatorError_Error oe"
| "operatorError_Error (OperatorError category code message details cause) =
     (case map_option err_Error cause of
        Some c \<Rightarrow> message @ '': '' @ c
      | None \<Rightarrow>
          (if details = [] then message
           else if detail_reasons details = [] then message
           else message @ '': '' @ strings_Join (detail_reasons details) '', ''))"

text \<open>\<open>strings.Split\<close> with a separator of one byte.\<close>

fun strings_Split :: "string \<Rightarrow> char \<Rightarrow> string list" where
  "strings_Split [] sep = [[]]"
| "strings_Split (c # cs) sep =
     (if c = sep then [] # strings_Split cs sep
      else case strings_Split cs sep of [] \<Rightarrow> [[c]] | w # ws \<Rightarrow> (c # w) # ws)"

section \<open>Decimal numbers\<close>

text \<open>\<open>strconv.Itoa\<close> and \<open>%d\<close> on the non-negative integers the code prints.\<close>

definition digit_char :: "nat \<Rightarrow> char" where
  "digit_char d = char_of (48 + d)"

fun Itoa :: "nat \<Rightarrow> string" where
  "Itoa n = (if n < 10 then [digit_char n] else Itoa (n div 10) @ [digit_char (n mod 10)])"

declare Itoa.simps [simp del]

definition ItoaInt :: "int \<Rightarrow> string" where
  "ItoaInt i = (if i < 0 then ''-'' @ Itoa (nat (- i)) else Itoa (nat i))"

text \<open>The digits of a number, read back by Horner's rule.\<close>

lemma Itoa_value:
  "foldl (\<lambda>a c. 10 * a + (of_char c - 48)) 0 (Itoa n) = n" and
  Itoa_digits: "Itoa n \<noteq> [] \<and> (\<forall>c \<in> set (Itoa n). 48 \<le> (of_char c :: nat) \<and> (of_char c :: nat) \<le> 57)"
proof (induction n rule: Itoa.induct)
  case (1 n)
  have d: "(of_char (digit_char (n mod 10)) :: nat) = 48 + n mod 10"
  proof -
    have "48 + n mod 10 < 256" by (simp add: less_trans [of _ "58"])
    then show ?thesis by (simp add: digit_char_def of_char_of)
  qed
  {
    case 1
    show ?case
    proof (cases "n < 10")
      case True
      then show ?thesis using d by (simp add: Itoa.simps [of n])
    next
      case False
      then show ?thesis using d "1.IH"(1) by (simp add: Itoa.simps [of n])
    qed
  next
    case 2
    show ?case
    proof (cases "n < 10")
      case True
      then show ?thesis using d by (simp add: Itoa.simps [of n])
    next
      case False
      then show ?thesis using d "1.IH"(2) by (auto simp: Itoa.simps [of n])
    qed
  }
qed

section \<open>Results\<close>

lemma go_result_cases:
  obtains (Diverges) "x = None" | (Err) e where "x = Some (Inl e)" | (Ok) v where "x = Some (Inr v)"
  by (metis old.sum.exhaust option.exhaust)

section \<open>Slices and indexing\<close>

text \<open>\<open>xs[i]\<close> and \<open>xs[:n]\<close> panic out of range; a slice expression up to the capacity beyond the
  length is not used by the code modelled here.\<close>

definition go_nth :: "'a list \<Rightarrow> nat \<Rightarrow> 'a option" where
  "go_nth xs i = (if i < length xs then Some (xs ! i) else None)"

definition go_take :: "nat \<Rightarrow> 'a list \<Rightarrow> 'a list option" where
  "go_take n xs = (if n \<le> length xs then Some (take n xs) else None)"

lemma go_nth_in [simp, go_simps]: "i < length xs \<Longrightarrow> go_nth xs i = Some (xs ! i)"
  by (simp add: go_nth_def)

lemma go_take_in [simp, go_simps]: "n \<le> length xs \<Longrightarrow> go_take n xs = Some (take n xs)"
  by (simp add: go_take_def)

section \<open>Three-way comparison\<close>

text \<open>
  \<open>cmp a b\<close> is negative, zero or positive in Go; every comparison the code switches on returns
  exactly -1, 0 or 1. \<open>three_way\<close> collects the laws of such a comparison: it is a total
  preorder, not necessarily an identity (two datums may compare equal and differ in print).
\<close>

definition three_way :: "('a \<Rightarrow> 'a \<Rightarrow> int) \<Rightarrow> bool" where
  "three_way cmp \<longleftrightarrow>
     (\<forall>a b. cmp a b = - 1 \<or> cmp a b = 0 \<or> cmp a b = 1) \<and>
     (\<forall>a b. cmp b a = - cmp a b) \<and>
     (\<forall>a b c. cmp a b \<le> 0 \<longrightarrow> cmp b c \<le> 0 \<longrightarrow> cmp a c \<le> 0)"

lemma three_wayD:
  assumes "three_way cmp"
  shows three_way_range: "cmp a b = - 1 \<or> cmp a b = 0 \<or> cmp a b = 1"
    and three_way_flip: "cmp b a = - cmp a b"
    and three_way_le_trans: "cmp a b \<le> 0 \<Longrightarrow> cmp b c \<le> 0 \<Longrightarrow> cmp a c \<le> 0"
  using assms unfolding three_way_def by blast+

lemma three_way_refl: "three_way cmp \<Longrightarrow> cmp a a = 0"
  using three_way_flip [of cmp a a] by simp

lemma three_way_less_trans:
  assumes "three_way cmp" "cmp a b = - 1" "cmp b c \<le> 0"
  shows "cmp a c = - 1"
proof -
  have "cmp a c \<le> 0" using three_way_le_trans [OF assms(1), of a b c] assms(2,3) by simp
  moreover have "cmp a c \<noteq> 0"
  proof
    assume "cmp a c = 0"
    then have "cmp c a \<le> 0" using three_way_flip [OF assms(1), of c a] by simp
    then have "cmp b a \<le> 0" using three_way_le_trans [OF assms(1) assms(3)] by blast
    then show False using three_way_flip [OF assms(1), of b a] assms(2) by simp
  qed
  ultimately show ?thesis using three_way_range [OF assms(1), of a c] by auto
qed

lemma three_way_eq_trans:
  assumes "three_way cmp" "cmp a b = 0"
  shows "cmp a c = cmp b c" and "cmp c a = cmp c b"
proof -
  show eq: "cmp a c = cmp b c"
  proof (cases "cmp b c = - 1")
    case True
    have "cmp a c \<le> 0" using three_way_le_trans [OF assms(1), of a b c] assms(2) True by simp
    moreover have "cmp a c \<noteq> 0"
    proof
      assume "cmp a c = 0"
      then have "cmp c a \<le> 0" using three_way_flip [OF assms(1), of c a] by simp
      then have "cmp c b \<le> 0"
        using three_way_le_trans [OF assms(1), of c a b] assms(2) by simp
      then show False using three_way_flip [OF assms(1), of c b] True by simp
    qed
    ultimately show ?thesis using three_way_range [OF assms(1), of a c] True by auto
  next
    case False
    have ba: "cmp b a = 0" using three_way_flip [OF assms(1), of a b] assms(2) by simp
    show ?thesis
    proof (cases "cmp b c = 0")
      case True
      then have "cmp a c \<le> 0" "cmp c a \<le> 0"
        using three_way_le_trans [OF assms(1), of a b c] assms(2) ba
          three_way_le_trans [OF assms(1), of c b a] three_way_flip [OF assms(1), of c b] by simp_all
      then show ?thesis using three_way_flip [OF assms(1), of c a] True by simp
    next
      case F: False
      then have "cmp b c = 1" using False three_way_range [OF assms(1), of b c] by blast
      then have "cmp c b = - 1" using three_way_flip [OF assms(1), of b c] by simp
      then have "cmp c a = - 1" using three_way_less_trans [OF assms(1), of c b a] ba by simp
      then show ?thesis using three_way_flip [OF assms(1), of a c] \<open>cmp b c = 1\<close> by simp
    qed
  qed
  show "cmp c a = cmp c b"
    using eq three_way_flip [OF assms(1), of c a] three_way_flip [OF assms(1), of c b] by simp
qed

text \<open>The comparison of a linear order, and the lexicographic comparison of two key lists.\<close>

definition cmp_ord :: "'a::linorder \<Rightarrow> 'a \<Rightarrow> int" where
  "cmp_ord a b = (if a < b then - 1 else if a = b then 0 else 1)"

lemma three_way_cmp_ord: "three_way cmp_ord"
  by (auto simp: three_way_def cmp_ord_def split: if_splits)

fun lex_cmp :: "('a \<Rightarrow> 'a \<Rightarrow> int) \<Rightarrow> 'a list \<Rightarrow> 'a list \<Rightarrow> int" where
  "lex_cmp cmp (x # xs) (y # ys) = (if cmp x y \<noteq> 0 then cmp x y else lex_cmp cmp xs ys)"
| "lex_cmp cmp _ _ = 0"

lemma lex_cmp_range:
  "three_way cmp \<Longrightarrow> lex_cmp cmp xs ys = - 1 \<or> lex_cmp cmp xs ys = 0 \<or> lex_cmp cmp xs ys = 1"
  by (induction cmp xs ys rule: lex_cmp.induct) (auto dest: three_way_range)

lemma lex_cmp_flip: "three_way cmp \<Longrightarrow> lex_cmp cmp ys xs = - lex_cmp cmp xs ys"
proof (induction cmp xs ys rule: lex_cmp.induct)
  case (1 cmp x xs y ys)
  then show ?case using three_way_flip [OF "1.prems", of y x] by simp
qed simp_all

lemma lex_cmp_refl: "three_way cmp \<Longrightarrow> lex_cmp cmp xs xs = 0"
  using lex_cmp_flip [of cmp xs xs] by simp

lemma lex_cmp_eq_trans:
  assumes "three_way cmp" "length xs = length ys" "length ys = length zs"
    and "lex_cmp cmp xs ys = 0"
  shows "lex_cmp cmp xs zs = lex_cmp cmp ys zs"
  using assms(2-4)
proof (induction xs ys zs rule: list_induct3)
  case (Cons x xs y ys z zs)
  then have "cmp x y = 0" "lex_cmp cmp xs ys = 0" by (auto split: if_splits)
  then show ?case using Cons three_way_eq_trans(1) [OF assms(1), of x y z] by simp
qed simp

lemma lex_cmp_less_trans:
  assumes "three_way cmp" "length xs = length ys" "length ys = length zs"
    and "lex_cmp cmp xs ys = - 1" "lex_cmp cmp ys zs \<le> 0"
  shows "lex_cmp cmp xs zs = - 1"
  using assms(2-5)
proof (induction xs ys zs rule: list_induct3)
  case (Cons x xs y ys z zs)
  show ?case
  proof (cases "cmp x y = 0")
    case True
    then show ?thesis
      using Cons three_way_eq_trans(1) [OF assms(1) True, of z] three_way_range [OF assms(1), of y z]
      by (auto split: if_splits)
  next
    case False
    then have xy: "cmp x y = - 1" using Cons.prems by simp
    then have "cmp x z = - 1"
      using Cons.prems three_way_less_trans [OF assms(1) xy, of z] by (auto split: if_splits)
    then show ?thesis by simp
  qed
qed simp

lemma lex_cmp_take:
  "lex_cmp cmp (take m xs) (take m ys) = 0 \<or> lex_cmp cmp (take m xs) (take m ys) = lex_cmp cmp xs ys"
proof (induction m arbitrary: xs ys)
  case (Suc m)
  then show ?case by (cases xs; cases ys) auto
qed simp

lemma lex_cmp_not_less_trans:
  assumes "three_way cmp" "length xs = length ys" "length ys = length zs"
    and "lex_cmp cmp xs zs \<noteq> - 1" "lex_cmp cmp xs ys \<le> 0"
  shows "lex_cmp cmp ys zs \<noteq> - 1"
proof
  assume a: "lex_cmp cmp ys zs = - 1"
  have "lex_cmp cmp xs ys = - 1 \<or> lex_cmp cmp xs ys = 0"
    using assms(5) lex_cmp_range [OF assms(1), of xs ys] by auto
  then have "lex_cmp cmp xs zs = - 1"
  proof
    assume "lex_cmp cmp xs ys = - 1"
    from lex_cmp_less_trans [OF assms(1-3) this] a show ?thesis by simp
  next
    assume "lex_cmp cmp xs ys = 0"
    from lex_cmp_eq_trans [OF assms(1-3) this] a show ?thesis by simp
  qed
  with assms(4) show False by simp
qed

section \<open>Machine integers\<close>

definition int64 :: "int \<Rightarrow> int" where
  "int64 x = (x + 2 ^ 63) mod 2 ^ 64 - 2 ^ 63"

definition uint64 :: "int \<Rightarrow> int" where
  "uint64 x = x mod 2 ^ 64"

definition is_int64 :: "int \<Rightarrow> bool" where
  "is_int64 x \<longleftrightarrow> - (2 ^ 63) \<le> x \<and> x < 2 ^ 63"

lemma int64_id: "is_int64 x \<Longrightarrow> int64 x = x"
  by (simp add: is_int64_def int64_def)

lemma int64_range: "is_int64 (int64 x)"
proof -
  have "0 \<le> (x + 2 ^ 63) mod 2 ^ 64" "(x + 2 ^ 63) mod 2 ^ 64 < 2 ^ 64" by simp_all
  then show ?thesis by (simp add: is_int64_def int64_def)
qed

section \<open>Lists\<close>

lemma those_map_Some: "(\<And>x. x \<in> set xs \<Longrightarrow> f x = Some (g x)) \<Longrightarrow> those (map f xs) = Some (map g xs)"
  by (induction xs) auto

lemma map_of_zip_nth_distinct:
  "distinct ks \<Longrightarrow> length ks = length vs \<Longrightarrow> i < length ks \<Longrightarrow> map_of (zip ks vs) (ks ! i) = Some (vs ! i)"
  by (rule map_of_zip_nth) auto

lemma sorted_wrt_filter_split:
  assumes "sorted_wrt P (xs @ ys)" and "xs \<noteq> []" and "\<And>x. \<not> P x x"
    and "\<And>x y. P x y \<Longrightarrow> \<not> P y x"
  shows "filter (P (last xs)) (xs @ ys) = ys"
proof -
  have "filter (P (last xs)) xs = []"
  proof (rule ccontr)
    assume "filter (P (last xs)) xs \<noteq> []"
    then obtain x where x: "x \<in> set xs" "P (last xs) x"
      by (metis filter_empty_conv)
    have sp: "sorted_wrt P (butlast xs @ [last xs])" using assms(1,2) by (simp add: sorted_wrt_append)
    have "x = last xs \<or> x \<in> set (butlast xs)"
      using x(1) assms(2) by (metis append_butlast_last_id insertE list.simps(15) rotate1.simps(2) set_rotate1)
    then show False
      using x(2) sp assms(3,4) by (auto simp: sorted_wrt_append)
  qed
  moreover have "filter (P (last xs)) ys = ys"
    using assms(1,2) by (auto simp: sorted_wrt_append intro: filter_True)
  ultimately show ?thesis by simp
qed

end
