(* ===== verification/Db_Model.thy ===== *)
theory Db_Model
  imports Go_Prelude
begin

text \<open>
  Tables, columns, datums and connections: \<open>dbtable/table.go\<close>, the parts of the SQL syntax
  tree the tool builds, and the interface to what the repository does not contain.

  A datum is a value of CockroachDB's parser package (\<open>tree.Datum\<close>), which is not part of the
  repository; it is a type parameter \<open>'d\<close>, and the operations the code calls on datums are the
  fields of a \<open>datum_ops\<close> record passed to the definitions that need them. A database is known
  through its connection (\<open>pg_conn\<close>): the answer it gives to a \<open>SELECT\<close> and the outcome of
  loading a type.
\<close>

section \<open>dbtable: names, tables, columns\<close>

type_synonym oid = "32 word"

record table_name =
  tnSchema :: string
  tnTable :: string

record db_table = table_name +
  dtOID :: oid
  dtLocalityExpr :: string

record column_with_attr =
  caName :: string
  caNotNull :: bool

record verified_table = table_name +
  vtPrimaryKeyColumns :: "string list"
  vtColumns :: "column_with_attr list"
  vtColumnOIDs :: "oid list \<times> oid list"

definition SafeString :: "('x) table_name_scheme \<Rightarrow> string" where
  "SafeString n = tnSchema n @ ''.'' @ tnTable n"

definition ColumnNames :: "column_with_attr list \<Rightarrow> string list" where
  "ColumnNames cl = map caName cl"

definition NotNullColIdxMapping :: "column_with_attr list \<Rightarrow> nat \<Rightarrow> bool option" where
  "NotNullColIdxMapping cl i =
     (if i < length cl \<and> caNotNull (cl ! i) then Some True else None)"

text \<open>\<open>strings.ToLower\<close>: a string of ASCII bytes has its letters \<open>A\<close>-\<open>Z\<close> lowered byte by byte; any
  other string goes through \<open>strings.Map(unicode.ToLower, s)\<close>, whose Unicode tables are not part of
  the repository and are the argument \<open>lw\<close>.\<close>

definition to_lower_char :: "char \<Rightarrow> char" where
  "to_lower_char c =
     (if CHR ''A'' \<le> c \<and> c \<le> CHR ''Z'' then char_of (of_char c + 32 :: nat) else c)"

definition is_ascii :: "string \<Rightarrow> bool" where
  "is_ascii s \<longleftrightarrow> list_all (\<lambda>c. of_char c < (128 :: nat)) s"

lemma is_ascii_iff: "is_ascii s \<longleftrightarrow> (\<forall>c \<in> set s. (of_char c :: nat) < 128)"
  by (simp add: is_ascii_def list_all_iff)

lemma is_ascii_simps [simp]:
  "is_ascii []" "is_ascii (c # s) \<longleftrightarrow> of_char c < (128 :: nat) \<and> is_ascii s"
  "is_ascii (s @ t) \<longleftrightarrow> is_ascii s \<and> is_ascii t"
  by (simp_all add: is_ascii_def)

definition ToLower :: "(string \<Rightarrow> string) \<Rightarrow> string \<Rightarrow> string" where
  "ToLower lw s = (if is_ascii s then map to_lower_char s else lw s)"

definition strings_Compare :: "string \<Rightarrow> string \<Rightarrow> int" where
  "strings_Compare = cmp_ord"

definition DBTable_Compare :: "(string \<Rightarrow> string) \<Rightarrow> db_table \<Rightarrow> db_table \<Rightarrow> int" where
  "DBTable_Compare lw tm o' =
     (let c = strings_Compare (ToLower lw (tnSchema tm)) (ToLower lw (tnSchema o'))
      in if c \<noteq> 0 then c
         else strings_Compare (ToLower lw (tnTable tm)) (ToLower lw (tnTable o')))"

definition DBTable_Less :: "(string \<Rightarrow> string) \<Rightarrow> db_table \<Rightarrow> db_table \<Rightarrow> bool" where
  "DBTable_Less lw tm o' \<longleftrightarrow> DBTable_Compare lw tm o' < 0"

definition SchemaTableString :: "string \<Rightarrow> string \<Rightarrow> string" where
  "SchemaTableString schema table = schema @ ''.'' @ table"

text \<open>The key two tables are compared by: the lower-cased schema and table name.\<close>

definition table_key :: "(string \<Rightarrow> string) \<Rightarrow> db_table \<Rightarrow> string \<times> string" where
  "table_key lw t = (ToLower lw (tnSchema t), ToLower lw (tnTable t))"

definition key_less :: "string \<times> string \<Rightarrow> string \<times> string \<Rightarrow> bool" where
  "key_less a b \<longleftrightarrow> fst a < fst b \<or> fst a = fst b \<and> snd a < snd b"

lemma DBTable_Compare_cases:
  "DBTable_Compare lw a b =
     (if key_less (table_key lw a) (table_key lw b) then - 1
      else if table_key lw a = table_key lw b then 0 else 1)"
  by (auto simp: DBTable_Compare_def strings_Compare_def cmp_ord_def table_key_def key_less_def
      Let_def)

lemma DBTable_Less_iff: "DBTable_Less lw a b \<longleftrightarrow> key_less (table_key lw a) (table_key lw b)"
  by (simp add: DBTable_Less_def DBTable_Compare_cases)

lemma three_way_DBTable_Compare: "three_way (DBTable_Compare lw)"
  unfolding three_way_def DBTable_Compare_cases
  by (auto simp: key_less_def prod_eq_iff split: if_splits)

section \<open>Datums\<close>

datatype family =
    BoolFamily | IntFamily | FloatFamily | UuidFamily | INetFamily | JsonFamily | StringFamily
  | OtherFamily nat

text \<open>The Go dynamic types \<open>datumToStringDatum\<close> switches on.\<close>

datatype datum_kind = KDUuid | KDIPAddr | KDJSON | KOtherDatum

record 'd datum_ops =
  dCompare :: "'d \<Rightarrow> 'd \<Rightarrow> int"            \<comment> \<open>\<open>Datum.Compare(CompareContext, other)\<close>\<close>
  dCompareError :: "'d \<Rightarrow> 'd \<Rightarrow> int result" \<comment> \<open>\<open>Datum.CompareError\<close>\<close>
  dFamily :: "'d \<Rightarrow> family"                \<comment> \<open>\<open>ResolvedType().Family()\<close>\<close>
  dKind :: "'d \<Rightarrow> datum_kind"              \<comment> \<open>the dynamic Go type\<close>
  dBool :: "'d \<Rightarrow> bool"                    \<comment> \<open>the value of a \<open>*tree.DBool\<close>\<close>
  dNewInt :: "int \<Rightarrow> 'd"                   \<comment> \<open>\<open>tree.DInt\<close>\<close>
  dBareString :: "'d \<Rightarrow> string"            \<comment> \<open>\<open>FormatNode\<close> under \<open>FmtBareStrings\<close>\<close>
  dJSONString :: "'d \<Rightarrow> string"            \<comment> \<open>\<open>JSON.String()\<close>\<close>
  dNewString :: "string \<Rightarrow> 'd"             \<comment> \<open>\<open>tree.NewDString\<close>\<close>
  dNameString :: "string \<Rightarrow> string"        \<comment> \<open>\<open>tree.Name.String()\<close>: the name, quoted where SQL needs it\<close>
  dExport :: "'d \<Rightarrow> string"                \<comment> \<open>\<open>FormatNode\<close> under \<open>FmtExport | FmtParsableNumerics\<close>\<close>

type_synonym 'd row = "'d list"

section \<open>The SQL syntax trees the tool builds\<close>

datatype comparison_operator = GT | GE | LT | EQ | IN

datatype 'd expr =
    DBoolTrue
  | UnresolvedName string
  | Datum 'd
  | Tuple "'d expr list"
  | ComparisonExpr comparison_operator "'d expr" "'d expr"
  | AndExpr "'d expr" "'d expr"

record 'd select =
  selTable :: table_name
  selExprs :: "string list"
  selWhere :: "'d expr option"
  selOrderBy :: "(string \<times> bool) list"  \<comment> \<open>column, descending\<close>
  selLimit :: "nat option"
  selAsOf :: "'d option"

section \<open>Connections\<close>

text \<open>What \<open>rows.Next\<close>, the decoding of each row and \<open>rows.Err\<close> yield for one query.\<close>

record 'd row_set =
  rsRows :: "'d row result list"
  rsErr :: "go_error option"

record 'd pg_conn =
  pcIsPG :: bool                          \<comment> \<open>the dynamic type is \<open>*dbconn.PGConn\<close>\<close>
  pcID :: string
  pcIDFunc :: string                      \<comment> \<open>how \<open>%s\<close> prints the method value \<open>conn.ID\<close>\<close>
  pcDataType :: "oid \<Rightarrow> go_error option"  \<comment> \<open>the error of \<open>dbconn.GetDataType\<close>\<close>
  pcQuery :: "'d select \<Rightarrow> 'd row_set result"

section \<open>What a SELECT means\<close>

text \<open>
  The documented meaning of the expressions the tool sends, over rows whose columns are \<open>cols\<close>:
  a comparison of tuples is the lexicographic comparison of their components, \<open>IN\<close> is
  membership. It is used only in hypotheses about a connection.
\<close>

definition col_value :: "string list \<Rightarrow> 'd row \<Rightarrow> string \<Rightarrow> 'd option" where
  "col_value cols r c = map_of (zip cols r) c"

fun expr_values :: "string list \<Rightarrow> 'd row \<Rightarrow> 'd expr \<Rightarrow> 'd list option" where
  "expr_values cols r (UnresolvedName c) = map_option (\<lambda>v. [v]) (col_value cols r c)"
| "expr_values cols r (Datum d) = Some [d]"
| "expr_values cols r (Tuple es) =
     map_option concat (those (map (expr_values cols r) es))"
| "expr_values cols r _ = None"

fun expr_members :: "string list \<Rightarrow> 'd row \<Rightarrow> 'd expr \<Rightarrow> 'd list list option" where
  "expr_members cols r (Tuple es) = those (map (expr_values cols r) es)"
| "expr_members cols r _ = None"

definition op_holds :: "comparison_operator \<Rightarrow> int \<Rightarrow> bool" where
  "op_holds op c = (case op of GT \<Rightarrow> c = 1 | GE \<Rightarrow> c \<noteq> - 1 | LT \<Rightarrow> c = - 1 | EQ \<Rightarrow> c = 0 | IN \<Rightarrow> c = 0)"

fun expr_holds :: "'d datum_ops \<Rightarrow> string list \<Rightarrow> 'd row \<Rightarrow> 'd expr \<Rightarrow> bool" where
  "expr_holds D cols r DBoolTrue = True"
| "expr_holds D cols r (AndExpr a b) = (expr_holds D cols r a \<and> expr_holds D cols r b)"
| "expr_holds D cols r (ComparisonExpr IN a b) =
     (case (expr_values cols r a, expr_members cols r b) of
        (Some x, Some ys) \<Rightarrow> (\<exists>y \<in> set ys. lex_cmp (dCompare D) x y = 0)
      | _ \<Rightarrow> False)"
| "expr_holds D cols r (ComparisonExpr op a b) =
     (case (expr_values cols r a, expr_values cols r b) of
        (Some x, Some y) \<Rightarrow> op_holds op (lex_cmp (dCompare D) x y)
      | _ \<Rightarrow> False)"
| "expr_holds D cols r _ = False"

definition where_holds :: "'d datum_ops \<Rightarrow> string list \<Rightarrow> 'd expr option \<Rightarrow> 'd row \<Rightarrow> bool" where
  "where_holds D cols w r = (case w of None \<Rightarrow> True | Some e \<Rightarrow> expr_holds D cols r e)"

definition limit_rows :: "nat option \<Rightarrow> 'a list \<Rightarrow> 'a list" where
  "limit_rows n xs = (case n of None \<Rightarrow> xs | Some k \<Rightarrow> take k xs)"

definition run_select :: "'d datum_ops \<Rightarrow> string list \<Rightarrow> 'd row list \<Rightarrow> 'd select \<Rightarrow> 'd row list" where
  "run_select D cols tbl s =
     limit_rows (selLimit s) (filter (where_holds D cols (selWhere s)) tbl)"

text \<open>Rows in strictly increasing order of their first \<open>n\<close> columns.\<close>

definition pk_less :: "'d datum_ops \<Rightarrow> nat \<Rightarrow> 'd row \<Rightarrow> 'd row \<Rightarrow> bool" where
  "pk_less D n a b \<longleftrightarrow> lex_cmp (dCompare D) (take n a) (take n b) = - 1"

definition pk_sorted :: "'d datum_ops \<Rightarrow> nat \<Rightarrow> 'd row list \<Rightarrow> bool" where
  "pk_sorted D n = sorted_wrt (pk_less D n)"

end
