(* ===== verification/Row_Iterator.thy ===== *)
theory Row_Iterator
  imports Db_Model
begin

text \<open>
  Package \<open>rowiterator\<close>: the \<open>Iterator\<close> interface and its two implementations, the paging
  \<open>scanIterator\<close> and the \<open>pointLookupIterator\<close>.

  The interface is a record of the four operations over an explicit iterator state, and the
  locale \<open>row_iterator\<close> is its contract: the iterator hands out, in order and once, the rows of
  an abstract list. Both implementations are shown to meet it over a database that answers
  \<open>SELECT\<close>s as SQL defines them.

  \<open>nextPage\<close> starts one goroutine that fetches a page and sends it on \<open>waitCh\<close> (capacity 1); a
  second one is started only after that page was received, and the receiver never reads what the
  goroutine writes (\<open>pkCursor\<close>) before the receive. The model runs the fetch at the point where
  the goroutine is started and keeps its result as the content of the channel.
\<close>

section \<open>The interface\<close>

record ('s, 'd) iterator_ops =
  itHasNext :: "'s \<Rightarrow> (bool \<times> 's) option"
  itError :: "'s \<Rightarrow> go_error option"
  itPeek :: "'s \<Rightarrow> ('d row \<times> 's) option"
  itNext :: "'s \<Rightarrow> ('d row \<times> 's) option"

record iter_table = table_name +
  itColumnsWithAttr :: "column_with_attr list"
  itColumnOIDs :: "oid list"
  itPrimaryKeyColumns :: "string list"

record 'd scan_table = iter_table +
  stAOST :: "'d option"
  stStartPKVals :: "'d list"
  stEndPKVals :: "'d list"

section \<open>Queries\<close>

definition NewPGBaseSelectClause :: "('x) iter_table_scheme \<Rightarrow> 'd select" where
  "NewPGBaseSelectClause table =
     \<lparr>selTable = \<lparr>tnSchema = tnSchema table, tnTable = tnTable table\<rparr>,
      selExprs = map caName (itColumnsWithAttr table),
      selWhere = None,
      selOrderBy = map (\<lambda>pkCol. (pkCol, False)) (itPrimaryKeyColumns table),
      selLimit = None,
      selAsOf = None\<rparr>"

definition newPGScanQuery :: "'d scan_table \<Rightarrow> nat \<Rightarrow> 'd select" where
  "newPGScanQuery table rowBatchSize =
     (NewPGBaseSelectClause table)\<lparr>selLimit := Some rowBatchSize, selAsOf := stAOST table\<rparr>"

definition makePGCompareExpr ::
  "comparison_operator \<Rightarrow> string list \<Rightarrow> 'd list \<Rightarrow> 'd expr option" where
  "makePGCompareExpr op cols vals =
     (if length vals > 1 then do {
        names \<leftarrow> those (map (go_nth cols) [0..<length vals]);
        Some (ComparisonExpr op (Tuple (map UnresolvedName names)) (Tuple (map Datum vals)))
      } else do {
        c \<leftarrow> go_nth cols 0;
        v \<leftarrow> go_nth vals 0;
        Some (ComparisonExpr op (UnresolvedName c) (Datum v))
      })"

definition scanQuery_generate :: "'d select \<Rightarrow> 'd scan_table \<Rightarrow> 'd list \<Rightarrow> 'd select option" where
  "scanQuery_generate base table pkCursor = do {
     left \<leftarrow> (if length pkCursor > 0
             then makePGCompareExpr GT (ColumnNames (itColumnsWithAttr table)) pkCursor
             else if length (stStartPKVals table) > 0
             then makePGCompareExpr GE (ColumnNames (itColumnsWithAttr table)) (stStartPKVals table)
             else Some DBoolTrue);
     right \<leftarrow> (if length (stEndPKVals table) > 0
              then makePGCompareExpr LT (ColumnNames (itColumnsWithAttr table)) (stEndPKVals table)
              else Some DBoolTrue);
     Some (base\<lparr>selWhere := Some (AndExpr left right)\<rparr>)
   }"

section \<open>scanIterator\<close>

record 'd scan_iterator =
  siTable :: "'d scan_table"
  siRowBatchSize :: nat
  siWaitCh :: "'d row list result option"  \<comment> \<open>the channel's buffered result\<close>
  siCache :: "'d row list"
  siPkCursor :: "'d list"
  siCurrCacheSize :: nat
  siErr :: "go_error option"
  siScanQuery :: "'d select"

text \<open>The loop over the rows of one page: it decodes each row, moves the cursor to its key and
  collects it; the first row that does not decode ends it.\<close>

fun collect_page ::
  "nat \<Rightarrow> 'd row result list \<Rightarrow> 'd row list \<Rightarrow> 'd list \<Rightarrow> ('d row list result \<times> 'd list) option" where
  "collect_page npk [] datums cursor = Some (Inr datums, cursor)"
| "collect_page npk (Inl e # rs) datums cursor =
     Some (Inl (ErrWrap ''error getting datums'' e), cursor)"
| "collect_page npk (Inr d # rs) datums cursor = do {
     c \<leftarrow> go_take npk d;
     collect_page npk rs (datums @ [d]) c
   }"

text \<open>The table as the error of a failed query prints it: \<open>%s.%s\<close> is given the schema and the whole
  \<open>dbtable.Name\<close> struct, which \<open>%s\<close> prints in braces.\<close>

definition rows_error_table :: "('x) table_name_scheme \<Rightarrow> string" where
  "rows_error_table t = tnSchema t @ ''.{'' @ tnSchema t @ '' '' @ tnTable t @ ''}''"

text \<open>The body of the goroutine of \<open>nextPage\<close>. \<open>wait it\<close> is the outcome of the rate limiter's \<open>Wait\<close>
  when the iterator is in state \<open>it\<close> (\<open>None\<close>: no limiter, or it let the call through).\<close>

type_synonym 'd limiter = "'d scan_iterator \<Rightarrow> go_error option"

abbreviation no_limit :: "'d limiter" where
  "no_limit \<equiv> \<lambda>it. None"

definition fetch_page ::
  "'d pg_conn \<Rightarrow> 'd limiter \<Rightarrow> 'd scan_iterator \<Rightarrow> ('d row list result \<times> 'd list) option" where
  "fetch_page conn wait it = do {
     q \<leftarrow> scanQuery_generate (siScanQuery it) (siTable it) (siPkCursor it);
     (case wait it of
        Some e \<Rightarrow> Some (Inl e, siPkCursor it)
      | None \<Rightarrow>
          if \<not> pcIsPG conn
          then Some (Inl (ErrMsg ''unhandled conn type''), siPkCursor it)
          else (case pcQuery conn q of
              Inl e \<Rightarrow> Some (Inl (ErrWrap (''[pg]error getting rows for table '' @
                  rows_error_table (siTable it) @ '' from '' @ pcIDFunc conn) e), siPkCursor it)
            | Inr rs \<Rightarrow> do {
                (res, cursor) \<leftarrow> collect_page (length (itPrimaryKeyColumns (siTable it)))
                                    (rsRows rs) [] (siPkCursor it);
                Some ((case (res, rsErr rs) of
                         (Inr datums, Some e) \<Rightarrow> Inl e
                       | _ \<Rightarrow> res), cursor)
              }))
   }"

definition nextPage ::
  "'d pg_conn \<Rightarrow> 'd limiter \<Rightarrow> 'd scan_iterator \<Rightarrow> 'd scan_iterator option" where
  "nextPage conn wait it = do {
     (res, cursor) \<leftarrow> fetch_page conn wait it;
     Some (it\<lparr>siWaitCh := Some res, siPkCursor := cursor\<rparr>)
   }"

text \<open>\<open>NewScanIterator\<close>: load the column types, then start the first page.\<close>

fun first_error :: "('a \<Rightarrow> go_error option) \<Rightarrow> 'a list \<Rightarrow> ('a \<times> go_error) option" where
  "first_error f [] = None"
| "first_error f (x # xs) = (case f x of Some e \<Rightarrow> Some (x, e) | None \<Rightarrow> first_error f xs)"

definition NewScanIterator ::
  "'d pg_conn \<Rightarrow> 'd limiter \<Rightarrow> 'd scan_table \<Rightarrow> nat \<Rightarrow> 'd scan_iterator result option" where
  "NewScanIterator conn wait table rowBatchSize =
     (case first_error (pcDataType conn) (itColumnOIDs table) of
        Some (typOID, e) \<Rightarrow> Some (Inl (ErrWrap (''Error initializing type oid '' @ Itoa (unat typOID)) e))
      | None \<Rightarrow>
          if \<not> pcIsPG conn then Some (Inl (ErrMsg ''unsupported conn type''))
          else do {
            it \<leftarrow> nextPage conn wait
               \<lparr>siTable = table, siRowBatchSize = rowBatchSize, siWaitCh = None, siCache = [],
                siPkCursor = [], siCurrCacheSize = rowBatchSize, siErr = None,
                siScanQuery = newPGScanQuery table rowBatchSize\<rparr>;
            Some (Inr it)
          })"

text \<open>One pass of the loop of \<open>HasNext\<close>; a receive on an empty channel blocks (\<open>None\<close>).\<close>

partial_function (option) scan_HasNext ::
  "'d pg_conn \<Rightarrow> 'd limiter \<Rightarrow> 'd scan_iterator \<Rightarrow> (bool \<times> 'd scan_iterator) option" where
  "scan_HasNext conn wait it =
     (if siErr it \<noteq> None then Some (False, it)
      else if length (siCache it) > 0 then Some (True, it)
      else if siCurrCacheSize it < siRowBatchSize it then Some (False, it)
      else (case siWaitCh it of
          None \<Rightarrow> None
        | Some (Inl e) \<Rightarrow>
            Some (False, it\<lparr>siWaitCh := None, siErr := Some (ErrWrap ''error getting result'' e)\<rparr>)
        | Some (Inr r) \<Rightarrow> do {
            let it' = it\<lparr>siWaitCh := None, siCache := r, siCurrCacheSize := length r\<rparr>;
            it'' \<leftarrow> (if length r = siRowBatchSize it' then nextPage conn wait it' else Some it');
            scan_HasNext conn wait it''
          }))"

definition scan_Peek ::
  "'d pg_conn \<Rightarrow> 'd limiter \<Rightarrow> 'd scan_iterator \<Rightarrow> ('d row \<times> 'd scan_iterator) option" where
  "scan_Peek conn wait it = do {
     (hn, it') \<leftarrow> scan_HasNext conn wait it;
     (if hn then do { r \<leftarrow> go_nth (siCache it') 0; Some (r, it') } else Some ([], it'))
   }"

definition scan_Next ::
  "'d pg_conn \<Rightarrow> 'd limiter \<Rightarrow> 'd scan_iterator \<Rightarrow> ('d row \<times> 'd scan_iterator) option" where
  "scan_Next conn wait it = do {
     (hn, it') \<leftarrow> scan_HasNext conn wait it;
     (if hn then do { r \<leftarrow> go_nth (siCache it') 0; Some (r, it'\<lparr>siCache := drop 1 (siCache it')\<rparr>) }
      else Some ([], it'))
   }"

definition scan_ops ::
  "'d pg_conn \<Rightarrow> 'd limiter \<Rightarrow> ('d scan_iterator, 'd) iterator_ops" where
  "scan_ops conn wait =
     \<lparr>itHasNext = scan_HasNext conn wait, itError = siErr,
      itPeek = scan_Peek conn wait, itNext = scan_Next conn wait\<rparr>"

section \<open>pointLookupIterator\<close>

record 'd point_iterator =
  piTable :: iter_table
  piPks :: "'d list list"
  piCache :: "'d row list"
  piCacheCursor :: nat
  piRan :: bool
  piErr :: "go_error option"

definition NewPointLookupIterator :: "iter_table \<Rightarrow> 'd list list \<Rightarrow> 'd point_iterator" where
  "NewPointLookupIterator table pks =
     \<lparr>piTable = table, piPks = pks, piCache = [], piCacheCursor = 0, piRan = False, piErr = None\<rparr>"

fun pk_expr :: "'d list \<Rightarrow> 'd expr option" where
  "pk_expr [] = None"
| "pk_expr [v] = Some (Datum v)"
| "pk_expr vs = Some (Tuple (map Datum vs))"

definition point_genQuery :: "'d point_iterator \<Rightarrow> 'd select option" where
  "point_genQuery it = do {
     left \<leftarrow> (if length (itPrimaryKeyColumns (piTable it)) > 1
             then Some (Tuple (map UnresolvedName (itPrimaryKeyColumns (piTable it))))
             else map_option UnresolvedName (go_nth (itPrimaryKeyColumns (piTable it)) 0));
     pkExprs \<leftarrow> those (map pk_expr (piPks it));
     inClause \<leftarrow> (if length (piPks it) = 1
                 then map_option (ComparisonExpr EQ left) (go_nth pkExprs 0)
                 else Some (ComparisonExpr IN left (Tuple pkExprs)));
     Some ((NewPGBaseSelectClause (piTable it))\<lparr>selWhere := Some inClause\<rparr>)
   }"

fun collect_rows :: "'d row result list \<Rightarrow> 'd row list \<Rightarrow> 'd row list \<times> go_error option" where
  "collect_rows [] cache = (cache, None)"
| "collect_rows (Inl e # rs) cache = (cache, Some e)"
| "collect_rows (Inr d # rs) cache = collect_rows rs (cache @ [d])"

definition point_run :: "'d pg_conn \<Rightarrow> 'd point_iterator \<Rightarrow> 'd point_iterator option" where
  "point_run conn it =
     (if \<not> pcIsPG conn
      then Some (it\<lparr>piRan := True, piErr := Some (ErrMsg ''unknown connection type'')\<rparr>)
      else do {
        q \<leftarrow> point_genQuery it;
        (case pcQuery conn q of
           Inl e \<Rightarrow> Some (it\<lparr>piRan := True, piErr := Some e\<rparr>)
         | Inr rs \<Rightarrow>
             (let (cache, e) = collect_rows (rsRows rs) []
              in Some (it\<lparr>piRan := True, piCache := cache,
                          piErr := (if e = None then piErr it else e)\<rparr>)))
      })"

definition point_HasNext :: "'d pg_conn \<Rightarrow> 'd point_iterator \<Rightarrow> (bool \<times> 'd point_iterator) option" where
  "point_HasNext conn it = do {
     it' \<leftarrow> (if \<not> piRan it then point_run conn it else Some it);
     Some (if piErr it' \<noteq> None then False
           else if length (piCache it') = piCacheCursor it' then False
           else piCacheCursor it' < length (piCache it'), it')
   }"

definition point_Peek :: "'d pg_conn \<Rightarrow> 'd point_iterator \<Rightarrow> ('d row \<times> 'd point_iterator) option" where
  "point_Peek conn it = do {
     (hn, it') \<leftarrow> point_HasNext conn it;
     (if hn then do { r \<leftarrow> go_nth (piCache it') (piCacheCursor it'); Some (r, it') }
      else Some ([], it'))
   }"

definition point_Next :: "'d pg_conn \<Rightarrow> 'd point_iterator \<Rightarrow> ('d row \<times> 'd point_iterator) option" where
  "point_Next conn it = do {
     (hn, it') \<leftarrow> point_HasNext conn it;
     (if hn then do {
        r \<leftarrow> go_nth (piCache it') (piCacheCursor it');
        Some (r, it'\<lparr>piCacheCursor := Suc (piCacheCursor it')\<rparr>)
      } else Some ([], it'))
   }"

definition point_ops :: "'d pg_conn \<Rightarrow> ('d point_iterator, 'd) iterator_ops" where
  "point_ops conn =
     \<lparr>itHasNext = point_HasNext conn, itError = piErr,
      itPeek = point_Peek conn, itNext = point_Next conn\<rparr>"

section \<open>The contract\<close>

locale row_iterator =
  fixes ops :: "('s, 'd) iterator_ops"
    and inv :: "'s \<Rightarrow> bool"
    and pending :: "'s \<Rightarrow> 'd row list"
  assumes has_next: "inv s \<Longrightarrow>
      \<exists>s'. itHasNext ops s = Some (pending s \<noteq> [], s') \<and> inv s' \<and> pending s' = pending s"
    and peek: "inv s \<Longrightarrow> pending s = r # rs \<Longrightarrow>
      \<exists>s'. itPeek ops s = Some (r, s') \<and> inv s' \<and> pending s' = pending s"
    and next_row: "inv s \<Longrightarrow> pending s = r # rs \<Longrightarrow>
      \<exists>s'. itNext ops s = Some (r, s') \<and> inv s' \<and> pending s' = rs"
    and no_error: "inv s \<Longrightarrow> itError ops s = None"

text \<open>The rows a client that loops on \<open>HasNext\<close> and \<open>Next\<close> receives.\<close>

partial_function (option) read_all :: "('s, 'd) iterator_ops \<Rightarrow> 's \<Rightarrow> 'd row list option" where
  "read_all ops s = do {
     (hn, s1) \<leftarrow> itHasNext ops s;
     (if \<not> hn then Some []
      else do { (r, s2) \<leftarrow> itNext ops s1; rs \<leftarrow> read_all ops s2; Some (r # rs) })
   }"

context row_iterator
begin

lemma read_all_pending: "inv s \<Longrightarrow> read_all ops s = Some (pending s)"
proof (induction "pending s" arbitrary: s)
  case Nil
  then show ?case using has_next [OF Nil(2)] by (subst read_all.simps) auto
next
  case (Cons r rs)
  obtain s1 where s1: "itHasNext ops s = Some (True, s1)" "inv s1" "pending s1 = r # rs"
    using has_next [OF Cons.prems] Cons(2) [symmetric] by auto
  obtain s2 where s2: "itNext ops s1 = Some (r, s2)" "inv s2" "pending s2 = rs"
    using next_row [OF s1(2,3)] by auto
  show ?case
    using Cons(1) [OF s2(3) [symmetric] s2(2)] s1 s2 Cons(2) [symmetric] by (subst read_all.simps) simp
qed

end

section \<open>The scan iterator meets the contract\<close>

subsection \<open>What a page query selects\<close>

lemma expr_values_names:
  fixes r :: "'d row"
  assumes "distinct cols" "length r = length cols" "m \<le> length cols"
  shows "expr_values cols r (Tuple (map UnresolvedName (take m cols))) = Some (take m r)"
proof -
  have "those (map (expr_values cols r) (map UnresolvedName (take m cols)))
        = Some (map (\<lambda>i. [r ! i]) [0..<m])"
  proof -
    have "map UnresolvedName (take m cols) = (map (\<lambda>i. UnresolvedName (cols ! i)) [0..<m] :: 'd expr list)"
      using assms(3) by (auto intro: nth_equalityI)
    moreover have "those (map (expr_values cols r) (map (\<lambda>i. UnresolvedName (cols ! i)) [0..<m]))
        = Some (map (\<lambda>i. [r ! i]) [0..<m])"
      unfolding map_map comp_def
      by (rule those_map_Some)
         (use assms in \<open>auto simp: col_value_def map_of_zip_nth_distinct\<close>)
    ultimately show ?thesis by (simp only:)
  qed
  moreover have "concat (map (\<lambda>i. [r ! i]) [0..<m]) = take m r"
    using assms(2,3) by (auto simp: concat_map_singleton intro!: nth_equalityI)
  ultimately show ?thesis by simp
qed

lemma expr_values_datums: "expr_values cols r (Tuple (map Datum vs)) = Some vs"
proof -
  have "those (map (expr_values cols r) (map Datum vs)) = Some (map (\<lambda>v. [v]) vs)"
    unfolding map_map comp_def by (rule those_map_Some) simp
  then show ?thesis by (simp add: concat_map_singleton)
qed

lemma makePGCompareExpr_holds:
  assumes "vals \<noteq> []" "length vals \<le> length cols"
  obtains e where "makePGCompareExpr op cols vals = Some e"
    and "\<And>D r. distinct cols \<Longrightarrow> length r = length cols \<Longrightarrow> op \<noteq> IN \<Longrightarrow>
      expr_holds D cols r e \<longleftrightarrow> op_holds op (lex_cmp (dCompare D) (take (length vals) r) vals)"
proof (cases "length vals > 1")
  case True
  have names: "those (map (go_nth cols) [0..<length vals]) = Some (take (length vals) cols)"
  proof -
    have "those (map (go_nth cols) [0..<length vals]) = Some (map ((!) cols) [0..<length vals])"
      by (rule those_map_Some) (use assms(2) in simp)
    also have "map ((!) cols) [0..<length vals] = take (length vals) cols"
      using assms(2) by (auto intro: nth_equalityI)
    finally show ?thesis .
  qed
  let ?e = "ComparisonExpr op (Tuple (map UnresolvedName (take (length vals) cols)))
      (Tuple (map Datum vals))"
  have "makePGCompareExpr op cols vals = Some ?e"
    using True names by (simp add: makePGCompareExpr_def)
  moreover have "distinct cols \<Longrightarrow> length r = length cols \<Longrightarrow> op \<noteq> IN \<Longrightarrow>
      expr_holds D cols r ?e \<longleftrightarrow> op_holds op (lex_cmp (dCompare D) (take (length vals) r) vals)"
    for D r
    using expr_values_names [of cols r "length vals"] expr_values_datums [of cols r vals] assms(2)
    by (cases op) (simp_all del: expr_values.simps)
  ultimately show ?thesis by (rule that)
next
  case False
  then obtain v where v: "vals = [v]" using assms(1) by (cases vals) auto
  obtain c cs where c: "cols = c # cs" using assms(2) v by (cases cols) auto
  let ?e = "ComparisonExpr op (UnresolvedName c) (Datum v)"
  have "makePGCompareExpr op cols vals = Some ?e"
    using False v c by (simp add: makePGCompareExpr_def)
  moreover have "distinct cols \<Longrightarrow> length r = length cols \<Longrightarrow> op \<noteq> IN \<Longrightarrow>
      expr_holds D cols r ?e \<longleftrightarrow> op_holds op (lex_cmp (dCompare D) (take (length vals) r) vals)"
    for D r
    by (cases op; cases r) (simp_all add: v c col_value_def)
  ultimately show ?thesis by (rule that)
qed

lemma makePGCompareExpr_total:
  "vals \<noteq> [] \<Longrightarrow> length vals \<le> length cols \<Longrightarrow> \<exists>e. makePGCompareExpr op cols vals = Some e"
  by (rule makePGCompareExpr_holds [of vals cols op]) auto

lemma scanQuery_generate_total:
  assumes "length (stStartPKVals table) \<le> length (itColumnsWithAttr table)"
    and "length (stEndPKVals table) \<le> length (itColumnsWithAttr table)"
  shows "\<exists>q. scanQuery_generate base table [] = Some q"
  using assms makePGCompareExpr_total [of "stStartPKVals table" "ColumnNames (itColumnsWithAttr table)" GE]
    makePGCompareExpr_total [of "stEndPKVals table" "ColumnNames (itColumnsWithAttr table)" LT]
  by (auto simp: scanQuery_generate_def ColumnNames_def)

subsection \<open>Scanning a table that answers as SQL defines\<close>

text \<open>
  The hypotheses on the outside world, for one table: the comparison of datums is a total
  preorder, the rows are the table's content in key order, every row has the table's columns,
  and the connection answers a \<open>SELECT\<close> on this table ordered by its key as \<open>run_select\<close> says.
\<close>

definition table_shape :: "('x) iter_table_scheme \<Rightarrow> bool" where
  "table_shape table \<longleftrightarrow>
     distinct (ColumnNames (itColumnsWithAttr table)) \<and>
     itPrimaryKeyColumns table \<noteq> [] \<and>
     itPrimaryKeyColumns table
       = take (length (itPrimaryKeyColumns table)) (ColumnNames (itColumnsWithAttr table))"

definition stored_rows :: "'d datum_ops \<Rightarrow> ('x) iter_table_scheme \<Rightarrow> 'd row list \<Rightarrow> bool" where
  "stored_rows D table tbl \<longleftrightarrow>
     three_way (dCompare D) \<and>
     pk_sorted D (length (itPrimaryKeyColumns table)) tbl \<and>
     list_all (\<lambda>r. length r = length (itColumnsWithAttr table)) tbl"

definition conn_answers ::
  "'d datum_ops \<Rightarrow> ('x) iter_table_scheme \<Rightarrow> 'd row list \<Rightarrow> 'd pg_conn \<Rightarrow> bool" where
  "conn_answers D table tbl conn \<longleftrightarrow>
     pcIsPG conn \<and> (\<forall>t. pcDataType conn t = None) \<and>
     (\<forall>s. selTable s = \<lparr>tnSchema = tnSchema table, tnTable = tnTable table\<rparr> \<longrightarrow>
          selExprs s = ColumnNames (itColumnsWithAttr table) \<longrightarrow>
          selOrderBy s = map (\<lambda>c. (c, False)) (itPrimaryKeyColumns table) \<longrightarrow>
          pcQuery conn s =
            Inr \<lparr>rsRows = map Inr (run_select D (ColumnNames (itColumnsWithAttr table)) tbl s),
                 rsErr = None\<rparr>)"

definition bounds_shape :: "'d scan_table \<Rightarrow> bool" where
  "bounds_shape table \<longleftrightarrow>
     length (stStartPKVals table) \<le> length (itPrimaryKeyColumns table) \<and>
     length (stEndPKVals table) \<le> length (itPrimaryKeyColumns table)"

definition not_before :: "'d datum_ops \<Rightarrow> 'd list \<Rightarrow> 'd row \<Rightarrow> bool" where
  "not_before D start r \<longleftrightarrow>
     start = [] \<or> lex_cmp (dCompare D) (take (length start) r) start \<noteq> - 1"

definition before_end :: "'d datum_ops \<Rightarrow> 'd list \<Rightarrow> 'd row \<Rightarrow> bool" where
  "before_end D end' r \<longleftrightarrow> end' = [] \<or> lex_cmp (dCompare D) (take (length end') r) end' = - 1"

definition beyond :: "'d datum_ops \<Rightarrow> 'd scan_table \<Rightarrow> 'd list \<Rightarrow> 'd row \<Rightarrow> bool" where
  "beyond D table cursor r \<longleftrightarrow>
     (if cursor \<noteq> [] then lex_cmp (dCompare D) (take (length cursor) r) cursor = 1
      else not_before D (stStartPKVals table) r)"

text \<open>The rows of the table still to be fetched when the cursor stands at \<open>cursor\<close>.\<close>

definition unfetched :: "'d datum_ops \<Rightarrow> 'd row list \<Rightarrow> 'd scan_table \<Rightarrow> 'd list \<Rightarrow> 'd row list" where
  "unfetched D tbl table cursor =
     filter (\<lambda>r. beyond D table cursor r \<and> before_end D (stEndPKVals table) r) tbl"

text \<open>The rows of a shard: those between its bounds.\<close>

definition shard_rows :: "'d datum_ops \<Rightarrow> 'd row list \<Rightarrow> 'd list \<Rightarrow> 'd list \<Rightarrow> 'd row list" where
  "shard_rows D tbl start end' = filter (\<lambda>r. not_before D start r \<and> before_end D end' r) tbl"

definition scan_world ::
  "'d datum_ops \<Rightarrow> 'd scan_table \<Rightarrow> 'd row list \<Rightarrow> 'd pg_conn \<Rightarrow> bool" where
  "scan_world D table tbl conn \<longleftrightarrow>
     table_shape table \<and> stored_rows D table tbl \<and> conn_answers D table tbl conn \<and>
     bounds_shape table"

lemma length_ColumnNames [simp]: "length (ColumnNames cl) = length cl"
  by (simp add: ColumnNames_def)

lemma table_shape_npk: "table_shape t \<Longrightarrow> length (itPrimaryKeyColumns t) \<le> length (itColumnsWithAttr t)"
  unfolding table_shape_def by (metis length_ColumnNames length_take min.cobounded1)

lemma stored_rows_length:
  "stored_rows D t tbl \<Longrightarrow> r \<in> set tbl \<Longrightarrow> length r = length (itColumnsWithAttr t)"
  by (auto simp: stored_rows_def list_all_iff)

lemma scan_world_shape:
  assumes "scan_world D table tbl conn"
  shows "distinct (ColumnNames (itColumnsWithAttr table))"
    and "length (itPrimaryKeyColumns table) \<le> length (itColumnsWithAttr table)"
    and "length (stStartPKVals table) \<le> length (itPrimaryKeyColumns table)"
    and "length (stEndPKVals table) \<le> length (itPrimaryKeyColumns table)"
    and "r \<in> set tbl \<Longrightarrow> length r = length (itColumnsWithAttr table)"
    and "three_way (dCompare D)"
    and "pk_sorted D (length (itPrimaryKeyColumns table)) tbl"
    and "itPrimaryKeyColumns table \<noteq> []"
  using assms table_shape_npk [of table] stored_rows_length [of D table tbl r]
  by (auto simp: scan_world_def table_shape_def bounds_shape_def stored_rows_def)

lemma page_left:
  assumes "distinct (ColumnNames (itColumnsWithAttr table))"
    and "length (stStartPKVals table) \<le> length (itColumnsWithAttr table)"
    and "length cursor \<le> length (itColumnsWithAttr table)"
  obtains left where "(if length cursor > 0
        then makePGCompareExpr GT (ColumnNames (itColumnsWithAttr table)) cursor
       else if length (stStartPKVals table) > 0
        then makePGCompareExpr GE (ColumnNames (itColumnsWithAttr table)) (stStartPKVals table)
       else Some DBoolTrue) = Some left"
    and "\<And>r. length r = length (itColumnsWithAttr table) \<Longrightarrow>
       expr_holds D (ColumnNames (itColumnsWithAttr table)) r left \<longleftrightarrow> beyond D table cursor r"
proof (cases "cursor = [] \<and> stStartPKVals table = []")
  case True
  then show ?thesis by (intro that [of DBoolTrue]) (simp_all add: beyond_def not_before_def)
next
  case False
  show ?thesis
  proof (cases "cursor = []")
    case True
    with False have f: "stStartPKVals table \<noteq> []" by simp
    show ?thesis
      by (rule makePGCompareExpr_holds [of "stStartPKVals table" "ColumnNames (itColumnsWithAttr table)" GE])
         (use True f assms in \<open>auto simp: beyond_def not_before_def op_holds_def intro!: that\<close>)
  next
    case False
    show ?thesis
      by (rule makePGCompareExpr_holds [of cursor "ColumnNames (itColumnsWithAttr table)" GT])
         (use False assms in \<open>auto simp: beyond_def op_holds_def intro!: that\<close>)
  qed
qed

lemma page_right:
  assumes "distinct (ColumnNames (itColumnsWithAttr table))"
    and "length (stEndPKVals table) \<le> length (itColumnsWithAttr table)"
  obtains right where "(if length (stEndPKVals table) > 0
       then makePGCompareExpr LT (ColumnNames (itColumnsWithAttr table)) (stEndPKVals table)
       else Some DBoolTrue) = Some right"
    and "\<And>r. length r = length (itColumnsWithAttr table) \<Longrightarrow>
       expr_holds D (ColumnNames (itColumnsWithAttr table)) r right
         \<longleftrightarrow> before_end D (stEndPKVals table) r"
proof (cases "stEndPKVals table = []")
  case True
  show ?thesis by (rule that [of DBoolTrue]) (simp_all add: True before_end_def)
next
  case f: False
  show ?thesis
    by (rule makePGCompareExpr_holds [of "stEndPKVals table" "ColumnNames (itColumnsWithAttr table)" LT])
       (use f assms in \<open>auto simp: before_end_def op_holds_def intro!: that\<close>)
qed

lemma page_query:
  assumes world: "scan_world D table tbl conn"
    and cursor: "cursor = [] \<or> length cursor = length (itPrimaryKeyColumns table)"
  obtains q where "scanQuery_generate (newPGScanQuery table b) table cursor = Some q"
    and "pcQuery conn q = Inr \<lparr>rsRows = map Inr (take b (unfetched D tbl table cursor)), rsErr = None\<rparr>"
proof -
  let ?cols = "ColumnNames (itColumnsWithAttr table)"
  note shape = scan_world_shape [OF world]
  obtain left where left: "(if length cursor > 0 then makePGCompareExpr GT ?cols cursor
       else if length (stStartPKVals table) > 0 then makePGCompareExpr GE ?cols (stStartPKVals table)
       else Some DBoolTrue) = Some left"
    and left_holds: "\<And>r. length r = length (itColumnsWithAttr table) \<Longrightarrow>
       expr_holds D ?cols r left \<longleftrightarrow> beyond D table cursor r"
    by (rule page_left [of table cursor D]) (use shape cursor in auto)
  obtain right where right: "(if length (stEndPKVals table) > 0
       then makePGCompareExpr LT ?cols (stEndPKVals table) else Some DBoolTrue) = Some right"
    and right_holds: "\<And>r. length r = length (itColumnsWithAttr table) \<Longrightarrow>
       expr_holds D ?cols r right \<longleftrightarrow> before_end D (stEndPKVals table) r"
    by (rule page_right [of table D]) (use shape in auto)
  let ?q = "(newPGScanQuery table b)\<lparr>selWhere := Some (AndExpr left right)\<rparr>"
  have q: "scanQuery_generate (newPGScanQuery table b) table cursor = Some ?q"
    unfolding scanQuery_generate_def left right by simp
  have "filter (where_holds D ?cols (Some (AndExpr left right))) tbl = unfetched D tbl table cursor"
    unfolding unfetched_def
    by (rule filter_cong) (auto simp: where_holds_def left_holds right_holds dest: shape(5))
  then have "run_select D ?cols tbl ?q = take b (unfetched D tbl table cursor)"
    by (simp add: run_select_def newPGScanQuery_def limit_rows_def)
  moreover have "pcQuery conn ?q = Inr \<lparr>rsRows = map Inr (run_select D ?cols tbl ?q), rsErr = None\<rparr>"
    using world
    by (simp add: scan_world_def conn_answers_def newPGScanQuery_def NewPGBaseSelectClause_def
        ColumnNames_def)
  ultimately show ?thesis using q by (intro that [of ?q]) simp_all
qed

subsection \<open>Advancing the cursor\<close>

lemma pk_less_irrefl: "three_way (dCompare D) \<Longrightarrow> \<not> pk_less D n r r"
  by (simp add: pk_less_def lex_cmp_refl)

lemma pk_less_asym: "three_way (dCompare D) \<Longrightarrow> pk_less D n a b \<Longrightarrow> \<not> pk_less D n b a"
  using lex_cmp_flip [of "dCompare D" "take n a" "take n b"] by (simp add: pk_less_def)

lemma pk_less_beyond:
  "three_way (dCompare D) \<Longrightarrow> pk_less D n p r \<longleftrightarrow> lex_cmp (dCompare D) (take n r) (take n p) = 1"
  using lex_cmp_flip [of "dCompare D" "take n r" "take n p"] by (auto simp: pk_less_def)

lemma not_before_mono:
  assumes "three_way (dCompare D)" "length start \<le> n" "n \<le> length p" "n \<le> length r"
    and "pk_less D n p r" "not_before D start p"
  shows "not_before D start r"
proof (cases "start = []")
  case False
  let ?m = "length start"
  have "lex_cmp (dCompare D) (take ?m p) (take ?m r) \<le> 0"
    using lex_cmp_take [of "dCompare D" ?m "take n p" "take n r"] assms(2,5)
    by (auto simp: pk_less_def min_def split: if_splits)
  then show ?thesis
    using lex_cmp_not_less_trans [OF assms(1), of "take ?m p" "take ?m r" start] False assms(2-4,6)
    by (simp add: not_before_def)
qed (simp add: not_before_def)

lemma beyond_mono:
  assumes "three_way (dCompare D)" "length (stStartPKVals table) \<le> n" "n \<le> length p" "n \<le> length r"
    and "cursor = [] \<or> length cursor = n"
    and "pk_less D n p r" "beyond D table cursor p"
  shows "beyond D table cursor r"
proof (cases "cursor = []")
  case True
  then show ?thesis using not_before_mono [OF assms(1-4,6)] assms(7) by (simp add: beyond_def)
next
  case False
  then have len: "length cursor = n" using assms(5) by blast
  then have "lex_cmp (dCompare D) cursor (take n p) = - 1"
    using assms(7) False lex_cmp_flip [OF assms(1), of cursor "take n p"] by (simp add: beyond_def)
  then have "lex_cmp (dCompare D) cursor (take n r) = - 1"
    using lex_cmp_less_trans [OF assms(1), of cursor "take n p" "take n r"] assms(3,4,6) len
    by (simp add: pk_less_def)
  then show ?thesis
    using False len lex_cmp_flip [OF assms(1), of "take n r" cursor] by (simp add: beyond_def)
qed

definition page_cursor :: "nat \<Rightarrow> 'd list \<Rightarrow> 'd row list \<Rightarrow> 'd list" where
  "page_cursor n cursor page = (if page = [] then cursor else take n (last page))"

lemma unfetched_advance:
  assumes world: "scan_world D table tbl conn" and b: "0 < b"
    and cursor: "cursor = [] \<or> length cursor = length (itPrimaryKeyColumns table)"
  defines "page \<equiv> take b (unfetched D tbl table cursor)"
    and "n \<equiv> length (itPrimaryKeyColumns table)"
  shows "unfetched D tbl table (page_cursor n cursor page) = drop b (unfetched D tbl table cursor)"
proof (cases "page = []")
  case True
  then show ?thesis using b by (simp add: page_cursor_def page_def)
next
  case False
  let ?R = "unfetched D tbl table cursor" and ?p = "last page"
  note shape = scan_world_shape [OF world]
  have "?p \<in> set ?R" using False unfolding page_def by (metis in_set_takeD last_in_set)
  then have p: "?p \<in> set tbl" "beyond D table cursor ?p" by (simp_all add: unfetched_def)
  have npos: "take n ?p \<noteq> []" and nlen: "n \<le> length ?p"
    using shape(2,8) shape(5) [OF p(1)] by (auto simp: n_def)
  have "unfetched D tbl table (take n ?p) =
      filter (\<lambda>r. pk_less D n ?p r \<and> before_end D (stEndPKVals table) r) tbl"
    using npos nlen by (simp add: unfetched_def beyond_def pk_less_beyond [OF shape(6)] min_def)
  also have "\<dots> = filter (pk_less D n ?p) ?R"
    unfolding unfetched_def filter_filter
  proof (rule filter_cong [OF refl])
    fix r assume r: "r \<in> set tbl"
    have "n \<le> length r" using shape(2) shape(5) [OF r] by (simp add: n_def)
    then show "(pk_less D n ?p r \<and> before_end D (stEndPKVals table) r) =
        ((beyond D table cursor r \<and> before_end D (stEndPKVals table) r) \<and> pk_less D n ?p r)"
      using beyond_mono [OF shape(6) _ nlen _ _ _ p(2), of r] shape(3) cursor by (auto simp: n_def)
  qed
  also have "\<dots> = drop b ?R"
  proof -
    have "sorted_wrt (pk_less D n) ?R"
      using shape(7) by (simp add: unfetched_def pk_sorted_def n_def sorted_wrt_filter)
    then have "sorted_wrt (pk_less D n) (page @ drop b ?R)" by (simp add: page_def)
    from sorted_wrt_filter_split [OF this False] show ?thesis
      using pk_less_irrefl pk_less_asym shape(6) by (metis append_take_drop_id page_def)
  qed
  finally show ?thesis using False by (simp add: page_cursor_def)
qed

lemma collect_page_all:
  assumes "\<And>r. r \<in> set page \<Longrightarrow> n \<le> length r"
  shows "collect_page n (map Inr page) acc cursor = Some (Inr (acc @ page), page_cursor n cursor page)"
  using assms
proof (induction page arbitrary: acc cursor)
  case (Cons r page)
  then show ?case by (cases "page = []") (auto simp: page_cursor_def)
qed (simp add: page_cursor_def)

lemma nextPage_scan:
  assumes world: "scan_world D (siTable it) tbl conn"
    and q: "siScanQuery it = newPGScanQuery (siTable it) (siRowBatchSize it)"
    and cursor: "siPkCursor it = [] \<or> length (siPkCursor it) = length (itPrimaryKeyColumns (siTable it))"
  defines "page \<equiv> take (siRowBatchSize it) (unfetched D tbl (siTable it) (siPkCursor it))"
  shows "nextPage conn no_limit it = Some (it\<lparr>siWaitCh := Some (Inr page),
    siPkCursor := page_cursor (length (itPrimaryKeyColumns (siTable it))) (siPkCursor it) page\<rparr>)"
proof -
  note shape = scan_world_shape [OF world]
  obtain sel where sel: "scanQuery_generate (siScanQuery it) (siTable it) (siPkCursor it) = Some sel"
    and rows: "pcQuery conn sel = Inr \<lparr>rsRows = map Inr page, rsErr = None\<rparr>"
    unfolding q page_def by (rule page_query [OF world cursor, of "siRowBatchSize it"])
  have "\<And>r. r \<in> set page \<Longrightarrow> length (itPrimaryKeyColumns (siTable it)) \<le> length r"
    using shape(2,5) by (auto simp: page_def unfetched_def dest!: in_set_takeD)
  then have "collect_page (length (itPrimaryKeyColumns (siTable it))) (map Inr page) [] (siPkCursor it)
      = Some (Inr page, page_cursor (length (itPrimaryKeyColumns (siTable it))) (siPkCursor it) page)"
    using collect_page_all [of page] by simp
  moreover have "pcIsPG conn" using world by (simp add: scan_world_def conn_answers_def)
  ultimately show ?thesis
    by (simp add: nextPage_def fetch_page_def sel rows)
qed

subsection \<open>The invariant of a scan\<close>

definition scan_pending :: "'d datum_ops \<Rightarrow> 'd row list \<Rightarrow> 'd scan_iterator \<Rightarrow> 'd row list" where
  "scan_pending D tbl it =
     siCache it @
     (case siWaitCh it of
        Some (Inr page) \<Rightarrow> page @ unfetched D tbl (siTable it) (siPkCursor it)
      | _ \<Rightarrow> [])"

definition scan_inv ::
  "'d datum_ops \<Rightarrow> 'd scan_table \<Rightarrow> 'd row list \<Rightarrow> 'd pg_conn \<Rightarrow> 'd scan_iterator \<Rightarrow> bool" where
  "scan_inv D table tbl conn it \<longleftrightarrow>
     siTable it = table \<and> set (scan_pending D tbl it) \<subseteq> set tbl \<and>
     scan_world D (siTable it) tbl conn \<and> 0 < siRowBatchSize it \<and> siErr it = None \<and>
     siScanQuery it = newPGScanQuery (siTable it) (siRowBatchSize it) \<and>
     (siPkCursor it = [] \<or> length (siPkCursor it) = length (itPrimaryKeyColumns (siTable it))) \<and>
     (case siWaitCh it of
        None \<Rightarrow> siCurrCacheSize it < siRowBatchSize it
      | Some (Inl e) \<Rightarrow> False
      | Some (Inr page) \<Rightarrow> siCurrCacheSize it = siRowBatchSize it \<and> length page \<le> siRowBatchSize it \<and>
          (length page < siRowBatchSize it \<longrightarrow> unfetched D tbl (siTable it) (siPkCursor it) = []))"

lemma page_cursor_length:
  assumes "scan_world D table tbl conn"
    and "cursor = [] \<or> length cursor = length (itPrimaryKeyColumns table)"
    and "set page \<subseteq> set tbl"
  shows "page_cursor (length (itPrimaryKeyColumns table)) cursor page = [] \<or>
    length (page_cursor (length (itPrimaryKeyColumns table)) cursor page)
      = length (itPrimaryKeyColumns table)"
proof (cases "page = []")
  case False
  then have "last page \<in> set tbl" using assms(3) by auto
  then show ?thesis
    using False scan_world_shape(2,5) [OF assms(1)] by (auto simp: page_cursor_def min_def)
qed (use assms(2) in \<open>simp add: page_cursor_def\<close>)

lemma nextPage_inv:
  assumes inv: "scan_world D (siTable it) tbl conn" "0 < siRowBatchSize it" "siErr it = None"
    "siScanQuery it = newPGScanQuery (siTable it) (siRowBatchSize it)"
    "siPkCursor it = [] \<or> length (siPkCursor it) = length (itPrimaryKeyColumns (siTable it))"
    "siCurrCacheSize it = siRowBatchSize it" "set (siCache it) \<subseteq> set tbl" "siTable it = table"
  shows "\<exists>it'. nextPage conn no_limit it = Some it' \<and> scan_inv D table tbl conn it' \<and>
    siCache it' = siCache it \<and> siTable it' = siTable it \<and> siRowBatchSize it' = siRowBatchSize it \<and>
    scan_pending D tbl it' = siCache it @ unfetched D tbl (siTable it) (siPkCursor it)"
proof -
  define R where "R = unfetched D tbl (siTable it) (siPkCursor it)"
  define page where "page = take (siRowBatchSize it) R"
  define c where "c = page_cursor (length (itPrimaryKeyColumns (siTable it))) (siPkCursor it) page"
  have adv: "unfetched D tbl (siTable it) c = drop (siRowBatchSize it) R"
    unfolding c_def page_def R_def by (rule unfetched_advance [OF inv(1,2,5)])
  have "set page \<subseteq> set tbl" by (auto simp: page_def R_def unfetched_def dest!: in_set_takeD)
  then have clen: "c = [] \<or> length c = length (itPrimaryKeyColumns (siTable it))"
    unfolding c_def by (rule page_cursor_length [OF inv(1,5)])
  have np: "nextPage conn no_limit it = Some (it\<lparr>siWaitCh := Some (Inr page), siPkCursor := c\<rparr>)"
    unfolding c_def page_def R_def by (rule nextPage_scan [OF inv(1,4,5)])
  have "length page \<le> siRowBatchSize it" "length page < siRowBatchSize it \<longrightarrow> drop (siRowBatchSize it) R = []"
    and app: "page @ drop (siRowBatchSize it) R = R" "set R \<subseteq> set tbl"
    by (auto simp: page_def R_def unfetched_def)
  moreover have pend: "scan_pending D tbl (it\<lparr>siWaitCh := Some (Inr page), siPkCursor := c\<rparr>) = siCache it @ R"
    using app(1) by (simp add: scan_pending_def adv)
  ultimately have "scan_inv D table tbl conn (it\<lparr>siWaitCh := Some (Inr page), siPkCursor := c\<rparr>)"
    using adv clen inv unfolding scan_inv_def pend by simp
  then show ?thesis using np pend by (simp add: R_def)
qed

lemma scan_HasNext_inv:
  assumes inv: "scan_inv D table tbl conn it"
  shows "\<exists>it'. scan_HasNext conn no_limit it = Some (scan_pending D tbl it \<noteq> [], it') \<and>
    scan_inv D table tbl conn it' \<and> scan_pending D tbl it' = scan_pending D tbl it \<and>
    (scan_pending D tbl it \<noteq> [] \<longrightarrow> siCache it' \<noteq> [])"
proof (cases "siCache it = [] \<and> siWaitCh it \<noteq> None")
  case False
  then show ?thesis
    using inv by (auto simp: scan_HasNext.simps [of conn no_limit it] scan_inv_def scan_pending_def)
next
  case True
  then obtain page where page: "siWaitCh it = Some (Inr page)"
    using inv by (cases "the (siWaitCh it)") (auto simp: scan_inv_def)
  let ?it = "it\<lparr>siWaitCh := None, siCache := page, siCurrCacheSize := length page\<rparr>"
  have step: "scan_HasNext conn no_limit it =
      Option.bind (if length page = siRowBatchSize it then nextPage conn no_limit ?it else Some ?it)
        (scan_HasNext conn no_limit)"
    using True page inv by (simp add: scan_HasNext.simps [of conn no_limit it] scan_inv_def)
  show ?thesis
  proof (cases "length page = siRowBatchSize it")
    case full: True
    obtain it' where it': "nextPage conn no_limit ?it = Some it'" "scan_inv D table tbl conn it'"
      "siCache it' = page"
      "scan_pending D tbl it' = page @ unfetched D tbl (siTable it) (siPkCursor it)"
    proof -
      have "set page \<subseteq> set tbl" using inv page by (simp add: scan_inv_def scan_pending_def)
      then show ?thesis
        using nextPage_inv [of D ?it tbl conn table] inv full that by (auto simp: scan_inv_def)
    qed
    then show ?thesis
      using step full True page inv
      by (auto simp: scan_HasNext.simps [of conn no_limit it'] scan_pending_def scan_inv_def)
  next
    case False
    then have "scan_inv D table tbl conn ?it" "unfetched D tbl (siTable it) (siPkCursor it) = []"
      using inv page by (auto simp: scan_inv_def scan_pending_def)
    then show ?thesis
      using step False True page inv
      by (auto simp: scan_HasNext.simps [of conn no_limit ?it] scan_pending_def scan_inv_def)
  qed
qed

lemma scan_pending_cache: "siCache it = r # rs \<Longrightarrow> scan_pending D tbl it = r # tl (scan_pending D tbl it)"
  by (simp add: scan_pending_def)

lemma scan_inv_cache:
  assumes "scan_inv D table tbl conn it" "siCache it = r # cs"
  shows "scan_inv D table tbl conn (it\<lparr>siCache := cs\<rparr>)"
  using assms by (auto simp: scan_inv_def scan_pending_def split: option.splits sum.splits)

lemma scan_step:
  assumes inv: "scan_inv D table tbl conn it" and p: "scan_pending D tbl it = r # rs"
  obtains it' cs where "scan_HasNext conn no_limit it = Some (True, it')" "scan_inv D table tbl conn it'"
    "scan_pending D tbl it' = r # rs" "siCache it' = r # cs"
proof -
  obtain it' where it': "scan_HasNext conn no_limit it = Some (True, it')" "scan_inv D table tbl conn it'"
    "scan_pending D tbl it' = r # rs" "siCache it' \<noteq> []"
    using scan_HasNext_inv [OF inv] p by auto
  then obtain c cs where "siCache it' = c # cs" by (cases "siCache it'") auto
  with it' show ?thesis by (intro that [of it' cs]) (auto simp: scan_pending_def)
qed

interpretation scan: row_iterator "scan_ops conn no_limit" "scan_inv D table tbl conn" "scan_pending D tbl"
  for D table tbl conn
proof
  fix s :: "'a scan_iterator" and r rs
  assume inv: "scan_inv D table tbl conn s"
  show "\<exists>s'. itHasNext (scan_ops conn no_limit) s = Some (scan_pending D tbl s \<noteq> [], s') \<and>
      scan_inv D table tbl conn s' \<and> scan_pending D tbl s' = scan_pending D tbl s"
    using scan_HasNext_inv [OF inv] by (auto simp: scan_ops_def)
  show "itError (scan_ops conn no_limit) s = None" using inv by (simp add: scan_ops_def scan_inv_def)
  assume p: "scan_pending D tbl s = r # rs"
  show "\<exists>s'. itPeek (scan_ops conn no_limit) s = Some (r, s') \<and> scan_inv D table tbl conn s' \<and>
      scan_pending D tbl s' = scan_pending D tbl s"
    by (rule scan_step [OF inv p]) (simp add: scan_ops_def scan_Peek_def p)
  show "\<exists>s'. itNext (scan_ops conn no_limit) s = Some (r, s') \<and> scan_inv D table tbl conn s' \<and>
      scan_pending D tbl s' = rs"
  proof (rule scan_step [OF inv p])
    fix it' cs
    assume "scan_HasNext conn no_limit s = Some (True, it')" "scan_inv D table tbl conn it'"
      "scan_pending D tbl it' = r # rs" "siCache it' = r # cs"
    then show ?thesis
      by (auto simp: scan_ops_def scan_Next_def scan_inv_cache scan_pending_def
          split: option.splits sum.splits)
  qed
qed

lemma first_error_None: "(\<And>x. f x = None) \<Longrightarrow> first_error f xs = None"
  by (induction xs) auto

lemma NewScanIterator_inv:
  assumes "scan_world D table tbl conn" "0 < b"
  shows "\<exists>it. NewScanIterator conn no_limit table b = Some (Inr it) \<and> scan_inv D table tbl conn it \<and>
    scan_pending D tbl it = shard_rows D tbl (stStartPKVals table) (stEndPKVals table)"
proof -
  let ?it0 = "\<lparr>siTable = table, siRowBatchSize = b, siWaitCh = None, siCache = [],
      siPkCursor = [], siCurrCacheSize = b, siErr = None, siScanQuery = newPGScanQuery table b\<rparr>"
  have oid: "first_error (pcDataType conn) (itColumnOIDs table) = None"
    using assms(1) by (intro first_error_None) (simp add: scan_world_def conn_answers_def)
  obtain it where it: "nextPage conn no_limit ?it0 = Some it" "scan_inv D table tbl conn it"
    "scan_pending D tbl it = unfetched D tbl table []"
    using nextPage_inv [of D ?it0 tbl conn table] assms by auto
  have "pcIsPG conn" using assms(1) by (simp add: scan_world_def conn_answers_def)
  with it oid show ?thesis
    by (auto simp: NewScanIterator_def unfetched_def shard_rows_def beyond_def)
qed

section \<open>The point-lookup iterator meets the contract\<close>

definition looked_up :: "'d datum_ops \<Rightarrow> nat \<Rightarrow> 'd list list \<Rightarrow> 'd row list \<Rightarrow> 'd row list" where
  "looked_up D n pks tbl =
     filter (\<lambda>r. list_ex (\<lambda>pk. lex_cmp (dCompare D) (take n r) pk = 0) pks) tbl"

definition point_pending :: "'d datum_ops \<Rightarrow> 'd row list \<Rightarrow> 'd point_iterator \<Rightarrow> 'd row list" where
  "point_pending D tbl it =
     (if piRan it then drop (piCacheCursor it) (piCache it)
      else looked_up D (length (itPrimaryKeyColumns (piTable it))) (piPks it) tbl)"

definition point_world ::
  "'d datum_ops \<Rightarrow> iter_table \<Rightarrow> 'd row list \<Rightarrow> 'd pg_conn \<Rightarrow> 'd list list \<Rightarrow> bool" where
  "point_world D table tbl conn pks \<longleftrightarrow>
     table_shape table \<and> stored_rows D table tbl \<and> conn_answers D table tbl conn \<and>
     pks \<noteq> [] \<and> list_all (\<lambda>pk. length pk = length (itPrimaryKeyColumns table)) pks"

definition point_inv ::
  "'d datum_ops \<Rightarrow> iter_table \<Rightarrow> 'd row list \<Rightarrow> 'd pg_conn \<Rightarrow> 'd point_iterator \<Rightarrow> bool" where
  "point_inv D table tbl conn it \<longleftrightarrow>
     piTable it = table \<and> set (point_pending D tbl it) \<subseteq> set tbl \<and>
     point_world D (piTable it) tbl conn (piPks it) \<and> piErr it = None \<and>
     (if piRan it then piCacheCursor it \<le> length (piCache it) else piCacheCursor it = 0)"

lemma pk_expr_values: "pk \<noteq> [] \<Longrightarrow> \<exists>e. pk_expr pk = Some e \<and> expr_values cols r e = Some pk"
proof (cases pk rule: pk_expr.cases)
  case (3 v vb vc)
  then show ?thesis using expr_values_datums [of cols r pk] by simp
qed simp_all

lemma collect_rows_all: "collect_rows (map Inr rs) acc = (acc @ rs, None)"
  by (induction rs arbitrary: acc) auto

lemma pk_exprs_members:
  assumes "\<And>pk. pk \<in> set pks \<Longrightarrow> pk \<noteq> []"
  shows "those (map pk_expr pks) = Some (map (\<lambda>pk. the (pk_expr pk)) pks)"
    and "those (map (expr_values cols r) (map (\<lambda>pk. the (pk_expr pk)) pks)) = Some pks"
proof -
  show "those (map pk_expr pks) = Some (map (\<lambda>pk. the (pk_expr pk)) pks)"
    using assms pk_expr_values by (intro those_map_Some) fastforce
  show "those (map (expr_values cols r) (map (\<lambda>pk. the (pk_expr pk)) pks)) = Some pks"
    using those_map_Some [of pks "\<lambda>pk. expr_values cols r (the (pk_expr pk))" id] assms pk_expr_values
    by (fastforce simp: comp_def)
qed

definition pk_left :: "string list \<Rightarrow> 'd expr" where
  "pk_left pkc = (if length pkc > 1 then Tuple (map UnresolvedName pkc) else UnresolvedName (pkc ! 0))"

lemma pk_left_values:
  assumes "distinct cols" "pkc \<noteq> []" "pkc = take (length pkc) cols" "length r = length cols"
  shows "expr_values cols r (pk_left pkc) = Some (take (length pkc) r)"
proof (cases "length pkc > 1")
  case True
  have "length pkc \<le> length cols" using assms(3) by (metis length_take min.cobounded1)
  from expr_values_names [OF assms(1,4) this, folded assms(3)] True
  show ?thesis by (simp add: pk_left_def)
next
  case False
  then have one: "length pkc = 1" using assms(2) by (cases pkc) auto
  obtain c cs where "cols = c # cs" using assms(2,3) by (cases cols) auto
  then show ?thesis
    using one False assms(3,4) by (cases r) (auto simp: pk_left_def col_value_def)
qed

definition pk_clause :: "string list \<Rightarrow> 'd list list \<Rightarrow> 'd expr" where
  "pk_clause pkc pks =
     (let es = map (\<lambda>pk. the (pk_expr pk)) pks
      in if length pks = 1 then ComparisonExpr EQ (pk_left pkc) (es ! 0)
         else ComparisonExpr IN (pk_left pkc) (Tuple es))"

lemma pk_clause_holds:
  assumes "distinct cols" "pkc \<noteq> []" "pkc = take (length pkc) cols" "length r = length cols"
    and "\<And>pk. pk \<in> set pks \<Longrightarrow> pk \<noteq> []"
  shows "expr_holds D cols r (pk_clause pkc pks) \<longleftrightarrow>
    list_ex (\<lambda>pk. lex_cmp (dCompare D) (take (length pkc) r) pk = 0) pks"
proof (cases "length pks = 1")
  case True
  then obtain pk where "pks = [pk]" by (auto simp: length_Suc_conv)
  then show ?thesis
    using pk_exprs_members(2) [of pks cols r] assms(5) pk_left_values [OF assms(1-4)]
    by (auto simp: pk_clause_def op_holds_def split: option.splits)
next
  case False
  then show ?thesis
    using pk_exprs_members(2) [of pks cols r] assms(5) pk_left_values [OF assms(1-4)]
    by (auto simp: pk_clause_def list_ex_iff Let_def)
qed

lemma point_genQuery_clause:
  assumes "itPrimaryKeyColumns (piTable it) \<noteq> []" "\<And>pk. pk \<in> set (piPks it) \<Longrightarrow> pk \<noteq> []"
  shows "point_genQuery it = Some ((NewPGBaseSelectClause (piTable it))
    \<lparr>selWhere := Some (pk_clause (itPrimaryKeyColumns (piTable it)) (piPks it))\<rparr>)"
  using assms pk_exprs_members(1) [of "piPks it"]
  by (auto simp: point_genQuery_def pk_left_def pk_clause_def Let_def)

lemma point_query:
  assumes world: "point_world D (piTable it) tbl conn (piPks it)"
  obtains q where "point_genQuery it = Some q"
    and "pcQuery conn q = Inr \<lparr>rsRows =
      map Inr (looked_up D (length (itPrimaryKeyColumns (piTable it))) (piPks it) tbl), rsErr = None\<rparr>"
proof -
  let ?t = "piTable it" and ?pks = "piPks it"
  let ?cols = "ColumnNames (itColumnsWithAttr ?t)" and ?pkc = "itPrimaryKeyColumns (piTable it)"
  have shape: "distinct ?cols" "?pkc \<noteq> []" "?pkc = take (length ?pkc) ?cols"
    and len: "\<And>r. r \<in> set tbl \<Longrightarrow> length r = length ?cols"
    and pks: "\<And>pk. pk \<in> set ?pks \<Longrightarrow> pk \<noteq> []"
    using world stored_rows_length [of D ?t tbl]
    by (auto simp: point_world_def table_shape_def list_all_iff)
  let ?q = "(NewPGBaseSelectClause ?t)\<lparr>selWhere := Some (pk_clause ?pkc ?pks)\<rparr>"
  have "where_holds D ?cols (Some (pk_clause ?pkc ?pks)) r \<longleftrightarrow>
      list_ex (\<lambda>pk. lex_cmp (dCompare D) (take (length ?pkc) r) pk = 0) ?pks" if "r \<in> set tbl" for r
    unfolding where_holds_def using pk_clause_holds [OF shape len [OF that] pks] by simp
  then have "run_select D ?cols tbl ?q = looked_up D (length ?pkc) ?pks tbl"
    unfolding run_select_def looked_up_def
    by (auto simp: NewPGBaseSelectClause_def limit_rows_def intro!: filter_cong)
  moreover have "pcQuery conn ?q = Inr \<lparr>rsRows = map Inr (run_select D ?cols tbl ?q), rsErr = None\<rparr>"
    using world by (simp add: point_world_def conn_answers_def NewPGBaseSelectClause_def ColumnNames_def)
  moreover have "point_genQuery it = Some ?q"
    by (rule point_genQuery_clause [OF shape(2) pks])
  ultimately show ?thesis by (intro that [of ?q]) simp_all
qed

lemma point_HasNext_inv:
  assumes inv: "point_inv D table tbl conn it"
  obtains it' where "point_HasNext conn it = Some (point_pending D tbl it \<noteq> [], it')"
    "point_inv D table tbl conn it'" "piRan it'" "point_pending D tbl it' = point_pending D tbl it"
proof (cases "piRan it")
  case True
  then show ?thesis
    using inv by (intro that [of it]) (auto simp: point_HasNext_def point_inv_def point_pending_def)
next
  case False
  let ?rows = "looked_up D (length (itPrimaryKeyColumns (piTable it))) (piPks it) tbl"
  obtain q where q: "point_genQuery it = Some q"
    "pcQuery conn q = Inr \<lparr>rsRows = map Inr ?rows, rsErr = None\<rparr>"
    using inv by (auto simp: point_inv_def intro: point_query)
  have pg: "pcIsPG conn" and err: "piErr it = None" and cur: "piCacheCursor it = 0"
    using inv False by (auto simp: point_inv_def point_world_def conn_answers_def)
  have run: "point_run conn it = Some (it\<lparr>piRan := True, piCache := ?rows\<rparr>)"
    using q pg err by (simp add: point_run_def collect_rows_all)
  then have "point_HasNext conn it = Some (?rows \<noteq> [], it\<lparr>piRan := True, piCache := ?rows\<rparr>)"
    using False err cur by (simp add: point_HasNext_def)
  then show ?thesis
    using inv False cur
    by (intro that [of "it\<lparr>piRan := True, piCache := ?rows\<rparr>"]) (auto simp: point_inv_def point_pending_def)
qed

lemma point_step:
  assumes inv: "point_inv D table tbl conn it" and p: "point_pending D tbl it = r # rs"
  obtains it' where "point_HasNext conn it = Some (True, it')" "point_inv D table tbl conn it'" "piRan it'"
    "piCacheCursor it' < length (piCache it')" "piCache it' ! piCacheCursor it' = r"
    "drop (Suc (piCacheCursor it')) (piCache it') = rs" "point_pending D tbl it' = r # rs"
proof -
  obtain it' where it': "point_HasNext conn it = Some (True, it')" "point_inv D table tbl conn it'"
    "piRan it'" "point_pending D tbl it' = r # rs"
    using point_HasNext_inv [OF inv] p by auto
  then have "drop (piCacheCursor it') (piCache it') = r # rs" by (simp add: point_pending_def)
  moreover from this have "piCacheCursor it' < length (piCache it')"
    by (metis drop_all list.distinct(1) not_le)
  ultimately show ?thesis using it'
    by (intro that [of it']) (auto simp: Cons_nth_drop_Suc [symmetric])
qed

interpretation point: row_iterator "point_ops conn" "point_inv D table tbl conn" "point_pending D tbl"
  for D table tbl conn
proof
  fix s :: "'a point_iterator" and r rs
  assume inv: "point_inv D table tbl conn s"
  show "\<exists>s'. itHasNext (point_ops conn) s = Some (point_pending D tbl s \<noteq> [], s') \<and>
      point_inv D table tbl conn s' \<and> point_pending D tbl s' = point_pending D tbl s"
    by (rule point_HasNext_inv [OF inv]) (auto simp: point_ops_def)
  show "itError (point_ops conn) s = None" using inv by (simp add: point_ops_def point_inv_def)
  assume p: "point_pending D tbl s = r # rs"
  show "\<exists>s'. itPeek (point_ops conn) s = Some (r, s') \<and> point_inv D table tbl conn s' \<and>
      point_pending D tbl s' = point_pending D tbl s"
    by (rule point_step [OF inv p]) (auto simp: point_ops_def point_Peek_def p)
  show "\<exists>s'. itNext (point_ops conn) s = Some (r, s') \<and> point_inv D table tbl conn s' \<and>
      point_pending D tbl s' = rs"
    by (rule point_step [OF inv p])
       (auto simp: point_ops_def point_Next_def point_inv_def point_pending_def)
qed

section \<open>A batch size of zero\<close>

definition stuck :: "'d datum_ops \<Rightarrow> 'd row list \<Rightarrow> 'd pg_conn \<Rightarrow> 'd scan_iterator \<Rightarrow> bool" where
  "stuck D tbl conn it \<longleftrightarrow>
     scan_world D (siTable it) tbl conn \<and> siRowBatchSize it = 0 \<and> siErr it = None \<and>
     siScanQuery it = newPGScanQuery (siTable it) 0 \<and> siPkCursor it = [] \<and>
     siCache it = [] \<and> siWaitCh it = Some (Inr [])"

lemma stuck_page:
  assumes "stuck D tbl conn it"
  shows "nextPage conn no_limit (it\<lparr>siWaitCh := None, siCache := [], siCurrCacheSize := 0\<rparr>) =
    Some (it\<lparr>siCurrCacheSize := 0\<rparr>)"
  using assms nextPage_scan [of D "it\<lparr>siWaitCh := None, siCache := [], siCurrCacheSize := 0\<rparr>" tbl conn]
  by (cases it) (simp add: stuck_def page_cursor_def)

lemma scan_HasNext_not_stuck:
  fixes D :: "'d datum_ops"
  assumes "scan_HasNext conn wait it = Some y"
  shows "wait = no_limit \<longrightarrow> \<not> stuck D tbl conn it"
proof (rule scan_HasNext.raw_induct
    [of "\<lambda>conn wait it y. wait = no_limit \<longrightarrow> \<not> stuck D tbl conn it", OF _ assms], intro impI notI)
  fix HasNext and conn :: "'d pg_conn" and wait it y
  assume IH: "\<And>conn wait it y. HasNext conn wait it = Some y \<Longrightarrow> wait = no_limit \<longrightarrow> \<not> stuck D tbl conn it"
    and run: "(if siErr it \<noteq> None then Some (False, it)
      else if length (siCache it) > 0 then Some (True, it)
      else if siCurrCacheSize it < siRowBatchSize it then Some (False, it)
      else (case siWaitCh it of
          None \<Rightarrow> None
        | Some (Inl e) \<Rightarrow>
            Some (False, it\<lparr>siWaitCh := None, siErr := Some (ErrWrap ''error getting result'' e)\<rparr>)
        | Some (Inr r) \<Rightarrow> do {
            let it' = it\<lparr>siWaitCh := None, siCache := r, siCurrCacheSize := length r\<rparr>;
            it'' \<leftarrow> (if length r = siRowBatchSize it' then nextPage conn wait it' else Some it');
            HasNext conn wait it''
          })) = Some y"
    and w: "wait = no_limit" and st: "stuck D tbl conn it"
  have "HasNext conn wait (it\<lparr>siCurrCacheSize := 0\<rparr>) = Some y"
    using run w stuck_page [OF st] st by (simp add: stuck_def)
  from IH [OF this] w st show False by (simp add: stuck_def)
qed

end
