(* ===== verification/Inconsistency.thy ===== *)
theory Inconsistency
  imports Db_Model
begin

text \<open>
  Package \<open>verify/inconsistency\<close> and the table-level reports of \<open>utils/obj_filter.go\<close>: the
  objects handed to a \<open>Reporter\<close>, and the row statistics.

  A reporter is modelled by what it is sent: the list of reported objects in order. Counters of
  the metrics library are modelled the same way, as the list of increments (metric, label,
  amount).
\<close>

record row_stats =
  rsSchema :: string
  rsTable :: string
  rsNumVerified :: nat
  rsNumSuccess :: nat
  rsNumConditionalSuccess :: nat
  rsNumMissing :: nat
  rsNumMismatch :: nat
  rsNumColumnMismatch :: nat
  rsNumExtraneous :: nat
  rsNumLiveRetry :: nat

record 'd missing_row = table_name +
  mrPrimaryKeyColumns :: "string list"
  mrPrimaryKeyValues :: "'d list"
  mrColumns :: "string list"
  mrValues :: "'d list"

record 'd extraneous_row = table_name +
  erPrimaryKeyColumns :: "string list"
  erPrimaryKeyValues :: "'d list"

record 'd mismatching_row = table_name +
  mmPrimaryKeyColumns :: "string list"
  mmPrimaryKeyValues :: "'d list"
  mmMismatchingColumns :: "string list"
  mmTruthVals :: "'d list"
  mmTargetVals :: "'d list"

record 'd mismatching_column = table_name +
  mcPrimaryKeyColumns :: "string list"
  mcPrimaryKeyValues :: "'d list"
  mcMismatchingColumns :: "string list"
  mcTruthVals :: "'d list"
  mcTargetVals :: "'d list"
  mcInfo :: "string list"

datatype 'd report =
    StatusReport string
  | SummaryReport string row_stats
  | MissingRow "'d missing_row"
  | ExtraneousRow "'d extraneous_row"
  | MismatchingRow "'d mismatching_row"
  | MismatchingColumn "'d mismatching_column"
  | MismatchingTableDefinition db_table string
  | MissingTable db_table
  | ExtraneousTable db_table

definition new_row_stats :: "string \<Rightarrow> string \<Rightarrow> row_stats" where
  "new_row_stats schema table =
     \<lparr>rsSchema = schema, rsTable = table, rsNumVerified = 0, rsNumSuccess = 0,
      rsNumConditionalSuccess = 0, rsNumMissing = 0, rsNumMismatch = 0, rsNumColumnMismatch = 0,
      rsNumExtraneous = 0, rsNumLiveRetry = 0\<rparr>"

definition RowStats_String :: "row_stats \<Rightarrow> string" where
  "RowStats_String s =
     ''truth rows seen: '' @ Itoa (rsNumVerified s) @ '', success: '' @ Itoa (rsNumSuccess s) @
     '', missing: '' @ Itoa (rsNumMissing s) @ '', mismatch: '' @ Itoa (rsNumMismatch s) @
     '', extraneous: '' @ Itoa (rsNumExtraneous s) @ '', live_retry: '' @ Itoa (rsNumLiveRetry s)"

end
