(* ===== verification/Row_Verify.thy ===== *)
theory Row_Verify
  imports Row_Iterator Inconsistency
begin

text \<open>
  Package \<open>verify/rowverify\<close>: \<open>verifyRows\<close> and \<open>VerifyRowsOnShard\<close> of \<open>rowverify.go\<close>, and the
  \<open>RowEventListener\<close> interface with its default implementation (\<open>row_event_listener.go\<close>).

  A listener is a record of its callbacks over an explicit listener state. \<open>verifyRows\<close> is the
  code's merge join over two iterators; \<open>row_diff\<close> is the specification, a list of events
  computed from the two lists of rows. The main lemma says that over iterators meeting the
  \<open>row_iterator\<close> contract the loop returns and sends exactly the specified events.
\<close>

section \<open>Shards and listeners\<close>

record 'd table_shard = verified_table +
  tsStartPKVals :: "'d list"
  tsEndPKVals :: "'d list"
  tsShardNum :: nat
  tsTotalShards :: nat

record ('l, 'd) row_event_listener =
  onExtraneousRow :: "'d extraneous_row \<Rightarrow> 'l \<Rightarrow> 'l"
  onMissingRow :: "'d missing_row \<Rightarrow> 'l \<Rightarrow> 'l"
  onMismatchingRow :: "'d mismatching_row \<Rightarrow> 'l \<Rightarrow> 'l"
  onColumnMismatchNoOtherIssues :: "'d mismatching_column \<Rightarrow> bool \<Rightarrow> 'l \<Rightarrow> 'l"
  onMatch :: "'l \<Rightarrow> 'l"
  onRowScan :: "'l \<Rightarrow> 'l"

section \<open>The default listener\<close>

record 'd default_listener =
  dlReports :: "'d report list"
  dlStats :: row_stats
  dlTable :: "'d table_shard"
  dlMetrics :: "(string \<times> string \<times> nat) list"

definition send_report :: "'d report \<Rightarrow> 'd default_listener \<Rightarrow> 'd default_listener" where
  "send_report r n = n\<lparr>dlReports := dlReports n @ [r]\<rparr>"

definition row_status :: "string \<Rightarrow> nat \<Rightarrow> 'd default_listener \<Rightarrow> 'd default_listener" where
  "row_status label k n =
     n\<lparr>dlMetrics := dlMetrics n @
        [(''row_verification_status:'' @ label,
          SchemaTableString (tnSchema (dlTable n)) (tnTable (dlTable n)), k)]\<rparr>"

definition default_OnExtraneousRow ::
  "'d extraneous_row \<Rightarrow> 'd default_listener \<Rightarrow> 'd default_listener" where
  "default_OnExtraneousRow row n =
     row_status ''extraneous'' 1
       ((send_report (ExtraneousRow row) n)\<lparr>dlStats :=
          (dlStats n)\<lparr>rsNumExtraneous := rsNumExtraneous (dlStats n) + 1\<rparr>\<rparr>)"

definition default_OnMissingRow ::
  "'d missing_row \<Rightarrow> 'd default_listener \<Rightarrow> 'd default_listener" where
  "default_OnMissingRow row n =
     row_status ''missing'' 1
       ((send_report (MissingRow row) n)\<lparr>dlStats :=
          (dlStats n)\<lparr>rsNumMissing := rsNumMissing (dlStats n) + 1\<rparr>\<rparr>)"

definition default_OnMismatchingRow ::
  "'d mismatching_row \<Rightarrow> 'd default_listener \<Rightarrow> 'd default_listener" where
  "default_OnMismatchingRow row n =
     row_status ''mismatching'' 1
       ((send_report (MismatchingRow row) n)\<lparr>dlStats :=
          (dlStats n)\<lparr>rsNumMismatch := rsNumMismatch (dlStats n) + 1\<rparr>\<rparr>)"

definition default_OnMatch :: "'d default_listener \<Rightarrow> 'd default_listener" where
  "default_OnMatch n =
     row_status ''success'' 1
       (n\<lparr>dlStats := (dlStats n)\<lparr>rsNumSuccess := rsNumSuccess (dlStats n) + 1\<rparr>\<rparr>)"

definition default_OnColumnMismatchNoOtherIssues ::
  "'d mismatching_column \<Rightarrow> bool \<Rightarrow> 'd default_listener \<Rightarrow> 'd default_listener" where
  "default_OnColumnMismatchNoOtherIssues row reportLog n =
     (let n1 = (if reportLog
                then let k = length (mcMismatchingColumns row);
                         m = row_status ''mismatching_column'' k (send_report (MismatchingColumn row) n)
                     in m\<lparr>dlStats := (dlStats m)
                            \<lparr>rsNumColumnMismatch := rsNumColumnMismatch (dlStats m) + k\<rparr>\<rparr>
                else n)
      in row_status ''conditional_success'' 1
           (n1\<lparr>dlStats := (dlStats n1)
              \<lparr>rsNumConditionalSuccess := rsNumConditionalSuccess (dlStats n1) + 1\<rparr>\<rparr>))"

definition shard_text :: "('x) verified_table_scheme \<Rightarrow> nat \<Rightarrow> nat \<Rightarrow> string" where
  "shard_text t k n = SafeString t @ '' (shard '' @ Itoa k @ ''/'' @ Itoa n @ '')''"

definition default_OnRowScan :: "'d default_listener \<Rightarrow> 'd default_listener" where
  "default_OnRowScan n =
     (let n1 = (if rsNumVerified (dlStats n) mod 10000 = 0 \<and> rsNumVerified (dlStats n) > 0
                then send_report (SummaryReport (''progress on '' @
                       shard_text (dlTable n) (tsShardNum (dlTable n)) (tsTotalShards (dlTable n)))
                       (dlStats n)) n
                else n)
      in n1\<lparr>dlMetrics := dlMetrics n1 @
              [(''rows_read'', SchemaTableString (tnSchema (dlTable n)) (tnTable (dlTable n)), 1)],
            dlStats := (dlStats n1)\<lparr>rsNumVerified := rsNumVerified (dlStats n1) + 1\<rparr>\<rparr>)"

definition default_evl :: "('d default_listener, 'd) row_event_listener" where
  "default_evl =
     \<lparr>onExtraneousRow = default_OnExtraneousRow, onMissingRow = default_OnMissingRow,
      onMismatchingRow = default_OnMismatchingRow,
      onColumnMismatchNoOtherIssues = default_OnColumnMismatchNoOtherIssues,
      onMatch = default_OnMatch, onRowScan = default_OnRowScan\<rparr>"

section \<open>Comparing one pair of rows\<close>

definition boolDatumToIntDatum :: "'d datum_ops \<Rightarrow> 'd \<Rightarrow> 'd" where
  "boolDatumToIntDatum D d = dNewInt D (if dBool D d then 1 else 0)"

definition datumToStringDatum :: "'d datum_ops \<Rightarrow> 'd \<Rightarrow> 'd result" where
  "datumToStringDatum D d =
     (case dKind D d of
        KDUuid \<Rightarrow> Inr (dNewString D (dBareString D d))
      | KDIPAddr \<Rightarrow> Inr (dNewString D (dBareString D d))
      | KDJSON \<Rightarrow> Inr (dNewString D (dJSONString D d))
      | KOtherDatum \<Rightarrow> Inl (ErrMsg ''unsupported datum type. cannot be converted to a string datum''))"

text \<open>One pass of the preprocessing loop, for the datum \<open>d\<close> whose partner is \<open>other\<close>: the datum to
  compare and the conversion error, unchanged where no case applies.\<close>

definition string_case :: "'d datum_ops \<Rightarrow> 'd \<Rightarrow> 'd \<Rightarrow> go_error option \<Rightarrow> 'd \<times> go_error option" where
  "string_case D d other convErr =
     (if dFamily D other = StringFamily
      then (case datumToStringDatum D d of Inr nd \<Rightarrow> (nd, None) | Inl e \<Rightarrow> (d, Some e))
      else (d, convErr))"

definition preprocess_one ::
  "'d datum_ops \<Rightarrow> 'd \<Rightarrow> 'd \<Rightarrow> go_error option \<Rightarrow> 'd \<times> go_error option" where
  "preprocess_one D d other convErr =
     (case dFamily D d of
        BoolFamily \<Rightarrow>
          (if dFamily D other = IntFamily then (boolDatumToIntDatum D d, convErr) else (d, convErr))
      | UuidFamily \<Rightarrow> string_case D d other convErr
      | INetFamily \<Rightarrow> string_case D d other convErr
      | JsonFamily \<Rightarrow> string_case D d other convErr
      | _ \<Rightarrow> (d, convErr))"

text \<open>The loop runs over a copy of the pair but reads the partner from the updated array: the second
  pass sees the converted first datum.\<close>

definition preprocess :: "'d datum_ops \<Rightarrow> 'd \<Rightarrow> 'd \<Rightarrow> 'd \<times> 'd \<times> go_error option" where
  "preprocess D t g =
     (let (t', e1) = preprocess_one D t g None;
          (g', e2) = preprocess_one D g t' e1
      in (t', g', e2))"

text \<open>\<open>errors.CombineErrors\<close> keeps the first error's text; the second is attached as secondary
  information.\<close>

definition CombineErrors :: "go_error \<Rightarrow> go_error option \<Rightarrow> go_error" where
  "CombineErrors e e2 = e"

record 'd col_state =
  csMismatches :: "'d mismatching_row"
  csMismatchColumns :: "'d mismatching_column"
  csReportLog :: bool
  csSeen :: "nat set"     \<comment> \<open>the keys of \<open>colIdxToSeen\<close>\<close>

definition note_column_error ::
  "'d datum_ops \<Rightarrow> string \<Rightarrow> nat \<Rightarrow> go_error \<Rightarrow> 'd \<Rightarrow> 'd \<Rightarrow> 'd col_state \<Rightarrow> 'd col_state" where
  "note_column_error D name valIdx err t g st =
     (let mc = csMismatchColumns st
      in st\<lparr>csReportLog := (if valIdx \<in> csSeen st then False else csReportLog st),
            csMismatchColumns := mc
              \<lparr>mcMismatchingColumns := mcMismatchingColumns mc @ [name],
               mcTargetVals := mcTargetVals mc @ [g],
               mcTruthVals := mcTruthVals mc @ [t],
               mcInfo := mcInfo mc @ [dNameString D name @ '' ('' @ err_Error err @ '')'']\<rparr>,
            csSeen := insert valIdx (csSeen st)\<rparr>)"

definition note_mismatch :: "string \<Rightarrow> 'd \<Rightarrow> 'd \<Rightarrow> 'd col_state \<Rightarrow> 'd col_state" where
  "note_mismatch name t g st =
     (let mm = csMismatches st
      in st\<lparr>csMismatches := mm
              \<lparr>mmMismatchingColumns := mmMismatchingColumns mm @ [name],
               mmTargetVals := mmTargetVals mm @ [g],
               mmTruthVals := mmTruthVals mm @ [t]\<rparr>\<rparr>)"

fun compare_columns ::
  "'d datum_ops \<Rightarrow> string list \<Rightarrow> 'd row \<Rightarrow> 'd row \<Rightarrow> nat list \<Rightarrow> 'd col_state \<Rightarrow> 'd col_state option" where
  "compare_columns D cols truthVals targetVals [] st = Some st"
| "compare_columns D cols truthVals targetVals (valIdx # is) st = do {
     t \<leftarrow> go_nth truthVals valIdx;
     g \<leftarrow> go_nth targetVals valIdx;
     let (t', g', convErr) = preprocess D t g;
     (case dCompareError D t' g' of
        Inl err \<Rightarrow> do {
          name \<leftarrow> go_nth cols valIdx;
          compare_columns D cols truthVals targetVals is
            (note_column_error D name valIdx (CombineErrors err convErr) t g st)
        }
      | Inr retVal \<Rightarrow>
          (if retVal \<noteq> 0 then do {
             name \<leftarrow> go_nth cols valIdx;
             compare_columns D cols truthVals targetVals is (note_mismatch name t g st)
           } else compare_columns D cols truthVals targetVals is st))
   }"

fun comparePK :: "'d datum_ops \<Rightarrow> nat list \<Rightarrow> 'd row \<Rightarrow> 'd row \<Rightarrow> int option" where
  "comparePK D [] truthVals targetVals = Some 0"
| "comparePK D (i # is) truthVals targetVals = do {
     t \<leftarrow> go_nth truthVals i;
     g \<leftarrow> go_nth targetVals i;
     (if dCompare D t g \<noteq> 0 then Some (dCompare D t g) else comparePK D is truthVals targetVals)
   }"

definition mk_missing :: "('x) verified_table_scheme \<Rightarrow> 'd row \<Rightarrow> 'd missing_row option" where
  "mk_missing table truthVals = do {
     pk \<leftarrow> go_take (length (vtPrimaryKeyColumns table)) truthVals;
     Some \<lparr>tnSchema = tnSchema table, tnTable = tnTable table,
           mrPrimaryKeyColumns = vtPrimaryKeyColumns table, mrPrimaryKeyValues = pk,
           mrColumns = ColumnNames (vtColumns table), mrValues = truthVals\<rparr>
   }"

definition mk_extraneous :: "('x) verified_table_scheme \<Rightarrow> 'd row \<Rightarrow> 'd extraneous_row option" where
  "mk_extraneous table targetVals = do {
     pk \<leftarrow> go_take (length (vtPrimaryKeyColumns table)) targetVals;
     Some \<lparr>tnSchema = tnSchema table, tnTable = tnTable table,
           erPrimaryKeyColumns = vtPrimaryKeyColumns table, erPrimaryKeyValues = pk\<rparr>
   }"

definition new_col_state ::
  "('x) verified_table_scheme \<Rightarrow> 'd list \<Rightarrow> nat set \<Rightarrow> 'd col_state" where
  "new_col_state table pk seen =
     \<lparr>csMismatches = \<lparr>tnSchema = tnSchema table, tnTable = tnTable table,
         mmPrimaryKeyColumns = vtPrimaryKeyColumns table, mmPrimaryKeyValues = pk,
         mmMismatchingColumns = [], mmTruthVals = [], mmTargetVals = []\<rparr>,
      csMismatchColumns = \<lparr>tnSchema = tnSchema table, tnTable = tnTable table,
         mcPrimaryKeyColumns = vtPrimaryKeyColumns table, mcPrimaryKeyValues = pk,
         mcMismatchingColumns = [], mcTruthVals = [], mcTargetVals = [], mcInfo = []\<rparr>,
      csReportLog = True, csSeen = seen\<rparr>"

text \<open>The case of equal keys: compare the remaining columns and notify the listener.\<close>

definition on_matching_key ::
  "'d datum_ops \<Rightarrow> ('x) verified_table_scheme \<Rightarrow> ('l, 'd) row_event_listener \<Rightarrow>
   'd row \<Rightarrow> 'd row \<Rightarrow> 'l \<Rightarrow> nat set \<Rightarrow> ('l \<times> nat set) option" where
  "on_matching_key D table evl truthVals targetVals l seen = do {
     pk \<leftarrow> go_take (length (vtPrimaryKeyColumns table)) targetVals;
     st \<leftarrow> compare_columns D (ColumnNames (vtColumns table)) truthVals targetVals
             [length (vtPrimaryKeyColumns table)..<length targetVals] (new_col_state table pk seen);
     Some ((if length (mmMismatchingColumns (csMismatches st)) > 0
            then onMismatchingRow evl (csMismatches st) l
            else if length (mcMismatchingColumns (csMismatchColumns st)) > 0
            then onColumnMismatchNoOtherIssues evl (csMismatchColumns st) (csReportLog st) l
            else onMatch evl l), csSeen st)
   }"

section \<open>verifyRows\<close>

text \<open>The inner loop \<open>itLoop\<close> for one truth row.\<close>

partial_function (option) it_loop ::
  "'d datum_ops \<Rightarrow> ('x) verified_table_scheme \<Rightarrow> ('t, 'd) iterator_ops \<Rightarrow>
   ('l, 'd) row_event_listener \<Rightarrow> 'd row \<Rightarrow> 't \<Rightarrow> 'l \<Rightarrow> nat set \<Rightarrow> ('t \<times> 'l \<times> nat set) option" where
  "it_loop D table it evl truthVals s l seen = do {
     (hn, s1) \<leftarrow> itHasNext it s;
     (if \<not> hn
      then (if itError it s1 = None
            then do { row \<leftarrow> mk_missing table truthVals; Some (s1, onMissingRow evl row l, seen) }
            else Some (s1, l, seen))
      else do {
        (targetVals, s2) \<leftarrow> itPeek it s1;
        compareVal \<leftarrow> comparePK D [0..<length (vtPrimaryKeyColumns table)] truthVals targetVals;
        (if compareVal = 1 then do {
           (r, s3) \<leftarrow> itNext it s2;
           row \<leftarrow> mk_extraneous table targetVals;
           it_loop D table it evl truthVals s3 (onExtraneousRow evl row l) seen
         } else if compareVal = 0 then do {
           (targetVals', s3) \<leftarrow> itNext it s2;
           (l', seen') \<leftarrow> on_matching_key D table evl truthVals targetVals' l seen;
           Some (s3, l', seen')
         } else if compareVal = - 1 then do {
           row \<leftarrow> mk_missing table truthVals;
           Some (s2, onMissingRow evl row l, seen)
         } else it_loop D table it evl truthVals s2 l seen)
      })
   }"

text \<open>The outer loop over the truth rows.\<close>

partial_function (option) truth_loop ::
  "'d datum_ops \<Rightarrow> ('x) verified_table_scheme \<Rightarrow> ('s, 'd) iterator_ops \<Rightarrow> ('t, 'd) iterator_ops \<Rightarrow>
   ('l, 'd) row_event_listener \<Rightarrow> 's \<Rightarrow> 't \<Rightarrow> 'l \<Rightarrow> nat set \<Rightarrow> ('s \<times> 't \<times> 'l) option" where
  "truth_loop D table truth it evl s t l seen = do {
     (hn, s1) \<leftarrow> itHasNext truth s;
     (if \<not> hn then Some (s1, t, l)
      else do {
        let l1 = onRowScan evl l;
        (truthVals, s2) \<leftarrow> itNext truth s1;
        (t1, l2, seen') \<leftarrow> it_loop D table it evl truthVals t l1 seen;
        truth_loop D table truth it evl s2 t1 l2 seen'
      })
   }"

text \<open>The rows left in the target when the truth is exhausted.\<close>

partial_function (option) drain_loop ::
  "('x) verified_table_scheme \<Rightarrow> ('t, 'd) iterator_ops \<Rightarrow> ('l, 'd) row_event_listener \<Rightarrow>
   't \<Rightarrow> 'l \<Rightarrow> ('t \<times> 'l) option" where
  "drain_loop table it evl t l = do {
     (hn, t1) \<leftarrow> itHasNext it t;
     (if \<not> hn then Some (t1, l)
      else do {
        (targetVals, t2) \<leftarrow> itNext it t1;
        row \<leftarrow> mk_extraneous table targetVals;
        drain_loop table it evl t2 (onExtraneousRow evl row l)
      })
   }"

definition verifyRows ::
  "'d datum_ops \<Rightarrow> ('x) verified_table_scheme \<Rightarrow> ('s, 'd) iterator_ops \<Rightarrow> ('t, 'd) iterator_ops \<Rightarrow>
   ('l, 'd) row_event_listener \<Rightarrow> 's \<Rightarrow> 't \<Rightarrow> 'l \<Rightarrow> (go_error option \<times> 'l) option" where
  "verifyRows D table truth it evl s t l = do {
     (s1, t1, l1) \<leftarrow> truth_loop D table truth it evl s t l {};
     (case itError truth s1 of
        Some e \<Rightarrow> Some (Some e, l1)
      | None \<Rightarrow>
          (case itError it t1 of
             Some e \<Rightarrow> Some (Some e, l1)
           | None \<Rightarrow> do { (t2, l2) \<leftarrow> drain_loop table it evl t1 l1; Some (None, l2) }))
   }"

section \<open>VerifyRowsOnShard\<close>

text \<open>The \<open>rowiterator.ScanTable\<close> built for connection \<open>i\<close>: \<open>oids\<close> is \<open>table.ColumnOIDs[i]\<close>.\<close>

definition shard_scan :: "'d table_shard \<Rightarrow> oid list \<Rightarrow> 'd scan_table" where
  "shard_scan table oids =
     \<lparr>tnSchema = tnSchema table, tnTable = tnTable table,
      itColumnsWithAttr = vtColumns table, itColumnOIDs = oids,
      itPrimaryKeyColumns = vtPrimaryKeyColumns table,
      stAOST = None, stStartPKVals = tsStartPKVals table, stEndPKVals = tsEndPKVals table\<rparr>"

definition shard_iterator ::
  "'d pg_conn \<Rightarrow> 'd limiter \<Rightarrow> 'd table_shard \<Rightarrow> oid list \<Rightarrow> nat \<Rightarrow> 'd scan_iterator result option" where
  "shard_iterator conn wait table oids rowBatchSize = do {
     r \<leftarrow> NewScanIterator conn wait (shard_scan table oids) rowBatchSize;
     Some (case r of
             Inl e \<Rightarrow> Inl (ErrWrap (''error initializing row iterator on '' @ pcID conn) e)
           | Inr it \<Rightarrow> Inr it)
   }"

definition new_default_listener ::
  "'d datum_ops \<Rightarrow> 'd table_shard \<Rightarrow> 'd report list \<Rightarrow> 'd default_listener" where
  "new_default_listener D table sent =
     \<lparr>dlReports = sent,
      dlStats = new_row_stats (dNameString D (tnSchema table)) (dNameString D (tnTable table)),
      dlTable = table, dlMetrics = []\<rparr>"

text \<open>
  Without live re-verification (\<open>liveReverifySettings == nil\<close>). \<open>sent\<close> is what the reporter has
  received before; the second component is what it has received afterwards.
\<close>

definition VerifyRowsOnShard ::
  "'d datum_ops \<Rightarrow> 'd pg_conn \<times> 'd pg_conn \<Rightarrow> 'd limiter \<Rightarrow> 'd table_shard \<Rightarrow> nat \<Rightarrow>
   'd report list \<Rightarrow> (go_error option \<times> 'd report list) option" where
  "VerifyRowsOnShard D conns wait table rowBatchSize sent = do {
     r1 \<leftarrow> shard_iterator (fst conns) wait table (fst (vtColumnOIDs table)) rowBatchSize;
     (case r1 of
        Inl e \<Rightarrow> Some (Some e, sent)
      | Inr it1 \<Rightarrow> do {
          r2 \<leftarrow> shard_iterator (snd conns) wait table (snd (vtColumnOIDs table)) rowBatchSize;
          (case r2 of
             Inl e \<Rightarrow> Some (Some e, sent)
           | Inr it2 \<Rightarrow> do {
               (err, n) \<leftarrow> verifyRows D table (scan_ops (fst conns) wait) (scan_ops (snd conns) wait)
                             default_evl it1 it2 (new_default_listener D table sent);
               (case err of
                  Some e \<Rightarrow> Some (Some e, dlReports n)
                | None \<Rightarrow> Some (None, dlReports n @
                    [SummaryReport (''finished row verification on '' @
                       shard_text table (tsShardNum table) (tsTotalShards table)) (dlStats n)]))
             })
        })
   }"

end
