(* ===== verification/Row_Diff.thy ===== *)
theory Row_Diff
  imports Row_Verify
begin

text \<open>
  What a row comparison means, and that \<open>verifyRows\<close> computes it.

  \<open>row_diff\<close> turns the rows of the truth and of the target, both in key order, into the list of
  events a listener must receive. The locale \<open>row_verifier\<close> joins the contracts of the two
  iterators; inside it \<open>verifyRows\<close> is shown to return and to feed exactly \<open>row_diff\<close> to any
  listener. It is interpreted on the scan iterators (\<open>VerifyRowsOnShard\<close>) and on the point-lookup
  iterators (live re-verification).
\<close>

section \<open>Specification\<close>

datatype 'd row_event =
    EScan
  | EMissing "'d missing_row"
  | EExtraneous "'d extraneous_row"
  | EMismatch "'d mismatching_row"
  | EColumn "'d mismatching_column" bool
  | EMatch

fun dispatch :: "('l, 'd) row_event_listener \<Rightarrow> 'd row_event \<Rightarrow> 'l \<Rightarrow> 'l" where
  "dispatch evl EScan = onRowScan evl"
| "dispatch evl (EMissing r) = onMissingRow evl r"
| "dispatch evl (EExtraneous r) = onExtraneousRow evl r"
| "dispatch evl (EMismatch r) = onMismatchingRow evl r"
| "dispatch evl (EColumn r b) = onColumnMismatchNoOtherIssues evl r b"
| "dispatch evl EMatch = onMatch evl"

definition col_result :: "'d datum_ops \<Rightarrow> 'd row \<Rightarrow> 'd row \<Rightarrow> nat \<Rightarrow> int result" where
  "col_result D t g v = (case preprocess D (t ! v) (g ! v) of (a, b, e) \<Rightarrow> dCompareError D a b)"

definition col_fails :: "'d datum_ops \<Rightarrow> 'd row \<Rightarrow> 'd row \<Rightarrow> nat \<Rightarrow> bool" where
  "col_fails D t g v = (case col_result D t g v of Inl e \<Rightarrow> True | Inr c \<Rightarrow> False)"

definition col_differs :: "'d datum_ops \<Rightarrow> 'd row \<Rightarrow> 'd row \<Rightarrow> nat \<Rightarrow> bool" where
  "col_differs D t g v = (case col_result D t g v of Inl e \<Rightarrow> False | Inr c \<Rightarrow> c \<noteq> 0)"

definition col_error_text :: "'d datum_ops \<Rightarrow> string list \<Rightarrow> 'd row \<Rightarrow> 'd row \<Rightarrow> nat \<Rightarrow> string" where
  "col_error_text D cols t g v =
     dNameString D (cols ! v) @ '' ('' @
     (case col_result D t g v of Inl e \<Rightarrow> err_Error e | Inr c \<Rightarrow> []) @ '')''"

abbreviation value_cols :: "('x) verified_table_scheme \<Rightarrow> nat list" where
  "value_cols table \<equiv> [length (vtPrimaryKeyColumns table)..<length (vtColumns table)]"

definition mismatch_report ::
  "'d datum_ops \<Rightarrow> ('x) verified_table_scheme \<Rightarrow> 'd row \<Rightarrow> 'd row \<Rightarrow> 'd mismatching_row" where
  "mismatch_report D table t g =
     (let is = filter (col_differs D t g) (value_cols table)
      in \<lparr>tnSchema = tnSchema table, tnTable = tnTable table,
          mmPrimaryKeyColumns = vtPrimaryKeyColumns table,
          mmPrimaryKeyValues = take (length (vtPrimaryKeyColumns table)) g,
          mmMismatchingColumns = map (\<lambda>v. ColumnNames (vtColumns table) ! v) is,
          mmTruthVals = map (\<lambda>v. t ! v) is, mmTargetVals = map (\<lambda>v. g ! v) is\<rparr>)"

definition column_report ::
  "'d datum_ops \<Rightarrow> ('x) verified_table_scheme \<Rightarrow> 'd row \<Rightarrow> 'd row \<Rightarrow> 'd mismatching_column" where
  "column_report D table t g =
     (let is = filter (col_fails D t g) (value_cols table)
      in \<lparr>tnSchema = tnSchema table, tnTable = tnTable table,
          mcPrimaryKeyColumns = vtPrimaryKeyColumns table,
          mcPrimaryKeyValues = take (length (vtPrimaryKeyColumns table)) g,
          mcMismatchingColumns = map (\<lambda>v. ColumnNames (vtColumns table) ! v) is,
          mcTruthVals = map (\<lambda>v. t ! v) is, mcTargetVals = map (\<lambda>v. g ! v) is,
          mcInfo = map (col_error_text D (ColumnNames (vtColumns table)) t g) is\<rparr>)"

definition pair_event ::
  "'d datum_ops \<Rightarrow> ('x) verified_table_scheme \<Rightarrow> nat set \<Rightarrow> 'd row \<Rightarrow> 'd row \<Rightarrow> 'd row_event" where
  "pair_event D table seen t g =
     (if list_ex (col_differs D t g) (value_cols table) then EMismatch (mismatch_report D table t g)
      else if list_ex (col_fails D t g) (value_cols table)
      then EColumn (column_report D table t g)
             (list_all (\<lambda>v. col_fails D t g v \<longrightarrow> v \<notin> seen) (value_cols table))
      else EMatch)"

definition pair_seen ::
  "'d datum_ops \<Rightarrow> ('x) verified_table_scheme \<Rightarrow> nat set \<Rightarrow> 'd row \<Rightarrow> 'd row \<Rightarrow> nat set" where
  "pair_seen D table seen t g = seen \<union> set (filter (col_fails D t g) (value_cols table))"

definition missing_report :: "('x) verified_table_scheme \<Rightarrow> 'd row \<Rightarrow> 'd missing_row" where
  "missing_report table t =
     \<lparr>tnSchema = tnSchema table, tnTable = tnTable table,
      mrPrimaryKeyColumns = vtPrimaryKeyColumns table,
      mrPrimaryKeyValues = take (length (vtPrimaryKeyColumns table)) t,
      mrColumns = ColumnNames (vtColumns table), mrValues = t\<rparr>"

definition extraneous_report :: "('x) verified_table_scheme \<Rightarrow> 'd row \<Rightarrow> 'd extraneous_row" where
  "extraneous_report table g =
     \<lparr>tnSchema = tnSchema table, tnTable = tnTable table,
      erPrimaryKeyColumns = vtPrimaryKeyColumns table,
      erPrimaryKeyValues = take (length (vtPrimaryKeyColumns table)) g\<rparr>"

definition row_cmp :: "'d datum_ops \<Rightarrow> ('x) verified_table_scheme \<Rightarrow> 'd row \<Rightarrow> 'd row \<Rightarrow> int" where
  "row_cmp D table t g =
     lex_cmp (dCompare D) (take (length (vtPrimaryKeyColumns table)) t)
       (take (length (vtPrimaryKeyColumns table)) g)"

fun match_truth ::
  "'d datum_ops \<Rightarrow> ('x) verified_table_scheme \<Rightarrow> 'd row \<Rightarrow> 'd row list \<Rightarrow> nat set \<Rightarrow>
   'd row_event list \<times> 'd row list \<times> nat set" where
  "match_truth D table t [] seen = ([EMissing (missing_report table t)], [], seen)"
| "match_truth D table t (g # gs) seen =
     (if row_cmp D table t g = 1
      then (case match_truth D table t gs seen of
              (evs, rest, seen') \<Rightarrow> (EExtraneous (extraneous_report table g) # evs, rest, seen'))
      else if row_cmp D table t g = 0
      then ([pair_event D table seen t g], gs, pair_seen D table seen t g)
      else ([EMissing (missing_report table t)], g # gs, seen))"

fun row_diff ::
  "'d datum_ops \<Rightarrow> ('x) verified_table_scheme \<Rightarrow> 'd row list \<Rightarrow> 'd row list \<Rightarrow> nat set \<Rightarrow>
   'd row_event list" where
  "row_diff D table [] gs seen = map (\<lambda>g. EExtraneous (extraneous_report table g)) gs"
| "row_diff D table (t # ts) gs seen =
     (case match_truth D table t gs seen of
        (evs, rest, seen') \<Rightarrow> EScan # evs @ row_diff D table ts rest seen')"

section \<open>The column comparison computes the specified reports\<close>

text \<open>The accumulator after the columns \<open>is\<close>.\<close>

definition columns_result ::
  "'d datum_ops \<Rightarrow> string list \<Rightarrow> 'd row \<Rightarrow> 'd row \<Rightarrow> nat list \<Rightarrow> 'd col_state \<Rightarrow> 'd col_state" where
  "columns_result D cols t g is st = (let
       ds = filter (col_differs D t g) is;
       fs = filter (col_fails D t g) is;
       mm = csMismatches st;
       mc = csMismatchColumns st
     in st\<lparr>
       csMismatches := mm
         \<lparr>mmMismatchingColumns := mmMismatchingColumns mm @ map (\<lambda>v. cols ! v) ds,
          mmTargetVals := mmTargetVals mm @ map (\<lambda>v. g ! v) ds,
          mmTruthVals := mmTruthVals mm @ map (\<lambda>v. t ! v) ds\<rparr>,
       csMismatchColumns := mc
         \<lparr>mcMismatchingColumns := mcMismatchingColumns mc @ map (\<lambda>v. cols ! v) fs,
          mcTargetVals := mcTargetVals mc @ map (\<lambda>v. g ! v) fs,
          mcTruthVals := mcTruthVals mc @ map (\<lambda>v. t ! v) fs,
          mcInfo := mcInfo mc @ map (col_error_text D cols t g) fs\<rparr>,
       csReportLog := (csReportLog st \<and> list_all (\<lambda>v. col_fails D t g v \<longrightarrow> v \<notin> csSeen st) is),
       csSeen := csSeen st \<union> set fs\<rparr>)"

lemma compare_columns_spec:
  assumes "distinct is"
    and "\<And>v. v \<in> set is \<Longrightarrow> v < length t \<and> v < length g \<and> v < length cols"
  shows "compare_columns D cols t g is st = Some (columns_result D cols t g is st)"
  using assms
proof (induction "is" arbitrary: st)
  case Nil
  show ?case by (simp add: columns_result_def)
next
  case (Cons v "is")
  obtain a b e where pre: "preprocess D (t ! v) (g ! v) = (a, b, e)" by (cases "preprocess D (t ! v) (g ! v)")
  have IH: "compare_columns D cols t g is st' = Some (columns_result D cols t g is st')" for st'
    using Cons by simp
  show ?case
  proof (cases "dCompareError D a b")
    case (Inl err)
    have fresh: "list_all (\<lambda>u. col_fails D t g u \<longrightarrow> u \<notin> insert v (csSeen st)) is =
        list_all (\<lambda>u. col_fails D t g u \<longrightarrow> u \<notin> csSeen st) is"
      using Cons.prems(1) by (auto simp: list_all_iff)
    have "col_fails D t g v" "\<not> col_differs D t g v"
      "col_error_text D cols t g v = dNameString D (cols ! v) @ '' ('' @ err_Error err @ '')''"
      using pre Inl by (simp_all add: col_fails_def col_differs_def col_error_text_def col_result_def)
    then show ?thesis
      using Cons.prems pre Inl fresh
      by (auto simp: IH columns_result_def note_column_error_def CombineErrors_def Let_def)
  next
    case (Inr c)
    then have "\<not> col_fails D t g v" "col_differs D t g v = (c \<noteq> 0)"
      using pre by (simp_all add: col_fails_def col_differs_def col_result_def)
    then show ?thesis
      using Cons.prems pre Inr by (auto simp: IH columns_result_def note_mismatch_def Let_def)
  qed
qed

section \<open>One step of the merge\<close>

definition full_row :: "('x) verified_table_scheme \<Rightarrow> 'd row \<Rightarrow> bool" where
  "full_row table r \<longleftrightarrow> length r = length (vtColumns table)"

definition keyed :: "('x) verified_table_scheme \<Rightarrow> bool" where
  "keyed table \<longleftrightarrow> length (vtPrimaryKeyColumns table) \<le> length (vtColumns table)"

lemma on_matching_key_spec:
  assumes "keyed table" "full_row table t" "full_row table g"
  shows "on_matching_key D table evl t g l seen =
    Some (dispatch evl (pair_event D table seen t g) l, pair_seen D table seen t g)"
proof -
  let ?is = "value_cols table" and ?cols = "ColumnNames (vtColumns table)"
  have len: "length g = length (vtColumns table)" "length t = length (vtColumns table)"
    "length (vtPrimaryKeyColumns table) \<le> length g"
    using assms by (simp_all add: full_row_def keyed_def)
  have "compare_columns D ?cols t g ?is st = Some (columns_result D ?cols t g ?is st)" for st
    by (rule compare_columns_spec) (simp_all add: len)
  moreover have "filter P ?is \<noteq> [] \<longleftrightarrow> list_ex P ?is" for P
    by (auto simp: filter_empty_conv list_ex_iff)
  ultimately show ?thesis
    using len(3)
    by (simp add: on_matching_key_def new_col_state_def pair_event_def pair_seen_def
        columns_result_def mismatch_report_def column_report_def len(1) Let_def del: upt.simps)
qed

lemma comparePK_lex:
  assumes "list_all (\<lambda>i. i < length t \<and> i < length g) is"
  shows "comparePK D is t g =
    Some (lex_cmp (dCompare D) (map (\<lambda>i. t ! i) is) (map (\<lambda>i. g ! i) is))"
  using assms by (induction "is") auto

lemma take_map_nth: "n \<le> length xs \<Longrightarrow> map (\<lambda>i. xs ! i) [0..<n] = take n xs"
  by (auto intro: nth_equalityI)

lemma comparePK_spec:
  assumes "keyed table" "full_row table t" "full_row table g"
  shows "comparePK D [0..<length (vtPrimaryKeyColumns table)] t g = Some (row_cmp D table t g)"
  using assms
  by (subst comparePK_lex) (auto simp: list_all_iff full_row_def keyed_def row_cmp_def take_map_nth)

lemma mk_missing_spec:
  "keyed table \<Longrightarrow> full_row table t \<Longrightarrow> mk_missing table t = Some (missing_report table t)"
  by (simp add: mk_missing_def missing_report_def full_row_def keyed_def)

lemma mk_extraneous_spec:
  "keyed table \<Longrightarrow> full_row table g \<Longrightarrow> mk_extraneous table g = Some (extraneous_report table g)"
  by (simp add: mk_extraneous_def extraneous_report_def full_row_def keyed_def)

lemmas row_step_specs = on_matching_key_spec comparePK_spec mk_missing_spec mk_extraneous_spec

section \<open>What the events say about the two tables\<close>

text \<open>The rows are of the table's width and the datum comparison is a total preorder.\<close>

definition comparable :: "'d datum_ops \<Rightarrow> ('x) verified_table_scheme \<Rightarrow> 'd row list \<Rightarrow> bool" where
  "comparable D table rs \<longleftrightarrow>
     three_way (dCompare D) \<and> keyed table \<and> list_all (full_row table) rs \<and>
     pk_sorted D (length (vtPrimaryKeyColumns table)) rs"

definition same_key :: "'d datum_ops \<Rightarrow> ('x) verified_table_scheme \<Rightarrow> 'd row \<Rightarrow> 'd row list \<Rightarrow> bool" where
  "same_key D table r rs = list_ex (\<lambda>r'. row_cmp D table r r' = 0) rs"

fun missing_of :: "'d row_event list \<Rightarrow> 'd missing_row list" where
  "missing_of [] = []"
| "missing_of (EMissing r # evs) = r # missing_of evs"
| "missing_of (_ # evs) = missing_of evs"

fun extraneous_of :: "'d row_event list \<Rightarrow> 'd extraneous_row list" where
  "extraneous_of [] = []"
| "extraneous_of (EExtraneous r # evs) = r # extraneous_of evs"
| "extraneous_of (_ # evs) = extraneous_of evs"

fun is_pair_event :: "'d row_event \<Rightarrow> bool" where
  "is_pair_event (EMismatch r) = True"
| "is_pair_event (EColumn r b) = True"
| "is_pair_event EMatch = True"
| "is_pair_event _ = False"

definition matched ::
  "'d datum_ops \<Rightarrow> ('x) verified_table_scheme \<Rightarrow> 'd row list \<Rightarrow> 'd row list \<Rightarrow> ('d row \<times> 'd row) list" where
  "matched D table ts gs =
     concat (map (\<lambda>t. map (Pair t) (filter (\<lambda>g. row_cmp D table t g = 0) gs)) ts)"

fun pair_events ::
  "'d datum_ops \<Rightarrow> ('x) verified_table_scheme \<Rightarrow> nat set \<Rightarrow> ('d row \<times> 'd row) list \<Rightarrow> 'd row_event list" where
  "pair_events D table seen [] = []"
| "pair_events D table seen ((t, g) # ps) =
     pair_event D table seen t g # pair_events D table (pair_seen D table seen t g) ps"

lemma missing_of_append [simp]: "missing_of (xs @ ys) = missing_of xs @ missing_of ys"
  by (induction xs rule: missing_of.induct) auto

lemma extraneous_of_append [simp]: "extraneous_of (xs @ ys) = extraneous_of xs @ extraneous_of ys"
  by (induction xs rule: extraneous_of.induct) auto

lemma of_extraneous_events [simp]:
  "missing_of (map (\<lambda>g. EExtraneous (f g)) gs) = []"
  "extraneous_of (map (\<lambda>g. EExtraneous (f g)) gs) = map f gs"
  "filter is_pair_event (map (\<lambda>g. EExtraneous (f g)) gs) = []"
  by (induction gs) auto

lemma of_pair_event [simp]:
  "missing_of [pair_event D table seen t g] = []"
  "extraneous_of [pair_event D table seen t g] = []"
  "is_pair_event (pair_event D table seen t g)"
  by (auto simp: pair_event_def)

lemma row_cmp_range:
  assumes "three_way (dCompare D)" "row_cmp D table a b \<le> 0" "row_cmp D table a b \<noteq> 0"
  shows "row_cmp D table a b = - 1"
  using assms(2,3) lex_cmp_range [OF assms(1)] unfolding row_cmp_def by force

lemma row_cmp_flip: "three_way (dCompare D) \<Longrightarrow> row_cmp D table b a = - row_cmp D table a b"
  unfolding row_cmp_def by (rule lex_cmp_flip)

lemma row_cmp_less_trans:
  assumes "three_way (dCompare D)" "full_row table a" "full_row table b" "full_row table c"
    and "row_cmp D table a b = - 1" "row_cmp D table b c \<le> 0"
  shows "row_cmp D table a c = - 1"
  using lex_cmp_less_trans [OF assms(1), of "take (length (vtPrimaryKeyColumns table)) a"
      "take (length (vtPrimaryKeyColumns table)) b" "take (length (vtPrimaryKeyColumns table)) c"] assms(2-)
  by (simp add: row_cmp_def full_row_def)

lemma row_cmp_le_less_trans:
  assumes "three_way (dCompare D)" "full_row table a" "full_row table b" "full_row table c"
    and "row_cmp D table a b \<le> 0" "row_cmp D table b c = - 1"
  shows "row_cmp D table a c = - 1"
proof (cases "row_cmp D table a b = - 1")
  case True
  then show ?thesis using row_cmp_less_trans [OF assms(1-4)] assms(6) by simp
next
  case False
  then have "row_cmp D table a b = 0"
    using assms(5) lex_cmp_range [OF assms(1)] unfolding row_cmp_def by force
  then show ?thesis
    using lex_cmp_eq_trans [OF assms(1), of "take (length (vtPrimaryKeyColumns table)) a"
      "take (length (vtPrimaryKeyColumns table)) b" "take (length (vtPrimaryKeyColumns table)) c"] assms(2-)
    by (simp add: row_cmp_def full_row_def)
qed

lemma comparable_Cons:
  "comparable D table (r # rs) \<longleftrightarrow>
     full_row table r \<and> (\<forall>r' \<in> set rs. row_cmp D table r r' = - 1) \<and> comparable D table rs"
  by (auto simp: comparable_def pk_sorted_def pk_less_def row_cmp_def)

lemma comparableD:
  "comparable D table rs \<Longrightarrow> three_way (dCompare D)"
  "comparable D table rs \<Longrightarrow> r \<in> set rs \<Longrightarrow> full_row table r"
  by (auto simp: comparable_def list_all_iff)

text \<open>Where one truth row splits the target: the rows before it, and the rest.\<close>

lemma match_truth_split:
  assumes "comparable D table gs" "full_row table t"
  obtains pre post where "gs = pre @ post"
    and "\<And>g. g \<in> set pre \<Longrightarrow> row_cmp D table t g = 1"
    and "\<And>g. g \<in> set (tl post) \<Longrightarrow> row_cmp D table t g = - 1"
    and "match_truth D table t gs seen =
      (let ex = map (\<lambda>g. EExtraneous (extraneous_report table g)) pre
       in if post \<noteq> [] \<and> row_cmp D table t (hd post) = 0
          then (ex @ [pair_event D table seen t (hd post)], tl post, pair_seen D table seen t (hd post))
          else (ex @ [EMissing (missing_report table t)], post, seen))"
    and "post \<noteq> [] \<Longrightarrow> row_cmp D table t (hd post) \<le> 0"
  using assms
proof (induction gs arbitrary: thesis)
  case Nil
  show ?case by (rule Nil(1) [of "[]" "[]"]) simp_all
next
  case (Cons g gs)
  note tw = comparableD(1) [OF Cons.prems(2)]
  have gs: "full_row table g" "comparable D table gs" "\<And>g'. g' \<in> set gs \<Longrightarrow> row_cmp D table g g' = - 1"
    using Cons.prems(2) by (auto simp: comparable_Cons)
  show ?case
  proof (cases "row_cmp D table t g = 1")
    case True
    obtain pre post where *: "gs = pre @ post" "\<And>g. g \<in> set pre \<Longrightarrow> row_cmp D table t g = 1"
      "\<And>g. g \<in> set (tl post) \<Longrightarrow> row_cmp D table t g = - 1"
      "match_truth D table t gs seen =
      (let ex = map (\<lambda>g. EExtraneous (extraneous_report table g)) pre
       in if post \<noteq> [] \<and> row_cmp D table t (hd post) = 0
          then (ex @ [pair_event D table seen t (hd post)], tl post, pair_seen D table seen t (hd post))
          else (ex @ [EMissing (missing_report table t)], post, seen))"
      "post \<noteq> [] \<Longrightarrow> row_cmp D table t (hd post) \<le> 0"
      using Cons.IH [OF _ gs(2) Cons.prems(3)] by metis
    show ?thesis
      by (rule Cons.prems(1) [of "g # pre" post]) (use * True in \<open>auto simp: Let_def\<close>)
  next
    case False
    then have le: "row_cmp D table t g \<le> 0"
      using lex_cmp_range [OF tw] unfolding row_cmp_def by force
    then have "row_cmp D table t g' = - 1" if "g' \<in> set gs" for g'
      using row_cmp_le_less_trans [OF tw Cons.prems(3) gs(1) comparableD(2) [OF gs(2) that] _ gs(3) [OF that]]
      by simp
    then show ?thesis
      using False le by (intro Cons.prems(1) [of "[]" "g # gs"]) auto
  qed
qed

text \<open>The partners of a row, and what one step of the merge does to them.\<close>

abbreviation partners :: "'d datum_ops \<Rightarrow> ('x) verified_table_scheme \<Rightarrow> 'd row \<Rightarrow> 'd row list \<Rightarrow> 'd row list" where
  "partners D table t gs \<equiv> filter (\<lambda>g. row_cmp D table t g = 0) gs"

lemma same_key_partners: "same_key D table t gs \<longleftrightarrow> partners D table t gs \<noteq> []"
  by (auto simp: same_key_def list_ex_iff filter_empty_conv)

lemma match_truth_step:
  assumes gs: "comparable D table gs" and ts: "comparable D table (t # ts)"
  obtains pre rest evs seen' where "match_truth D table t gs seen =
      (map (\<lambda>g. EExtraneous (extraneous_report table g)) pre @ evs, rest, seen')"
    and "gs = pre @ partners D table t gs @ rest"
    and "evs = [EMissing (missing_report table t)] \<and> seen' = seen \<and> partners D table t gs = [] \<or>
         (\<exists>g. evs = [pair_event D table seen t g] \<and> seen' = pair_seen D table seen t g \<and>
              partners D table t gs = [g])"
    and "\<And>t'. t' \<in> set ts \<Longrightarrow> partners D table t' gs = partners D table t' rest"
    and "\<And>g. g \<in> set pre \<Longrightarrow> \<not> same_key D table g (t # ts)"
    and "\<And>g. g \<in> set rest \<Longrightarrow> same_key D table g (t # ts) = same_key D table g ts"
proof -
  have t: "full_row table t" "\<And>t'. t' \<in> set ts \<Longrightarrow> row_cmp D table t t' = - 1" "comparable D table ts"
    using ts by (auto simp: comparable_Cons)
  note tw = comparableD(1) [OF gs]
  obtain pre post where split: "gs = pre @ post"
    "\<And>g. g \<in> set pre \<Longrightarrow> row_cmp D table t g = 1"
    "\<And>g. g \<in> set (tl post) \<Longrightarrow> row_cmp D table t g = - 1"
    and m: "match_truth D table t gs seen =
      (let ex = map (\<lambda>g. EExtraneous (extraneous_report table g)) pre
       in if post \<noteq> [] \<and> row_cmp D table t (hd post) = 0
          then (ex @ [pair_event D table seen t (hd post)], tl post, pair_seen D table seen t (hd post))
          else (ex @ [EMissing (missing_report table t)], post, seen))"
    and le: "post \<noteq> [] \<Longrightarrow> row_cmp D table t (hd post) \<le> 0"
    by (rule match_truth_split [OF gs t(1), of seen]) (rule that, assumption, blast, blast, assumption, blast)
  let ?hit = "post \<noteq> [] \<and> row_cmp D table t (hd post) = 0"
  define rest where "rest = (if ?hit then tl post else post)"
  have P: "partners D table t gs = (if ?hit then [hd post] else [])"
    using split by (cases post) (auto simp: filter_empty_conv)
  have post: "post = partners D table t gs @ rest" unfolding P rest_def by (cases post) auto
  have below: "row_cmp D table t' g \<noteq> 0"
    if "t' \<in> set ts" "g \<in> set gs" "row_cmp D table t g \<ge> 0" for t' g
  proof -
    have "row_cmp D table g t \<le> 0" using that(3) row_cmp_flip [OF tw, of table g t] by simp
    from row_cmp_le_less_trans [OF tw comparableD(2) [OF gs that(2)] t(1) comparableD(2) [OF t(3) that(1)] this
        t(2) [OF that(1)]]
    show ?thesis using row_cmp_flip [OF tw, of table t' g] by simp
  qed
  have above: "row_cmp D table t g = - 1" if "g \<in> set rest" for g
    using that split(3) le row_cmp_range [OF tw] unfolding rest_def
    by (cases post) (auto split: if_splits)
  show ?thesis
  proof (rule that [of pre "if ?hit then [pair_event D table seen t (hd post)] else [EMissing (missing_report table t)]"
        rest "if ?hit then pair_seen D table seen t (hd post) else seen"])
    show "gs = pre @ partners D table t gs @ rest" using split(1) post by simp
    show "partners D table t' gs = partners D table t' rest" if "t' \<in> set ts" for t'
    proof -
      have "partners D table t' pre = []" "partners D table t' (partners D table t gs) = []"
        using below [OF that] split(1,2) by (auto simp: filter_empty_conv)
      then show ?thesis using split(1) post by (metis append_Nil filter_append)
    qed
    show "\<not> same_key D table g (t # ts)" if "g \<in> set pre" for g
    proof -
      have "row_cmp D table t' g \<noteq> 0" if "t' \<in> set (t # ts)" for t'
        using below [of t' g] split(1) split(2) [OF \<open>g \<in> set pre\<close>] \<open>g \<in> set pre\<close> that by auto
      then show ?thesis using row_cmp_flip [OF tw, of table g] by (simp add: same_key_def list_ex_iff)
    qed
    show "same_key D table g (t # ts) = same_key D table g ts" if "g \<in> set rest" for g
      using above [OF that] row_cmp_flip [OF tw, of table g t] by (auto simp: same_key_def)
  qed (auto simp: m P rest_def Let_def)
qed

lemma row_diff_projections:
  assumes "comparable D table ts" "comparable D table gs"
  shows "missing_of (row_diff D table ts gs seen) =
      map (missing_report table) (filter (\<lambda>t. \<not> same_key D table t gs) ts) \<and>
    extraneous_of (row_diff D table ts gs seen) =
      map (extraneous_report table) (filter (\<lambda>g. \<not> same_key D table g ts) gs) \<and>
    filter is_pair_event (row_diff D table ts gs seen) = pair_events D table seen (matched D table ts gs)"
  using assms
proof (induction ts arbitrary: gs seen)
  case Nil
  then show ?case by (simp add: same_key_def matched_def)
next
  case (Cons t ts)
  obtain pre rest evs seen' where st: "match_truth D table t gs seen =
      (map (\<lambda>g. EExtraneous (extraneous_report table g)) pre @ evs, rest, seen')"
    and gs: "gs = pre @ partners D table t gs @ rest"
    and evs: "evs = [EMissing (missing_report table t)] \<and> seen' = seen \<and> partners D table t gs = [] \<or>
         (\<exists>g. evs = [pair_event D table seen t g] \<and> seen' = pair_seen D table seen t g \<and>
              partners D table t gs = [g])"
    and part: "\<And>t'. t' \<in> set ts \<Longrightarrow> partners D table t' gs = partners D table t' rest"
    and pre: "\<And>g. g \<in> set pre \<Longrightarrow> \<not> same_key D table g (t # ts)"
    and rest: "\<And>g. g \<in> set rest \<Longrightarrow> same_key D table g (t # ts) = same_key D table g ts"
    by (rule match_truth_step [OF Cons.prems(2,1), of seen])
       (rule that, assumption, assumption, assumption, blast, blast, blast)
  have cts: "comparable D table ts" using Cons.prems(1) by (simp add: comparable_Cons)
  have "comparable D table (pre @ partners D table t gs @ rest)" using Cons.prems(2) gs by argo
  then have crest: "comparable D table rest" by (simp add: comparable_def pk_sorted_def sorted_wrt_append)
  note IH = Cons.IH [OF cts crest, of seen']
  have hit: "same_key D table g (t # ts)" if "g \<in> set (partners D table t gs)" for g
    using that row_cmp_flip [OF comparableD(1) [OF cts], of table g t] by (simp add: same_key_def)
  have F1: "filter (\<lambda>g. \<not> same_key D table g (t # ts)) gs = pre @ filter (\<lambda>g. \<not> same_key D table g ts) rest"
    by (subst gs) (use pre hit rest in \<open>auto simp: filter_empty_conv intro!: filter_True filter_cong\<close>)
  have F2: "filter (\<lambda>t. \<not> same_key D table t gs) ts = filter (\<lambda>t. \<not> same_key D table t rest) ts"
    using part by (auto simp: same_key_partners intro!: filter_cong)
  have F3: "matched D table (t # ts) gs = map (Pair t) (partners D table t gs) @ matched D table ts rest"
    using part by (auto simp: matched_def intro!: arg_cong [where f = concat])
  have D: "row_diff D table (t # ts) gs seen =
      EScan # (map (\<lambda>g. EExtraneous (extraneous_report table g)) pre @ evs) @ row_diff D table ts rest seen'"
    using st by simp
  show ?case
    unfolding D F1 F3 using evs IH F2 by (auto simp: same_key_partners)
qed

text \<open>Two tables with the same keys pair up row by row; a table has no difference to itself.\<close>

lemma same_keys_pair_up:
  assumes "comparable D table ts" "comparable D table gs"
    and "filter (\<lambda>t. \<not> same_key D table t gs) ts = []"
    and "filter (\<lambda>g. \<not> same_key D table g ts) gs = []"
  shows "list_all2 (\<lambda>t g. row_cmp D table t g = 0) ts gs"
  using assms
proof (induction ts arbitrary: gs)
  case Nil
  then show ?case by (simp add: same_key_def filter_empty_conv)
next
  case (Cons t ts)
  have hit: "partners D table t gs \<noteq> []"
    using Cons.prems(3) by (auto simp: same_key_partners split: if_splits)
  show ?case
  proof (rule match_truth_step [OF Cons.prems(2,1), of "{}"])
    fix pre rest evs seen'
    assume gs: "gs = pre @ partners D table t gs @ rest"
      and evs: "evs = [EMissing (missing_report table t)] \<and> seen' = {} \<and> partners D table t gs = [] \<or>
         (\<exists>g. evs = [pair_event D table {} t g] \<and> seen' = pair_seen D table {} t g \<and>
              partners D table t gs = [g])"
      and part: "\<And>t'. t' \<in> set ts \<Longrightarrow> partners D table t' gs = partners D table t' rest"
      and pre: "\<And>g. g \<in> set pre \<Longrightarrow> \<not> same_key D table g (t # ts)"
      and rest: "\<And>g. g \<in> set rest \<Longrightarrow> same_key D table g (t # ts) = same_key D table g ts"
    obtain g where g: "partners D table t gs = [g]" using evs hit by blast
    then have "g \<in> set (partners D table t gs)" by simp
    then have g0: "row_cmp D table t g = 0" by simp
    have "set pre \<subseteq> set gs" "set rest \<subseteq> set gs" using gs by (metis Un_iff set_append subsetI)+
    then have all: "same_key D table g (t # ts)" if "g \<in> set pre \<union> set rest" for g
      using Cons.prems(4) that unfolding filter_empty_conv by blast
    have "pre = []" using all pre by (cases pre) auto
    have ext: "filter (\<lambda>g. \<not> same_key D table g ts) rest = []"
      using all rest by (simp add: filter_empty_conv)
    from \<open>pre = []\<close> have gs': "gs = g # rest" using gs g by simp
    have mis: "filter (\<lambda>t. \<not> same_key D table t rest) ts = []"
    proof -
      have "same_key D table t' rest" if "t' \<in> set ts" for t'
      proof -
        have "same_key D table t' gs" using Cons.prems(3) that unfolding filter_empty_conv by simp
        then show ?thesis unfolding same_key_partners part [OF that] .
      qed
      then show ?thesis by (simp add: filter_empty_conv)
    qed
    have "comparable D table ts" "comparable D table rest"
      using Cons.prems(1,2) gs' by (simp_all add: comparable_Cons)
    from Cons.IH [OF this mis ext] show ?thesis using gs' g0 by simp
  qed
qed

lemma preprocess_same: "preprocess D d d = (d, d, None)"
  by (auto simp: preprocess_def preprocess_one_def string_case_def Let_def split: family.splits)

lemma col_result_same: "col_result D r r v = dCompareError D (r ! v) (r ! v)"
  by (simp add: col_result_def preprocess_same)

lemma row_diff_self:
  assumes "comparable D table rs" "\<And>d. dCompareError D d d = Inr 0"
  shows "row_diff D table rs rs seen = concat (replicate (length rs) [EScan, EMatch])"
  using assms(1)
proof (induction rs)
  case (Cons r rs)
  have "row_cmp D table r r = 0"
    unfolding row_cmp_def by (rule lex_cmp_refl [OF comparableD(1) [OF Cons.prems]])
  moreover have "\<not> col_differs D r r v" "\<not> col_fails D r r v" for v
    using assms(2) by (simp_all add: col_differs_def col_fails_def col_result_same)
  moreover have "comparable D table rs" using Cons.prems by (simp add: comparable_Cons)
  ultimately show ?case
    using Cons.IH by (simp add: pair_event_def pair_seen_def list_ex_iff)
qed simp

section \<open>verifyRows over two iterators that meet the contract\<close>

locale row_verifier =
  truth: row_iterator truth_ops truth_inv truth_pending +
  target: row_iterator target_ops target_inv target_pending
  for truth_ops :: "('s, 'd) iterator_ops" and truth_inv truth_pending
    and target_ops :: "('t, 'd) iterator_ops" and target_inv target_pending +
  fixes D :: "'d datum_ops" and table :: "('x) verified_table_scheme"
  assumes total_order: "target_inv t \<Longrightarrow> three_way (dCompare D)"
    and keyed: "target_inv t \<Longrightarrow> keyed table"
    and truth_full: "truth_inv s \<Longrightarrow> r \<in> set (truth_pending s) \<Longrightarrow> full_row table r"
    and target_full: "target_inv t \<Longrightarrow> r \<in> set (target_pending t) \<Longrightarrow> full_row table r"
begin

lemma row_cmp_cases:
  "target_inv s \<Longrightarrow> row_cmp D table t g = - 1 \<or> row_cmp D table t g = 0 \<or> row_cmp D table t g = 1"
  unfolding row_cmp_def by (rule lex_cmp_range [OF total_order])

lemma it_loop_spec:
  assumes "target_inv t" "full_row table r" "match_truth D table r (target_pending t) seen = (evs, rest, seen')"
  shows "\<exists>t'. it_loop D table target_ops evl r t l seen = Some (t', fold (dispatch evl) evs l, seen') \<and>
    target_inv t' \<and> target_pending t' = rest"
  using assms
proof (induction "target_pending t" arbitrary: t l evs)
  case Nil
  obtain t1 where "itHasNext target_ops t = Some (False, t1)" "target_inv t1" "target_pending t1 = []"
    using target.has_next [OF Nil(2)] Nil(1) by auto
  moreover have "evs = [EMissing (missing_report table r)]" "rest = []" "seen' = seen"
    using Nil by simp_all
  ultimately show ?case
    using target.no_error mk_missing_spec [OF keyed [OF Nil(2)] Nil(3)] by (subst it_loop.simps) auto
next
  case (Cons g gs)
  obtain t1 where t1: "itHasNext target_ops t = Some (True, t1)" "target_inv t1" "target_pending t1 = g # gs"
    using target.has_next [OF Cons.prems(1)] Cons(2) [symmetric] by auto
  obtain t2 where t2: "itPeek target_ops t1 = Some (g, t2)" "target_inv t2" "target_pending t2 = g # gs"
    using target.peek [OF t1(2,3)] t1(3) by auto
  obtain t3 where t3: "itNext target_ops t2 = Some (g, t3)" "target_inv t3" "target_pending t3 = gs"
    using target.next_row [OF t2(2,3)] by auto
  have fg: "full_row table g" using target_full [OF t1(2), of g] t1(3) by simp
  note specs = row_step_specs(2) [OF keyed [OF Cons.prems(1)] Cons.prems(2) fg] row_step_specs(1) [OF keyed [OF Cons.prems(1)] Cons.prems(2) fg]
    mk_missing_spec [OF keyed [OF Cons.prems(1)] Cons.prems(2)] mk_extraneous_spec [OF keyed [OF Cons.prems(1)] fg]
  consider "row_cmp D table r g = 1" | "row_cmp D table r g = 0" | "row_cmp D table r g = - 1"
    using row_cmp_cases [OF Cons.prems(1)] by blast
  then show ?case
  proof cases
    case 1
    then obtain evs' where evs': "match_truth D table r gs seen = (evs', rest, seen')"
      "evs = EExtraneous (extraneous_report table g) # evs'"
      using Cons.prems(3) Cons(2) [symmetric] by (auto split: prod.splits)
    from Cons(1) [OF t3(3) [symmetric] t3(2) Cons.prems(2), of evs'] evs' t3(3)
    show ?thesis by (subst it_loop.simps) (simp add: t1 t2 t3 specs 1)
  next
    case 2
    then show ?thesis
      using Cons.prems(3) Cons(2) [symmetric] t3(2,3)
      by (subst it_loop.simps) (auto simp: t1 t2 t3 specs)
  next
    case 3
    then show ?thesis
      using Cons.prems(3) Cons(2) [symmetric] t2(2,3)
      by (subst it_loop.simps) (auto simp: t1 t2 specs)
  qed
qed

lemma match_truth_rest: "match_truth D table r gs seen = (evs, rest, seen') \<Longrightarrow> set rest \<subseteq> set gs"
  by (induction gs arbitrary: evs) (auto split: if_splits prod.splits)

lemma drain_loop_spec:
  assumes "target_inv t"
  shows "\<exists>t'. drain_loop table target_ops evl t l = Some (t', fold (dispatch evl)
    (map (\<lambda>g. EExtraneous (extraneous_report table g)) (target_pending t)) l)"
  using assms
proof (induction "target_pending t" arbitrary: t l)
  case Nil
  then show ?case using target.has_next [OF Nil(2)] by (subst drain_loop.simps) auto
next
  case (Cons g gs)
  obtain t1 where t1: "itHasNext target_ops t = Some (True, t1)" "target_inv t1" "target_pending t1 = g # gs"
    using target.has_next [OF Cons.prems(1)] Cons(2) [symmetric] by auto
  obtain t2 where t2: "itNext target_ops t1 = Some (g, t2)" "target_inv t2" "target_pending t2 = gs"
    using target.next_row [OF t1(2,3)] by auto
  have "full_row table g" using target_full [OF t1(2), of g] t1(3) by simp
  from mk_extraneous_spec [OF keyed [OF Cons.prems] this] Cons(1) [OF t2(3) [symmetric] t2(2)] t1 t2 Cons(2) [symmetric]
  show ?case by (subst drain_loop.simps) simp
qed

lemma truth_loop_spec:
  assumes "truth_inv s" "target_inv t"
  shows "\<exists>s' t' l' . truth_loop D table truth_ops target_ops evl s t l seen = Some (s', t', l') \<and>
    truth_inv s' \<and> target_inv t' \<and>
    fold (dispatch evl) (map (\<lambda>g. EExtraneous (extraneous_report table g)) (target_pending t')) l' =
    fold (dispatch evl) (row_diff D table (truth_pending s) (target_pending t) seen) l"
  using assms
proof (induction "truth_pending s" arbitrary: s t l seen)
  case Nil
  then show ?case using truth.has_next [OF Nil(2)] by (subst truth_loop.simps) auto
next
  case (Cons r rs)
  obtain s1 where s1: "itHasNext truth_ops s = Some (True, s1)" "truth_inv s1" "truth_pending s1 = r # rs"
    using truth.has_next [OF Cons.prems(1)] Cons(2) [symmetric] by auto
  obtain s2 where s2: "itNext truth_ops s1 = Some (r, s2)" "truth_inv s2" "truth_pending s2 = rs"
    using truth.next_row [OF s1(2,3)] by auto
  have fr: "full_row table r" using truth_full [OF s1(2), of r] s1(3) by simp
  obtain evs rest seen' where m: "match_truth D table r (target_pending t) seen = (evs, rest, seen')"
    by (cases "match_truth D table r (target_pending t) seen")
  obtain t' where t': "it_loop D table target_ops evl r t (onRowScan evl l) seen =
      Some (t', fold (dispatch evl) evs (onRowScan evl l), seen')" "target_inv t'" "target_pending t' = rest"
    using it_loop_spec [OF Cons.prems(2) fr m, of evl "onRowScan evl l"] by metis
  have step: "truth_loop D table truth_ops target_ops evl s t l seen =
      truth_loop D table truth_ops target_ops evl s2 t' (fold (dispatch evl) evs (onRowScan evl l)) seen'"
    by (subst truth_loop.simps) (simp add: s1 s2 t')
  have diff: "row_diff D table (truth_pending s) (target_pending t) seen =
      EScan # evs @ row_diff D table rs rest seen'"
    using m Cons(2) [symmetric] by simp
  show ?case
    using Cons(1) [OF s2(3) [symmetric] s2(2) t'(2), of "fold (dispatch evl) evs (onRowScan evl l)" seen']
    unfolding step diff by (simp add: s2(3) t'(3))
qed

theorem verifyRows_spec:
  assumes "truth_inv s" "target_inv t"
  shows "verifyRows D table truth_ops target_ops evl s t l =
    Some (None, fold (dispatch evl) (row_diff D table (truth_pending s) (target_pending t) {}) l)"
proof -
  obtain s' t' l' where *: "truth_loop D table truth_ops target_ops evl s t l {} = Some (s', t', l')"
    "truth_inv s'" "target_inv t'"
    "fold (dispatch evl) (map (\<lambda>g. EExtraneous (extraneous_report table g)) (target_pending t')) l' =
     fold (dispatch evl) (row_diff D table (truth_pending s) (target_pending t) {}) l"
    using truth_loop_spec [OF assms, of evl l "{}"] by metis
  obtain t'' where "drain_loop table target_ops evl t' l' = Some (t'', fold (dispatch evl)
      (map (\<lambda>g. EExtraneous (extraneous_report table g)) (target_pending t')) l')"
    using drain_loop_spec [OF *(3), of evl l'] by metis
  with * show ?thesis
    by (simp add: verifyRows_def truth.no_error target.no_error)
qed

end

text \<open>
  The target's iterator may fail instead. An error shows in \<open>Error()\<close> only after the call of
  \<open>HasNext\<close> that meets it: rows scanned from the truth are then reported neither missing nor
  matching, and \<open>verifyRows\<close> returns the error, unless the truth has no row at all.
\<close>

context row_iterator
begin

lemma truth_loop_target_fails:
  assumes "inv s" "itHasNext it t = Some (False, t1)" "itError it t1 = Some e"
    and "itHasNext it t1 = Some (False, t1)"
  shows "\<exists>s'. truth_loop D table ops it evl s t l seen =
    Some (s', if pending s = [] then t else t1, fold (dispatch evl) (map (\<lambda>r. EScan) (pending s)) l) \<and> inv s'"
  using assms
proof (induction "pending s" arbitrary: s t l)
  case Nil
  then show ?case using has_next [OF Nil(2)] by (subst truth_loop.simps) auto
next
  case (Cons r rs)
  obtain s1 where s1: "itHasNext ops s = Some (True, s1)" "inv s1" "pending s1 = r # rs"
    using has_next [OF Cons.prems(1)] Cons(2) [symmetric] by auto
  obtain s2 where s2: "itNext ops s1 = Some (r, s2)" "inv s2" "pending s2 = rs"
    using next_row [OF s1(2,3)] by auto
  have il: "it_loop D table it evl r t l' seen = Some (t1, l', seen)" for l'
    using Cons.prems by (subst it_loop.simps) simp
  have "truth_loop D table ops it evl s t l seen =
      truth_loop D table ops it evl s2 t1 (onRowScan evl l) seen"
    by (subst truth_loop.simps) (simp add: s1 s2 il)
  with Cons(1) [OF s2(3) [symmetric] s2(2) Cons.prems(4,3,4), of "onRowScan evl l"] Cons(2) [symmetric] s2(3)
  show ?case by (auto split: if_splits)
qed

lemma verifyRows_target_fails:
  assumes "inv s" "itHasNext it t = Some (False, t1)" "itError it t1 = Some e"
    and "itHasNext it t1 = Some (False, t1)" "itError it t = None"
  shows "verifyRows D table ops it evl s t l =
    Some (if pending s = [] then None else Some e, fold (dispatch evl) (map (\<lambda>r. EScan) (pending s)) l)"
proof -
  obtain s' where "truth_loop D table ops it evl s t l {} =
      Some (s', if pending s = [] then t else t1, fold (dispatch evl) (map (\<lambda>r. EScan) (pending s)) l)" "inv s'"
    using truth_loop_target_fails [OF assms(1-4), of D table evl l "{}"] by blast
  moreover have "drain_loop table it evl t l' = Some (t1, l')" for l'
    using assms(2) by (subst drain_loop.simps) simp
  ultimately show ?thesis using assms(3,5) by (simp add: verifyRows_def no_error)
qed

end

section \<open>Scans\<close>

text \<open>What \<open>VerifyRowsOnShard\<close> relies on for one of its connections.\<close>

definition shard_world ::
  "'d datum_ops \<Rightarrow> 'd table_shard \<Rightarrow> oid list \<Rightarrow> 'd row list \<Rightarrow> 'd pg_conn \<Rightarrow> bool" where
  "shard_world D table oids tbl conn = scan_world D (shard_scan table oids) tbl conn"

lemma scan_inv_full_row:
  assumes "scan_inv D (shard_scan table oids) tbl conn it" "r \<in> set (scan_pending D tbl it)"
  shows "full_row table r"
  using assms scan_world_shape(5) [of D "shard_scan table oids" tbl conn r]
  by (auto simp: scan_inv_def full_row_def shard_scan_def)

lemma scan_inv_keyed:
  assumes "scan_inv D (shard_scan table oids) tbl conn it"
  shows "keyed table" and "three_way (dCompare D)"
  using assms scan_world_shape(2,6) [of D "shard_scan table oids" tbl conn]
  by (auto simp: scan_inv_def keyed_def shard_scan_def)

interpretation scans: row_verifier
  "scan_ops conn1 no_limit" "scan_inv D (shard_scan table oids1) tbl1 conn1" "scan_pending D tbl1"
  "scan_ops conn2 no_limit" "scan_inv D (shard_scan table oids2) tbl2 conn2" "scan_pending D tbl2"
  D table
  for D table conn1 oids1 tbl1 conn2 oids2 tbl2
  by unfold_locales (auto intro: scan_inv_full_row scan_inv_keyed)

end
