(* ===== verification/Row_Report.thy ===== *)
theory Row_Report
  imports Row_Diff
begin

text \<open>
  What the default listener makes of the events, and the guarantees of \<open>VerifyRowsOnShard\<close>: the
  rows it reports missing, extraneous or mismatching are exactly those of the shard, and its
  statistics account for every row.
\<close>

section \<open>Reports and statistics of the default listener\<close>

fun missing_rows :: "'d report list \<Rightarrow> 'd missing_row list" where
  "missing_rows [] = []"
| "missing_rows (MissingRow r # rs) = r # missing_rows rs"
| "missing_rows (_ # rs) = missing_rows rs"

fun extraneous_rows :: "'d report list \<Rightarrow> 'd extraneous_row list" where
  "extraneous_rows [] = []"
| "extraneous_rows (ExtraneousRow r # rs) = r # extraneous_rows rs"
| "extraneous_rows (_ # rs) = extraneous_rows rs"

fun mismatching_rows :: "'d report list \<Rightarrow> 'd mismatching_row list" where
  "mismatching_rows [] = []"
| "mismatching_rows (MismatchingRow r # rs) = r # mismatching_rows rs"
| "mismatching_rows (_ # rs) = mismatching_rows rs"

fun is_summary :: "'d report \<Rightarrow> bool" where
  "is_summary (SummaryReport i s) = True"
| "is_summary _ = False"

fun mismatch_of :: "'d row_event list \<Rightarrow> 'd mismatching_row list" where
  "mismatch_of [] = []"
| "mismatch_of (EMismatch r # evs) = r # mismatch_of evs"
| "mismatch_of (_ # evs) = mismatch_of evs"

lemma rows_append [simp]:
  "missing_rows (xs @ ys) = missing_rows xs @ missing_rows ys"
  "extraneous_rows (xs @ ys) = extraneous_rows xs @ extraneous_rows ys"
  "mismatching_rows (xs @ ys) = mismatching_rows xs @ mismatching_rows ys"
  by (induction xs rule: missing_rows.induct) auto

lemma mismatch_of_append [simp]: "mismatch_of (xs @ ys) = mismatch_of xs @ mismatch_of ys"
  by (induction xs rule: mismatch_of.induct) auto

text \<open>The effect of one event on the statistics.\<close>

fun tally :: "'d row_event \<Rightarrow> row_stats \<Rightarrow> row_stats" where
  "tally EScan s = s\<lparr>rsNumVerified := rsNumVerified s + 1\<rparr>"
| "tally (EMissing r) s = s\<lparr>rsNumMissing := rsNumMissing s + 1\<rparr>"
| "tally (EExtraneous r) s = s\<lparr>rsNumExtraneous := rsNumExtraneous s + 1\<rparr>"
| "tally (EMismatch r) s = s\<lparr>rsNumMismatch := rsNumMismatch s + 1\<rparr>"
| "tally (EColumn r b) s = s
     \<lparr>rsNumColumnMismatch := rsNumColumnMismatch s + (if b then length (mcMismatchingColumns r) else 0),
      rsNumConditionalSuccess := rsNumConditionalSuccess s + 1\<rparr>"
| "tally EMatch s = s\<lparr>rsNumSuccess := rsNumSuccess s + 1\<rparr>"

lemmas listener_defs = default_evl_def default_OnExtraneousRow_def default_OnMissingRow_def
  default_OnMismatchingRow_def default_OnMatch_def default_OnColumnMismatchNoOtherIssues_def
  default_OnRowScan_def send_report_def row_status_def

lemma dispatch_step:
  "dlStats (dispatch default_evl e n) = tally e (dlStats n)"
  "missing_rows (dlReports (dispatch default_evl e n)) = missing_rows (dlReports n) @ missing_of [e]"
  "extraneous_rows (dlReports (dispatch default_evl e n)) = extraneous_rows (dlReports n) @ extraneous_of [e]"
  "mismatching_rows (dlReports (dispatch default_evl e n)) = mismatching_rows (dlReports n) @ mismatch_of [e]"
  by (cases e; simp add: listener_defs Let_def)+

lemma dispatch_all:
  "dlStats (fold (dispatch default_evl) evs n) = fold tally evs (dlStats n)"
  "missing_rows (dlReports (fold (dispatch default_evl) evs n)) = missing_rows (dlReports n) @ missing_of evs"
  "extraneous_rows (dlReports (fold (dispatch default_evl) evs n)) =
     extraneous_rows (dlReports n) @ extraneous_of evs"
  "mismatching_rows (dlReports (fold (dispatch default_evl) evs n)) =
     mismatching_rows (dlReports n) @ mismatch_of evs"
proof -
  have one: "missing_of (e # evs) = missing_of [e] @ missing_of evs"
    "extraneous_of (e # evs) = extraneous_of [e] @ extraneous_of evs"
    "mismatch_of (e # evs) = mismatch_of [e] @ mismatch_of evs" for e :: "'a row_event" and evs
    by (cases e; simp)+
  show "dlStats (fold (dispatch default_evl) evs n) = fold tally evs (dlStats n)"
    by (induction evs arbitrary: n) (simp_all add: dispatch_step)
  show "missing_rows (dlReports (fold (dispatch default_evl) evs n)) = missing_rows (dlReports n) @ missing_of evs"
    by (induction evs arbitrary: n) (simp_all add: dispatch_step one [symmetric] del: missing_of.simps(2-))
  show "extraneous_rows (dlReports (fold (dispatch default_evl) evs n)) =
     extraneous_rows (dlReports n) @ extraneous_of evs"
    by (induction evs arbitrary: n) (simp_all add: dispatch_step one [symmetric] del: extraneous_of.simps(2-))
  show "mismatching_rows (dlReports (fold (dispatch default_evl) evs n)) =
     mismatching_rows (dlReports n) @ mismatch_of evs"
    by (induction evs arbitrary: n) (simp_all add: dispatch_step one [symmetric] del: mismatch_of.simps(2-))
qed

text \<open>The listener only appends reports.\<close>

lemma dispatch_reports: "\<exists>rs. dlReports (dispatch default_evl e n) = dlReports n @ rs"
  by (cases e) (auto simp: listener_defs Let_def)

lemma dispatch_all_reports: "\<exists>rs. dlReports (fold (dispatch default_evl) evs n) = dlReports n @ rs"
proof (induction evs arbitrary: n)
  case (Cons e evs)
  obtain rs where rs: "dlReports (dispatch default_evl e n) = dlReports n @ rs" using dispatch_reports by blast
  show ?case using Cons.IH [of "dispatch default_evl e n"] by (auto simp: rs)
qed simp

section \<open>Statistics of a comparison\<close>

definition rows_accounted :: "row_stats \<Rightarrow> nat" where
  "rows_accounted s =
     rsNumSuccess s + rsNumConditionalSuccess s + rsNumMissing s + rsNumMismatch s"

lemma tally_match_truth:
  assumes "match_truth D table t gs seen = (evs, rest, seen')"
  shows "rsNumVerified (fold tally evs s) = rsNumVerified s"
    and "rows_accounted (fold tally evs s) = Suc (rows_accounted s)"
  using assms
  by (induction gs arbitrary: evs s)
     (auto simp: rows_accounted_def pair_event_def split: if_splits prod.splits)

lemma tally_extraneous:
  "fold tally (map (\<lambda>g. EExtraneous (f g)) gs) s = s\<lparr>rsNumExtraneous := rsNumExtraneous s + length gs\<rparr>"
  by (induction gs arbitrary: s) auto

lemma tally_row_diff:
  "rsNumVerified (fold tally (row_diff D table ts gs seen) s) = rsNumVerified s + length ts \<and>
   rows_accounted (fold tally (row_diff D table ts gs seen) s) = rows_accounted s + length ts"
proof (induction ts arbitrary: gs seen s)
  case Nil
  then show ?case by (simp add: tally_extraneous rows_accounted_def)
next
  case (Cons t ts)
  obtain evs rest seen' where m: "match_truth D table t gs seen = (evs, rest, seen')"
    by (cases "match_truth D table t gs seen")
  from tally_match_truth [OF m] Cons.IH m show ?case by (simp add: rows_accounted_def)
qed

lemma tally_projections:
  "rsNumMissing (fold tally evs s) = rsNumMissing s + length (missing_of evs)"
  "rsNumExtraneous (fold tally evs s) = rsNumExtraneous s + length (extraneous_of evs)"
  "rsNumMismatch (fold tally evs s) = rsNumMismatch s + length (mismatch_of evs)"
proof -
  show "rsNumMissing (fold tally evs s) = rsNumMissing s + length (missing_of evs)"
    by (induction evs arbitrary: s rule: missing_of.induct) auto
  show "rsNumExtraneous (fold tally evs s) = rsNumExtraneous s + length (extraneous_of evs)"
    by (induction evs arbitrary: s rule: extraneous_of.induct) auto
  show "rsNumMismatch (fold tally evs s) = rsNumMismatch s + length (mismatch_of evs)"
    by (induction evs arbitrary: s rule: mismatch_of.induct) auto
qed

section \<open>The mismatches of the matched rows\<close>

lemma mismatch_of_filter: "mismatch_of evs = mismatch_of (filter is_pair_event evs)"
  by (induction evs rule: mismatch_of.induct) auto

lemma mismatch_of_pair_events:
  "mismatch_of (pair_events D table seen ps) =
     map (\<lambda>(t, g). mismatch_report D table t g)
       (filter (\<lambda>(t, g). list_ex (col_differs D t g) (value_cols table)) ps)"
proof (induction ps arbitrary: seen)
  case (Cons p ps)
  obtain t g where "p = (t, g)" by (cases p)
  with Cons show ?case by (simp add: pair_event_def)
qed simp

section \<open>VerifyRowsOnShard\<close>

text \<open>The rows of one side of a shard, in key order.\<close>

abbreviation rows_in :: "'d datum_ops \<Rightarrow> 'd table_shard \<Rightarrow> 'd row list \<Rightarrow> 'd row list" where
  "rows_in D table tbl \<equiv> shard_rows D tbl (tsStartPKVals table) (tsEndPKVals table)"

lemma shard_iterator_ok:
  assumes "shard_world D table oids tbl conn" "0 < b"
  shows "\<exists>it. shard_iterator conn no_limit table oids b = Some (Inr it) \<and>
    scan_inv D (shard_scan table oids) tbl conn it \<and> scan_pending D tbl it = rows_in D table tbl"
proof -
  obtain it where "NewScanIterator conn no_limit (shard_scan table oids) b = Some (Inr it)"
    "scan_inv D (shard_scan table oids) tbl conn it" "scan_pending D tbl it = rows_in D table tbl"
    using NewScanIterator_inv [of D "shard_scan table oids" tbl conn b] assms
    by (auto simp: shard_world_def shard_scan_def)
  then show ?thesis by (auto simp: shard_iterator_def)
qed

text \<open>The listener's state after the shard, and what the reporter has received.\<close>

definition shard_listener ::
  "'d datum_ops \<Rightarrow> 'd table_shard \<Rightarrow> 'd row list \<Rightarrow> 'd row list \<Rightarrow> 'd report list \<Rightarrow> 'd default_listener" where
  "shard_listener D table tbl1 tbl2 sent =
     fold (dispatch default_evl) (row_diff D table (rows_in D table tbl1) (rows_in D table tbl2) {})
       (new_default_listener D table sent)"

definition finished_report :: "'d table_shard \<Rightarrow> row_stats \<Rightarrow> 'd report" where
  "finished_report table s =
     SummaryReport (''finished row verification on '' @
       shard_text table (tsShardNum table) (tsTotalShards table)) s"

lemma VerifyRowsOnShard_refines:
  assumes "shard_world D table (fst (vtColumnOIDs table)) tbl1 conn1"
    and "shard_world D table (snd (vtColumnOIDs table)) tbl2 conn2" and "0 < b"
  shows "VerifyRowsOnShard D (conn1, conn2) no_limit table b sent =
    Some (None, dlReports (shard_listener D table tbl1 tbl2 sent) @
      [finished_report table (dlStats (shard_listener D table tbl1 tbl2 sent))])"
proof -
  obtain it1 where it1: "shard_iterator conn1 no_limit table (fst (vtColumnOIDs table)) b = Some (Inr it1)"
    "scan_inv D (shard_scan table (fst (vtColumnOIDs table))) tbl1 conn1 it1"
    "scan_pending D tbl1 it1 = rows_in D table tbl1"
    using shard_iterator_ok [OF assms(1,3)] by blast
  obtain it2 where it2: "shard_iterator conn2 no_limit table (snd (vtColumnOIDs table)) b = Some (Inr it2)"
    "scan_inv D (shard_scan table (snd (vtColumnOIDs table))) tbl2 conn2 it2"
    "scan_pending D tbl2 it2 = rows_in D table tbl2"
    using shard_iterator_ok [OF assms(2,3)] by blast
  show ?thesis
    using scans.verifyRows_spec [OF it1(2) it2(2), of default_evl "new_default_listener D table sent"] it1(3) it2(3)
    by (simp add: VerifyRowsOnShard_def it1(1) it2(1) shard_listener_def finished_report_def)
qed

lemma shard_comparable:
  assumes "shard_world D table oids tbl conn"
  shows "comparable D table (rows_in D table tbl)"
  using assms scan_world_shape [of D "shard_scan table oids" tbl conn]
  by (auto simp: shard_world_def comparable_def keyed_def full_row_def shard_scan_def shard_rows_def
      list_all_iff pk_sorted_def sorted_wrt_filter)

lemma shard_listener_facts:
  assumes "shard_world D table (fst (vtColumnOIDs table)) tbl1 conn1"
    and "shard_world D table (snd (vtColumnOIDs table)) tbl2 conn2"
  defines "ts \<equiv> rows_in D table tbl1" and "gs \<equiv> rows_in D table tbl2"
  shows "missing_rows (dlReports (shard_listener D table tbl1 tbl2 sent)) =
      missing_rows sent @ map (missing_report table) (filter (\<lambda>t. \<not> same_key D table t gs) ts)"
    and "extraneous_rows (dlReports (shard_listener D table tbl1 tbl2 sent)) =
      extraneous_rows sent @ map (extraneous_report table) (filter (\<lambda>g. \<not> same_key D table g ts) gs)"
    and "mismatching_rows (dlReports (shard_listener D table tbl1 tbl2 sent)) =
      mismatching_rows sent @ map (\<lambda>(t, g). mismatch_report D table t g)
        (filter (\<lambda>(t, g). list_ex (col_differs D t g) (value_cols table)) (matched D table ts gs))"
proof -
  have c: "comparable D table ts" "comparable D table gs"
    using shard_comparable [OF assms(1)] shard_comparable [OF assms(2)] by (simp_all add: ts_def gs_def)
  note p = row_diff_projections [OF c, of "{}"]
  show "missing_rows (dlReports (shard_listener D table tbl1 tbl2 sent)) =
      missing_rows sent @ map (missing_report table) (filter (\<lambda>t. \<not> same_key D table t gs) ts)"
    "extraneous_rows (dlReports (shard_listener D table tbl1 tbl2 sent)) =
      extraneous_rows sent @ map (extraneous_report table) (filter (\<lambda>g. \<not> same_key D table g ts) gs)"
    using p unfolding shard_listener_def dispatch_all ts_def gs_def by (simp_all add: new_default_listener_def)
  show "mismatching_rows (dlReports (shard_listener D table tbl1 tbl2 sent)) =
      mismatching_rows sent @ map (\<lambda>(t, g). mismatch_report D table t g)
        (filter (\<lambda>(t, g). list_ex (col_differs D t g) (value_cols table)) (matched D table ts gs))"
    using p mismatch_of_filter [of "row_diff D table ts gs {}"]
    unfolding shard_listener_def dispatch_all ts_def [symmetric] gs_def [symmetric]
    by (simp add: new_default_listener_def mismatch_of_pair_events)
qed

lemma shard_stats:
  fixes D :: "'d datum_ops"
  defines "s \<equiv> \<lambda>table tbl1 tbl2 sent. dlStats (shard_listener D table tbl1 tbl2 sent)"
  shows "rsNumVerified (s table tbl1 tbl2 sent) = length (rows_in D table tbl1)"
    and "rows_accounted (s table tbl1 tbl2 sent) = rsNumVerified (s table tbl1 tbl2 sent)"
  using tally_row_diff [of D table "rows_in D table tbl1" "rows_in D table tbl2" "{}"]
  by (simp_all add: s_def shard_listener_def dispatch_all new_default_listener_def new_row_stats_def
      rows_accounted_def)

end
