(* ===== verification/Example_Db.thy ===== *)
theory Example_Db
  imports Row_Report
begin

text \<open>
  A concrete database for the witnesses: integer datums, and a connection that answers a
  \<open>SELECT\<close> from a list of stored rows.
\<close>

definition int_datums :: "int datum_ops" where
  "int_datums =
     \<lparr>dCompare = cmp_ord, dCompareError = (\<lambda>a b. Inr (cmp_ord a b)), dFamily = (\<lambda>d. IntFamily),
      dKind = (\<lambda>d. KOtherDatum), dBool = (\<lambda>d. d \<noteq> 0), dNewInt = (\<lambda>i. i),
      dBareString = (\<lambda>d. []), dJSONString = (\<lambda>d. []), dNewString = (\<lambda>s. 0),
      dNameString = (\<lambda>s. s), dExport = (\<lambda>d. [])\<rparr>"

definition kv_columns :: "column_with_attr list" where
  "kv_columns = [\<lparr>caName = ''k'', caNotNull = True\<rparr>, \<lparr>caName = ''v'', caNotNull = False\<rparr>]"

definition kv_conn :: "int row list \<Rightarrow> int pg_conn" where
  "kv_conn tbl =
     \<lparr>pcIsPG = True, pcID = ''db'', pcIDFunc = ''0x1'', pcDataType = (\<lambda>t. None),
      pcQuery = (\<lambda>s. Inr \<lparr>rsRows = map Inr (run_select int_datums (ColumnNames kv_columns) tbl s),
                          rsErr = None\<rparr>)\<rparr>"

definition kv_shard :: "int list \<Rightarrow> int list \<Rightarrow> int table_shard" where
  "kv_shard start end' =
     \<lparr>tnSchema = ''public'', tnTable = ''kv'', vtPrimaryKeyColumns = [''k''], vtColumns = kv_columns,
      vtColumnOIDs = ([20, 20], [20, 20]), tsStartPKVals = start, tsEndPKVals = end',
      tsShardNum = 1, tsTotalShards = 1\<rparr>"

lemma three_way_int [simp]: "three_way (dCompare int_datums)"
  by (simp add: int_datums_def three_way_cmp_ord)

lemma kv_world:
  assumes "list_all (\<lambda>r. length r = 2) tbl" "pk_sorted int_datums 1 tbl"
    and "length start \<le> 1" "length end' \<le> 1"
  shows "shard_world int_datums (kv_shard start end') oids tbl (kv_conn tbl)"
  using assms
  by (auto simp: shard_world_def scan_world_def shard_scan_def kv_shard_def table_shape_def
      stored_rows_def conn_answers_def bounds_shape_def kv_conn_def kv_columns_def ColumnNames_def
      numeral_2_eq_2)

definition kv_rows :: "int row list" where
  "kv_rows = [[1, 10], [2, 20], [3, 30], [4, 40], [5, 50]]"

lemma kv_rows_ok: "list_all (\<lambda>r. length r = 2) kv_rows" "pk_sorted int_datums 1 kv_rows"
  by (simp_all add: kv_rows_def pk_sorted_def pk_less_def int_datums_def cmp_ord_def)

lemma kv_rows_world: "shard_world int_datums (kv_shard [] []) oids kv_rows (kv_conn kv_rows)"
  by (rule kv_world [OF kv_rows_ok]) simp_all

lemma kv_all_rows: "rows_in int_datums (kv_shard [] []) tbl = tbl"
  by (simp add: shard_rows_def not_before_def before_end_def kv_shard_def)

end
