(* ===== verification/Row_Properties.thy ===== *)
theory Row_Properties
  imports Example_Db
begin

text \<open>
  The guarantees of row verification, stated over the code's own entry points
  (\<open>NewScanIterator\<close>, \<open>VerifyRowsOnShard\<close>), each with an application to a concrete database.
\<close>

section \<open>Reading a shard page by page\<close>

text \<open>C4: paging is invisible. Over a connection that answers \<open>SELECT\<close>s as SQL defines them, looping on
  \<open>HasNext\<close>/\<open>Next\<close> of a new scan iterator returns every row between the shard's bounds, once and
  in key order, whatever the (positive) batch size.\<close>

theorem scan_reads_shard:
  assumes "scan_world D table tbl conn" and "0 < rowBatchSize"
  shows "\<exists>it. NewScanIterator conn no_limit table rowBatchSize = Some (Inr it) \<and>
    read_all (scan_ops conn no_limit) it =
      Some (shard_rows D tbl (stStartPKVals table) (stEndPKVals table))"
  using NewScanIterator_inv [OF assms] scan.read_all_pending by metis

theorem scan_reads_shard_witness:
  "\<exists>it. NewScanIterator (kv_conn kv_rows) no_limit (shard_scan (kv_shard [2] [5]) [20, 20]) 2 = Some (Inr it) \<and>
    read_all (scan_ops (kv_conn kv_rows) no_limit) it = Some [[2, 20], [3, 30], [4, 40]]"
proof -
  have w: "scan_world int_datums (shard_scan (kv_shard [2] [5]) [20, 20]) kv_rows (kv_conn kv_rows)"
    using kv_world [OF kv_rows_ok, of "[2]" "[5]" "[20, 20]"] by (simp add: shard_world_def)
  have r: "shard_rows int_datums kv_rows [2] [5] = [[2, 20], [3, 30], [4, 40]]"
    by (simp add: shard_rows_def kv_rows_def not_before_def before_end_def int_datums_def cmp_ord_def)
  have b: "stStartPKVals (shard_scan (kv_shard [2] [5]) [20, 20]) = [2]"
    "stEndPKVals (shard_scan (kv_shard [2] [5]) [20, 20]) = [5]"
    by (simp_all add: shard_scan_def kv_shard_def)
  show ?thesis using scan_reads_shard [OF w, of 2] unfolding b r by simp
qed

section \<open>A batch size of zero\<close>

text \<open>With \<open>rowBatchSize = 0\<close>, which no caller rejects, the constructor succeeds and the first call
  of \<open>HasNext\<close> never returns: every page has zero rows, which is exactly a full page.\<close>

theorem zero_batch_never_returns:
  assumes "scan_world D table tbl conn"
  shows "\<exists>it. NewScanIterator conn no_limit table 0 = Some (Inr it) \<and> scan_HasNext conn no_limit it = None"
proof -
  let ?it0 = "\<lparr>siTable = table, siRowBatchSize = 0, siWaitCh = None, siCache = [],
      siPkCursor = [], siCurrCacheSize = 0, siErr = None, siScanQuery = newPGScanQuery table 0\<rparr>"
  have oid: "first_error (pcDataType conn) (itColumnOIDs table) = None" and pg: "pcIsPG conn"
    using assms by (auto intro!: first_error_None simp: scan_world_def conn_answers_def)
  have np: "nextPage conn no_limit ?it0 = Some (?it0\<lparr>siWaitCh := Some (Inr [])\<rparr>)"
    using nextPage_scan [of D ?it0 tbl conn] assms by (simp add: page_cursor_def)
  have "stuck D tbl conn (?it0\<lparr>siWaitCh := Some (Inr [])\<rparr>)" using assms by (simp add: stuck_def)
  then have "scan_HasNext conn no_limit (?it0\<lparr>siWaitCh := Some (Inr [])\<rparr>) = None"
    using scan_HasNext_not_stuck by (metis not_None_eq)
  then show ?thesis using oid pg np by (auto simp: NewScanIterator_def)
qed

theorem zero_batch_never_returns_witness:
  "\<exists>it. NewScanIterator (kv_conn kv_rows) no_limit (shard_scan (kv_shard [] []) []) 0 = Some (Inr it) \<and>
    scan_HasNext (kv_conn kv_rows) no_limit it = None"
  by (rule zero_batch_never_returns, rule kv_world [unfolded shard_world_def, OF kv_rows_ok]) simp_all

section \<open>What a shard reports\<close>

text \<open>C3: \<open>VerifyRowsOnShard\<close> reports exactly the differences of the shard. It returns without error
  and, beyond what the reporter had received, reports a missing row for every truth row whose key
  the target does not have, an extraneous row for every target row whose key the truth does not
  have, and a mismatching row for every pair of rows with the same key that differ in some column,
  each once and in key order.\<close>

theorem shard_reports_exact:
  assumes "shard_world D table (fst (vtColumnOIDs table)) tbl1 conn1"
    and "shard_world D table (snd (vtColumnOIDs table)) tbl2 conn2" and "0 < rowBatchSize"
  shows "\<exists>reps. VerifyRowsOnShard D (conn1, conn2) no_limit table rowBatchSize sent = Some (None, sent @ reps) \<and>
    missing_rows reps = map (missing_report table)
      (filter (\<lambda>t. \<not> same_key D table t (rows_in D table tbl2)) (rows_in D table tbl1)) \<and>
    extraneous_rows reps = map (extraneous_report table)
      (filter (\<lambda>g. \<not> same_key D table g (rows_in D table tbl1)) (rows_in D table tbl2)) \<and>
    mismatching_rows reps = map (\<lambda>(t, g). mismatch_report D table t g)
      (filter (\<lambda>(t, g). list_ex (col_differs D t g) (value_cols table))
        (matched D table (rows_in D table tbl1) (rows_in D table tbl2)))"
proof -
  let ?n = "shard_listener D table tbl1 tbl2 sent"
  obtain rs where rs: "dlReports ?n = sent @ rs"
    using dispatch_all_reports [of _ "new_default_listener D table sent"]
    by (metis shard_listener_def default_listener.select_convs(1) new_default_listener_def)
  have "VerifyRowsOnShard D (conn1, conn2) no_limit table rowBatchSize sent =
      Some (None, sent @ rs @ [finished_report table (dlStats ?n)])"
    using VerifyRowsOnShard_refines [OF assms, of sent] rs by simp
  then show ?thesis
    using shard_listener_facts [OF assms(1,2), of sent] unfolding rs
    by (intro exI [of _ "rs @ [finished_report table (dlStats ?n)]"]) (simp add: finished_report_def)
qed

theorem shard_reports_exact_witness:
  "\<exists>reps. VerifyRowsOnShard int_datums (kv_conn [[1, 10], [2, 20], [3, 30]], kv_conn [[2, 21], [3, 30], [4, 40]])
      no_limit (kv_shard [] []) 2 [] = Some (None, reps) \<and>
    map mrPrimaryKeyValues (missing_rows reps) = [[1]] \<and>
    map erPrimaryKeyValues (extraneous_rows reps) = [[4]] \<and>
    map mmPrimaryKeyValues (mismatching_rows reps) = [[2]] \<and>
    map mmTruthVals (mismatching_rows reps) = [[20]] \<and> map mmTargetVals (mismatching_rows reps) = [[21]]"
proof -
  let ?a = "[[1, 10], [2, 20], [3, 30]] :: int row list" and ?b = "[[2, 21], [3, 30], [4, 40]] :: int row list"
  have w: "shard_world int_datums (kv_shard [] []) oids ?a (kv_conn ?a)"
    "shard_world int_datums (kv_shard [] []) oids ?b (kv_conn ?b)" for oids
    by (rule kv_world; simp add: pk_sorted_def pk_less_def int_datums_def cmp_ord_def)+
  note r = kv_all_rows
  have c: "row_cmp int_datums (kv_shard [] []) [x, y] [u, v] = cmp_ord x u" for x y u v
    by (simp add: row_cmp_def kv_shard_def int_datums_def)
  have d: "col_differs int_datums [x, y] [u, v] (Suc 0) = (y \<noteq> v)" for x y u v
    by (simp add: col_differs_def col_result_def preprocess_def preprocess_one_def int_datums_def cmp_ord_def)
  have "value_cols (kv_shard [] []) = [1]" "length (vtPrimaryKeyColumns (kv_shard [] [])) = 1"
    by (simp_all add: kv_shard_def kv_columns_def)
  then show ?thesis
    using shard_reports_exact [OF w, of 2 "[]"] unfolding r
    by (auto simp: same_key_def matched_def c d cmp_ord_def missing_report_def extraneous_report_def
        mismatch_report_def)
qed

text \<open>C20: the statistics account for every row. The summary that ends a shard counts every truth row
  of the shard as verified; each of them is counted exactly once as success, conditional success,
  missing or mismatch, and the missing and extraneous counts are the numbers of such rows.\<close>

theorem shard_stats_account:
  assumes "shard_world D table (fst (vtColumnOIDs table)) tbl1 conn1"
    and "shard_world D table (snd (vtColumnOIDs table)) tbl2 conn2" and "0 < rowBatchSize"
  shows "\<exists>reps s. VerifyRowsOnShard D (conn1, conn2) no_limit table rowBatchSize sent =
      Some (None, sent @ reps @ [finished_report table s]) \<and>
    rsNumVerified s = length (rows_in D table tbl1) \<and>
    rsNumSuccess s + rsNumConditionalSuccess s + rsNumMissing s + rsNumMismatch s = rsNumVerified s \<and>
    rsNumMissing s = length (filter (\<lambda>t. \<not> same_key D table t (rows_in D table tbl2)) (rows_in D table tbl1)) \<and>
    rsNumExtraneous s = length (filter (\<lambda>g. \<not> same_key D table g (rows_in D table tbl1)) (rows_in D table tbl2))"
proof -
  let ?n = "shard_listener D table tbl1 tbl2 sent"
  obtain rs where rs: "dlReports ?n = sent @ rs"
    using dispatch_all_reports [of _ "new_default_listener D table sent"]
    by (metis shard_listener_def default_listener.select_convs(1) new_default_listener_def)
  have run: "VerifyRowsOnShard D (conn1, conn2) no_limit table rowBatchSize sent =
      Some (None, sent @ rs @ [finished_report table (dlStats ?n)])"
    using VerifyRowsOnShard_refines [OF assms, of sent] rs by simp
  have "comparable D table (rows_in D table tbl1)" "comparable D table (rows_in D table tbl2)"
    using shard_comparable assms(1,2) by blast+
  from row_diff_projections [OF this, of "{}"]
  have "rsNumMissing (dlStats ?n) =
      length (filter (\<lambda>t. \<not> same_key D table t (rows_in D table tbl2)) (rows_in D table tbl1))"
    "rsNumExtraneous (dlStats ?n) =
      length (filter (\<lambda>g. \<not> same_key D table g (rows_in D table tbl1)) (rows_in D table tbl2))"
    by (simp_all add: shard_listener_def dispatch_all tally_projections new_default_listener_def
        new_row_stats_def)
  with run shard_stats [of D table tbl1 tbl2 sent] show ?thesis by (auto simp: rows_accounted_def)
qed

theorem shard_stats_account_witness:
  "\<exists>reps s. VerifyRowsOnShard int_datums (kv_conn kv_rows, kv_conn kv_rows) no_limit (kv_shard [] []) 2 [] =
      Some (None, reps @ [finished_report (kv_shard [] []) s]) \<and> rsNumVerified s = 5"
proof -
  note w = kv_rows_world and r = kv_all_rows
  have "length kv_rows = 5" by (simp add: kv_rows_def)
  then show ?thesis using shard_stats_account [OF w w, of 2 "[]"] unfolding r by auto
qed

text \<open>A clean shard means equal data. If the shard's reports contain no missing, extraneous or
  mismatching row, the rows of the two sides pair up in order: same keys, and in every other column
  the comparison says equal or could not be made.\<close>

theorem clean_shard_pairs_up:
  assumes "shard_world D table (fst (vtColumnOIDs table)) tbl1 conn1"
    and "shard_world D table (snd (vtColumnOIDs table)) tbl2 conn2" and "0 < rowBatchSize"
    and "VerifyRowsOnShard D (conn1, conn2) no_limit table rowBatchSize [] = Some (None, reps)"
    and "missing_rows reps = []" and "extraneous_rows reps = []" and "mismatching_rows reps = []"
  shows "list_all2 (\<lambda>t g. row_cmp D table t g = 0 \<and> list_all (\<lambda>v. \<not> col_differs D t g v) (value_cols table))
    (rows_in D table tbl1) (rows_in D table tbl2)"
proof -
  let ?ts = "rows_in D table tbl1" and ?gs = "rows_in D table tbl2"
  let ?n = "shard_listener D table tbl1 tbl2 []"
  have reps: "reps = dlReports ?n @ [finished_report table (dlStats ?n)]"
    using VerifyRowsOnShard_refines [OF assms(1-3), of "[]"] assms(4) by simp
  note facts = shard_listener_facts [OF assms(1,2), of "[]"]
  have m: "filter (\<lambda>t. \<not> same_key D table t ?gs) ?ts = []"
    "filter (\<lambda>g. \<not> same_key D table g ?ts) ?gs = []"
    "filter (\<lambda>(t, g). list_ex (col_differs D t g) (value_cols table)) (matched D table ?ts ?gs) = []"
    using assms(5-7) facts unfolding reps finished_report_def by simp_all
  have pairs: "list_all2 (\<lambda>t g. row_cmp D table t g = 0) ?ts ?gs"
    by (rule same_keys_pair_up [OF shard_comparable [OF assms(1)] shard_comparable [OF assms(2)] m(1,2)])
  moreover have "list_all (\<lambda>v. \<not> col_differs D t g v) (value_cols table)"
    if "t \<in> set ?ts" "g \<in> set ?gs" "row_cmp D table t g = 0" for t g
  proof -
    have "(t, g) \<in> set (matched D table ?ts ?gs)" using that by (auto simp: matched_def)
    then show ?thesis using m(3) by (fastforce simp: filter_empty_conv list_all_iff list_ex_iff)
  qed
  ultimately show ?thesis by (auto simp: list_all2_conv_all_nth)
qed

theorem clean_shard_pairs_up_witness:
  "\<exists>reps. VerifyRowsOnShard int_datums (kv_conn kv_rows, kv_conn kv_rows) no_limit (kv_shard [] []) 3 [] =
      Some (None, reps) \<and>
    (missing_rows reps = [] \<and> extraneous_rows reps = [] \<and> mismatching_rows reps = []) \<and>
    list_all2 (\<lambda>t g. row_cmp int_datums (kv_shard [] []) t g = 0 \<and>
        list_all (\<lambda>v. \<not> col_differs int_datums t g v) (value_cols (kv_shard [] []))) kv_rows kv_rows"
proof -
  note w = kv_rows_world and r = kv_all_rows
  let ?n = "shard_listener int_datums (kv_shard [] []) kv_rows kv_rows []"
  have len: "length kv_rows = 5" by (simp add: kv_rows_def)
  have c: "comparable int_datums (kv_shard [] []) kv_rows" using shard_comparable [OF w] unfolding r .
  have refl: "dCompareError int_datums d d = Inr 0" for d by (simp add: int_datums_def cmp_ord_def)
  have diff: "row_diff int_datums (kv_shard [] []) kv_rows kv_rows {} = concat (replicate 5 [EScan, EMatch])"
    using row_diff_self [OF c refl, of "{}"] len by simp
  define reps where "reps = dlReports ?n @ [finished_report (kv_shard [] []) (dlStats ?n)]"
  have run: "VerifyRowsOnShard int_datums (kv_conn kv_rows, kv_conn kv_rows) no_limit (kv_shard [] []) 3 [] =
      Some (None, reps)"
    unfolding reps_def by (rule VerifyRowsOnShard_refines [OF w w]) simp
  have clean: "missing_rows reps = []" "extraneous_rows reps = []" "mismatching_rows reps = []"
    unfolding reps_def shard_listener_def rows_append dispatch_all r diff
    by (simp_all add: numeral_eq_Suc finished_report_def new_default_listener_def)
  from clean_shard_pairs_up [OF w w _ run clean] run clean show ?thesis unfolding r by auto
qed

text \<open>Verifying a table against itself is silent. With a comparison that finds every datum equal to
  itself, only summaries are reported, and every row is counted as a success.\<close>

theorem same_table_all_success:
  assumes "shard_world D table (fst (vtColumnOIDs table)) tbl conn1"
    and "shard_world D table (snd (vtColumnOIDs table)) tbl conn2" and "0 < rowBatchSize"
    and "\<forall>d. dCompareError D d d = Inr 0"
  shows "\<exists>reps s. VerifyRowsOnShard D (conn1, conn2) no_limit table rowBatchSize [] =
      Some (None, reps @ [finished_report table s]) \<and> list_all is_summary reps \<and>
    rsNumVerified s = length (rows_in D table tbl) \<and> rsNumSuccess s = length (rows_in D table tbl) \<and>
    rsNumExtraneous s = 0"
proof -
  let ?rs = "rows_in D table tbl" and ?n = "shard_listener D table tbl tbl []"
  have diff: "row_diff D table ?rs ?rs {} = concat (replicate (length ?rs) [EScan, EMatch])"
    by (rule row_diff_self [OF shard_comparable [OF assms(1)]]) (use assms(4) in simp)
  have quiet: "list_all is_summary (dlReports (fold (dispatch default_evl) (concat (replicate k [EScan, EMatch])) n))"
    if "list_all is_summary (dlReports n)" for k and n :: "'a default_listener"
    using that by (induction k arbitrary: n) (simp_all add: listener_defs Let_def)
  have tal: "fold tally (concat (replicate k [EScan, EMatch])) s =
      s\<lparr>rsNumVerified := rsNumVerified s + k, rsNumSuccess := rsNumSuccess s + k\<rparr>" for k s
    by (induction k arbitrary: s) simp_all
  have "list_all is_summary (dlReports ?n)"
    unfolding shard_listener_def diff by (rule quiet) (simp add: new_default_listener_def)
  moreover have "rsNumVerified (dlStats ?n) = length ?rs" "rsNumSuccess (dlStats ?n) = length ?rs"
    "rsNumExtraneous (dlStats ?n) = 0"
    unfolding shard_listener_def diff dispatch_all tal
    by (simp_all add: new_default_listener_def new_row_stats_def)
  ultimately show ?thesis using VerifyRowsOnShard_refines [OF assms(1-3), of "[]"] by blast
qed

theorem same_table_all_success_witness:
  "\<exists>reps s. VerifyRowsOnShard int_datums (kv_conn kv_rows, kv_conn kv_rows) no_limit (kv_shard [] []) 1 [] =
      Some (None, reps @ [finished_report (kv_shard [] []) s]) \<and> list_all is_summary reps \<and>
    rsNumVerified s = 5 \<and> rsNumSuccess s = 5 \<and> rsNumExtraneous s = 0"
proof -
  note w = kv_rows_world and r = kv_all_rows
  have "length kv_rows = 5" by (simp add: kv_rows_def)
  moreover have "\<forall>d. dCompareError int_datums d d = Inr 0" by (simp add: int_datums_def cmp_ord_def)
  ultimately show ?thesis using same_table_all_success [OF w w, of 1] unfolding r by simp
qed

section \<open>Errors of the target connection\<close>

text \<open>A connection on which the first query of the scan of a shard fails.\<close>

definition first_query_fails :: "'d pg_conn \<Rightarrow> 'd table_shard \<Rightarrow> oid list \<Rightarrow> nat \<Rightarrow> go_error \<Rightarrow> bool" where
  "first_query_fails conn table oids b e \<longleftrightarrow> pcIsPG conn \<and> (\<forall>t. pcDataType conn t = None) \<and>
     (let t = shard_scan table oids
      in case scanQuery_generate (newPGScanQuery t b) t [] of Some q \<Rightarrow> pcQuery conn q = Inl e | None \<Rightarrow> False)"

definition scan_failure :: "'d pg_conn \<Rightarrow> 'd table_shard \<Rightarrow> go_error \<Rightarrow> go_error" where
  "scan_failure conn table e = ErrWrap ''error getting result''
     (ErrWrap (''[pg]error getting rows for table '' @ rows_error_table (shard_scan table []) @ '' from '' @ pcIDFunc conn) e)"

lemma down_iterator:
  assumes "first_query_fails conn table oids b e"
  obtains it it' where "shard_iterator conn no_limit table oids b = Some (Inr it)"
    and "itHasNext (scan_ops conn no_limit) it = Some (False, it')"
    and "itHasNext (scan_ops conn no_limit) it' = Some (False, it')"
    and "itError (scan_ops conn no_limit) it = None"
    and "itError (scan_ops conn no_limit) it' = Some (scan_failure conn table e)"
proof -
  define page :: "'a row list result" where "page = Inl (ErrWrap (''[pg]error getting rows for table '' @
    rows_error_table (shard_scan table []) @ '' from '' @ pcIDFunc conn) e)"
  define t where "t = shard_scan table oids"
  define it0 where "it0 = \<lparr>siTable = t, siRowBatchSize = b, siWaitCh = None, siCache = [],
      siPkCursor = [], siCurrCacheSize = b, siErr = None, siScanQuery = newPGScanQuery t b\<rparr>"
  obtain q where "scanQuery_generate (newPGScanQuery t b) t [] = Some q" "pcQuery conn q = Inl e"
    using assms by (auto simp: first_query_fails_def t_def Let_def split: option.splits)
  moreover have "pcIsPG conn" using assms by (simp add: first_query_fails_def)
  ultimately have "nextPage conn no_limit it0 = Some (it0\<lparr>siWaitCh := Some page\<rparr>)"
    by (simp add: nextPage_def fetch_page_def it0_def page_def t_def shard_scan_def rows_error_table_def)
  moreover have "first_error (pcDataType conn) (itColumnOIDs t) = None"
    by (rule first_error_None) (use assms in \<open>simp add: first_query_fails_def\<close>)
  ultimately have "shard_iterator conn no_limit table oids b = Some (Inr (it0\<lparr>siWaitCh := Some page\<rparr>))"
    using assms unfolding it0_def t_def by (simp add: shard_iterator_def NewScanIterator_def first_query_fails_def)
  then show ?thesis
    by (rule that [of _ "it0\<lparr>siErr := Some (scan_failure conn table e)\<rparr>"])
       (simp_all add: scan_ops_def scan_HasNext.simps it0_def page_def scan_failure_def)
qed

lemma VerifyRowsOnShard_down:
  fixes sent
  assumes "shard_world D table (fst (vtColumnOIDs table)) tbl1 conn1"
    "first_query_fails conn2 table (snd (vtColumnOIDs table)) b e" "0 < b"
  defines "n \<equiv> fold (dispatch default_evl) (map (\<lambda>r. EScan) (rows_in D table tbl1)) (new_default_listener D table sent)"
  shows "VerifyRowsOnShard D (conn1, conn2) no_limit table b sent =
    Some (if rows_in D table tbl1 = [] then (None, dlReports n @ [finished_report table (dlStats n)])
          else (Some (scan_failure conn2 table e), dlReports n))"
proof -
  obtain it1 where it1: "shard_iterator conn1 no_limit table (fst (vtColumnOIDs table)) b = Some (Inr it1)"
    "scan_inv D (shard_scan table (fst (vtColumnOIDs table))) tbl1 conn1 it1"
    "scan_pending D tbl1 it1 = rows_in D table tbl1"
    using shard_iterator_ok [OF assms(1,3)] by blast
  obtain it2 it3 where it2: "shard_iterator conn2 no_limit table (snd (vtColumnOIDs table)) b = Some (Inr it2)"
    and fails: "itHasNext (scan_ops conn2 no_limit) it2 = Some (False, it3)"
      "itError (scan_ops conn2 no_limit) it3 = Some (scan_failure conn2 table e)"
      "itHasNext (scan_ops conn2 no_limit) it3 = Some (False, it3)"
      "itError (scan_ops conn2 no_limit) it2 = None"
    by (rule down_iterator [OF assms(2)])
  show ?thesis
    using scan.verifyRows_target_fails [OF it1(2) fails, of D table default_evl "new_default_listener D table sent"]
      it1(1,3) it2
    by (simp add: VerifyRowsOnShard_def n_def finished_report_def)
qed

lemma scan_only_events:
  "missing_of (map (\<lambda>r. EScan) rs) = []" "extraneous_of (map (\<lambda>r. EScan) rs) = []"
  "mismatch_of (map (\<lambda>r. EScan) rs) = []"
  by (induction rs) auto

text \<open>C34: a target that cannot be read is an error, not missing data. When the truth has rows in the shard
  and the first query of the shard's scan on the target fails, \<open>VerifyRowsOnShard\<close> returns that
  failure, and no row is reported missing, extraneous or mismatching.\<close>

theorem target_failure_is_error:
  assumes "shard_world D table (fst (vtColumnOIDs table)) tbl1 conn1"
    and "first_query_fails conn2 table (snd (vtColumnOIDs table)) rowBatchSize e"
    and "0 < rowBatchSize" and "rows_in D table tbl1 \<noteq> []"
  shows "\<exists>reps. VerifyRowsOnShard D (conn1, conn2) no_limit table rowBatchSize [] =
      Some (Some (scan_failure conn2 table e), reps) \<and>
    missing_rows reps = [] \<and> extraneous_rows reps = [] \<and> mismatching_rows reps = []"
  unfolding VerifyRowsOnShard_down [OF assms(1-3)] if_not_P [OF assms(4)]
  by (simp add: dispatch_all new_default_listener_def scan_only_events)

definition dead_conn :: "int pg_conn" where
  "dead_conn = (kv_conn [])\<lparr>pcQuery := \<lambda>q. Inl (ErrMsg ''connection refused'')\<rparr>"

lemma dead_conn_fails:
  "first_query_fails dead_conn (kv_shard [] []) oids 2 (ErrMsg ''connection refused'')"
proof -
  obtain q where "scanQuery_generate (newPGScanQuery (shard_scan (kv_shard [] []) oids) 2) (shard_scan (kv_shard [] []) oids) [] = Some q"
    using scanQuery_generate_total [of "shard_scan (kv_shard [] []) oids"] by (auto simp: shard_scan_def kv_shard_def)
  then show ?thesis by (simp add: first_query_fails_def dead_conn_def kv_conn_def)
qed

theorem target_failure_is_error_witness:
  "\<exists>reps. VerifyRowsOnShard int_datums (kv_conn kv_rows, dead_conn) no_limit (kv_shard [] []) 2 [] =
      Some (Some (scan_failure dead_conn (kv_shard [] []) (ErrMsg ''connection refused'')), reps) \<and>
    missing_rows reps = []"
proof -
  have ne: "rows_in int_datums (kv_shard [] []) kv_rows \<noteq> []" unfolding kv_all_rows by (simp add: kv_rows_def)
  show ?thesis using target_failure_is_error [OF kv_rows_world dead_conn_fails _ ne] by auto
qed

text \<open>The same failure is lost when the truth has no row in the shard. \<open>Error()\<close> is read before
  \<open>HasNext\<close> has met the failure and not read again after the loop over the remaining target rows,
  so the shard finishes as verified although the target was never read.\<close>

theorem target_failure_lost_on_empty_truth:
  assumes "shard_world D table (fst (vtColumnOIDs table)) tbl1 conn1"
    and "first_query_fails conn2 table (snd (vtColumnOIDs table)) rowBatchSize e"
    and "0 < rowBatchSize" and "rows_in D table tbl1 = []"
  shows "VerifyRowsOnShard D (conn1, conn2) no_limit table rowBatchSize [] =
    Some (None, [finished_report table
      (new_row_stats (dNameString D (tnSchema table)) (dNameString D (tnTable table)))])"
  unfolding VerifyRowsOnShard_down [OF assms(1-3)] if_P [OF assms(4)] assms(4)
  by (simp add: new_default_listener_def)

theorem target_failure_lost_on_empty_truth_witness:
  "VerifyRowsOnShard int_datums (kv_conn [], dead_conn) no_limit (kv_shard [] []) 2 [] =
    Some (None, [finished_report (kv_shard [] []) (new_row_stats ''public'' ''kv'')])"
proof -
  have w: "shard_world int_datums (kv_shard [] []) oids [] (kv_conn [])" for oids
    by (rule kv_world) (simp_all add: pk_sorted_def)
  show ?thesis
    using target_failure_lost_on_empty_truth [OF w dead_conn_fails] unfolding kv_all_rows
    by (simp add: int_datums_def kv_shard_def)
qed

section \<open>Columns that cannot be compared\<close>

text \<open>A column that cannot be compared may never be reported. When the comparison of column \<open>v\<close> fails
  for the first time in a row in which an already reported column \<open>u\<close> fails too, the row's column
  report is suppressed, yet \<open>v\<close> is marked as seen, so that no later row reports it either.\<close>

theorem new_failing_column_unreported:
  assumes "keyed table" and "full_row table t" and "full_row table g"
    and "u \<in> set (value_cols table)" and "u \<in> seen" and "col_fails D t g u"
    and "v \<in> set (value_cols table)" and "v \<notin> seen" and "col_fails D t g v"
    and "list_all (\<lambda>w. \<not> col_differs D t g w) (value_cols table)"
  shows "\<exists>n' seen'. on_matching_key D table default_evl t g n seen = Some (n', seen') \<and> v \<in> seen' \<and>
    dlReports n' = dlReports n \<and> rsNumColumnMismatch (dlStats n') = rsNumColumnMismatch (dlStats n)"
proof -
  have "\<not> list_ex (col_differs D t g) (value_cols table)" "list_ex (col_fails D t g) (value_cols table)"
    "\<not> list_all (\<lambda>v. col_fails D t g v \<longrightarrow> v \<notin> seen) (value_cols table)"
    using assms(4-10) by (auto simp: list_ex_iff list_all_iff)
  then have "pair_event D table seen t g = EColumn (column_report D table t g) False"
    by (simp add: pair_event_def)
  then show ?thesis
    using on_matching_key_spec [OF assms(1-3), of D default_evl n seen] assms(7,9)
    by (simp add: listener_defs pair_seen_def)
qed

definition partial_datums :: "int datum_ops" where
  "partial_datums = int_datums\<lparr>dCompareError := \<lambda>a b. if a < 0 then Inl (ErrMsg ''unsupported comparison'')
     else Inr (cmp_ord a b)\<rparr>"

definition wide_table :: "int table_shard" where
  "wide_table = (kv_shard [] [])\<lparr>vtColumns := kv_columns @ [\<lparr>caName = ''w'', caNotNull = False\<rparr>]\<rparr>"

theorem new_failing_column_unreported_witness:
  "\<exists>n' seen'. on_matching_key partial_datums wide_table default_evl [1, - 1, - 1] [1, - 1, - 1]
      (new_default_listener partial_datums wide_table []) {1} = Some (n', seen') \<and> 2 \<in> seen' \<and>
    dlReports n' = [] \<and> rsNumColumnMismatch (dlStats n') = 0"
proof -
  have v: "value_cols wide_table = [1, 2]"
    by (simp add: wide_table_def kv_shard_def kv_columns_def upt_rec)
  have f: "col_fails partial_datums [1, - 1, - 1] [1, - 1, - 1] i \<and>
      \<not> col_differs partial_datums [1, - 1, - 1] [1, - 1, - 1] i" if "i \<in> {1, 2}" for i
    using that by (auto simp: col_fails_def col_differs_def col_result_same partial_datums_def)
  show ?thesis
    using new_failing_column_unreported [of wide_table "[1, - 1, - 1]" "[1, - 1, - 1]" 1 "{1}" partial_datums 2
        "new_default_listener partial_datums wide_table []"] f unfolding v
    by (simp add: keyed_def full_row_def wide_table_def kv_shard_def kv_columns_def
        new_default_listener_def new_row_stats_def)
qed

end
