(* ===== verification/Shard_Table.thy ===== *)
theory Shard_Table
  imports Row_Report
begin

text \<open>
  \<open>verify/shard_table.go\<close>: splitting a table into shards by the first column of its key.

  Go's \<open>int64\<close> and \<open>uint64\<close> arithmetic is written out on \<open>int\<close> (\<open>int64\<close>, \<open>uint64\<close> reduce a result to the
  machine's range). The operations on \<open>float64\<close> values are fields of \<open>split_ops\<close>.
\<close>

section \<open>Datum access\<close>

record ('d, 'f) split_ops =
  soInt :: "'d \<Rightarrow> int"             \<comment> \<open>the value of a \<open>*tree.DInt\<close>\<close>
  soUuidHi :: "'d \<Rightarrow> int"          \<comment> \<open>\<open>DUuid.ToUint128().Hi\<close>\<close>
  soNewUuid :: "int \<Rightarrow> 'd"         \<comment> \<open>the UUID with these high bits and low bits 0\<close>
  soFloat :: "'d \<Rightarrow> 'f"            \<comment> \<open>the value of a \<open>*tree.DFloat\<close>\<close>
  soNewFloat :: "'f \<Rightarrow> 'd"
  fSub :: "'f \<Rightarrow> 'f \<Rightarrow> 'f"
  fAdd :: "'f \<Rightarrow> 'f \<Rightarrow> 'f"
  fMul :: "'f \<Rightarrow> 'f \<Rightarrow> 'f"
  fDiv :: "'f \<Rightarrow> 'f \<Rightarrow> 'f"
  fMax :: "'f \<Rightarrow> 'f \<Rightarrow> 'f"
  fOfInt :: "int \<Rightarrow> 'f"
  fLeZero :: "'f \<Rightarrow> bool"
  fIsNaN :: "'f \<Rightarrow> bool"
  fIsInf :: "'f \<Rightarrow> bool"

section \<open>The extremes of a table\<close>

definition buildSelectForSplitPG :: "('x) verified_table_scheme \<Rightarrow> bool \<Rightarrow> 'd select" where
  "buildSelectForSplitPG tbl isMin =
     \<lparr>selTable = \<lparr>tnSchema = tnSchema tbl, tnTable = tnTable tbl\<rparr>,
      selExprs = vtPrimaryKeyColumns tbl,
      selWhere = None,
      selOrderBy = map (\<lambda>pkCol. (pkCol, \<not> isMin)) (vtPrimaryKeyColumns tbl),
      selLimit = Some 1,
      selAsOf = None\<rparr>"

definition getTableExtremes ::
  "'d pg_conn \<Rightarrow> ('x) verified_table_scheme \<Rightarrow> bool \<Rightarrow> 'd list result option" where
  "getTableExtremes truthConn tbl isMin =
     (if \<not> pcIsPG truthConn then Some (Inl (ErrMsg ''unknown type for extremes''))
      else (case pcQuery truthConn (buildSelectForSplitPG tbl isMin) of
          Inl e \<Rightarrow> Some (Inl (ErrWrap (''error getting minimum value for '' @ SafeString tbl) e))
        | Inr rs \<Rightarrow>
            (case rsRows rs of
               [] \<Rightarrow> Some (case rsErr rs of Some e \<Rightarrow> Inl e | None \<Rightarrow> Inr [])
             | r # _ \<Rightarrow> do {
                 oids \<leftarrow> go_take (length (vtPrimaryKeyColumns tbl)) (fst (vtColumnOIDs tbl));
                 Some r
               })))"

section \<open>Splitting\<close>

text \<open>The upper bound of split \<open>splitNum\<close>; \<open>None\<close> where the code gives up (\<open>splittable = false\<close>).\<close>

definition next_bound ::
  "'d datum_ops \<Rightarrow> ('d, 'f) split_ops \<Rightarrow> int \<Rightarrow> int \<Rightarrow> 'd \<Rightarrow> 'd \<Rightarrow> 'd option" where
  "next_bound D S numSplits splitNum lo hi =
     (case dFamily D lo of
        IntFamily \<Rightarrow>
          (let minVal = soInt S lo; maxVal = soInt S hi; valRange = int64 (maxVal - minVal)
           in if valRange \<le> 0 then None
              else Some (dNewInt D (int64 (minVal + int64 (max (valRange div numSplits) 1 * splitNum)))))
      | FloatFamily \<Rightarrow>
          (let minVal = soFloat S lo; maxVal = soFloat S hi; valRange = fSub S maxVal minVal
           in if fLeZero S valRange \<or> fIsNaN S valRange \<or> fIsInf S valRange then None
              else Some (soNewFloat S (fAdd S minVal (fMul S
                     (fMax S (fDiv S valRange (fOfInt S numSplits)) (fOfInt S 1)) (fOfInt S splitNum)))))
      | UuidFamily \<Rightarrow>
          (let minVal = soUuidHi S lo; maxVal = soUuidHi S hi; valRange = uint64 (maxVal - minVal)
           in if valRange \<le> 0 then None
              else Some (soNewUuid S (uint64 (minVal + uint64 (max (valRange div numSplits) 1 * splitNum)))))
      | _ \<Rightarrow> None)"

definition mk_shard ::
  "('x) verified_table_scheme \<Rightarrow> 'd list \<Rightarrow> 'd list \<Rightarrow> nat \<Rightarrow> nat \<Rightarrow> 'd table_shard" where
  "mk_shard tbl start end' num n =
     \<lparr>tnSchema = tnSchema tbl, tnTable = tnTable tbl,
      vtPrimaryKeyColumns = vtPrimaryKeyColumns tbl, vtColumns = vtColumns tbl,
      vtColumnOIDs = vtColumnOIDs tbl, tsStartPKVals = start, tsEndPKVals = end',
      tsShardNum = num, tsTotalShards = n\<rparr>"

text \<open>\<open>splitLoop\<close> from \<open>splitNum\<close> on, with \<open>left\<close> iterations to go; \<open>None\<close>: not splittable.\<close>

fun split_loop ::
  "'d datum_ops \<Rightarrow> ('d, 'f) split_ops \<Rightarrow> ('x) verified_table_scheme \<Rightarrow> nat \<Rightarrow> 'd \<Rightarrow> 'd \<Rightarrow>
   nat \<Rightarrow> nat \<Rightarrow> 'd list \<Rightarrow> 'd table_shard list option" where
  "split_loop D S tbl numSplits lo hi splitNum 0 nextMin = Some []"
| "split_loop D S tbl numSplits lo hi splitNum (Suc left) nextMin =
     (if splitNum < numSplits
      then (case next_bound D S (int numSplits) (int splitNum) lo hi of
              None \<Rightarrow> None
            | Some b \<Rightarrow> map_option (\<lambda>rest. mk_shard tbl nextMin [b] splitNum numSplits # rest)
                (split_loop D S tbl numSplits lo hi (Suc splitNum) left [b]))
      else map_option (\<lambda>rest. mk_shard tbl nextMin [] splitNum numSplits # rest)
             (split_loop D S tbl numSplits lo hi (Suc splitNum) left []))"

text \<open>The single shard of an unsplit table, and the status report; \<open>sent\<close> is \<open>None\<close> for a nil reporter.\<close>

definition full_scan ::
  "('x) verified_table_scheme \<Rightarrow> int \<Rightarrow> 'd report list option \<Rightarrow>
   ('d table_shard list result \<times> 'd report list option)" where
  "full_scan tbl numSplits sent =
     (Inr [mk_shard tbl [] [] 1 1],
      if numSplits \<noteq> 1
      then map_option (\<lambda>rs. rs @ [StatusReport (''unable to identify a split for primary key '' @
             SafeString tbl @ '', defaulting to a full scan'')]) sent
      else sent)"

definition ShardTable ::
  "'d datum_ops \<Rightarrow> ('d, 'f) split_ops \<Rightarrow> 'd pg_conn \<Rightarrow> ('x) verified_table_scheme \<Rightarrow>
   'd report list option \<Rightarrow> int \<Rightarrow> ('d table_shard list result \<times> 'd report list option) option" where
  "ShardTable D S truthConn tbl sent numSplits =
     (if numSplits < 1 then Some (Inl (ErrMsg (''failed to split rows: '' @ ItoaInt numSplits)), sent)
      else if numSplits > 1 then do {
        r1 \<leftarrow> getTableExtremes truthConn tbl True;
        (case r1 of
           Inl e \<Rightarrow> Some (Inl (ErrWrap (''cannot get minimum of '' @ SafeString tbl) e), sent)
         | Inr minE \<Rightarrow> do {
             r2 \<leftarrow> getTableExtremes truthConn tbl False;
             (case r2 of
                Inl e \<Rightarrow> Some (Inl (ErrWrap (''cannot get maximum of '' @ SafeString tbl) e), sent)
              | Inr maxE \<Rightarrow>
                  (if \<not> (length minE = 0 \<or> length maxE = 0 \<or> length minE \<noteq> length maxE)
                   then (case split_loop D S tbl (nat numSplits) (hd minE) (hd maxE) 1 (nat numSplits) [] of
                           Some ret \<Rightarrow> Some (Inr ret, sent)
                         | None \<Rightarrow> Some (full_scan tbl numSplits sent))
                   else Some (full_scan tbl numSplits sent)))
           })
      } else Some (full_scan tbl numSplits sent))"

section \<open>Every row is in some shard\<close>

text \<open>A row belongs to a shard when it lies between the shard's bounds, as the scan queries select it.\<close>

definition in_shard :: "'d datum_ops \<Rightarrow> 'd row \<Rightarrow> 'd table_shard \<Rightarrow> bool" where
  "in_shard D r sh \<longleftrightarrow> not_before D (tsStartPKVals sh) r \<and> before_end D (tsEndPKVals sh) r"

lemma in_shard_rows: "r \<in> set (rows_in D sh tbl) \<longleftrightarrow> r \<in> set tbl \<and> in_shard D r sh"
  by (auto simp: shard_rows_def in_shard_def)

text \<open>Shards chain from \<open>start\<close>: each begins where the one before ends, and the last one is open.\<close>

fun chained :: "'d list \<Rightarrow> 'd table_shard list \<Rightarrow> bool" where
  "chained start [] = False"
| "chained start [sh] = (tsStartPKVals sh = start \<and> tsEndPKVals sh = [])"
| "chained start (sh # shs) = (tsStartPKVals sh = start \<and> tsEndPKVals sh \<noteq> [] \<and> chained (tsEndPKVals sh) shs)"

lemma split_loop_chained:
  assumes "split_loop D S tbl n lo hi k left start = Some shs" "0 < left" "k + left = Suc n"
  shows "chained start shs"
  using assms
proof (induction left arbitrary: k start shs)
  case (Suc left)
  show ?case
  proof (cases "k < n")
    case True
    then obtain b rest where *: "split_loop D S tbl n lo hi (Suc k) left [b] = Some rest"
      "shs = mk_shard tbl start [b] k n # rest"
      using Suc.prems(1) by (auto split: option.splits)
    have "chained [b] rest" using Suc.IH [OF *(1)] Suc.prems True by simp
    then show ?thesis using *(2) by (cases rest) (simp_all add: mk_shard_def)
  next
    case False
    then have "left = 0" using Suc.prems by simp
    then show ?thesis using Suc.prems(1) False by (auto simp: mk_shard_def)
  qed
qed simp

lemma not_before_end: "end' \<noteq> [] \<Longrightarrow> not_before D end' r = (\<not> before_end D end' r)"
  by (simp add: not_before_def before_end_def)

lemma chained_covers:
  "chained start shs \<Longrightarrow> not_before D start r \<Longrightarrow> \<exists>sh \<in> set shs. in_shard D r sh"
proof (induction start shs rule: chained.induct)
  case (3 start sh sh' shs)
  show ?case
  proof (cases "before_end D (tsEndPKVals sh) r")
    case True
    then show ?thesis using 3 by (auto simp: in_shard_def)
  next
    case False
    then show ?thesis using 3 not_before_end [of "tsEndPKVals sh" D r] by auto
  qed
qed (auto simp: in_shard_def before_end_def)

text \<open>With the bounds in order, a row is in one shard only.\<close>

fun ordered_ends :: "'d datum_ops \<Rightarrow> 'd row \<Rightarrow> 'd table_shard list \<Rightarrow> bool" where
  "ordered_ends D r (sh # sh' # shs) =
     ((before_end D (tsEndPKVals sh) r \<longrightarrow> before_end D (tsEndPKVals sh') r) \<and> ordered_ends D r (sh' # shs))"
| "ordered_ends D r _ = True"

lemma ordered_excludes:
  assumes "chained start shs" "ordered_ends D r shs" "start \<noteq> []" "before_end D start r"
    and "before_end D (tsEndPKVals (hd shs)) r"
  shows "filter (in_shard D r) shs = []"
  using assms
proof (induction start shs rule: chained.induct)
  case (2 start sh)
  then show ?case using not_before_end [of start D r] by (simp add: in_shard_def)
next
  case (3 start sh sh' shs)
  have "\<not> in_shard D r sh"
    using "3.prems" not_before_end [of start D r] by (simp add: in_shard_def)
  moreover have "filter (in_shard D r) (sh' # shs) = []"
    by (rule "3.IH") (use "3.prems" in simp_all)
  ultimately show ?case by simp
qed simp

lemma ordered_exactly_one:
  assumes "chained start shs" "ordered_ends D r shs" "not_before D start r"
  shows "length (filter (in_shard D r) shs) = 1"
  using assms
proof (induction start shs rule: chained.induct)
  case (2 start sh)
  then show ?case by (simp add: in_shard_def before_end_def)
next
  case (3 start sh sh' shs)
  show ?case
  proof (cases "before_end D (tsEndPKVals sh) r")
    case True
    have "filter (in_shard D r) (sh' # shs) = []"
      by (rule ordered_excludes [of "tsEndPKVals sh"]) (use "3.prems" True in simp_all)
    moreover have "in_shard D r sh" using "3.prems" True by (simp add: in_shard_def)
    ultimately show ?thesis by simp
  next
    case False
    have "length (filter (in_shard D r) (sh' # shs)) = 1"
      by (rule "3.IH") (use "3.prems" False not_before_end [of "tsEndPKVals sh" D r] in simp_all)
    moreover have "\<not> in_shard D r sh" using False by (simp add: in_shard_def)
    ultimately show ?thesis by simp
  qed
qed simp

section \<open>When the bounds are in order\<close>

text \<open>The split values of an integer key, without overflow.\<close>

definition int_bound :: "int \<Rightarrow> int \<Rightarrow> int \<Rightarrow> int \<Rightarrow> int" where
  "int_bound n lo hi k = lo + max ((hi - lo) div n) 1 * k"

definition no_overflow :: "int \<Rightarrow> int \<Rightarrow> int \<Rightarrow> bool" where
  "no_overflow n lo hi \<longleftrightarrow>
     is_int64 lo \<and> is_int64 hi \<and> is_int64 n \<and> lo \<le> hi \<and> (n \<le> hi - lo \<or> is_int64 (lo + n))"

lemma int_bound_in_range:
  assumes "no_overflow n lo hi" "1 \<le> k" "k < n" "is_int64 (hi - lo)"
  shows "is_int64 (max ((hi - lo) div n) 1 * k)" and "is_int64 (int_bound n lo hi k)"
proof -
  let ?q = "max ((hi - lo) div n) 1"
  have pos: "0 \<le> ?q * k" using assms(2) by simp
  have "?q * k \<le> hi - lo \<or> ?q * k \<le> n"
  proof (cases "n \<le> hi - lo")
    case True
    then have "0 < (hi - lo) div n" using assms(2,3) by (simp add: pos_imp_zdiv_pos_iff)
    then have q: "?q = (hi - lo) div n" by simp
    have "(hi - lo) div n * k \<le> (hi - lo) div n * n"
      using assms(2,3) True by (intro mult_left_mono) (simp_all add: pos_imp_zdiv_nonneg_iff)
    also have "\<dots> \<le> hi - lo"
      using minus_mod_eq_div_mult [of "hi - lo" n] pos_mod_sign [of n "hi - lo"] assms(2,3) by linarith
    finally show ?thesis using q by simp
  next
    case False
    then have "(hi - lo) div n = 0" using assms(1) by (simp add: no_overflow_def div_pos_pos_trivial)
    then show ?thesis using assms(3) by simp
  qed
  moreover have "n \<le> hi - lo \<or> ?q * k \<le> n \<and> is_int64 (lo + n)"
    using assms(1,3) by (auto simp: no_overflow_def div_pos_pos_trivial)
  ultimately have "?q * k \<le> hi - lo \<or> ?q * k \<le> n \<and> is_int64 (lo + n)"
    using assms(1) by auto
  then show "is_int64 (?q * k)" "is_int64 (int_bound n lo hi k)"
    using pos assms(1,4) unfolding is_int64_def int_bound_def no_overflow_def by linarith+
qed

text \<open>What the split relies on of integer datums: they are ordered as their values.\<close>

definition int_keys :: "'d datum_ops \<Rightarrow> 'd \<Rightarrow> bool" where
  "int_keys D lo \<longleftrightarrow> dFamily D lo = IntFamily \<and> three_way (dCompare D) \<and>
     (\<forall>a b. a \<le> b \<longrightarrow> dCompare D (dNewInt D a) (dNewInt D b) \<le> 0)"

lemma next_bound_int:
  assumes "dFamily D lo = IntFamily" "no_overflow n (soInt S lo) (soInt S hi)" "1 \<le> k" "k < n"
    and "next_bound D S n k lo hi = Some b"
  shows "b = dNewInt D (int_bound n (soInt S lo) (soInt S hi) k)"
proof -
  let ?l = "soInt S lo" and ?h = "soInt S hi"
  have pos: "0 < int64 (?h - ?l)" using assms(1,5) by (auto simp: next_bound_def Let_def split: if_splits)
  have rng: "0 \<le> ?h - ?l" "?h - ?l < 2 ^ 64" using assms(2) by (auto simp: no_overflow_def is_int64_def)
  have small: "is_int64 (?h - ?l)"
  proof (rule ccontr)
    assume "\<not> is_int64 (?h - ?l)"
    then have "2 ^ 63 \<le> ?h - ?l" using rng by (simp add: is_int64_def)
    then have "(?h - ?l + 2 ^ 63 - 2 ^ 64) mod 2 ^ 64 = ?h - ?l + 2 ^ 63 - 2 ^ 64"
      using rng by (intro mod_pos_pos_trivial) simp_all
    then have "int64 (?h - ?l) = ?h - ?l - 2 ^ 64"
      unfolding int64_def minus_mod_self2 by simp
    then show False using pos rng by simp
  qed
  note r = int_bound_in_range [OF assms(2-4) small, unfolded int_bound_def]
  show ?thesis
    using assms(1,5) pos unfolding next_bound_def int_bound_def
    by (simp add: Let_def int64_id [OF small] int64_id [OF r(1)] int64_id [OF r(2)])
qed

lemma before_end_mono:
  assumes "three_way (dCompare D)" "dCompare D a b \<le> 0" "before_end D [a] r"
  shows "before_end D [b] r"
  using assms three_way_less_trans [OF assms(1), of _ a b]
  by (cases r) (auto simp: before_end_def split: if_splits)

lemma split_loop_ordered:
  assumes "int_keys D lo" "no_overflow (int n) (soInt S lo) (soInt S hi)"
    and "split_loop D S tbl n lo hi k left start = Some shs" "1 \<le> k"
  shows "ordered_ends D r shs \<and>
    (shs \<noteq> [] \<longrightarrow> tsEndPKVals (hd shs) =
      (if k < n then [dNewInt D (int_bound (int n) (soInt S lo) (soInt S hi) (int k))] else []))"
  using assms(3,4)
proof (induction left arbitrary: k start shs)
  case (Suc left)
  let ?b = "\<lambda>k. dNewInt D (int_bound (int n) (soInt S lo) (soInt S hi) (int k))"
  have mono: "dCompare D (?b k) (?b (Suc k)) \<le> 0" for k
    using assms(1) by (auto simp: int_keys_def int_bound_def algebra_simps)
  show ?case
  proof (cases "k < n")
    case True
    then obtain b rest where *: "next_bound D S (int n) (int k) lo hi = Some b"
      "split_loop D S tbl n lo hi (Suc k) left [b] = Some rest" "shs = mk_shard tbl start [b] k n # rest"
      using Suc.prems(1) by (auto split: option.splits)
    have b: "b = ?b k"
      using next_bound_int [OF _ assms(2) _ _ *(1)] assms(1) True Suc.prems(2) by (simp add: int_keys_def)
    have IH: "ordered_ends D r rest" "rest \<noteq> [] \<longrightarrow> tsEndPKVals (hd rest) = (if Suc k < n then [?b (Suc k)] else [])"
      using Suc.IH [OF *(2)] by simp_all
    have "before_end D [b] r \<longrightarrow> before_end D (tsEndPKVals (hd rest)) r" if "rest \<noteq> []"
      using IH(2) that before_end_mono [OF _ mono, of k r] assms(1) b
      by (auto simp: int_keys_def before_end_def)
    then show ?thesis using IH(1) *(3) b True by (cases rest) (auto simp: mk_shard_def)
  next
    case False
    then obtain rest where "split_loop D S tbl n lo hi (Suc k) left [] = Some rest"
      "shs = mk_shard tbl start [] k n # rest"
      using Suc.prems(1) by auto
    then show ?thesis using Suc.IH [of "Suc k" "[]" rest] False
      by (cases rest) (auto simp: mk_shard_def before_end_def)
  qed
qed simp

end
