(* ===== verification/Shard_Properties.thy ===== *)
theory Shard_Properties
  imports Shard_Table Example_Db
begin

text \<open>
  Sharding is complete, and exact where the split values do not overflow.
\<close>

lemma full_scan_chained: "chained [] [mk_shard tbl [] [] 1 1]"
  by (simp add: mk_shard_def)

lemma ShardTable_cases:
  assumes "ShardTable D S conn tbl sent n = Some (Inr shs, sent')"
  shows "shs = [mk_shard tbl [] [] 1 1] \<or>
    (\<exists>minE maxE. n > 1 \<and> getTableExtremes conn tbl True = Some (Inr minE) \<and>
      getTableExtremes conn tbl False = Some (Inr maxE) \<and> minE \<noteq> [] \<and> maxE \<noteq> [] \<and>
      split_loop D S tbl (nat n) (hd minE) (hd maxE) 1 (nat n) [] = Some shs)"
proof (cases "n > 1")
  case True
  obtain minE maxE where E: "getTableExtremes conn tbl True = Some (Inr minE)"
    "getTableExtremes conn tbl False = Some (Inr maxE)"
    using assms True
    by (cases "getTableExtremes conn tbl True" rule: go_result_cases;
        cases "getTableExtremes conn tbl False" rule: go_result_cases) (auto simp: ShardTable_def)
  show ?thesis
  proof (cases "length minE = 0 \<or> length maxE = 0 \<or> length minE \<noteq> length maxE")
    case bad: True
    then show ?thesis using assms True E by (auto simp: ShardTable_def full_scan_def split: if_splits)
  next
    case False
    then show ?thesis
      using assms True E
      by (cases "split_loop D S tbl (nat n) (hd minE) (hd maxE) 1 (nat n) []")
         (simp_all add: ShardTable_def full_scan_def)
  qed
qed (use assms in \<open>auto simp: ShardTable_def full_scan_def split: if_splits\<close>)

lemma ShardTable_chained:
  assumes "ShardTable D S conn tbl sent n = Some (Inr shs, sent')"
  shows "chained [] shs"
  using ShardTable_cases [OF assms] full_scan_chained split_loop_chained [of D S tbl "nat n"] by fastforce

text \<open>C5: no row escapes. Whatever the table holds and however the split values come out (rounding and
  overflow included), every row lies in some shard that \<open>ShardTable\<close> returns.\<close>

theorem shards_cover_every_row:
  assumes "ShardTable D S conn tbl sent numSplits = Some (Inr shards, sent')"
  shows "\<exists>sh \<in> set shards. in_shard D r sh"
  using chained_covers [OF ShardTable_chained [OF assms]] by (simp add: not_before_def)

text \<open>C30: no row is verified twice. For an integer key whose extremes bound the table and whose split
  values stay within \<open>int64\<close>, every row lies in exactly one shard.\<close>

theorem shards_exactly_one:
  assumes "ShardTable D S conn tbl sent numSplits = Some (Inr shards, sent')"
    and "getTableExtremes conn tbl True = Some (Inr (lo # los))"
    and "getTableExtremes conn tbl False = Some (Inr (hi # his))"
    and "int_keys D lo" and "no_overflow numSplits (soInt S lo) (soInt S hi)"
  shows "length (filter (in_shard D r) shards) = 1"
  using ShardTable_cases [OF assms(1)]
proof
  assume "shards = [mk_shard tbl [] [] 1 1]"
  then show ?thesis by (simp add: mk_shard_def in_shard_def not_before_def before_end_def)
next
  assume "\<exists>minE maxE. numSplits > 1 \<and> getTableExtremes conn tbl True = Some (Inr minE) \<and>
      getTableExtremes conn tbl False = Some (Inr maxE) \<and> minE \<noteq> [] \<and> maxE \<noteq> [] \<and>
      split_loop D S tbl (nat numSplits) (hd minE) (hd maxE) 1 (nat numSplits) [] = Some shards"
  then have "1 < numSplits" "split_loop D S tbl (nat numSplits) lo hi 1 (nat numSplits) [] = Some shards"
    using assms(2,3) by auto
  then have "ordered_ends D r shards"
    using split_loop_ordered [of D lo "nat numSplits" S hi tbl 1 "nat numSplits" "[]" shards r] assms(4,5) by simp
  then show ?thesis
    by (intro ordered_exactly_one [OF ShardTable_chained [OF assms(1)]]) (simp_all add: not_before_def)
qed

text \<open>A table of integer keys, and a connection that answers the two queries for its extremes.\<close>

definition int_split :: "(int, int) split_ops" where
  "int_split = \<lparr>soInt = (\<lambda>d. d), soUuidHi = (\<lambda>d. d), soNewUuid = (\<lambda>i. i), soFloat = (\<lambda>d. d),
     soNewFloat = (\<lambda>d. d), fSub = (-), fAdd = (+), fMul = (*), fDiv = (div), fMax = max, fOfInt = (\<lambda>i. i),
     fLeZero = (\<lambda>i. i \<le> 0), fIsNaN = (\<lambda>i. False), fIsInf = (\<lambda>i. False)\<rparr>"

definition extremes_conn :: "int \<Rightarrow> int \<Rightarrow> int pg_conn" where
  "extremes_conn lo hi = (kv_conn [])\<lparr>pcQuery := \<lambda>s. Inr
     \<lparr>rsRows = [Inr [if snd (hd (selOrderBy s)) then hi else lo]], rsErr = None\<rparr>\<rparr>"

lemma extremes_conn_min: "getTableExtremes (extremes_conn lo hi) (kv_shard [] []) True = Some (Inr [lo])"
  and extremes_conn_max: "getTableExtremes (extremes_conn lo hi) (kv_shard [] []) False = Some (Inr [hi])"
  by (simp_all add: getTableExtremes_def extremes_conn_def kv_conn_def kv_shard_def buildSelectForSplitPG_def)

theorem shards_cover_every_row_witness:
  "\<exists>shards. ShardTable int_datums int_split (extremes_conn 0 100) (kv_shard [] []) None 3 = Some (Inr shards, None) \<and>
    (\<exists>sh \<in> set shards. in_shard int_datums [40, 7] sh)"
proof -
  have "\<exists>shards. ShardTable int_datums int_split (extremes_conn 0 100) (kv_shard [] []) None 3 = Some (Inr shards, None)"
    by (simp add: ShardTable_def extremes_conn_min extremes_conn_max numeral_3_eq_3 next_bound_def int_datums_def
        int_split_def int64_def)
  then show ?thesis using shards_cover_every_row by blast
qed

theorem shards_exactly_one_witness:
  "\<exists>shards. ShardTable int_datums int_split (extremes_conn 0 100) (kv_shard [] []) None 3 = Some (Inr shards, None) \<and>
    length shards = 3 \<and> length (filter (in_shard int_datums [40, 7]) shards) = 1"
proof -
  obtain shards where run: "ShardTable int_datums int_split (extremes_conn 0 100) (kv_shard [] []) None 3 =
      Some (Inr shards, None)" "length shards = 3"
    by (simp add: ShardTable_def extremes_conn_min extremes_conn_max numeral_3_eq_3 next_bound_def int_datums_def
        int_split_def int64_def)
  have "int_keys int_datums 0" "no_overflow 3 (soInt int_split 0) (soInt int_split 100)"
    by (simp_all add: int_keys_def int_datums_def three_way_cmp_ord no_overflow_def is_int64_def int_split_def,
        simp add: cmp_ord_def)
  from shards_exactly_one [OF run(1) extremes_conn_min extremes_conn_max this, of "[40, 7]"] run
  show ?thesis by auto
qed

text \<open>Near the end of the \<open>int64\<close> range the split values wrap around and shards overlap: with keys
  \<open>2^63 - 2\<close> and \<open>2^63 - 1\<close> and three splits, the smaller key lies in two shards, so its row is
  verified, counted and reported twice.\<close>

theorem shards_overlap_on_overflow:
  "\<exists>shards. ShardTable int_datums int_split (extremes_conn (2 ^ 63 - 2) (2 ^ 63 - 1)) (kv_shard [] []) None 3 =
      Some (Inr shards, None) \<and>
    length (filter (in_shard int_datums [2 ^ 63 - 2, 0]) shards) = 2"
  by (simp add: ShardTable_def extremes_conn_min extremes_conn_max numeral_3_eq_3 next_bound_def int_datums_def
      int_split_def int64_def mk_shard_def in_shard_def not_before_def before_end_def cmp_ord_def)

end
