(* ===== verification/Db_Verify.thy ===== *)
theory Db_Verify
  imports Inconsistency
begin

text \<open>
  Packages \<open>verify/dbverify\<close> (which tables both databases have) and \<open>utils/obj_filter.go\<close> (which of
  them are verified).

  A database's system catalog is known through the answers to the queries the tool sends: a
  \<open>catalog\<close> record, one field per query. \<open>sort.Slice\<close> leaves the order of equal elements open: the
  sorting function is an argument, with \<open>sorts_tables\<close> as its contract. The regular expression
  engine is an argument too (\<open>CompilePOSIX\<close>, returning the match predicate).
\<close>

section \<open>Catalog queries\<close>

text \<open>The answer to one query: the decoded rows (or the decoding error of a row) and \<open>rows.Err()\<close>.\<close>

record 'a cat_rows =
  crRows :: "'a result list"
  crErr :: "go_error option"

record pg_column =
  colName :: string
  colOID :: oid
  colNotNull :: bool
  colCollation :: "string option"  \<comment> \<open>\<open>sql.NullString\<close>\<close>

datatype codec = EnumCodec | ArrayCodec pg_type | OtherCodec
and pg_type = PGType (ptName: string) (ptOID: oid) (ptCodec: codec)

record catalog =
  catIsPG :: bool
  catID :: string
  catTables :: "(oid \<times> string \<times> string) cat_rows result"   \<comment> \<open>oid, relname, nspname\<close>
  catDefaultCollation :: "string result"
  catColumns :: "oid \<Rightarrow> pg_column cat_rows result"
  catPrimaryKey :: "oid \<Rightarrow> string cat_rows result"
  catDataType :: "oid \<Rightarrow> pg_type result"

text \<open>The loop \<open>for rows.Next() { rows.Scan(...) }\<close>: the rows before the first decoding error, and
  that error.\<close>

fun scan_rows :: "'a result list \<Rightarrow> 'a list \<times> go_error option" where
  "scan_rows [] = ([], None)"
| "scan_rows (Inl e # rs) = ([], Some e)"
| "scan_rows (Inr x # rs) = (case scan_rows rs of (xs, e) \<Rightarrow> (x # xs, e))"

lemma scan_rows_all [simp]: "scan_rows (map Inr xs) = (xs, None)"
  by (induction xs) auto

section \<open>utils.Result and its filter\<close>

record obj_result =
  orVerified :: "(db_table \<times> db_table) list"
  orMissingTables :: "db_table list"
  orExtraneousTables :: "db_table list"

definition empty_result :: obj_result where
  "empty_result = \<lparr>orVerified = [], orMissingTables = [], orExtraneousTables = []\<rparr>"

record filter_config =
  fcSchemaFilter :: string
  fcTableFilter :: string
  fcExcludeSchemaFilter :: string
  fcExcludeTableFilter :: string

definition DefaultFilterString :: string where
  "DefaultFilterString = ''.*''"

definition DefaultFilterConfig :: filter_config where
  "DefaultFilterConfig =
     \<lparr>fcSchemaFilter = DefaultFilterString, fcTableFilter = DefaultFilterString,
      fcExcludeSchemaFilter = [], fcExcludeTableFilter = []\<rparr>"

type_synonym matcher = "string \<Rightarrow> bool"
type_synonym regexp_engine = "string \<Rightarrow> matcher result"

definition defaultFilterString :: "string \<Rightarrow> string" where
  "defaultFilterString p = (if p = [] then DefaultFilterString else p)"

definition MatchesFilter :: "('x) table_name_scheme \<Rightarrow> matcher \<Rightarrow> matcher \<Rightarrow> bool" where
  "MatchesFilter n schemaRe tableRe \<longleftrightarrow> schemaRe (tnSchema n) \<and> tableRe (tnTable n)"

definition matchesFilters ::
  "('x) table_name_scheme \<Rightarrow> matcher \<Rightarrow> matcher \<Rightarrow> matcher option \<Rightarrow> matcher option \<Rightarrow> bool" where
  "matchesFilters n includeSchemaRe includeTableRe excludeSchemaRe excludeTableRe =
     (if \<not> MatchesFilter n includeSchemaRe includeTableRe then False
      else (case (excludeSchemaRe, excludeTableRe) of
          (Some s, Some t) \<Rightarrow> \<not> MatchesFilter n s t
        | _ \<Rightarrow> True))"

definition filter_tables :: "(db_table \<Rightarrow> bool) \<Rightarrow> obj_result \<Rightarrow> obj_result" where
  "filter_tables keep r =
     \<lparr>orVerified = filter (\<lambda>v. keep (fst v)) (orVerified r),
      orMissingTables = filter keep (orMissingTables r),
      orExtraneousTables = filter keep (orExtraneousTables r)\<rparr>"

lemma filter_tables_cong:
  assumes "\<And>t. t \<in> fst ` set (orVerified r) \<union> set (orMissingTables r) \<union> set (orExtraneousTables r) \<Longrightarrow> P t = Q t"
  shows "filter_tables P r = filter_tables Q r"
  using assms by (auto simp: filter_tables_def intro!: filter_cong)

text \<open>The new slices reuse the old ones' memory (\<open>r.Verified[:0]\<close>); each element is read before its
  cell is overwritten, so the result is the filtered list.\<close>

definition FilterResult :: "regexp_engine \<Rightarrow> filter_config \<Rightarrow> obj_result \<Rightarrow> obj_result result" where
  "FilterResult re cfg r =
     (let hasExclude = (fcExcludeSchemaFilter cfg \<noteq> [] \<or> fcExcludeTableFilter cfg \<noteq> [])
      in if fcSchemaFilter cfg = DefaultFilterString \<and> fcTableFilter cfg = DefaultFilterString \<and> \<not> hasExclude
         then Inr r
         else (case re (fcSchemaFilter cfg) of Inl e \<Rightarrow> Inl e | Inr schemaRe \<Rightarrow>
              (case re (fcTableFilter cfg) of Inl e \<Rightarrow> Inl e | Inr tableRe \<Rightarrow>
                 if hasExclude
                 then (case re (defaultFilterString (fcExcludeSchemaFilter cfg)) of Inl e \<Rightarrow> Inl e
                       | Inr xs \<Rightarrow>
                        (case re (defaultFilterString (fcExcludeTableFilter cfg)) of Inl e \<Rightarrow> Inl e
                         | Inr xt \<Rightarrow>
                             Inr (filter_tables (\<lambda>n. matchesFilters n schemaRe tableRe (Some xs) (Some xt)) r)))
                 else Inr (filter_tables (\<lambda>n. matchesFilters n schemaRe tableRe None None) r))))"

definition AllTablesFromSource :: "obj_result \<Rightarrow> db_table list" where
  "AllTablesFromSource r = map fst (orVerified r) @ orMissingTables r"

section \<open>compare\<close>

record table_iterator =
  tiTables :: "db_table list"
  tiCurrIdx :: nat

definition ti_done :: "table_iterator \<Rightarrow> bool" where
  "ti_done c \<longleftrightarrow> tiCurrIdx c \<ge> length (tiTables c)"

definition ti_next :: "table_iterator \<Rightarrow> table_iterator" where
  "ti_next c = c\<lparr>tiCurrIdx := tiCurrIdx c + 1\<rparr>"

definition ti_curr :: "table_iterator \<Rightarrow> db_table option" where
  "ti_curr c = go_nth (tiTables c) (tiCurrIdx c)"

definition ti_left :: "table_iterator \<Rightarrow> nat" where
  "ti_left c = length (tiTables c) - tiCurrIdx c"

lemma ti_left_next [simp]: "ti_left (ti_next c) = ti_left c - 1"
  by (simp add: ti_left_def ti_next_def)

lemma ti_not_done: "\<not> ti_done c \<Longrightarrow> 0 < ti_left c"
  by (simp add: ti_left_def ti_done_def)

definition add_extraneous :: "db_table \<Rightarrow> obj_result \<Rightarrow> obj_result" where
  "add_extraneous t ret = ret\<lparr>orExtraneousTables := orExtraneousTables ret @ [t]\<rparr>"

definition add_missing :: "db_table \<Rightarrow> obj_result \<Rightarrow> obj_result" where
  "add_missing t ret = ret\<lparr>orMissingTables := orMissingTables ret @ [t]\<rparr>"

definition add_verified :: "db_table \<Rightarrow> db_table \<Rightarrow> obj_result \<Rightarrow> obj_result" where
  "add_verified t g ret = ret\<lparr>orVerified := orVerified ret @ [(t, g)]\<rparr>"

function drain_tables :: "table_iterator \<Rightarrow> obj_result \<Rightarrow> obj_result option" where
  "drain_tables it ret =
     (if ti_done it then Some ret
      else do { g \<leftarrow> ti_curr it; drain_tables (ti_next it) (add_extraneous g ret) })"
  by pat_completeness auto
termination by (relation "measure (\<lambda>(it, ret). ti_left it)") (auto dest: ti_not_done)

text \<open>\<open>DBTable.Compare\<close> returns -1, 0 or 1, so the three cases of the switch are all there are.\<close>

function compare :: "(string \<Rightarrow> string) \<Rightarrow> table_iterator \<Rightarrow> table_iterator \<Rightarrow> obj_result \<Rightarrow> obj_result option" where
  "compare lw truth nonTruth ret =
     (if ti_done truth then drain_tables nonTruth ret
      else do {
        t \<leftarrow> ti_curr truth;
        compareVal \<leftarrow> (if ti_done nonTruth then Some 1
                       else do { g \<leftarrow> ti_curr nonTruth; Some (DBTable_Compare lw g t) });
        (if compareVal = 1 then compare lw (ti_next truth) nonTruth (add_missing t ret)
         else if compareVal = 0 then do {
           g \<leftarrow> ti_curr nonTruth;
           compare lw (ti_next truth) (ti_next nonTruth) (add_verified t g ret)
         } else if compareVal = - 1 \<and> \<not> ti_done nonTruth then do {
           g \<leftarrow> ti_curr nonTruth;
           compare lw truth (ti_next nonTruth) (add_extraneous g ret)
         } else None)
      })"
  by pat_completeness auto
termination
  by (relation "measure (\<lambda>(lw, a, b, ret). ti_left a + ti_left b)") (auto dest: ti_not_done)

declare drain_tables.simps [simp del] compare.simps [simp del]

section \<open>Verify\<close>

text \<open>The tables of one connection. \<open>rows.Err()\<close> is tested, but the value wrapped is the (nil) error of
  \<open>Query\<close>, and wrapping nil gives nil: the function then returns an empty result and no error
  (\<open>Left None\<close> below).\<close>

definition mk_db_table :: "oid \<times> string \<times> string \<Rightarrow> db_table" where
  "mk_db_table r = (case r of (o', rel, nsp) \<Rightarrow>
     \<lparr>tnSchema = nsp, tnTable = rel, dtOID = o', dtLocalityExpr = []\<rparr>)"

definition conn_tables ::
  "(db_table list \<Rightarrow> db_table list) \<Rightarrow> catalog \<Rightarrow> go_error option + db_table list" where
  "conn_tables srt c =
     (if \<not> catIsPG c then Inl (Some (ErrMsg ''only PG connections are supported''))
      else (case catTables c of
          Inl e \<Rightarrow> Inl (Some e)
        | Inr rows \<Rightarrow>
            (case scan_rows (crRows rows) of
               (tms, Some e) \<Rightarrow> Inl (Some (ErrWrap ''error decoding tables metadata'' e))
             | (tms, None) \<Rightarrow>
                 (if crErr rows \<noteq> None then Inl None
                  else Inr (srt (map mk_db_table tms))))))"

definition dbverify_Verify ::
  "(string \<Rightarrow> string) \<Rightarrow> (db_table list \<Rightarrow> db_table list) \<Rightarrow> catalog \<times> catalog \<Rightarrow> obj_result result option" where
  "dbverify_Verify lw srt conns =
     (case conn_tables srt (fst conns) of
        Inl (Some e) \<Rightarrow> Some (Inl e)
      | Inl None \<Rightarrow> Some (Inr empty_result)
      | Inr tms1 \<Rightarrow>
          (case conn_tables srt (snd conns) of
             Inl (Some e) \<Rightarrow> Some (Inl e)
           | Inl None \<Rightarrow> Some (Inr empty_result)
           | Inr tms2 \<Rightarrow>
               map_option Inr (compare lw \<lparr>tiTables = tms1, tiCurrIdx = 0\<rparr>
                 \<lparr>tiTables = tms2, tiCurrIdx = 0\<rparr> empty_result)))"

text \<open>The contract of \<open>sort.Slice\<close> with \<open>Less\<close>: a permutation in which no element is less than an
  earlier one.\<close>

definition sorts_tables :: "(string \<Rightarrow> string) \<Rightarrow> (db_table list \<Rightarrow> db_table list) \<Rightarrow> bool" where
  "sorts_tables lw srt \<longleftrightarrow>
     (\<forall>xs. mset (srt xs) = mset xs \<and> sorted_wrt (\<lambda>a b. \<not> DBTable_Less lw b a) (srt xs))"

section \<open>compare computes the difference of the two sets of tables\<close>

definition cons_extraneous :: "db_table \<Rightarrow> obj_result \<Rightarrow> obj_result" where
  "cons_extraneous g r = r\<lparr>orExtraneousTables := g # orExtraneousTables r\<rparr>"

definition cons_missing :: "db_table \<Rightarrow> obj_result \<Rightarrow> obj_result" where
  "cons_missing t r = r\<lparr>orMissingTables := t # orMissingTables r\<rparr>"

definition cons_verified :: "db_table \<times> db_table \<Rightarrow> obj_result \<Rightarrow> obj_result" where
  "cons_verified p r = r\<lparr>orVerified := p # orVerified r\<rparr>"

fun compare_lists :: "(string \<Rightarrow> string) \<Rightarrow> db_table list \<Rightarrow> db_table list \<Rightarrow> obj_result" where
  "compare_lists lw [] gs = \<lparr>orVerified = [], orMissingTables = [], orExtraneousTables = gs\<rparr>"
| "compare_lists lw (t # ts) [] = cons_missing t (compare_lists lw ts [])"
| "compare_lists lw (t # ts) (g # gs) =
     (if key_less (table_key lw g) (table_key lw t) then cons_extraneous g (compare_lists lw (t # ts) gs)
      else if table_key lw g = table_key lw t then cons_verified (t, g) (compare_lists lw ts gs)
      else cons_missing t (compare_lists lw ts (g # gs)))"

lemmas cons_result_defs = cons_extraneous_def cons_missing_def cons_verified_def

definition append_result :: "obj_result \<Rightarrow> obj_result \<Rightarrow> obj_result" where
  "append_result a b =
     \<lparr>orVerified = orVerified a @ orVerified b, orMissingTables = orMissingTables a @ orMissingTables b,
      orExtraneousTables = orExtraneousTables a @ orExtraneousTables b\<rparr>"

definition ti_rest :: "table_iterator \<Rightarrow> db_table list" where
  "ti_rest c = drop (tiCurrIdx c) (tiTables c)"

lemma ti_rest_Nil: "ti_rest c = [] \<longleftrightarrow> ti_done c"
  by (simp add: ti_rest_def ti_done_def)

lemma ti_rest_Cons:
  assumes "ti_rest c = x # xs"
  shows "\<not> ti_done c" and "ti_curr c = Some x" and "ti_rest (ti_next c) = xs"
proof -
  have lt: "tiCurrIdx c < length (tiTables c)"
    using assms by (metis drop_all list.distinct(1) not_le ti_rest_def)
  then have "ti_rest c = tiTables c ! tiCurrIdx c # drop (Suc (tiCurrIdx c)) (tiTables c)"
    by (simp add: ti_rest_def Cons_nth_drop_Suc)
  with assms lt show "\<not> ti_done c" "ti_curr c = Some x" "ti_rest (ti_next c) = xs"
    by (simp_all add: ti_done_def ti_curr_def ti_rest_def ti_next_def)
qed

lemma drain_tables_spec:
  "drain_tables it ret = Some (ret\<lparr>orExtraneousTables := orExtraneousTables ret @ ti_rest it\<rparr>)"
proof (induction "ti_rest it" arbitrary: it ret)
  case Nil
  then show ?case using ti_rest_Nil [of it] by (simp add: drain_tables.simps)
next
  case (Cons g gs)
  note c = ti_rest_Cons [OF Cons(2) [symmetric]]
  from Cons(1) [OF c(3) [symmetric]] c Cons(2) [symmetric] show ?case
    by (subst drain_tables.simps) (simp add: add_extraneous_def)
qed

lemma compare_spec: "compare lw a b ret = Some (append_result ret (compare_lists lw (ti_rest a) (ti_rest b)))"
proof (induction lw "ti_rest a" "ti_rest b" arbitrary: a b ret rule: compare_lists.induct)
  case 1
  then show ?case
    using ti_rest_Nil [of a] by (subst compare.simps) (simp add: drain_tables_spec append_result_def)
next
  case (2 lw t ts)
  note h = 2(2,3)
  note c = ti_rest_Cons [OF h(1) [symmetric]]
  have d: "ti_done b" using h(2) ti_rest_Nil [of b] by simp
  show ?case
    using 2(1) [OF c(3) [symmetric] h(2), of "add_missing t ret"] c d h [symmetric]
    by (subst compare.simps) (simp add: append_result_def add_missing_def cons_missing_def)
next
  case (3 lw t ts g gs)
  note h = 3(4,5)
  note a = ti_rest_Cons [OF h(1) [symmetric]] and b = ti_rest_Cons [OF h(2) [symmetric]]
  note eqs = h [symmetric]
  consider "key_less (table_key lw g) (table_key lw t)"
    | "\<not> key_less (table_key lw g) (table_key lw t)" "table_key lw g = table_key lw t"
    | "\<not> key_less (table_key lw g) (table_key lw t)" "table_key lw g \<noteq> table_key lw t" by blast
  then show ?case
  proof cases
    case 1
    then show ?thesis
      using 3(1) [OF 1 h(1) b(3) [symmetric], of "add_extraneous g ret"] a b eqs
      by (subst compare.simps) (simp add: DBTable_Compare_cases append_result_def add_extraneous_def cons_extraneous_def)
  next
    case 2
    then show ?thesis
      using 3(2) [OF 2 a(3) [symmetric] b(3) [symmetric], of "add_verified t g ret"] a b eqs
      by (subst compare.simps) (simp add: DBTable_Compare_cases append_result_def add_verified_def cons_verified_def)
  next
    case c: 3
    then show ?thesis
      using 3(3) [OF c a(3) [symmetric] h(2), of "add_missing t ret"] a b eqs
      by (subst compare.simps) (simp add: DBTable_Compare_cases append_result_def add_missing_def cons_missing_def)
  qed
qed

section \<open>The difference, for tables with distinct keys\<close>

definition key_sorted :: "(string \<Rightarrow> string) \<Rightarrow> db_table list \<Rightarrow> bool" where
  "key_sorted lw ts \<longleftrightarrow> sorted_wrt (\<lambda>a b. key_less (table_key lw a) (table_key lw b)) ts"

definition common_tables :: "(string \<Rightarrow> string) \<Rightarrow> db_table list \<Rightarrow> db_table list \<Rightarrow> (db_table \<times> db_table) list" where
  "common_tables lw ts gs = concat (map (\<lambda>t. map (Pair t) (filter (\<lambda>g. table_key lw g = table_key lw t) gs)) ts)"

lemma key_less_trans: "key_less a b \<Longrightarrow> key_less b c \<Longrightarrow> key_less a c"
  by (auto simp: key_less_def)

lemma key_less_irrefl [simp]: "\<not> key_less a a"
  by (simp add: key_less_def)

lemma key_less_total: "key_less a b \<or> a = b \<or> key_less b a"
  by (auto simp: key_less_def prod_eq_iff)

lemma key_sorted_Cons:
  "key_sorted lw (t # ts) \<longleftrightarrow> (\<forall>u \<in> set ts. key_less (table_key lw t) (table_key lw u)) \<and> key_sorted lw ts"
  by (auto simp: key_sorted_def)

lemma compare_lists_spec:
  assumes "key_sorted lw ts" "key_sorted lw gs"
  shows "compare_lists lw ts gs =
    \<lparr>orVerified = common_tables lw ts gs,
     orMissingTables = filter (\<lambda>t. table_key lw t \<notin> table_key lw ` set gs) ts,
     orExtraneousTables = filter (\<lambda>g. table_key lw g \<notin> table_key lw ` set ts) gs\<rparr>"
  using assms
proof (induction lw ts gs rule: compare_lists.induct)
  case (1 lw gs)
  then show ?case by (simp add: common_tables_def)
next
  case (2 lw t ts)
  then show ?case by (simp add: common_tables_def key_sorted_Cons cons_result_defs)
next
  case (3 lw t ts g gs)
  have ts: "\<And>u. u \<in> set ts \<Longrightarrow> key_less (table_key lw t) (table_key lw u)" "key_sorted lw ts"
    and gs: "\<And>u. u \<in> set gs \<Longrightarrow> key_less (table_key lw g) (table_key lw u)" "key_sorted lw gs"
    using "3.prems" by (auto simp: key_sorted_Cons)
  consider "key_less (table_key lw g) (table_key lw t)"
    | "\<not> key_less (table_key lw g) (table_key lw t)" "table_key lw g = table_key lw t"
    | "\<not> key_less (table_key lw g) (table_key lw t)" "key_less (table_key lw t) (table_key lw g)"
    using key_less_total [of "table_key lw g" "table_key lw t"] by auto
  then show ?case
  proof cases
    case 1
    have n: "\<forall>u \<in> set (t # ts). table_key lw u \<noteq> table_key lw g"
      using 1 ts key_less_trans [of "table_key lw g" "table_key lw t"] key_less_irrefl by fastforce
    then have "table_key lw g \<notin> table_key lw ` set ts" "\<forall>u \<in> set ts. table_key lw g \<noteq> table_key lw u" by auto
    with n show ?thesis using "3.IH"(1) [OF 1 "3.prems"(1) gs(2)] 1
      by (auto simp: common_tables_def cons_result_defs intro!: filter_cong arg_cong [where f = concat])
  next
    case 2
    have "\<forall>u \<in> set gs. table_key lw u \<noteq> table_key lw g" using gs(1) by fastforce
    moreover have "\<forall>u \<in> set ts. table_key lw u \<noteq> table_key lw t" "table_key lw t \<notin> table_key lw ` set ts"
      using ts(1) by fastforce+
    ultimately show ?thesis using "3.IH"(2) [OF 2 ts(2) gs(2)] 2
      by (auto simp: common_tables_def cons_result_defs filter_empty_conv intro!: filter_cong arg_cong [where f = concat])
  next
    case c: 3
    have n: "\<forall>u \<in> set (g # gs). table_key lw u \<noteq> table_key lw t"
      using c gs key_less_trans [of "table_key lw t" "table_key lw g"] key_less_irrefl by fastforce
    then have "table_key lw g \<noteq> table_key lw t" "table_key lw t \<notin> table_key lw ` set gs" by auto
    with n show ?thesis using "3.IH"(3) [OF c(1) _ ts(2) "3.prems"(2)] c
      by (auto simp: common_tables_def cons_result_defs filter_empty_conv intro!: filter_cong)
  qed
qed

end
