(* ===== verification/Db_Properties.thy ===== *)
theory Db_Properties
  imports Db_Verify
begin

text \<open>Guarantees of the database-level comparison and of the table filter.\<close>

section \<open>Common, missing and extraneous tables\<close>

text \<open>A catalog that answers with exactly the tables \<open>tms\<close>, no two of which have the same key.\<close>

definition lists_tables :: "(string \<Rightarrow> string) \<Rightarrow> catalog \<Rightarrow> (oid \<times> string \<times> string) list \<Rightarrow> bool" where
  "lists_tables lw c tms \<longleftrightarrow>
     catIsPG c \<and> catTables c = Inr \<lparr>crRows = map Inr tms, crErr = None\<rparr> \<and>
     distinct (map (\<lambda>r. table_key lw (mk_db_table r)) tms)"

lemma conn_tables_ok:
  "lists_tables lw c tms \<Longrightarrow> conn_tables srt c = Inr (srt (map mk_db_table tms))"
  by (simp add: lists_tables_def conn_tables_def)

lemma strict_keys:
  "sorted_wrt (\<lambda>a b. \<not> DBTable_Less lw b a) ys \<Longrightarrow> distinct (map (table_key lw) ys) \<Longrightarrow> key_sorted lw ys"
proof (induction ys)
  case (Cons y ys)
  have "key_less (table_key lw y) (table_key lw u)" if "u \<in> set ys" for u
    using Cons.prems that key_less_total [of "table_key lw y" "table_key lw u"] by (auto simp: DBTable_Less_iff)
  then show ?case using Cons by (simp add: key_sorted_Cons)
qed (simp add: key_sorted_def)

lemma sorted_distinct_keys:
  assumes "sorts_tables lw srt" "distinct (map (table_key lw) xs)"
  shows "key_sorted lw (srt xs)" and "mset (srt xs) = mset xs" and "distinct (map (table_key lw) (srt xs))"
proof -
  show m: "mset (srt xs) = mset xs" using assms(1) by (simp add: sorts_tables_def)
  show d: "distinct (map (table_key lw) (srt xs))"
    using assms(2) m by (metis mset_eq_imp_distinct_iff mset_map)
  show "key_sorted lw (srt xs)" by (rule strict_keys [OF _ d]) (use assms(1) in \<open>simp add: sorts_tables_def\<close>)
qed

lemma common_tables_fst:
  assumes "distinct (map (table_key lw) gs)"
  shows "map fst (common_tables lw ts gs) = filter (\<lambda>t. table_key lw t \<in> table_key lw ` set gs) ts"
proof (induction ts)
  case (Cons t ts)
  have "map fst (map (Pair t) (filter (\<lambda>g. table_key lw g = table_key lw t) gs)) =
      (if table_key lw t \<in> table_key lw ` set gs then [t] else [])"
    using assms
  proof (induction gs)
    case (Cons g gs)
    then show ?case by (auto simp: filter_empty_conv)
  qed simp
  then show ?case using Cons by (simp add: common_tables_def)
qed (simp add: common_tables_def)

lemma filter_partition_mset: "mset (filter P xs) + mset (filter (\<lambda>x. \<not> P x) xs) = mset xs"
  by (induction xs) auto

text \<open>C22: the database comparison is exact up to case. With a sort that meets its contract, catalogs that
  can be read and, on each side, no two tables whose schema and name agree after \<open>strings.ToLower\<close>,
  \<open>Verify\<close> pairs the tables whose lower-cased names both sides have, lists as missing those only the
  source of truth has and as extraneous those only the target has; every source table is either
  verified or missing, once.\<close>

theorem dbverify_exact:
  fixes tms1 tms2
  assumes "sorts_tables lw srt" and "lists_tables lw c1 tms1" and "lists_tables lw c2 tms2"
  defines "T1 \<equiv> map mk_db_table tms1" and "T2 \<equiv> map mk_db_table tms2"
  shows "\<exists>r. dbverify_Verify lw srt (c1, c2) = Some (Inr r) \<and>
    set (orVerified r) = {(t, g). t \<in> set T1 \<and> g \<in> set T2 \<and> table_key lw t = table_key lw g} \<and>
    set (orMissingTables r) = {t \<in> set T1. table_key lw t \<notin> table_key lw ` set T2} \<and>
    set (orExtraneousTables r) = {g \<in> set T2. table_key lw g \<notin> table_key lw ` set T1} \<and>
    mset (AllTablesFromSource r) = mset T1"
proof -
  have d: "distinct (map (table_key lw) T1)" "distinct (map (table_key lw) T2)"
    using assms(2,3) by (simp_all add: lists_tables_def T1_def T2_def comp_def)
  note s1 = sorted_distinct_keys [OF assms(1) d(1)] and s2 = sorted_distinct_keys [OF assms(1) d(2)]
  have sets: "set (srt T1) = set T1" "set (srt T2) = set T2"
    using s1(2) s2(2) by (metis set_mset_mset)+
  let ?r = "compare_lists lw (srt T1) (srt T2)"
  have run: "dbverify_Verify lw srt (c1, c2) = Some (Inr ?r)"
    using conn_tables_ok [OF assms(2)] conn_tables_ok [OF assms(3)]
    by (simp add: dbverify_Verify_def compare_spec ti_rest_def append_result_def empty_result_def
        T1_def T2_def)
  have "mset (AllTablesFromSource ?r) = mset T1"
    unfolding AllTablesFromSource_def compare_lists_spec [OF s1(1) s2(1)]
    using common_tables_fst [OF s2(3)] filter_partition_mset s1(2) by simp
  moreover have "set (orVerified ?r) = {(t, g). t \<in> set T1 \<and> g \<in> set T2 \<and> table_key lw t = table_key lw g}"
    "set (orMissingTables ?r) = {t \<in> set T1. table_key lw t \<notin> table_key lw ` set T2}"
    "set (orExtraneousTables ?r) = {g \<in> set T2. table_key lw g \<notin> table_key lw ` set T1}"
    unfolding compare_lists_spec [OF s1(1) s2(1)] by (auto simp: common_tables_def sets)
  ultimately show ?thesis using run by blast
qed

text \<open>Insertion by key order, a sort that meets the contract.\<close>

fun ins_table :: "(string \<Rightarrow> string) \<Rightarrow> db_table \<Rightarrow> db_table list \<Rightarrow> db_table list" where
  "ins_table lw t [] = [t]"
| "ins_table lw t (u # us) = (if DBTable_Less lw u t then u # ins_table lw t us else t # u # us)"

lemma ins_table_mset [simp]: "mset (ins_table lw t us) = add_mset t (mset us)"
  by (induction us) auto

lemma ins_table_set [simp]: "set (ins_table lw t us) = insert t (set us)"
  by (metis ins_table_mset set_mset_add_mset_insert set_mset_mset)

lemma not_less_trans_tables:
  "\<not> DBTable_Less lw b a \<Longrightarrow> \<not> DBTable_Less lw c b \<Longrightarrow> \<not> DBTable_Less lw c a"
  unfolding DBTable_Less_iff by (metis key_less_total key_less_trans)

lemma ins_table_sorted:
  "sorted_wrt (\<lambda>a b. \<not> DBTable_Less lw b a) us \<Longrightarrow> sorted_wrt (\<lambda>a b. \<not> DBTable_Less lw b a) (ins_table lw t us)"
proof (induction us)
  case (Cons u us)
  have "\<not> DBTable_Less lw t u" if "DBTable_Less lw u t"
    using that unfolding DBTable_Less_iff by (metis key_less_irrefl key_less_trans)
  then show ?case using Cons not_less_trans_tables by auto
qed simp

lemma sorts_tables_ins: "sorts_tables lw (\<lambda>xs. foldr (ins_table lw) xs [])"
  unfolding sorts_tables_def
proof (intro allI conjI)
  fix xs
  show "mset (foldr (ins_table lw) xs []) = mset xs" by (induction xs) auto
  show "sorted_wrt (\<lambda>a b. \<not> DBTable_Less lw b a) (foldr (ins_table lw) xs [])"
    by (induction xs) (auto intro: ins_table_sorted)
qed

definition catalog_of :: "(oid \<times> string \<times> string) list \<Rightarrow> catalog" where
  "catalog_of tms =
     \<lparr>catIsPG = True, catID = ''db'', catTables = Inr \<lparr>crRows = map Inr tms, crErr = None\<rparr>,
      catDefaultCollation = Inr ''C'', catColumns = (\<lambda>t. Inr \<lparr>crRows = [], crErr = None\<rparr>),
      catPrimaryKey = (\<lambda>t. Inr \<lparr>crRows = [], crErr = None\<rparr>),
      catDataType = (\<lambda>t. Inr (PGType ''int8'' 20 OtherCodec))\<rparr>"

theorem dbverify_exact_witness:
  "\<exists>r. dbverify_Verify (\<lambda>s. s) (\<lambda>xs. foldr (ins_table (\<lambda>s. s)) xs [])
      (catalog_of [(2, ''b'', ''public''), (1, ''a'', ''public'')], catalog_of [(3, ''b'', ''public''), (4, ''c'', ''public'')]) =
      Some (Inr r) \<and>
    mset (AllTablesFromSource r) = {#mk_db_table (1, ''a'', ''public''), mk_db_table (2, ''b'', ''public'')#} \<and>
    set (orMissingTables r) = {mk_db_table (1, ''a'', ''public'')}"
proof -
  have l: "lists_tables (\<lambda>s. s) (catalog_of [(2, ''b'', ''public''), (1, ''a'', ''public'')]) [(2, ''b'', ''public''), (1, ''a'', ''public'')]"
    "lists_tables (\<lambda>s. s) (catalog_of [(3, ''b'', ''public''), (4, ''c'', ''public'')]) [(3, ''b'', ''public''), (4, ''c'', ''public'')]"
    by (simp_all add: lists_tables_def catalog_of_def mk_db_table_def table_key_def ToLower_def is_ascii_def to_lower_char_def
        less_eq_char_def of_char_def)
  have k: "table_key (\<lambda>s. s) (mk_db_table (o', n, ''public'')) = (''public'', ToLower (\<lambda>s. s) n)" for o' n
    by (simp add: mk_db_table_def table_key_def ToLower_def is_ascii_def to_lower_char_def less_eq_char_def of_char_def)
  have low: "ToLower (\<lambda>s. s) ''a'' = ''a''" "ToLower (\<lambda>s. s) ''b'' = ''b''" "ToLower (\<lambda>s. s) ''c'' = ''c''"
    by (simp_all add: ToLower_def is_ascii_def to_lower_char_def less_eq_char_def of_char_def)
  have s: "{t \<in> set (map mk_db_table [(2, ''b'', ''public''), (1, ''a'', ''public'')]).
      table_key (\<lambda>s. s) t \<notin> table_key (\<lambda>s. s) ` set (map mk_db_table [(3, ''b'', ''public''), (4, ''c'', ''public'')])} =
      {mk_db_table (1, ''a'', ''public'')}"
    by (auto simp: k low)
  show ?thesis using dbverify_exact [OF sorts_tables_ins l] unfolding s by auto
qed

text \<open>A broken table listing is taken for an empty database. When reading the source's table list
  ends in an error (\<open>rows.Err()\<close>), \<open>Verify\<close> returns no error and a result with no table at all, so
  that nothing is verified and nothing is reported.\<close>

theorem dbverify_listing_error_lost:
  assumes "catIsPG c1" and "catTables c1 = Inr \<lparr>crRows = map Inr tms, crErr = Some e\<rparr>"
  shows "dbverify_Verify lw srt (c1, c2) = Some (Inr empty_result)"
  using assms by (simp add: dbverify_Verify_def conn_tables_def)

theorem dbverify_listing_error_lost_witness:
  "dbverify_Verify (\<lambda>s. s) (\<lambda>xs. xs)
     ((catalog_of [])\<lparr>catTables := Inr \<lparr>crRows = map Inr [(1, ''a'', ''public'')],
        crErr = Some (ErrMsg ''connection reset'')\<rparr>\<rparr>, catalog_of []) = Some (Inr empty_result)"
  by (rule dbverify_listing_error_lost [of _ "[(1, ''a'', ''public'')]"]) (simp_all add: catalog_of_def)

section \<open>The table filter\<close>

text \<open>What a filter selects: both include patterns match and not both exclude patterns, an absent
  exclude pattern standing for \<open>.*\<close> when the other is given.\<close>

definition selected :: "regexp_engine \<Rightarrow> filter_config \<Rightarrow> ('x) table_name_scheme \<Rightarrow> bool" where
  "selected re cfg n \<longleftrightarrow>
     (\<exists>s t. re (fcSchemaFilter cfg) = Inr s \<and> re (fcTableFilter cfg) = Inr t \<and> s (tnSchema n) \<and> t (tnTable n)) \<and>
     (fcExcludeSchemaFilter cfg \<noteq> [] \<or> fcExcludeTableFilter cfg \<noteq> [] \<longrightarrow>
       (\<exists>s t. re (defaultFilterString (fcExcludeSchemaFilter cfg)) = Inr s \<and>
              re (defaultFilterString (fcExcludeTableFilter cfg)) = Inr t \<and>
              \<not> (s (tnSchema n) \<and> t (tnTable n))))"

definition matches_everything :: "regexp_engine \<Rightarrow> bool" where
  "matches_everything re \<longleftrightarrow> (\<exists>f. re DefaultFilterString = Inr f \<and> (\<forall>x. f x))"

text \<open>C23: the filter keeps exactly the selected tables. For patterns that compile and an engine in which
  \<open>.*\<close> matches every name, \<open>FilterResult\<close> keeps, in order, the verified pairs whose source table is
  selected, the missing tables that are selected and the extraneous tables that are selected; in
  particular the short cut for the default configuration changes nothing.\<close>

theorem filter_keeps_selected:
  assumes "matches_everything re"
    and "re (fcSchemaFilter cfg) = Inr s" and "re (fcTableFilter cfg) = Inr t"
    and "re (defaultFilterString (fcExcludeSchemaFilter cfg)) = Inr xs"
    and "re (defaultFilterString (fcExcludeTableFilter cfg)) = Inr xt"
  shows "\<exists>r'. FilterResult re cfg r = Inr r' \<and>
    orVerified r' = filter (\<lambda>(source, target). selected re cfg source) (orVerified r) \<and>
    orMissingTables r' = filter (selected re cfg) (orMissingTables r) \<and>
    orExtraneousTables r' = filter (selected re cfg) (orExtraneousTables r)"
proof (cases "fcSchemaFilter cfg = DefaultFilterString \<and> fcTableFilter cfg = DefaultFilterString \<and>
    \<not> (fcExcludeSchemaFilter cfg \<noteq> [] \<or> fcExcludeTableFilter cfg \<noteq> [])")
  case True
  then have "selected re cfg n" for n :: db_table
    using assms(1) by (auto simp: selected_def matches_everything_def)
  then show ?thesis using True by (simp add: FilterResult_def)
next
  case False
  let ?x = "fcExcludeSchemaFilter cfg \<noteq> [] \<or> fcExcludeTableFilter cfg \<noteq> []"
  have "matchesFilters n s t (if ?x then Some xs else None) (if ?x then Some xt else None) = selected re cfg n"
    for n :: db_table
    using assms(2-5) by (auto simp: selected_def matchesFilters_def MatchesFilter_def)
  then have "filter_tables (\<lambda>n. matchesFilters n s t (if ?x then Some xs else None) (if ?x then Some xt else None)) r =
      filter_tables (selected re cfg) r"
    by (rule filter_tables_cong)
  then have "FilterResult re cfg r = Inr (filter_tables (selected re cfg) r)"
    using False assms(2-5) by (cases ?x) (auto simp: FilterResult_def)
  then show ?thesis by (simp add: filter_tables_def split_def)
qed

text \<open>A toy engine: \<open>.*\<close> matches everything, any other pattern matches itself.\<close>

definition literal_engine :: regexp_engine where
  "literal_engine p = Inr (\<lambda>x. p = DefaultFilterString \<or> p = x)"

definition filter_example :: filter_config where
  "filter_example = \<lparr>fcSchemaFilter = ''public'', fcTableFilter = DefaultFilterString,
     fcExcludeSchemaFilter = [], fcExcludeTableFilter = ''b''\<rparr>"

definition result_example :: obj_result where
  "result_example =
     \<lparr>orVerified = [(mk_db_table (1, ''c'', ''public''), mk_db_table (2, ''c'', ''other''))],
      orMissingTables = [mk_db_table (1, ''a'', ''public''), mk_db_table (2, ''b'', ''public'')],
      orExtraneousTables = [mk_db_table (3, ''a'', ''other''), mk_db_table (4, ''d'', ''public'')]\<rparr>"

theorem filter_keeps_selected_witness:
  "\<exists>r'. FilterResult literal_engine filter_example result_example = Inr r' \<and>
     orVerified r' = orVerified result_example \<and>
     orMissingTables r' = [mk_db_table (1, ''a'', ''public'')] \<and>
     orExtraneousTables r' = [mk_db_table (4, ''d'', ''public'')]"
proof -
  have m: "matches_everything literal_engine" by (auto simp: matches_everything_def literal_engine_def)
  have "selected literal_engine filter_example (mk_db_table (o', n, sch)) \<longleftrightarrow> sch = ''public'' \<and> n \<noteq> ''b''" for o' n sch
    by (auto simp: literal_engine_def selected_def filter_example_def defaultFilterString_def DefaultFilterString_def
        mk_db_table_def)
  then have "filter (\<lambda>(source, target). selected literal_engine filter_example source) (orVerified result_example) =
      orVerified result_example"
    "filter (selected literal_engine filter_example) (orMissingTables result_example) = [mk_db_table (1, ''a'', ''public'')]"
    "filter (selected literal_engine filter_example) (orExtraneousTables result_example) = [mk_db_table (4, ''d'', ''public'')]"
    by (simp_all add: result_example_def)
  with filter_keeps_selected [OF m, of filter_example _ _ _ _ result_example] show ?thesis
    by (simp add: literal_engine_def)
qed

end
