(* ===== verification/Table_Verify.thy ===== *)
theory Table_Verify
  imports Db_Verify Row_Verify
begin

text \<open>
  Package \<open>verify/tableverify\<close>: comparing the definitions of two tables and deciding which columns
  can be verified row by row.

  Go maps keyed by column name are HOL maps; the order in which Go visits a map is an argument
  (\<open>rng\<close>, the visited keys). The parser package's type table (\<open>types.OidToType\<close>,
  \<open>Equivalent\<close>) is the record \<open>type_table\<close>.
\<close>

section \<open>Collations and types\<close>

fun split_dot :: "string \<Rightarrow> string list" where
  "split_dot [] = [[]]"
| "split_dot (c # cs) =
     (if c = CHR ''.'' then [] # split_dot cs
      else (case split_dot cs of [] \<Rightarrow> [[c]] | x # xs \<Rightarrow> (c # x) # xs))"

fun is_prefix :: "string \<Rightarrow> string \<Rightarrow> bool" where
  "is_prefix [] s = True"
| "is_prefix (c # cs) [] = False"
| "is_prefix (c # cs) (d # ds) = (c = d \<and> is_prefix cs ds)"

fun strings_Contains :: "string \<Rightarrow> string \<Rightarrow> bool" where
  "strings_Contains [] sub = (sub = [])"
| "strings_Contains (c # cs) sub = (is_prefix sub (c # cs) \<or> strings_Contains cs sub)"

definition isUnicodeCollation :: "string \<Rightarrow> bool" where
  "isUnicodeCollation a =
     (if strings_Contains a ''utf8mb4_'' then True
      else (let split = split_dot a
            in if length split \<ge> 2
               then strings_Contains (split ! 1) ''UTF-8'' \<or> strings_Contains (split ! 1) ''utf8''
               else False))"

definition null_String :: "string option \<Rightarrow> string" where
  "null_String a = (case a of None \<Rightarrow> [] | Some s \<Rightarrow> s)"

definition comparableCollation :: "string option \<Rightarrow> string option \<Rightarrow> bool" where
  "comparableCollation a b =
     (if a = b then True
      else if (a = None) \<noteq> (b = None) then False
      else if split_dot (null_String a) ! 0 = split_dot (null_String b) ! 0 then True
      else isUnicodeCollation (null_String a) \<and> isUnicodeCollation (null_String b))"

record type_table =
  ttFamily :: "oid \<Rightarrow> family option"     \<comment> \<open>\<open>types.OidToType[o]\<close> and its \<open>Family()\<close>\<close>
  ttEquivalent :: "oid \<Rightarrow> oid \<Rightarrow> bool"   \<comment> \<open>\<open>aTyp.Equivalent(bTyp)\<close>\<close>

abbreviation T_bool :: oid where "T_bool \<equiv> 16"
abbreviation T_int2 :: oid where "T_int2 \<equiv> 21"
abbreviation T_text :: oid where "T_text \<equiv> 25"
abbreviation T_inet :: oid where "T_inet \<equiv> 869"
abbreviation T_varchar :: oid where "T_varchar \<equiv> 1043"
abbreviation T_timestamp :: oid where "T_timestamp \<equiv> 1114"
abbreviation T_timestamptz :: oid where "T_timestamptz \<equiv> 1184"
abbreviation T_varbit :: oid where "T_varbit \<equiv> 1562"
abbreviation T_uuid :: oid where "T_uuid \<equiv> 2950"
abbreviation T_jsonb :: oid where "T_jsonb \<equiv> 3802"

definition allowableTypes :: "oid \<Rightarrow> oid \<Rightarrow> bool" where
  "allowableTypes a b \<longleftrightarrow>
     a = T_timestamp \<and> b = T_timestamptz \<or>
     a = T_timestamptz \<and> b = T_timestamp \<or>
     a = T_varchar \<and> b = T_uuid \<or>
     a = T_int2 \<and> b = T_bool \<or>
     a = T_uuid \<and> b = T_varchar \<or>
     a = T_int2 \<and> b = T_bool \<or>
     a = T_varbit \<and> b = T_text \<or>
     a = T_text \<and> b = T_varbit \<or>
     a = T_jsonb \<and> b = T_text \<or>
     a = T_text \<and> b = T_jsonb \<or>
     a = T_inet \<and> b = T_text \<or>
     a = T_text \<and> b = T_inet"

definition enumCodec :: "pg_type \<Rightarrow> bool" where
  "enumCodec a \<longleftrightarrow> ptCodec a = EnumCodec"

definition array_element :: "pg_type \<Rightarrow> pg_type option" where
  "array_element a = (case ptCodec a of ArrayCodec t \<Rightarrow> Some t | _ \<Rightarrow> None)"

definition arrayCodec :: "pg_type \<Rightarrow> bool" where
  "arrayCodec a \<longleftrightarrow> array_element a \<noteq> None"

definition comparableType :: "type_table \<Rightarrow> pg_type \<Rightarrow> pg_type \<Rightarrow> bool" where
  "comparableType T a b =
     (if ptName a = ptName b then True
      else if enumCodec a \<and> enumCodec b then True
      else if (case (array_element a, array_element b) of
                 (Some x, Some y) \<Rightarrow> enumCodec x \<and> enumCodec y
               | _ \<Rightarrow> False) then True
      else if ttFamily T (ptOID a) = None then False
      else if ttFamily T (ptOID b) = None then False
      else allowableTypes (ptOID a) (ptOID b) \<or> ttEquivalent T (ptOID a) (ptOID b))"

section \<open>Reading the definitions\<close>

text \<open>\<open>rows.Err()\<close> after the loop: the error wrapped is nil, so the function returns what it has read
  and no error.\<close>

definition fill_collation :: "string \<Rightarrow> pg_column \<Rightarrow> pg_column" where
  "fill_collation dflt cm =
     (if colCollation cm = None \<or> colCollation cm = Some ''default''
      then cm\<lparr>colCollation := Some dflt\<rparr> else cm)"

definition GetColumns :: "catalog \<Rightarrow> db_table \<Rightarrow> pg_column list result" where
  "GetColumns conn table =
     (if \<not> catIsPG conn then Inl (ErrMsg ''only PG connections are supported'')
      else (case catDefaultCollation conn of
          Inl e \<Rightarrow> Inr []
        | Inr defaultCollation \<Rightarrow>
            (case catColumns conn (dtOID table) of
               Inl e \<Rightarrow> Inl e
             | Inr rows \<Rightarrow>
                 (case scan_rows (crRows rows) of
                    (cols, Some e) \<Rightarrow> Inl (ErrWrap ''error decoding column metadata'' e)
                  | (cols, None) \<Rightarrow> Inr (map (fill_collation defaultCollation) cols)))))"

definition getPrimaryKey :: "catalog \<Rightarrow> db_table \<Rightarrow> string list result" where
  "getPrimaryKey conn table =
     (if \<not> catIsPG conn then Inl (ErrMsg ''only PG connections are supported'')
      else (case catPrimaryKey conn (dtOID table) of
          Inl e \<Rightarrow> Inl e
        | Inr rows \<Rightarrow>
            (case scan_rows (crRows rows) of
               (cols, Some e) \<Rightarrow> Inl (ErrWrap ''error decoding column name'' e)
             | (cols, None) \<Rightarrow> Inr cols)))"

definition both :: "('a \<Rightarrow> 'b result) \<Rightarrow> 'a \<times> 'a \<Rightarrow> ('b \<times> 'b) result" where
  "both f p = (case f (fst p) of Inl e \<Rightarrow> Inl e
     | Inr x \<Rightarrow> (case f (snd p) of Inl e \<Rightarrow> Inl e | Inr y \<Rightarrow> Inr (x, y)))"

definition getColumnsForTables ::
  "catalog \<times> catalog \<Rightarrow> db_table \<times> db_table \<Rightarrow> (pg_column list \<times> pg_column list) result" where
  "getColumnsForTables conns tbls =
     both (\<lambda>(c, t). GetColumns c t) ((fst conns, fst tbls), (snd conns, snd tbls))"

definition getPrimaryKeysForTables ::
  "catalog \<times> catalog \<Rightarrow> db_table \<times> db_table \<Rightarrow> (string list \<times> string list) result" where
  "getPrimaryKeysForTables conns tbls =
     both (\<lambda>(c, t). getPrimaryKey c t) ((fst conns, fst tbls), (snd conns, snd tbls))"

type_synonym column_map = "string \<Rightarrow> pg_column option"

definition mapColumns :: "pg_column list \<Rightarrow> column_map" where
  "mapColumns cols = foldl (\<lambda>m col. m(colName col \<mapsto> col)) Map.empty cols"

section \<open>verifyTable\<close>

record table_result = verified_table +
  trRowVerifiable :: bool
  trMismatching :: "(db_table \<times> string) list"  \<comment> \<open>\<open>MismatchingTableDefinition\<close>: table, info\<close>

record cmp_state =
  csMapped :: column_map        \<comment> \<open>\<open>truthMappedCols\<close>\<close>
  csComparable :: column_map    \<comment> \<open>\<open>comparableColumns\<close>\<close>
  csDefs :: "(db_table \<times> string) list"

definition bool_str :: "bool \<Rightarrow> string" where
  "bool_str b = (if b then ''true'' else ''false'')"

definition add_def :: "db_table \<Rightarrow> string \<Rightarrow> cmp_state \<Rightarrow> cmp_state" where
  "add_def t info st = st\<lparr>csDefs := csDefs st @ [(t, info)]\<rparr>"

text \<open>One target column.\<close>

definition check_column ::
  "type_table \<Rightarrow> catalog \<times> catalog \<Rightarrow> db_table \<Rightarrow> pg_column \<Rightarrow> cmp_state \<Rightarrow> cmp_state result" where
  "check_column T conns targetTbl targetCol st =
     (case csMapped st (colName targetCol) of
        None \<Rightarrow> Inr (add_def targetTbl (''extraneous column '' @ colName targetCol @ '' found'') st)
      | Some sourceCol \<Rightarrow>
          (let st1 = st\<lparr>csMapped := (csMapped st)(colName targetCol := None)\<rparr>;
               st2 = (if colNotNull sourceCol \<noteq> colNotNull targetCol
                      then add_def targetTbl (''column '' @ colName targetCol @ '' NOT NULL mismatch: '' @
                             bool_str (colNotNull sourceCol) @ '' vs '' @ bool_str (colNotNull targetCol)) st1
                      else st1)
           in (case catDataType (fst conns) (colOID sourceCol) of
                 Inl e \<Rightarrow> Inl e
               | Inr truthTyp \<Rightarrow>
                   (case catDataType (snd conns) (colOID targetCol) of
                      Inl e \<Rightarrow> Inl e
                    | Inr compareTyp \<Rightarrow>
                        (if \<not> comparableType T truthTyp compareTyp
                         then (let st3 = add_def targetTbl (''column type mismatch on '' @ colName targetCol @
                                 '': '' @ ptName truthTyp @ '' vs '' @ ptName compareTyp) st2
                               in Inr (st3\<lparr>csComparable := (csComparable st3)(colName sourceCol := None)\<rparr>))
                         else Inr st2)))))"

fun check_columns ::
  "type_table \<Rightarrow> catalog \<times> catalog \<Rightarrow> db_table \<Rightarrow> pg_column list \<Rightarrow> cmp_state \<Rightarrow> cmp_state result" where
  "check_columns T conns targetTbl [] st = Inr st"
| "check_columns T conns targetTbl (c # cs) st =
     (case check_column T conns targetTbl c st of
        Inl e \<Rightarrow> Inl e
      | Inr st' \<Rightarrow> check_columns T conns targetTbl cs st')"

text \<open>The columns of the truth that the target does not have; \<open>cols\<close> are the keys left in the map.\<close>

fun drop_missing :: "db_table \<Rightarrow> string list \<Rightarrow> cmp_state \<Rightarrow> cmp_state" where
  "drop_missing targetTbl [] st = st"
| "drop_missing targetTbl (c # cs) st =
     drop_missing targetTbl cs
       ((add_def targetTbl (''missing column '' @ c) st)\<lparr>csComparable := (csComparable st)(c := None)\<rparr>)"

definition col_oid :: "column_map \<Rightarrow> string \<Rightarrow> oid" where
  "col_oid m c = (case m c of None \<Rightarrow> 0 | Some col \<Rightarrow> colOID col)"

definition col_collation :: "column_map \<Rightarrow> string \<Rightarrow> string option" where
  "col_collation m c = (case m c of None \<Rightarrow> None | Some col \<Rightarrow> colCollation col)"

definition is_string_col :: "type_table \<Rightarrow> column_map \<Rightarrow> string \<Rightarrow> bool" where
  "is_string_col T m c \<longleftrightarrow> ttFamily T (col_oid m c) = Some StringFamily"

definition collation_info :: "catalog \<times> catalog \<Rightarrow> column_map \<Rightarrow> column_map \<Rightarrow> string \<Rightarrow> string" where
  "collation_info conns m1 m2 col =
     ''PRIMARY KEY has a string field '' @ col @ '' has a different collation ('' @
     catID (fst conns) @ ''='' @ null_String (col_collation m1 col) @ '', '' @
     catID (snd conns) @ ''='' @ null_String (col_collation m2 col) @ '') preventing verification''"

text \<open>The loop over the key columns: whether the keys are the same, whether a collation differs, and
  the definitions reported.\<close>

fun check_pk ::
  "type_table \<Rightarrow> catalog \<times> catalog \<Rightarrow> db_table \<Rightarrow> column_map \<Rightarrow> column_map \<Rightarrow> column_map \<Rightarrow>
   string list \<Rightarrow> string list \<Rightarrow> bool \<Rightarrow> (db_table \<times> string) list \<Rightarrow>
   bool \<times> bool \<times> (db_table \<times> string) list" where
  "check_pk T conns tbl m1 m2 cmp (t # ts) (c # cs) mis defs =
     (if c \<noteq> t then (False, mis, defs)
      else if cmp c = None then (False, mis, defs)
      else if is_string_col T m1 c \<and> is_string_col T m2 c \<and>
              \<not> comparableCollation (col_collation m1 c) (col_collation m2 c)
      then check_pk T conns tbl m1 m2 cmp ts cs True (defs @ [(tbl, collation_info conns m1 m2 c)])
      else check_pk T conns tbl m1 m2 cmp ts cs mis defs)"
| "check_pk T conns tbl m1 m2 cmp _ _ mis defs = (True, mis, defs)"

definition add_column ::
  "column_map \<Rightarrow> column_map \<Rightarrow> string \<Rightarrow> bool \<Rightarrow> table_result \<Rightarrow> table_result" where
  "add_column m1 m2 c notNull res = res
     \<lparr>vtColumns := vtColumns res @ [\<lparr>caName = c, caNotNull = notNull\<rparr>],
      vtColumnOIDs := (fst (vtColumnOIDs res) @ [col_oid m1 c], snd (vtColumnOIDs res) @ [col_oid m2 c])\<rparr>"

fun place_pk ::
  "column_map \<Rightarrow> column_map \<Rightarrow> string list \<Rightarrow> column_map \<Rightarrow> table_result \<Rightarrow> column_map \<times> table_result" where
  "place_pk m1 m2 [] cmp res = (cmp, res)"
| "place_pk m1 m2 (c # cs) cmp res =
     (if cmp c \<noteq> None then place_pk m1 m2 cs (cmp(c := None)) (add_column m1 m2 c True res)
      else place_pk m1 m2 cs cmp res)"

fun place_rest ::
  "column_map \<Rightarrow> column_map \<Rightarrow> pg_column list \<Rightarrow> column_map \<Rightarrow> table_result \<Rightarrow> table_result" where
  "place_rest m1 m2 [] cmp res = res"
| "place_rest m1 m2 (c # cs) cmp res =
     (if cmp (colName c) \<noteq> None
      then place_rest m1 m2 cs cmp (add_column m1 m2 (colName c) (colNotNull c) res)
      else place_rest m1 m2 cs cmp res)"

definition verifyTable ::
  "type_table \<Rightarrow> (column_map \<Rightarrow> string list) \<Rightarrow> catalog \<times> catalog \<Rightarrow> db_table \<times> db_table \<Rightarrow>
   string list \<times> string list \<Rightarrow> pg_column list \<times> pg_column list \<Rightarrow> table_result result" where
  "verifyTable T rng conns cmpTables pkCols columns =
     (let truthTbl = fst cmpTables; targetTbl = snd cmpTables;
          truthCols = fst columns; truthPKCols = fst pkCols; targetPKCols = snd pkCols;
          m1 = mapColumns truthCols; m2 = mapColumns (snd columns);
          defs0 = (if length truthPKCols = 0
                   then [(truthTbl, ''missing a PRIMARY KEY - results cannot be compared'')] else [])
      in (case check_columns T conns targetTbl (snd columns)
                 \<lparr>csMapped = m1, csComparable = m1, csDefs = defs0\<rparr> of
            Inl e \<Rightarrow> Inl e
          | Inr st1 \<Rightarrow>
              (let st2 = drop_missing targetTbl (rng (csMapped st1)) st1;
                   (currPKSame, collationMismatch, defs) =
                     (if length targetPKCols = length truthPKCols
                      then check_pk T conns targetTbl m1 m2 (csComparable st2) truthPKCols targetPKCols False (csDefs st2)
                      else (False, False, csDefs st2));
                   pkSame = \<not> (\<not> currPKSame \<and> length truthPKCols > 0);
                   defs' = (if \<not> currPKSame \<and> length truthPKCols > 0
                            then defs @ [(targetTbl, ''PRIMARY KEY does not match source of truth (columns and types must match)'')]
                            else defs);
                   res = \<lparr>tnSchema = tnSchema truthTbl, tnTable = tnTable truthTbl,
                          vtPrimaryKeyColumns = truthPKCols, vtColumns = [], vtColumnOIDs = ([], []),
                          trRowVerifiable = False, trMismatching = defs'\<rparr>;
                   (cmp, res1) = place_pk m1 m2 truthPKCols (csComparable st2) res;
                   res2 = place_rest m1 m2 truthCols cmp res1
               in Inr (res2\<lparr>trRowVerifiable := pkSame \<and> length truthPKCols > 0 \<and> \<not> collationMismatch\<rparr>))))"

fun VerifyCommonTables ::
  "type_table \<Rightarrow> (column_map \<Rightarrow> string list) \<Rightarrow> catalog \<times> catalog \<Rightarrow> (db_table \<times> db_table) list \<Rightarrow>
   table_result list result" where
  "VerifyCommonTables T rng conns [] = Inr []"
| "VerifyCommonTables T rng conns (cmpTables # rest) =
     (case getPrimaryKeysForTables conns cmpTables of
        Inl e \<Rightarrow> Inl e
      | Inr pkCols \<Rightarrow>
          (case getColumnsForTables conns cmpTables of
             Inl e \<Rightarrow> Inl e
           | Inr columns \<Rightarrow>
               (case verifyTable T rng conns cmpTables pkCols columns of
                  Inl e \<Rightarrow> Inl e
                | Inr res \<Rightarrow>
                    (case VerifyCommonTables T rng conns rest of
                       Inl e \<Rightarrow> Inl e
                     | Inr ret \<Rightarrow> Inr (res # ret)))))"

end
