(* ===== verification/Table_Properties.thy ===== *)
theory Table_Properties
  imports Table_Verify Shard_Table Db_Properties
begin

text \<open>Guarantees of the comparison of table definitions.\<close>

section \<open>Placing the columns\<close>

definition with_columns ::
  "column_map \<Rightarrow> column_map \<Rightarrow> column_with_attr list \<Rightarrow> table_result \<Rightarrow> table_result" where
  "with_columns m1 m2 cs res = res
     \<lparr>vtColumns := vtColumns res @ cs,
      vtColumnOIDs := (fst (vtColumnOIDs res) @ map (\<lambda>c. col_oid m1 (caName c)) cs,
                       snd (vtColumnOIDs res) @ map (\<lambda>c. col_oid m2 (caName c)) cs)\<rparr>"

lemma place_pk_spec:
  assumes "distinct pks"
  shows "place_pk m1 m2 pks cmp res =
    (\<lambda>n. if n \<in> set pks then None else cmp n,
     with_columns m1 m2 (map (\<lambda>c. \<lparr>caName = c, caNotNull = True\<rparr>) (filter (\<lambda>c. cmp c \<noteq> None) pks)) res)"
  using assms
proof (induction pks arbitrary: cmp res)
  case Nil
  then show ?case by (simp add: with_columns_def)
next
  case (Cons c pks)
  have "filter (\<lambda>x. (cmp(c := None)) x \<noteq> None) pks = filter (\<lambda>x. cmp x \<noteq> None) pks"
    using Cons.prems by (intro filter_cong) auto
  then show ?case
    using Cons by (auto simp: with_columns_def add_column_def fun_eq_iff)
qed

lemma place_rest_spec:
  "place_rest m1 m2 cs cmp res =
    with_columns m1 m2 (map (\<lambda>c. \<lparr>caName = colName c, caNotNull = colNotNull c\<rparr>)
      (filter (\<lambda>c. cmp (colName c) \<noteq> None) cs)) res"
  by (induction cs arbitrary: res) (auto simp: with_columns_def add_column_def)

lemma check_pk_True:
  assumes "check_pk T conns tbl m1 m2 cmp ts cs mis defs = (True, mis', defs')" "length cs = length ts"
  shows "cs = ts \<and> (\<forall>c \<in> set ts. cmp c \<noteq> None)"
  using assms
proof (induction ts arbitrary: cs mis defs)
  case (Cons t ts)
  then obtain c cs' where "cs = c # cs'" by (cases cs) auto
  with Cons show ?case by (auto split: if_splits)
qed simp

section \<open>Which columns remain\<close>

lemma mapColumns_Some:
  "mapColumns cols c = Some col \<Longrightarrow> col \<in> set cols \<and> colName col = c"
  unfolding mapColumns_def
  by (induction cols rule: rev_induct) (auto split: if_splits)

lemma mapColumns_None: "mapColumns cols c = None \<longleftrightarrow> c \<notin> colName ` set cols"
  unfolding mapColumns_def by (induction cols rule: rev_induct) auto

text \<open>Column \<open>c\<close> exists on both sides with comparable types.\<close>

definition good_column ::
  "type_table \<Rightarrow> catalog \<times> catalog \<Rightarrow> pg_column list \<times> pg_column list \<Rightarrow> string \<Rightarrow> bool" where
  "good_column T conns columns c \<longleftrightarrow>
     (\<exists>s \<in> set (fst columns). \<exists>t \<in> set (snd columns). \<exists>a b. colName s = c \<and> colName t = c \<and>
        catDataType (fst conns) (colOID s) = Inr a \<and> catDataType (snd conns) (colOID t) = Inr b \<and>
        comparableType T a b)"

definition names_column :: "string \<Rightarrow> string \<Rightarrow> bool" where
  "names_column info c \<longleftrightarrow>
     info = ''missing column '' @ c \<or>
     (\<exists>a b. info = ''column type mismatch on '' @ c @ '': '' @ a @ '' vs '' @ b)"

text \<open>A column that is no longer waiting for its target column is comparable or reported.\<close>

definition settled ::
  "type_table \<Rightarrow> catalog \<times> catalog \<Rightarrow> pg_column list \<times> pg_column list \<Rightarrow> db_table \<Rightarrow> cmp_state \<Rightarrow> string \<Rightarrow> bool" where
  "settled T conns columns tbl st c \<longleftrightarrow>
     (if csComparable st c \<noteq> None then good_column T conns columns c
      else \<exists>info. (tbl, info) \<in> set (csDefs st) \<and> names_column info c)"

lemma settled_mono:
  "settled T conns columns tbl st c \<Longrightarrow> csComparable st' c = csComparable st c \<Longrightarrow>
   set (csDefs st) \<subseteq> set (csDefs st') \<Longrightarrow> settled T conns columns tbl st' c"
  by (auto simp: settled_def split: if_splits)

text \<open>The invariant of the loop over the target columns.\<close>

definition cmp_inv ::
  "type_table \<Rightarrow> catalog \<times> catalog \<Rightarrow> pg_column list \<times> pg_column list \<Rightarrow> db_table \<Rightarrow> cmp_state \<Rightarrow> bool" where
  "cmp_inv T conns columns tbl st \<longleftrightarrow>
     (\<forall>c. csComparable st c \<noteq> None \<longrightarrow> c \<in> colName ` set (fst columns)) \<and>
     (\<forall>c. csMapped st c \<noteq> None \<longrightarrow> csMapped st c = mapColumns (fst columns) c) \<and>
     (\<forall>c \<in> colName ` set (fst columns). csMapped st c = None \<longrightarrow> settled T conns columns tbl st c) \<and>
     (\<forall>c. csMapped st c \<noteq> None \<longrightarrow> csComparable st c \<noteq> None)"

lemma check_column_effect:
  assumes "check_column T conns tbl tc st = Inr st'" "csMapped st (colName tc) = Some sc" "colName sc = colName tc"
  obtains a b where "catDataType (fst conns) (colOID sc) = Inr a" "catDataType (snd conns) (colOID tc) = Inr b"
    and "csMapped st' = (csMapped st)(colName tc := None)"
    and "csComparable st' = (if comparableType T a b then csComparable st
       else (csComparable st)(colName tc := None))"
    and "set (csDefs st) \<subseteq> set (csDefs st')"
    and "\<not> comparableType T a b \<longrightarrow> (\<exists>info. (tbl, info) \<in> set (csDefs st') \<and> names_column info (colName tc))"
proof -
  obtain a b where ty: "catDataType (fst conns) (colOID sc) = Inr a" "catDataType (snd conns) (colOID tc) = Inr b"
    using assms(1,2) by (auto simp: check_column_def Let_def split: sum.splits)
  have "names_column (''column type mismatch on '' @ colName tc @ '': '' @ ptName a @ '' vs '' @ ptName b) (colName tc)"
    unfolding names_column_def by blast
  with assms ty show ?thesis
    by (intro that [OF ty]) (auto simp: check_column_def Let_def add_def_def split: if_splits)
qed

lemma check_column_inv:
  assumes inv: "cmp_inv T conns columns tbl st" and tc: "tc \<in> set (snd columns)"
    and run: "check_column T conns tbl tc st = Inr st'"
  shows "cmp_inv T conns columns tbl st'"
proof (cases "csMapped st (colName tc)")
  case None
  then have st': "st' = add_def tbl (''extraneous column '' @ colName tc @ '' found'') st"
    using run by (simp add: check_column_def)
  have "settled T conns columns tbl st' c" if "settled T conns columns tbl st c" for c
    by (rule settled_mono [OF that]) (auto simp: st' add_def_def)
  then show ?thesis using inv unfolding cmp_inv_def by (simp add: st' add_def_def)
next
  case (Some sc)
  then have "mapColumns (fst columns) (colName tc) = Some sc" using inv by (auto simp: cmp_inv_def)
  then have sc: "sc \<in> set (fst columns)" "colName sc = colName tc" using mapColumns_Some by blast+
  obtain a b where st': "catDataType (fst conns) (colOID sc) = Inr a" "catDataType (snd conns) (colOID tc) = Inr b"
    "csMapped st' = (csMapped st)(colName tc := None)"
    "csComparable st' = (if comparableType T a b then csComparable st else (csComparable st)(colName tc := None))"
    "set (csDefs st) \<subseteq> set (csDefs st')"
    "\<not> comparableType T a b \<longrightarrow> (\<exists>info. (tbl, info) \<in> set (csDefs st') \<and> names_column info (colName tc))"
    by (rule check_column_effect [OF run Some sc(2)])
  have "settled T conns columns tbl st' c" if c: "c \<in> colName ` set (fst columns)" "csMapped st' c = None" for c
  proof (cases "c = colName tc")
    case True
    have "good_column T conns columns c" if "comparableType T a b"
      using that True sc tc st'(1,2) unfolding good_column_def by blast
    moreover have "csComparable st c \<noteq> None" using inv Some True unfolding cmp_inv_def by simp
    ultimately show ?thesis using st'(4,6) True by (auto simp: settled_def)
  next
    case False
    then show ?thesis
      using settled_mono [of T conns columns tbl st c st'] inv c st'(3,4,5) by (auto simp: cmp_inv_def)
  qed
  then show ?thesis using inv st'(3,4) unfolding cmp_inv_def by (auto split: if_splits)
qed

lemma check_columns_inv:
  assumes "cmp_inv T conns columns tbl st" "set cs \<subseteq> set (snd columns)"
    and "check_columns T conns tbl cs st = Inr st'"
  shows "cmp_inv T conns columns tbl st'"
  using assms
proof (induction cs arbitrary: st)
  case (Cons c cs)
  then obtain st1 where "check_column T conns tbl c st = Inr st1" "check_columns T conns tbl cs st1 = Inr st'"
    by (auto split: sum.splits)
  then show ?case using Cons check_column_inv [of T conns columns tbl st c st1] by auto
qed simp

lemma check_column_step:
  assumes "check_column T conns tbl tc st = Inr st'"
  shows "set (csDefs st) \<subseteq> set (csDefs st')" and "csMapped st c = None \<Longrightarrow> csMapped st' c = None"
    and "csMapped st (colName tc) = None \<Longrightarrow> (tbl, ''extraneous column '' @ colName tc @ '' found'') \<in> set (csDefs st')"
  using assms by (auto simp: check_column_def add_def_def Let_def split: option.splits sum.splits if_splits)

lemma check_columns_defs: "check_columns T conns tbl cs st = Inr st' \<Longrightarrow> set (csDefs st) \<subseteq> set (csDefs st')"
proof (induction cs arbitrary: st)
  case (Cons c cs)
  then show ?case using check_column_step(1) by (fastforce split: sum.splits)
qed simp

text \<open>A target column that the source does not have is reported.\<close>

lemma check_columns_extraneous:
  assumes "check_columns T conns tbl cs st = Inr st'" "tc \<in> set cs" "csMapped st (colName tc) = None"
  shows "(tbl, ''extraneous column '' @ colName tc @ '' found'') \<in> set (csDefs st')"
  using assms
proof (induction cs arbitrary: st)
  case (Cons c cs)
  then obtain st1 where st1: "check_column T conns tbl c st = Inr st1" "check_columns T conns tbl cs st1 = Inr st'"
    by (auto split: sum.splits)
  show ?case
  proof (cases "tc \<in> set cs")
    case True
    then show ?thesis using Cons.IH [OF st1(2)] check_column_step(2) [OF st1(1) Cons.prems(3)] by blast
  next
    case False
    then have "tc = c" using Cons.prems(2) by simp
    then show ?thesis using check_column_step(3) [OF st1(1)] Cons.prems(3) check_columns_defs [OF st1(2)] by blast
  qed
qed simp

lemma drop_missing_spec:
  "csMapped (drop_missing tbl cs st) = csMapped st"
  "csComparable (drop_missing tbl cs st) = (\<lambda>n. if n \<in> set cs then None else csComparable st n)"
  "csDefs (drop_missing tbl cs st) = csDefs st @ map (\<lambda>c. (tbl, ''missing column '' @ c)) cs"
  by (induction cs arbitrary: st) (auto simp: add_def_def fun_eq_iff)

text \<open>The contract of visiting a Go map, for maps keyed by names in \<open>names\<close>: every key, and no other.\<close>

definition visits_all :: "(column_map \<Rightarrow> string list) \<Rightarrow> string set \<Rightarrow> bool" where
  "visits_all rng names \<longleftrightarrow> (\<forall>m. dom m \<subseteq> names \<longrightarrow> set (rng m) = dom m)"

lemma mapped_names:
  assumes "cmp_inv T conns columns tbl st"
  shows "dom (csMapped st) \<subseteq> colName ` set (fst columns)"
  using assms mapColumns_None [of "fst columns"] unfolding cmp_inv_def by (metis domIff subsetI)

lemma comparable_after_missing:
  assumes "cmp_inv T conns columns tbl st" "visits_all rng (colName ` set (fst columns))"
  defines "st2 \<equiv> drop_missing tbl (rng (csMapped st)) st"
  shows "csComparable st2 c \<noteq> None \<Longrightarrow> c \<in> colName ` set (fst columns) \<and> good_column T conns columns c"
    and "c \<in> colName ` set (fst columns) \<Longrightarrow> csComparable st2 c = None \<Longrightarrow>
      \<exists>info. (tbl, info) \<in> set (csDefs st2) \<and> names_column info c"
proof -
  have rng: "set (rng (csMapped st)) = dom (csMapped st)"
    using assms(2) mapped_names [OF assms(1)] by (simp add: visits_all_def)
  have inv: "\<And>c. csComparable st c \<noteq> None \<Longrightarrow> c \<in> colName ` set (fst columns)"
    "\<And>c. c \<in> colName ` set (fst columns) \<Longrightarrow> csMapped st c = None \<Longrightarrow> settled T conns columns tbl st c"
    using assms(1) unfolding cmp_inv_def by blast+
  show "c \<in> colName ` set (fst columns) \<and> good_column T conns columns c" if "csComparable st2 c \<noteq> None"
  proof -
    have "c \<notin> dom (csMapped st)" "csComparable st c \<noteq> None"
      using that rng by (auto simp: st2_def drop_missing_spec split: if_splits)
    then show ?thesis using inv [of c] by (auto simp: settled_def domIff)
  qed
  show "\<exists>info. (tbl, info) \<in> set (csDefs st2) \<and> names_column info c"
    if c: "c \<in> colName ` set (fst columns)" "csComparable st2 c = None"
  proof (cases "c \<in> dom (csMapped st)")
    case True
    then have "(tbl, ''missing column '' @ c) \<in> set (csDefs st2)" using rng by (simp add: st2_def drop_missing_spec)
    then show ?thesis unfolding names_column_def by blast
  next
    case False
    then have "csComparable st c = None" using c(2) rng by (simp add: st2_def drop_missing_spec)
    then show ?thesis using inv(2) [OF c(1)] False by (auto simp: settled_def st2_def drop_missing_spec domIff)
  qed
qed

text \<open>What \<open>verifyTable\<close> returns, in terms of the comparable columns \<open>cmp\<close>.\<close>

lemma check_pk_defs:
  "check_pk T conns tbl m1 m2 cmp ts cs mis defs = (same, mis', defs') \<Longrightarrow> set defs \<subseteq> set defs'"
proof (induction ts arbitrary: cs mis defs)
  case (Cons t ts)
  then show ?case by (cases cs) (fastforce split: if_splits)+
qed simp

lemma verifyTable_result:
  assumes run: "verifyTable T rng conns tbls pkCols columns = Inr res"
    and rng: "visits_all rng (colName ` set (fst columns))" and pk: "distinct (fst pkCols)"
  obtains cmp :: column_map where
    "\<And>c. cmp c \<noteq> None \<Longrightarrow> c \<in> colName ` set (fst columns) \<and> good_column T conns columns c"
    "\<And>c. c \<in> colName ` set (fst columns) \<Longrightarrow> cmp c = None \<Longrightarrow>
       \<exists>info. (snd tbls, info) \<in> set (trMismatching res) \<and> names_column info c"
    "vtColumns res = map (\<lambda>c. \<lparr>caName = c, caNotNull = True\<rparr>) (filter (\<lambda>c. cmp c \<noteq> None) (fst pkCols)) @
       map (\<lambda>c. \<lparr>caName = colName c, caNotNull = colNotNull c\<rparr>)
         (filter (\<lambda>c. colName c \<notin> set (fst pkCols) \<and> cmp (colName c) \<noteq> None) (fst columns))"
    "vtPrimaryKeyColumns res = fst pkCols"
    "length (fst (vtColumnOIDs res)) = length (vtColumns res)"
    "length (snd (vtColumnOIDs res)) = length (vtColumns res)"
    "trRowVerifiable res \<Longrightarrow> fst pkCols \<noteq> [] \<and> (\<forall>c \<in> set (fst pkCols). cmp c \<noteq> None)"
    "\<And>c. c \<in> colName ` set (snd columns) \<Longrightarrow> c \<notin> colName ` set (fst columns) \<Longrightarrow>
       (snd tbls, ''extraneous column '' @ c @ '' found'') \<in> set (trMismatching res)"
proof -
  let ?m1 = "mapColumns (fst columns)" and ?tbl = "snd tbls"
  obtain st1 where st1: "check_columns T conns ?tbl (snd columns) \<lparr>csMapped = ?m1, csComparable = ?m1,
      csDefs = (if length (fst pkCols) = 0
                then [(fst tbls, ''missing a PRIMARY KEY - results cannot be compared'')] else [])\<rparr> = Inr st1"
    using run by (auto simp: verifyTable_def Let_def split: sum.splits)
  have "cmp_inv T conns columns ?tbl \<lparr>csMapped = ?m1, csComparable = ?m1, csDefs = d\<rparr>" for d
    using mapColumns_None by (auto simp: cmp_inv_def)
  then have inv: "cmp_inv T conns columns ?tbl st1" by (rule check_columns_inv [OF _ _ st1]) simp
  define st2 where "st2 = drop_missing ?tbl (rng (csMapped st1)) st1"
  note cmp = comparable_after_missing [OF inv rng, folded st2_def]
  obtain same mis defs where pkc: "(if length (snd pkCols) = length (fst pkCols)
      then check_pk T conns ?tbl ?m1 (mapColumns (snd columns)) (csComparable st2) (fst pkCols) (snd pkCols) False (csDefs st2)
      else (False, False, csDefs st2)) = (same, mis, defs)" by (metis prod_cases3)
  have sub: "set (csDefs st2) \<subseteq> set defs" using pkc check_pk_defs by (fastforce split: if_splits)
  note r = run [unfolded verifyTable_def Let_def, simplified st1, simplified, folded st2_def,
      simplified pkc place_pk_spec [OF pk] place_rest_spec, simplified]
  have sub': "set (csDefs st2) \<subseteq> set (trMismatching res)" using sub r by (auto simp: with_columns_def)
  have if_Some: "(\<exists>y. (if A then None else x) = Some y) \<longleftrightarrow> \<not> A \<and> (\<exists>y. x = Some y)" for A and x :: "pg_column option"
    by simp
  have ext: "(?tbl, ''extraneous column '' @ c @ '' found'') \<in> set (csDefs st1)"
    if c: "c \<in> colName ` set (snd columns)" "c \<notin> colName ` set (fst columns)" for c
  proof -
    obtain tc where "tc \<in> set (snd columns)" "c = colName tc" using c(1) by blast
    then show ?thesis using check_columns_extraneous [OF st1] c(2) mapColumns_None [of "fst columns" c] by auto
  qed
  show ?thesis
  proof (rule that [of "csComparable st2"])
    show "(?tbl, ''extraneous column '' @ c @ '' found'') \<in> set (trMismatching res)"
      if "c \<in> colName ` set (snd columns)" "c \<notin> colName ` set (fst columns)" for c
      using ext [OF that] sub' by (auto simp: st2_def drop_missing_spec)
    show "c \<in> colName ` set (fst columns) \<and> good_column T conns columns c" if "csComparable st2 c \<noteq> None" for c
      by (rule cmp(1) [OF that])
    show "\<exists>info. (?tbl, info) \<in> set (trMismatching res) \<and> names_column info c"
      if "c \<in> colName ` set (fst columns)" "csComparable st2 c = None" for c
      using cmp(2) [OF that] sub' by blast
    show "fst pkCols \<noteq> [] \<and> (\<forall>c \<in> set (fst pkCols). csComparable st2 c \<noteq> None)" if "trRowVerifiable res"
    proof -
      have "same" "fst pkCols \<noteq> []" using that r by auto
      then show ?thesis using pkc check_pk_True by (fastforce split: if_splits)
    qed
  qed (simp_all add: r [symmetric] with_columns_def if_Some)
qed

section \<open>Properties\<close>

text \<open>C25: a row-verifiable table has the shape the row iterators rely on. When \<open>verifyTable\<close> declares a
  table row-verifiable, its key is not empty, its column names are distinct, the key columns come
  first among them, in key order, and there is one type OID per column for each side; every shard of
  it therefore meets the iterators' precondition \<open>table_shape\<close>.\<close>

theorem row_verifiable_shape:
  assumes "verifyTable T rng conns tbls pkCols columns = Inr res" and "trRowVerifiable res"
    and "visits_all rng (colName ` set (fst columns))" and "distinct (fst pkCols)" and "distinct (map colName (fst columns))"
  shows "table_shape (shard_scan (mk_shard res start end' k n) oids) \<and>
    length (fst (vtColumnOIDs res)) = length (vtColumns res) \<and>
    length (snd (vtColumnOIDs res)) = length (vtColumns res)"
proof (rule verifyTable_result [OF assms(1,3,4)])
  fix cmp :: column_map
  assume cols: "vtColumns res = map (\<lambda>c. \<lparr>caName = c, caNotNull = True\<rparr>) (filter (\<lambda>c. cmp c \<noteq> None) (fst pkCols)) @
       map (\<lambda>c. \<lparr>caName = colName c, caNotNull = colNotNull c\<rparr>)
         (filter (\<lambda>c. colName c \<notin> set (fst pkCols) \<and> cmp (colName c) \<noteq> None) (fst columns))"
    and pk: "vtPrimaryKeyColumns res = fst pkCols"
    and oids: "length (fst (vtColumnOIDs res)) = length (vtColumns res)"
      "length (snd (vtColumnOIDs res)) = length (vtColumns res)"
    and rv: "trRowVerifiable res \<Longrightarrow> fst pkCols \<noteq> [] \<and> (\<forall>c \<in> set (fst pkCols). cmp c \<noteq> None)"
  have "filter (\<lambda>c. cmp c \<noteq> None) (fst pkCols) = fst pkCols" using rv [OF assms(2)] by (simp add: filter_id_conv)
  then have names: "ColumnNames (vtColumns res) = fst pkCols @
      map colName (filter (\<lambda>c. colName c \<notin> set (fst pkCols) \<and> cmp (colName c) \<noteq> None) (fst columns))"
    unfolding ColumnNames_def cols by (simp add: comp_def)
  have "distinct (map colName (filter (\<lambda>c. colName c \<notin> set (fst pkCols) \<and> cmp (colName c) \<noteq> None) (fst columns)))"
    using assms(5) by (rule distinct_map_filter)
  then have "distinct (ColumnNames (vtColumns res))" unfolding names using assms(4) by auto
  moreover have "fst pkCols = take (length (fst pkCols)) (ColumnNames (vtColumns res))" unfolding names by simp
  ultimately show ?thesis
    using oids rv [OF assms(2)] pk by (simp add: table_shape_def shard_scan_def mk_shard_def)
qed

text \<open>C26: only comparable columns are compared. Every column of the result exists on both sides, and the
  types of the two are comparable.\<close>

theorem verified_columns_comparable:
  assumes "verifyTable T rng conns tbls pkCols columns = Inr res"
    and "visits_all rng (colName ` set (fst columns))" and "distinct (fst pkCols)" and "c \<in> set (ColumnNames (vtColumns res))"
  shows "good_column T conns columns c"
proof (rule verifyTable_result [OF assms(1-3)])
  fix cmp :: column_map
  assume good: "\<And>c. cmp c \<noteq> None \<Longrightarrow> c \<in> colName ` set (fst columns) \<and> good_column T conns columns c"
    and cols: "vtColumns res = map (\<lambda>c. \<lparr>caName = c, caNotNull = True\<rparr>) (filter (\<lambda>c. cmp c \<noteq> None) (fst pkCols)) @
       map (\<lambda>c. \<lparr>caName = colName c, caNotNull = colNotNull c\<rparr>)
         (filter (\<lambda>c. colName c \<notin> set (fst pkCols) \<and> cmp (colName c) \<noteq> None) (fst columns))"
  have "cmp c \<noteq> None" using assms(4) unfolding ColumnNames_def cols by auto
  then show ?thesis using good by blast
qed

text \<open>C27: no column is left out silently. Every column of the source is either among the columns to verify
  or named in a reported mismatch (missing on the target, or of an incomparable type); every column
  that only the target has is not verified and is reported as extraneous.\<close>

theorem dropped_columns_reported:
  assumes "verifyTable T rng conns tbls pkCols columns = Inr res"
    and "visits_all rng (colName ` set (fst columns))" and "distinct (fst pkCols)"
  shows "(c \<in> colName ` set (fst columns) \<longrightarrow> c \<in> set (ColumnNames (vtColumns res)) \<or>
      (\<exists>info. (snd tbls, info) \<in> set (trMismatching res) \<and> names_column info c)) \<and>
    (c \<in> colName ` set (snd columns) - colName ` set (fst columns) \<longrightarrow> c \<notin> set (ColumnNames (vtColumns res)) \<and>
      (snd tbls, ''extraneous column '' @ c @ '' found'') \<in> set (trMismatching res))"
proof (rule verifyTable_result [OF assms])
  fix cmp :: column_map
  assume good: "\<And>c. cmp c \<noteq> None \<Longrightarrow> c \<in> colName ` set (fst columns) \<and> good_column T conns columns c"
    and rep: "\<And>c. c \<in> colName ` set (fst columns) \<Longrightarrow> cmp c = None \<Longrightarrow>
       \<exists>info. (snd tbls, info) \<in> set (trMismatching res) \<and> names_column info c"
    and cols: "vtColumns res = map (\<lambda>c. \<lparr>caName = c, caNotNull = True\<rparr>) (filter (\<lambda>c. cmp c \<noteq> None) (fst pkCols)) @
       map (\<lambda>c. \<lparr>caName = colName c, caNotNull = colNotNull c\<rparr>)
         (filter (\<lambda>c. colName c \<notin> set (fst pkCols) \<and> cmp (colName c) \<noteq> None) (fst columns))"
    and ext: "\<And>c. c \<in> colName ` set (snd columns) \<Longrightarrow> c \<notin> colName ` set (fst columns) \<Longrightarrow>
       (snd tbls, ''extraneous column '' @ c @ '' found'') \<in> set (trMismatching res)"
  have "c \<in> set (ColumnNames (vtColumns res)) \<longleftrightarrow> c \<in> colName ` set (fst columns) \<and> cmp c \<noteq> None"
    if "c \<in> colName ` set (fst columns) \<or> cmp c = None"
    unfolding ColumnNames_def cols using that by (cases "c \<in> set (fst pkCols)") auto
  then show ?thesis using rep [of c] good [of c] ext [of c] by blast
qed

text \<open>A table \<open>t (id, v)\<close> with a type difference in \<open>v\<close>, for the witnesses.\<close>

definition two_types :: "catalog" where
  "two_types = (catalog_of [])\<lparr>catDataType := \<lambda>o'. Inr (PGType (if o' = 20 then ''int8'' else ''text'') o' OtherCodec)\<rparr>"

definition no_types :: type_table where
  "no_types = \<lparr>ttFamily = (\<lambda>o'. None), ttEquivalent = (\<lambda>a b. False)\<rparr>"

definition col_id :: pg_column where
  "col_id = \<lparr>colName = ''id'', colOID = 20, colNotNull = True, colCollation = None\<rparr>"

definition col_v :: "oid \<Rightarrow> pg_column" where
  "col_v o' = \<lparr>colName = ''v'', colOID = o', colNotNull = False, colCollation = None\<rparr>"

definition visit_id_v :: "column_map \<Rightarrow> string list" where
  "visit_id_v m = filter (\<lambda>c. m c \<noteq> None) [''id'', ''v'']"

lemma visit_id_v_all: "visits_all visit_id_v (colName ` set (fst ([col_id, col_v 20], ys)))"
  unfolding visits_all_def visit_id_v_def by (auto simp: col_id_def col_v_def split: if_splits)

lemma t_run:
  "\<exists>res. verifyTable no_types visit_id_v (two_types, two_types)
     (mk_db_table (1, ''t'', ''public''), mk_db_table (2, ''t'', ''public'')) ([''id''], [''id''])
     ([col_id, col_v 20], [col_id, col_v o']) = Inr res \<and> trRowVerifiable res \<and>
   ColumnNames (vtColumns res) = (if o' = 20 then [''id'', ''v''] else [''id''])"
  by (simp add: verifyTable_def mapColumns_def col_id_def col_v_def check_column_def Let_def two_types_def
      catalog_of_def comparableType_def no_types_def enumCodec_def array_element_def add_def_def visit_id_v_def
      is_string_col_def add_column_def ColumnNames_def)

theorem row_verifiable_shape_witness:
  "\<exists>res. verifyTable no_types visit_id_v (two_types, two_types)
     (mk_db_table (1, ''t'', ''public''), mk_db_table (2, ''t'', ''public'')) ([''id''], [''id''])
     ([col_id, col_v 20], [col_id, col_v 20]) = Inr res \<and>
   table_shape (shard_scan (mk_shard res ([] :: int list) [] 1 1) (fst (vtColumnOIDs res)))"
proof -
  obtain res where r: "verifyTable no_types visit_id_v (two_types, two_types)
     (mk_db_table (1, ''t'', ''public''), mk_db_table (2, ''t'', ''public'')) ([''id''], [''id''])
     ([col_id, col_v 20], [col_id, col_v 20]) = Inr res" "trRowVerifiable res"
    using t_run by blast
  from row_verifiable_shape [OF r visit_id_v_all, of "[] :: int list" "[]" 1 1] r(1)
  show ?thesis by (auto simp: col_id_def col_v_def)
qed

theorem verified_columns_comparable_witness:
  "good_column no_types (two_types, two_types) ([col_id, col_v 20], [col_id, col_v 20]) ''v''"
proof -
  obtain res where r: "verifyTable no_types visit_id_v (two_types, two_types)
     (mk_db_table (1, ''t'', ''public''), mk_db_table (2, ''t'', ''public'')) ([''id''], [''id''])
     ([col_id, col_v 20], [col_id, col_v 20]) = Inr res" "ColumnNames (vtColumns res) = [''id'', ''v'']"
    using t_run [of 20] by auto
  from verified_columns_comparable [OF r(1) visit_id_v_all] r(2) show ?thesis by simp
qed

theorem dropped_columns_reported_witness:
  "\<exists>res res'. verifyTable no_types visit_id_v (two_types, two_types)
     (mk_db_table (1, ''t'', ''public''), mk_db_table (2, ''t'', ''public'')) ([''id''], [''id''])
     ([col_id, col_v 20], [col_id, col_v 25]) = Inr res \<and>
   (\<exists>info. (mk_db_table (2, ''t'', ''public''), info) \<in> set (trMismatching res) \<and> names_column info ''v'') \<and>
   verifyTable no_types visit_id_v (two_types, two_types)
     (mk_db_table (1, ''t'', ''public''), mk_db_table (2, ''t'', ''public'')) ([''id''], [''id''])
     ([col_id], [col_id, col_v 25]) = Inr res' \<and>
   (mk_db_table (2, ''t'', ''public''), ''extraneous column '' @ ''v'' @ '' found'') \<in> set (trMismatching res')"
proof -
  obtain res where r: "verifyTable no_types visit_id_v (two_types, two_types)
     (mk_db_table (1, ''t'', ''public''), mk_db_table (2, ''t'', ''public'')) ([''id''], [''id''])
     ([col_id, col_v 20], [col_id, col_v 25]) = Inr res" "ColumnNames (vtColumns res) = [''id'']"
    using t_run [of 25] by auto
  obtain res' where r': "verifyTable no_types visit_id_v (two_types, two_types)
     (mk_db_table (1, ''t'', ''public''), mk_db_table (2, ''t'', ''public'')) ([''id''], [''id''])
     ([col_id], [col_id, col_v 25]) = Inr res'"
    by (simp add: verifyTable_def mapColumns_def col_id_def col_v_def check_column_def Let_def two_types_def
      catalog_of_def comparableType_def no_types_def enumCodec_def array_element_def add_def_def visit_id_v_def
      is_string_col_def add_column_def ColumnNames_def)
  have v: "visits_all visit_id_v (colName ` set (fst ([col_id], ys)))" for ys :: "pg_column list"
    unfolding visits_all_def visit_id_v_def by (auto simp: col_id_def split: if_splits)
  have "\<exists>info. (mk_db_table (2, ''t'', ''public''), info) \<in> set (trMismatching res) \<and> names_column info ''v''"
    using dropped_columns_reported [OF r(1) visit_id_v_all, of "''v''"] r(2) by (auto simp: col_v_def)
  moreover have "(mk_db_table (2, ''t'', ''public''), ''extraneous column '' @ ''v'' @ '' found'') \<in> set (trMismatching res')"
    using dropped_columns_reported [OF r' v, of "''v''"] by (simp add: col_id_def col_v_def)
  ultimately show ?thesis using r(1) r' by blast
qed

text \<open>The allow list of type pairs is not symmetric. An \<open>int2\<close> source may be compared with a \<open>bool\<close>
  target but not the other way round (the list has the pair \<open>int2\<close>/\<open>bool\<close> twice); it is the only pair
  that lacks its converse.\<close>

theorem allowable_types_asymmetry:
  "allowableTypes a b \<and> \<not> allowableTypes b a \<longleftrightarrow> a = T_int2 \<and> b = T_bool"
proof
  assume "allowableTypes a b \<and> \<not> allowableTypes b a"
  then have ab: "allowableTypes a b" and ba: "\<not> allowableTypes b a" by blast+
  from ab [unfolded allowableTypes_def] ba show "a = T_int2 \<and> b = T_bool"
    by (elim disjE conjE; hypsubst; simp add: allowableTypes_def)
next
  assume "a = T_int2 \<and> b = T_bool"
  then show "allowableTypes a b \<and> \<not> allowableTypes b a" by (simp add: allowableTypes_def)
qed

text \<open>A failing collation query is taken for a table without columns. \<open>GetColumns\<close> returns an empty
  list and no error; every source column is then reported missing from the target.\<close>

theorem collation_error_lost:
  assumes "catIsPG conn" and "catDefaultCollation conn = Inl e"
  shows "GetColumns conn table = Inr []"
  using assms by (simp add: GetColumns_def)

theorem collation_error_lost_witness:
  "GetColumns ((catalog_of [])\<lparr>catDefaultCollation := Inl (ErrMsg ''connection reset'')\<rparr>)
     (mk_db_table (1, ''t'', ''public'')) = Inr []"
  by (rule collation_error_lost) (simp_all add: catalog_of_def)

end
