(* ===== verification/Net_Url.thy ===== *)
theory Net_Url
  imports Go_Prelude
begin

text \<open>
  What the configuration uses of Go's \<open>net/url\<close> and \<open>net\<close>: percent-encoding, \<open>URL.String\<close> for a URL
  with user, host, path and query, \<open>Values.Encode\<close> and \<open>JoinHostPort\<close>; and the decoding of a
  percent-encoded component, with the round trip between the two.

  Strings are byte strings.
\<close>

section \<open>Percent-encoding\<close>

datatype url_mode = EncodePath | EncodeUserPassword | EncodeHost | EncodeQueryComponent

definition is_alnum :: "char \<Rightarrow> bool" where
  "is_alnum c \<longleftrightarrow> CHR ''a'' \<le> c \<and> c \<le> CHR ''z'' \<or> CHR ''A'' \<le> c \<and> c \<le> CHR ''Z'' \<or> CHR ''0'' \<le> c \<and> c \<le> CHR ''9''"

definition host_extra :: "char list" where
  "host_extra = ''!$&()*+,;=:[]<>'' @ [char_of (39 :: nat), char_of (34 :: nat)]"

definition shouldEscape :: "char \<Rightarrow> url_mode \<Rightarrow> bool" where
  "shouldEscape c mode =
     (if is_alnum c then False
      else if mode = EncodeHost \<and> c \<in> set host_extra then False
      else if c \<in> set ''-_.~'' then False
      else if c \<in> set ''$&+,/:;=?@'' then
        (case mode of
           EncodePath \<Rightarrow> c = CHR ''?''
         | EncodeUserPassword \<Rightarrow> c \<in> set ''@/?:''
         | EncodeQueryComponent \<Rightarrow> True
         | EncodeHost \<Rightarrow> True)
      else True)"

definition upper_hex :: "nat \<Rightarrow> char" where
  "upper_hex d = (if d < 10 then char_of (48 + d) else char_of (55 + d))"

definition escape_char :: "url_mode \<Rightarrow> char \<Rightarrow> string" where
  "escape_char mode c =
     (if c = CHR '' '' \<and> mode = EncodeQueryComponent then ''+''
      else if shouldEscape c mode then [CHR ''%'', upper_hex (of_char c div 16), upper_hex (of_char c mod 16)]
      else [c])"

definition url_escape :: "url_mode \<Rightarrow> string \<Rightarrow> string" where
  "url_escape mode s = concat (map (escape_char mode) s)"

definition unhex :: "char \<Rightarrow> nat option" where
  "unhex c =
     (let n = of_char c
      in if 48 \<le> n \<and> n \<le> 57 then Some (n - 48)
         else if 97 \<le> n \<and> n \<le> 102 then Some (n - 87)
         else if 65 \<le> n \<and> n \<le> 70 then Some (n - 55)
         else None)"

text \<open>\<open>url.PathUnescape\<close>/\<open>url.QueryUnescape\<close>: \<open>None\<close> is the escape error.\<close>

fun url_unescape :: "url_mode \<Rightarrow> string \<Rightarrow> string option" where
  "url_unescape mode [] = Some []"
| "url_unescape mode (c # cs) =
     (if c = CHR ''%'' then
        (case cs of
           a # b # rest \<Rightarrow>
             (case (unhex a, unhex b) of
                (Some x, Some y) \<Rightarrow> map_option ((#) (char_of (16 * x + y))) (url_unescape mode rest)
              | _ \<Rightarrow> None)
         | _ \<Rightarrow> None)
      else if c = CHR ''+'' \<and> mode = EncodeQueryComponent then map_option ((#) (CHR '' '')) (url_unescape mode cs)
      else map_option ((#) c) (url_unescape mode cs))"

section \<open>Rendering\<close>

record go_url =
  urlScheme :: string
  urlUser :: "(string \<times> string option) option"
  urlHost :: string
  urlPath :: string
  urlRawQuery :: string

definition userinfo_String :: "string \<times> string option \<Rightarrow> string" where
  "userinfo_String ui =
     (case ui of (username, password) \<Rightarrow>
        if username \<noteq> [] \<or> password \<noteq> None
        then url_escape EncodeUserPassword username @
             (case password of Some p \<Rightarrow> '':'' @ url_escape EncodeUserPassword p | None \<Rightarrow> [])
        else [])"

definition escapedPath :: "string \<Rightarrow> string" where
  "escapedPath p = (if p = ''*'' then ''*'' else url_escape EncodePath p)"

text \<open>\<open>URL.String\<close> for a URL that is not opaque, has no raw path and no fragment, and a non-empty
  scheme.\<close>

definition url_String :: "go_url \<Rightarrow> string" where
  "url_String u =
     urlScheme u @ '':'' @
     (if urlHost u \<noteq> [] \<or> urlPath u \<noteq> [] \<or> urlUser u \<noteq> None then ''//'' else []) @
     (case urlUser u of Some ui \<Rightarrow> userinfo_String ui @ ''@'' | None \<Rightarrow> []) @
     (if urlHost u \<noteq> [] then url_escape EncodeHost (urlHost u) else []) @
     (let path = escapedPath (urlPath u)
      in (if path \<noteq> [] \<and> hd path \<noteq> CHR ''/'' \<and> urlHost u \<noteq> [] then ''/'' else []) @ path) @
     (if urlRawQuery u \<noteq> [] then ''?'' @ urlRawQuery u else [])"

text \<open>\<open>Values.Set\<close> and \<open>Values.Encode\<close> for one value per key; keys are rendered in sorted order.\<close>

definition query_Set :: "(string \<times> string) list \<Rightarrow> string \<Rightarrow> string \<Rightarrow> (string \<times> string) list" where
  "query_Set q k v = filter (\<lambda>kv. fst kv \<noteq> k) q @ [(k, v)]"

definition query_Encode :: "(string \<times> string) list \<Rightarrow> string" where
  "query_Encode q =
     strings_Join (map (\<lambda>(k, v). url_escape EncodeQueryComponent k @ ''='' @ url_escape EncodeQueryComponent v)
       (sort_key fst q)) ''&''"

definition JoinHostPort :: "string \<Rightarrow> string \<Rightarrow> string" where
  "JoinHostPort host port =
     (if CHR '':'' \<in> set host \<or> CHR ''%'' \<in> set host then ''['' @ host @ '']:'' @ port else host @ '':'' @ port)"

section \<open>Round trip\<close>

lemma hex_digit_cases:
  assumes "d < (16 :: nat)"
  shows "d = 0 \<or> d = 1 \<or> d = 2 \<or> d = 3 \<or> d = 4 \<or> d = 5 \<or> d = 6 \<or> d = 7 \<or> d = 8 \<or> d = 9 \<or> d = 10 \<or>
    d = 11 \<or> d = 12 \<or> d = 13 \<or> d = 14 \<or> d = 15"
  using assms by arith

lemma unhex_upper_hex: "d < 16 \<Longrightarrow> unhex (upper_hex d) = Some d"
  by (drule hex_digit_cases) (elim disjE; simp add: unhex_def upper_hex_def Let_def)

lemma upper_hex_not_reserved: "d < 16 \<Longrightarrow> upper_hex d \<notin> set ''@/?:''"
proof
  assume d: "d < 16" and "upper_hex d \<in> set ''@/?:''"
  moreover have "list_all (\<lambda>c. unhex c = None) ''@/?:''" by code_simp
  ultimately show False by (simp only: list_all_iff) (metis unhex_upper_hex [OF d] option.distinct(1))
qed

lemma of_char_div_16: "(of_char c :: nat) div 16 < 16"
  using nat_of_char_less_256 [of c] by (simp only: div_less_iff_less_mult)

lemma escaped_always:
  "shouldEscape (CHR ''%'') mode" "shouldEscape (CHR ''+'') EncodeQueryComponent"
  "shouldEscape (CHR ''@'') EncodeUserPassword" "shouldEscape (CHR ''/'') EncodeUserPassword"
  "shouldEscape (CHR ''?'') EncodeUserPassword" "shouldEscape (CHR '':'') EncodeUserPassword"
proof -
  have "shouldEscape (CHR ''%'') EncodePath" "shouldEscape (CHR ''%'') EncodeUserPassword"
    "shouldEscape (CHR ''%'') EncodeHost" "shouldEscape (CHR ''%'') EncodeQueryComponent" by code_simp+
  then show "shouldEscape (CHR ''%'') mode" by (cases mode) simp_all
qed code_simp+

lemma url_unescape_escape_char:
  "url_unescape mode (escape_char mode c @ s) = map_option ((#) c) (url_unescape mode s)"
proof -
  have plain: "c \<noteq> CHR ''%''" "\<not> (c = CHR ''+'' \<and> mode = EncodeQueryComponent)" if "\<not> shouldEscape c mode"
    using that escaped_always(1,2) by metis+
  have "char_of (16 * ((of_char c :: nat) div 16) + of_char c mod 16) = c" by simp
  then show ?thesis
    using plain by (auto simp: escape_char_def escaped_always unhex_upper_hex of_char_div_16)
qed

lemma url_unescape_escape: "url_unescape mode (url_escape mode s) = Some s"
  by (induction s) (simp_all add: url_escape_def url_unescape_escape_char)

lemma escape_char_user: "x \<in> set (escape_char EncodeUserPassword c) \<Longrightarrow> x \<notin> set ''@/?:''"
proof (cases "shouldEscape c EncodeUserPassword")
  case True
  assume "x \<in> set (escape_char EncodeUserPassword c)"
  with True have "x = CHR ''%'' \<or> x = upper_hex (of_char c div 16) \<or> x = upper_hex (of_char c mod 16)"
    by (auto simp: escape_char_def)
  then show ?thesis
    using upper_hex_not_reserved [OF of_char_div_16, of c] upper_hex_not_reserved [of "of_char c mod 16"] by auto
next
  case False
  assume "x \<in> set (escape_char EncodeUserPassword c)"
  with False have "x = c" by (simp add: escape_char_def)
  with False show ?thesis using escaped_always(3-6) by auto
qed

lemma url_escape_user: "set (url_escape EncodeUserPassword s) \<inter> set ''@/?:'' = {}"
  using escape_char_user by (fastforce simp: url_escape_def)

end
