(* ===== verification/Operator_Error.thy ===== *)
theory Operator_Error
  imports Go_Prelude
begin

text \<open>
  \<open>verifyservice/error.go\<close>: the errors shown to operators, how an error chain is searched, and the
  redaction of connection strings in error texts.

  \<open>utils.SanitizeExternalStorageURI\<close> parses the URI with \<open>net/url\<close>; it is the argument \<open>san\<close>. The two
  regular expressions of the file are matched by the functions \<open>match_uri\<close> and
  \<open>unknown_field_match\<close>.
\<close>

section \<open>Error chains\<close>

primrec errors_Is_canceled :: "go_error \<Rightarrow> bool" and operator_Is_canceled :: "operatorError \<Rightarrow> bool" where
  "errors_Is_canceled (ErrMsg m) = False"
| "errors_Is_canceled (ErrWrap m e) = errors_Is_canceled e"
| "errors_Is_canceled ErrCanceled = True"
| "errors_Is_canceled (ErrOperator oe) = operator_Is_canceled oe"
| "operator_Is_canceled (OperatorError category code message details cause) =
     (case map_option errors_Is_canceled cause of Some b \<Rightarrow> b | None \<Rightarrow> False)"

primrec errors_As_operator :: "go_error \<Rightarrow> operatorError option" where
  "errors_As_operator (ErrMsg m) = None"
| "errors_As_operator (ErrWrap m e) = errors_As_operator e"
| "errors_As_operator ErrCanceled = None"
| "errors_As_operator (ErrOperator oe) = Some oe"

definition newOperatorError ::
  "string \<Rightarrow> string \<Rightarrow> string \<Rightarrow> operatorErrorDetail list \<Rightarrow> operatorError" where
  "newOperatorError category code message details = OperatorError category code message details None"

definition newOperatorErrorWithCause ::
  "string \<Rightarrow> string \<Rightarrow> string \<Rightarrow> go_error \<Rightarrow> operatorErrorDetail list \<Rightarrow> operatorError" where
  "newOperatorErrorWithCause category code message cause details =
     OperatorError category code message details (Some cause)"

definition asOperatorError :: "go_error option \<Rightarrow> operatorError option" where
  "asOperatorError err = (case err of None \<Rightarrow> None | Some e \<Rightarrow> errors_As_operator e)"

section \<open>Redaction\<close>

definition is_letter :: "char \<Rightarrow> bool" where
  "is_letter c \<longleftrightarrow> CHR ''a'' \<le> c \<and> c \<le> CHR ''z'' \<or> CHR ''A'' \<le> c \<and> c \<le> CHR ''Z''"

definition is_digit :: "char \<Rightarrow> bool" where
  "is_digit c \<longleftrightarrow> CHR ''0'' \<le> c \<and> c \<le> CHR ''9''"

definition is_scheme_char :: "char \<Rightarrow> bool" where
  "is_scheme_char c \<longleftrightarrow> is_letter c \<or> is_digit c \<or> c = CHR ''+'' \<or> c = CHR ''.'' \<or> c = CHR ''-''"

text \<open>\<open>[^\s"']\<close>; \<open>\s\<close> is tab, newline, form feed, carriage return and space, and 34 and 39 are the
  two quotes.\<close>

definition is_uri_char :: "char \<Rightarrow> bool" where
  "is_uri_char c \<longleftrightarrow> (of_char c :: nat) \<notin> {9, 10, 12, 13, 32, 34, 39}"

text \<open>The match of \<open>embeddedURIPattern\<close> at the head of the text, and what follows it. The scheme's
  characters exclude the colon, so the pattern has at most one match from a given start.\<close>

definition match_uri :: "string \<Rightarrow> (string \<times> string) option" where
  "match_uri s =
     (case s of
        [] \<Rightarrow> None
      | c # cs \<Rightarrow>
          (if \<not> is_letter c then None
           else (let scheme = takeWhile is_scheme_char cs; r1 = dropWhile is_scheme_char cs
                 in if take 3 r1 \<noteq> ''://'' then None
                    else (let body = takeWhile is_uri_char (drop 3 r1)
                          in if body = [] then None
                             else Some (c # scheme @ ''://'' @ body, dropWhile is_uri_char (drop 3 r1))))))"

lemma match_uri_split: "match_uri s = Some (uri, rest) \<Longrightarrow> s = uri @ rest \<and> uri \<noteq> []"
proof -
  assume m: "match_uri s = Some (uri, rest)"
  then obtain c cs where s: "s = c # cs" by (cases s) (auto simp: match_uri_def)
  let ?r1 = "dropWhile is_scheme_char cs"
  have *: "take 3 ?r1 = ''://''" "uri = c # takeWhile is_scheme_char cs @ ''://'' @ takeWhile is_uri_char (drop 3 ?r1)"
    "rest = dropWhile is_uri_char (drop 3 ?r1)"
    using m s by (auto simp: match_uri_def Let_def split: if_splits)
  have "?r1 = ''://'' @ drop 3 ?r1" using append_take_drop_id [of 3 ?r1] *(1) by simp
  then have "cs = takeWhile is_scheme_char cs @ ''://'' @ drop 3 ?r1"
    by (metis takeWhile_dropWhile_id)
  then show "s = uri @ rest \<and> uri \<noteq> []" using s * by (metis append.assoc append_Cons list.distinct(1) takeWhile_dropWhile_id)
qed

definition is_uri_suffix :: "char \<Rightarrow> bool" where
  "is_uri_suffix c \<longleftrightarrow> c \<in> set ''.,;)]}''"

definition splitOperatorURISuffix :: "string \<Rightarrow> string \<times> string" where
  "splitOperatorURISuffix raw =
     (let trimmed = rev (dropWhile is_uri_suffix (rev raw))
      in if trimmed = [] then (raw, []) else (trimmed, drop (length trimmed) raw))"

definition redact_uri :: "(string \<Rightarrow> string result) \<Rightarrow> string \<Rightarrow> string" where
  "redact_uri san raw =
     (case splitOperatorURISuffix raw of (trimmed, suffix) \<Rightarrow>
        (case san trimmed of Inl e \<Rightarrow> raw | Inr sanitized \<Rightarrow> sanitized @ suffix))"

function sanitizeOperatorText :: "(string \<Rightarrow> string result) \<Rightarrow> string \<Rightarrow> string" where
  "sanitizeOperatorText san s =
     (case match_uri s of
        Some (uri, rest) \<Rightarrow> redact_uri san uri @ sanitizeOperatorText san rest
      | None \<Rightarrow> (case s of [] \<Rightarrow> [] | c # cs \<Rightarrow> c # sanitizeOperatorText san cs))"
  by pat_completeness auto
termination
  by (relation "measure (\<lambda>(san, s). length s)") (auto dest!: match_uri_split)

declare sanitizeOperatorText.simps [simp del]

definition sanitizeOperatorErrorDetails ::
  "(string \<Rightarrow> string result) \<Rightarrow> operatorErrorDetail list \<Rightarrow> operatorErrorDetail list" where
  "sanitizeOperatorErrorDetails san details =
     map (\<lambda>d. OperatorErrorDetail (sanitizeOperatorText san (odField d)) (sanitizeOperatorText san (odReason d))) details"

record operator_error_payload =
  opCategory :: string
  opCode :: string
  opMessage :: string
  opDetails :: "operatorErrorDetail list"

definition payload :: "(string \<Rightarrow> string result) \<Rightarrow> operatorError option \<Rightarrow> operator_error_payload" where
  "payload san e =
     (case e of
        None \<Rightarrow> \<lparr>opCategory = [], opCode = [], opMessage = [], opDetails = []\<rparr>
      | Some oe \<Rightarrow>
          \<lparr>opCategory = oeCategory oe, opCode = oeCode oe,
           opMessage = sanitizeOperatorText san (oeMessage oe),
           opDetails = sanitizeOperatorErrorDetails san (oeDetails oe)\<rparr>)"

text \<open>\<open>view\<close> builds the same values as \<open>payload\<close> under exported types.\<close>

definition operator_view :: "(string \<Rightarrow> string result) \<Rightarrow> operatorError option \<Rightarrow> operator_error_payload" where
  "operator_view san e =
     (case e of
        None \<Rightarrow> \<lparr>opCategory = [], opCode = [], opMessage = [], opDetails = []\<rparr>
      | Some oe \<Rightarrow>
          \<lparr>opCategory = oeCategory oe, opCode = oeCode oe,
           opMessage = sanitizeOperatorText san (oeMessage oe),
           opDetails = map (\<lambda>d. OperatorErrorDetail (odField d) (odReason d))
             (sanitizeOperatorErrorDetails san (oeDetails oe))\<rparr>)"

section \<open>Classification\<close>

definition errRequestBodyTooLarge :: go_error where
  "errRequestBodyTooLarge = ErrMsg ''request body exceeds maximum size''"

text \<open>\<open>FindStringSubmatch\<close> of \<open>^json: unknown field "([^"]+)"$\<close>: the quoted name.\<close>

definition unknown_field_match :: "string \<Rightarrow> string option" where
  "unknown_field_match s =
     (let p = ''json: unknown field '' @ [char_of (34 :: nat)]; r = drop (length p) s
      in if take (length p) s = p \<and> length r \<ge> 2 \<and> last r = char_of (34 :: nat) \<and>
            char_of (34 :: nat) \<notin> set (butlast r)
         then Some (butlast r) else None)"

definition classifyDecodeJSONError :: "go_error \<Rightarrow> operatorError" where
  "classifyDecodeJSONError err =
     (if err = errRequestBodyTooLarge
      then newOperatorError ''request_validation'' ''request_body_too_large'' (err_Error errRequestBodyTooLarge) []
      else (case unknown_field_match (err_Error err) of
          Some f \<Rightarrow> newOperatorError ''request_validation'' ''unknown_field''
              ''request body contains an unsupported field'' [OperatorErrorDetail f ''unknown field'']
        | None \<Rightarrow>
            (if err_Error err = ''request body must contain exactly one JSON object''
             then newOperatorError ''request_validation'' ''multiple_documents'' (err_Error err) []
             else newOperatorErrorWithCause ''request_validation'' ''invalid_json''
                    ''request body is not valid JSON'' err [OperatorErrorDetail [] (err_Error err)])))"

definition classifyRunFailure :: "go_error \<Rightarrow> operatorError" where
  "classifyRunFailure err =
     (case errors_As_operator err of
        Some opErr \<Rightarrow> opErr
      | None \<Rightarrow> newOperatorError ''verify_execution'' ''verify_failed''
          (''verify execution failed: '' @ err_Error err) [OperatorErrorDetail [] (err_Error err)])"

definition ExtractOperatorError ::
  "(string \<Rightarrow> string result) \<Rightarrow> go_error option \<Rightarrow> operator_error_payload option" where
  "ExtractOperatorError san err =
     (case asOperatorError err of None \<Rightarrow> None | Some oe \<Rightarrow> Some (operator_view san (Some oe)))"

section \<open>Lemmas\<close>

lemma newOperatorError_not_canceled [simp]:
  "\<not> operator_Is_canceled (newOperatorError category code message details)"
  by (simp add: newOperatorError_def)

lemma errors_As_operator_wrap:
  "errors_As_operator (foldr ErrWrap ms (ErrOperator oe)) = Some oe"
  by (induction ms) auto

lemma classifyRunFailure_wrapped [simp]:
  "classifyRunFailure (foldr ErrWrap ms (ErrOperator oe)) = oe"
  by (simp add: classifyRunFailure_def errors_As_operator_wrap)

lemma splitOperatorURISuffix_append: "fst (splitOperatorURISuffix raw) @ snd (splitOperatorURISuffix raw) = raw"
proof (cases "dropWhile is_uri_suffix (rev raw) = []")
  case False
  have "rev raw = takeWhile is_uri_suffix (rev raw) @ dropWhile is_uri_suffix (rev raw)" by simp
  then have r: "raw = rev (dropWhile is_uri_suffix (rev raw)) @ rev (takeWhile is_uri_suffix (rev raw))"
    by (metis rev_append rev_rev_ident)
  have "drop (length (rev (dropWhile is_uri_suffix (rev raw)))) raw = rev (takeWhile is_uri_suffix (rev raw))"
    by (subst r) simp
  with False r show ?thesis by (simp add: splitOperatorURISuffix_def Let_def)
qed (simp add: splitOperatorURISuffix_def)

lemma match_uri_None_before:
  assumes "CHR '':'' \<notin> set (c # cs)" "\<not> is_scheme_char (last (c # cs))"
  shows "match_uri ((c # cs) @ t) = None"
proof (cases "is_letter c")
  case True
  then have "cs \<noteq> []" using assms(2) by (auto simp: is_scheme_char_def)
  then have ex: "\<exists>x \<in> set cs. \<not> is_scheme_char x" using assms(2) last_in_set by fastforce
  then obtain x xs where d: "dropWhile is_scheme_char cs = x # xs" by (cases "dropWhile is_scheme_char cs") auto
  then have "x \<in> set cs" by (metis list.set_intros(1) set_dropWhileD)
  then have "x \<noteq> CHR '':''" using assms(1) by auto
  moreover have "dropWhile is_scheme_char (cs @ t) = x # xs @ t"
    using ex d by (auto simp: dropWhile_append)
  ultimately show ?thesis by (simp add: match_uri_def Let_def)
qed (simp add: match_uri_def)

lemma sanitize_before_uri:
  assumes "CHR '':'' \<notin> set pre" "pre = [] \<or> \<not> is_scheme_char (last pre)"
    and "match_uri (uri @ rest) = Some (uri, rest)"
  shows "sanitizeOperatorText san (pre @ uri @ rest) = pre @ redact_uri san uri @ sanitizeOperatorText san rest"
  using assms(1,2)
proof (induction pre)
  case Nil
  show ?case using assms(3) by (subst sanitizeOperatorText.simps) simp
next
  case (Cons c cs)
  have "match_uri ((c # cs) @ uri @ rest) = None"
    by (rule match_uri_None_before) (use Cons.prems in auto)
  moreover have "cs = [] \<or> \<not> is_scheme_char (last cs)" using Cons.prems(2) by (cases cs) auto
  ultimately show ?case
    using Cons by (subst sanitizeOperatorText.simps) simp
qed

end
