(* ===== verification/Verify_Config.thy ===== *)
theory Verify_Config
  imports Net_Url Operator_Error
begin

text \<open>
  \<open>verifyservice/config.go\<close> and \<open>verifyservice/resolved_config.go\<close>: the configuration of the verify
  service, its validation, and the resolution of a database mapping into two connections.

  The environment is a record of the two things read from outside: environment variables and secret
  files. YAML decoding is outside the model; a configuration is what the decoder produces, with
  the unexported presence flags of a credential.
\<close>

record credential_value =
  cvValue :: string
  cvEnvRef :: string
  cvSecretFile :: string
  cvPresent :: bool
  cvValueSet :: bool
  cvEnvRefSet :: bool
  cvSecretFileSet :: bool

record database_tls_config =
  dtCACertPath :: string
  dtClientCertPath :: string
  dtClientKeyPath :: string

record database_config =
  dcHost :: string
  dcPort :: int
  dcDatabase :: string
  dcUsername :: credential_value
  dcPassword :: credential_value
  dcSSLMode :: string
  dcTLS :: "database_tls_config option"

record database_mapping_config =
  dmName :: string
  dmSourceDatabase :: string
  dmDestinationDatabase :: string
  dmSource :: "database_config option"
  dmDestination :: "database_config option"

record verify_config =
  vcSource :: "database_config option"
  vcDestination :: "database_config option"
  vcDatabases :: "database_mapping_config list"
  vcRawTableOutput :: bool

record listener_tls_config =
  ltCertPath :: string
  ltKeyPath :: string
  ltClientCAPath :: string

record listener_config =
  lcBindAddr :: string
  lcTLS :: "listener_tls_config option"

record config =
  cfgListener :: listener_config
  cfgVerify :: verify_config

record resolved_connection =
  rcHost :: string
  rcPort :: int
  rcDatabase :: string
  rcUsername :: string
  rcPassword :: string
  rcSSLMode :: string
  rcTLS :: database_tls_config

record resolved_database_pair =
  rdName :: string
  rdSource :: resolved_connection
  rdDestination :: resolved_connection

record os_env =
  osLookupEnv :: "string \<Rightarrow> string option"
  osReadFile :: "string \<Rightarrow> string result"

section \<open>Credentials\<close>

definition empty_credential :: credential_value where
  "empty_credential = \<lparr>cvValue = [], cvEnvRef = [], cvSecretFile = [], cvPresent = False, cvValueSet = False,
     cvEnvRefSet = False, cvSecretFileSet = False\<rparr>"

definition declared :: "credential_value \<Rightarrow> bool" where
  "declared v \<longleftrightarrow> cvPresent v \<or> cvValueSet v \<or> cvEnvRefSet v \<or> cvSecretFileSet v \<or>
     cvValue v \<noteq> [] \<or> cvEnvRef v \<noteq> [] \<or> cvSecretFile v \<noteq> []"

definition sourceCount :: "credential_value \<Rightarrow> nat" where
  "sourceCount v =
     (if cvValueSet v \<or> cvValue v \<noteq> [] then 1 else 0) +
     (if cvEnvRefSet v \<or> cvEnvRef v \<noteq> [] then 1 else 0) +
     (if cvSecretFileSet v \<or> cvSecretFile v \<noteq> [] then 1 else 0)"

text \<open>The two shapes \<open>CredentialValue.UnmarshalYAML\<close> builds: a scalar, and a mapping with optional
  entries.\<close>

definition credential_scalar :: "string \<Rightarrow> credential_value" where
  "credential_scalar literal = empty_credential\<lparr>cvValue := literal, cvPresent := True, cvValueSet := True\<rparr>"

definition credential_mapping :: "string option \<Rightarrow> string option \<Rightarrow> string option \<Rightarrow> credential_value" where
  "credential_mapping v e f =
     \<lparr>cvValue = (case v of Some x \<Rightarrow> x | None \<Rightarrow> []), cvEnvRef = (case e of Some x \<Rightarrow> x | None \<Rightarrow> []),
      cvSecretFile = (case f of Some x \<Rightarrow> x | None \<Rightarrow> []), cvPresent = True,
      cvValueSet = (v \<noteq> None), cvEnvRefSet = (e \<noteq> None), cvSecretFileSet = (f \<noteq> None)\<rparr>"

definition newCredentialConfigError :: "string \<Rightarrow> string \<Rightarrow> go_error" where
  "newCredentialConfigError fld reason =
     ErrOperator (newOperatorError ''config'' ''invalid_config'' ''verify-service config is invalid''
       [OperatorErrorDetail fld reason])"

definition trimTrailingCredentialNewline :: "string \<Rightarrow> string" where
  "trimTrailingCredentialNewline value =
     (let crlf = [char_of (13 :: nat), char_of (10 :: nat)]; lf = [char_of (10 :: nat)]
      in if length value \<ge> 2 \<and> drop (length value - 2) value = crlf then take (length value - 2) value
         else if value \<noteq> [] \<and> drop (length value - 1) value = lf then take (length value - 1) value
         else value)"

definition mergeCredential :: "credential_value \<Rightarrow> credential_value \<Rightarrow> credential_value" where
  "mergeCredential defaults override = (if declared override then override else defaults)"

definition resolveCredential :: "os_env \<Rightarrow> string \<Rightarrow> credential_value \<Rightarrow> string result" where
  "resolveCredential os path v =
     (if sourceCount v = 0 then
        Inl (newCredentialConfigError path ''must specify exactly one of value, env_ref, or secret_file'')
      else if sourceCount v > 1 then
        Inl (newCredentialConfigError path ''must not specify more than one of value, env_ref, or secret_file'')
      else if cvValueSet v \<or> cvValue v \<noteq> [] then
        (if cvValue v = [] then Inl (newCredentialConfigError (path @ ''.value'') ''must not be empty'')
         else Inr (cvValue v))
      else if cvEnvRefSet v \<or> cvEnvRef v \<noteq> [] then
        (if cvEnvRef v = [] then Inl (newCredentialConfigError (path @ ''.env_ref'') ''must be set'')
         else (case osLookupEnv os (cvEnvRef v) of
             None \<Rightarrow> Inl (newCredentialConfigError (path @ ''.env_ref'') ''references an unset environment variable'')
           | Some resolved \<Rightarrow>
               (if resolved = [] then Inl (newCredentialConfigError (path @ ''.env_ref'') ''resolved to an empty credential'')
                else Inr resolved)))
      else if cvSecretFileSet v \<or> cvSecretFile v \<noteq> [] then
        (if cvSecretFile v = [] then Inl (newCredentialConfigError (path @ ''.secret_file'') ''must be set'')
         else (case osReadFile os (cvSecretFile v) of
             Inl e \<Rightarrow> Inl (newCredentialConfigError (path @ ''.secret_file'') (''could not be read: '' @ err_Error e))
           | Inr content \<Rightarrow>
               (let resolved = trimTrailingCredentialNewline content
                in if resolved = [] then Inl (newCredentialConfigError (path @ ''.secret_file'') ''resolved to an empty credential'')
                   else Inr resolved)))
      else Inl (newCredentialConfigError path ''must specify exactly one of value, env_ref, or secret_file''))"

definition resolveRequiredCredential :: "os_env \<Rightarrow> string \<Rightarrow> credential_value \<Rightarrow> string result" where
  "resolveRequiredCredential os path v =
     (if \<not> declared v then Inl (newCredentialConfigError path ''must be set'') else resolveCredential os path v)"

definition resolveOptionalCredential :: "os_env \<Rightarrow> string \<Rightarrow> credential_value \<Rightarrow> string result" where
  "resolveOptionalCredential os path v = (if \<not> declared v then Inr [] else resolveCredential os path v)"

section \<open>Resolution\<close>

fun firstNonEmpty :: "string list \<Rightarrow> string" where
  "firstNonEmpty [] = []"
| "firstNonEmpty (v # vs) = (if v \<noteq> [] then v else firstNonEmpty vs)"

fun firstNonZero :: "int list \<Rightarrow> int" where
  "firstNonZero [] = 0"
| "firstNonZero (v # vs) = (if v \<noteq> 0 then v else firstNonZero vs)"

definition databaseConfigValue :: "database_config option \<Rightarrow> (database_config \<Rightarrow> string) \<Rightarrow> string" where
  "databaseConfigValue cfg getter = (case cfg of None \<Rightarrow> [] | Some c \<Rightarrow> getter c)"

definition databaseConfigIntValue :: "database_config option \<Rightarrow> (database_config \<Rightarrow> int) \<Rightarrow> int" where
  "databaseConfigIntValue cfg getter = (case cfg of None \<Rightarrow> 0 | Some c \<Rightarrow> getter c)"

definition databaseConfigCredential ::
  "database_config option \<Rightarrow> (database_config \<Rightarrow> credential_value) \<Rightarrow> credential_value" where
  "databaseConfigCredential cfg getter = (case cfg of None \<Rightarrow> empty_credential | Some c \<Rightarrow> getter c)"

definition databaseTLSConfig :: "database_config option \<Rightarrow> database_tls_config" where
  "databaseTLSConfig cfg =
     (let none = \<lparr>dtCACertPath = [], dtClientCertPath = [], dtClientKeyPath = []\<rparr>
      in case cfg of None \<Rightarrow> none | Some c \<Rightarrow> (case dcTLS c of None \<Rightarrow> none | Some t \<Rightarrow> t))"

definition mergeTLS :: "database_tls_config \<Rightarrow> database_tls_config \<Rightarrow> database_tls_config" where
  "mergeTLS defaults override =
     \<lparr>dtCACertPath = firstNonEmpty [dtCACertPath override, dtCACertPath defaults],
      dtClientCertPath = firstNonEmpty [dtClientCertPath override, dtClientCertPath defaults],
      dtClientKeyPath = firstNonEmpty [dtClientKeyPath override, dtClientKeyPath defaults]\<rparr>"

definition sslModeRequiresServerVerification :: "string \<Rightarrow> bool" where
  "sslModeRequiresServerVerification mode \<longleftrightarrow> mode \<in> {''verify-ca'', ''verify-full''}"

definition must_be_set :: "string \<Rightarrow> string \<Rightarrow> go_error" where
  "must_be_set path fld = ErrMsg (path @ ''.'' @ fld @ '' must be set'')"

definition resolved_validate :: "string \<Rightarrow> resolved_connection \<Rightarrow> go_error option" where
  "resolved_validate path c =
     (case find (\<lambda>(fld, value). value = [])
             [(''host'', rcHost c), (''database'', rcDatabase c), (''username'', rcUsername c), (''sslmode'', rcSSLMode c)] of
        Some (fld, value) \<Rightarrow> Some (must_be_set path fld)
      | None \<Rightarrow>
          (if rcPort c = 0 then Some (must_be_set path ''port'')
           else if sslModeRequiresServerVerification (rcSSLMode c) \<and> dtCACertPath (rcTLS c) = []
           then Some (ErrMsg (path @ ''.tls.ca_cert_path must be set when '' @ path @ ''.sslmode verifies the server certificate''))
           else if (dtClientCertPath (rcTLS c) \<noteq> []) \<noteq> (dtClientKeyPath (rcTLS c) \<noteq> [])
           then Some (ErrMsg (path @ ''.tls.client_cert_path and '' @ path @ ''.tls.client_key_path must both be set''))
           else None))"

definition resolveConnection ::
  "os_env \<Rightarrow> string \<Rightarrow> database_config option \<Rightarrow> database_config option \<Rightarrow> string \<Rightarrow> resolved_connection result" where
  "resolveConnection os path defaults override database =
     (let host = firstNonEmpty [databaseConfigValue override dcHost, databaseConfigValue defaults dcHost];
          port = firstNonZero [databaseConfigIntValue override dcPort, databaseConfigIntValue defaults dcPort];
          db = firstNonEmpty [database, databaseConfigValue defaults dcDatabase];
          user = mergeCredential (databaseConfigCredential defaults dcUsername) (databaseConfigCredential override dcUsername);
          pass = mergeCredential (databaseConfigCredential defaults dcPassword) (databaseConfigCredential override dcPassword);
          sslmode = firstNonEmpty [databaseConfigValue override dcSSLMode, databaseConfigValue defaults dcSSLMode];
          tls = mergeTLS (databaseTLSConfig defaults) (databaseTLSConfig override)
      in case resolveRequiredCredential os (path @ ''.username'') user of
           Inl e \<Rightarrow> Inl e
         | Inr username \<Rightarrow>
             (case resolveOptionalCredential os (path @ ''.password'') pass of
                Inl e \<Rightarrow> Inl e
              | Inr password \<Rightarrow>
                  (let resolved = \<lparr>rcHost = host, rcPort = port, rcDatabase = db, rcUsername = username,
                                   rcPassword = password, rcSSLMode = sslmode, rcTLS = tls\<rparr>
                   in case resolved_validate path resolved of Some e \<Rightarrow> Inl e | None \<Rightarrow> Inr resolved)))"

definition resolveDatabaseAt ::
  "os_env \<Rightarrow> verify_config \<Rightarrow> string \<Rightarrow> database_mapping_config \<Rightarrow> resolved_database_pair result" where
  "resolveDatabaseAt os cfg path d =
     (case resolveConnection os (path @ ''.source'') (vcSource cfg) (dmSource d)
             (firstNonEmpty [dmSourceDatabase d, databaseConfigValue (dmSource d) dcDatabase]) of
        Inl e \<Rightarrow> Inl e
      | Inr source \<Rightarrow>
          (case resolveConnection os (path @ ''.destination'') (vcDestination cfg) (dmDestination d)
                  (firstNonEmpty [dmDestinationDatabase d, databaseConfigValue (dmDestination d) dcDatabase]) of
             Inl e \<Rightarrow> Inl e
           | Inr destination \<Rightarrow> Inr \<lparr>rdName = dmName d, rdSource = source, rdDestination = destination\<rparr>))"

definition databasePath :: "nat \<Rightarrow> string" where
  "databasePath index = ''verify.databases['' @ Itoa index @ '']''"

fun resolve_from :: "os_env \<Rightarrow> verify_config \<Rightarrow> nat \<Rightarrow> database_mapping_config list \<Rightarrow> resolved_database_pair list result" where
  "resolve_from os cfg index [] = Inr []"
| "resolve_from os cfg index (d # ds) =
     (case resolveDatabaseAt os cfg (databasePath index) d of
        Inl e \<Rightarrow> Inl e
      | Inr pair \<Rightarrow> (case resolve_from os cfg (Suc index) ds of Inl e \<Rightarrow> Inl e | Inr ps \<Rightarrow> Inr (pair # ps)))"

definition ResolveAllDatabases :: "os_env \<Rightarrow> verify_config \<Rightarrow> resolved_database_pair list result" where
  "ResolveAllDatabases os cfg = resolve_from os cfg 0 (vcDatabases cfg)"

text \<open>\<open>%q\<close>: a quoted Go string. Bytes from 128 on are kept, as they are in printable UTF-8 text.\<close>

definition quote_char :: "char \<Rightarrow> string" where
  "quote_char c =
     (let n = of_char c :: nat; lower_hex = (\<lambda>d. if d < 10 then char_of (48 + d) else char_of (87 + d)); bs = char_of (92 :: nat)
      in if n = 34 \<or> n = 92 then [bs, c]
         else if n = 7 then [bs, CHR ''a''] else if n = 8 then [bs, CHR ''b''] else if n = 12 then [bs, CHR ''f'']
         else if n = 10 then [bs, CHR ''n''] else if n = 13 then [bs, CHR ''r''] else if n = 9 then [bs, CHR ''t'']
         else if n = 11 then [bs, CHR ''v'']
         else if n < 32 \<or> n = 127 then [bs, CHR ''x'', lower_hex (n div 16), lower_hex (n mod 16)]
         else [c])"

definition quoted :: "string \<Rightarrow> string" where
  "quoted s = [char_of (34 :: nat)] @ concat (map quote_char s) @ [char_of (34 :: nat)]"

fun resolve_named ::
  "os_env \<Rightarrow> verify_config \<Rightarrow> string \<Rightarrow> nat \<Rightarrow> database_mapping_config list \<Rightarrow> resolved_database_pair result" where
  "resolve_named os cfg name index [] = Inl (ErrMsg (''configured database '' @ quoted name @ '' was not found''))"
| "resolve_named os cfg name index (d # ds) =
     (if dmName d = name then resolveDatabaseAt os cfg (databasePath index) d
      else resolve_named os cfg name (Suc index) ds)"

definition ResolveDatabase :: "os_env \<Rightarrow> verify_config \<Rightarrow> string \<Rightarrow> resolved_database_pair result" where
  "ResolveDatabase os cfg name =
     (if name = [] then
        (if length (vcDatabases cfg) = 1 then resolveDatabaseAt os cfg ''verify.databases[0]'' (vcDatabases cfg ! 0)
         else Inl (ErrMsg ''database selection is required when multiple databases are configured''))
      else resolve_named os cfg name 0 (vcDatabases cfg))"

section \<open>The connection string\<close>

definition ConnectionString :: "resolved_connection \<Rightarrow> string" where
  "ConnectionString c =
     (let q0 = query_Set [] ''sslmode'' (rcSSLMode c);
          q1 = (if dtCACertPath (rcTLS c) \<noteq> [] then query_Set q0 ''sslrootcert'' (dtCACertPath (rcTLS c)) else q0);
          q2 = (if dtClientCertPath (rcTLS c) \<noteq> []
                then query_Set (query_Set q1 ''sslcert'' (dtClientCertPath (rcTLS c))) ''sslkey'' (dtClientKeyPath (rcTLS c))
                else q1);
          userInfo = (if rcPassword c \<noteq> [] then (rcUsername c, Some (rcPassword c)) else (rcUsername c, None))
      in url_String \<lparr>urlScheme = ''postgresql'', urlUser = Some userInfo,
           urlHost = JoinHostPort (rcHost c) (ItoaInt (rcPort c)), urlPath = ''/'' @ rcDatabase c,
           urlRawQuery = query_Encode q2\<rparr>)"

section \<open>Validation\<close>

definition listener_validate :: "listener_config \<Rightarrow> go_error option" where
  "listener_validate l =
     (if lcBindAddr l = [] then Some (ErrMsg ''listener.bind_addr must be set'')
      else case lcTLS l of
        None \<Rightarrow> None
      | Some t \<Rightarrow>
          (if ltCertPath t = [] \<or> ltKeyPath t = []
           then Some (ErrMsg ''listener.tls.cert_path and listener.tls.key_path must both be set when listener.tls is configured'')
           else None))"

definition listener_Mode :: "listener_config \<Rightarrow> string" where
  "listener_Mode l =
     (case lcTLS l of
        None \<Rightarrow> ''http''
      | Some t \<Rightarrow> (if ltClientCAPath t \<noteq> [] then ''https+mtls'' else ''https''))"

fun validate_from ::
  "os_env \<Rightarrow> verify_config \<Rightarrow> string list \<Rightarrow> nat \<Rightarrow> database_mapping_config list \<Rightarrow> go_error option" where
  "validate_from os cfg seenNames index [] = None"
| "validate_from os cfg seenNames index (d # ds) =
     (let path = ''verify.databases['' @ Itoa index @ '']''
      in if dmName d = [] then Some (ErrMsg (path @ ''.name must be set''))
         else if dmName d \<in> set seenNames
         then Some (ErrMsg (path @ ''.name duplicates configured database '' @ quoted (dmName d)))
         else (case resolveDatabaseAt os cfg path d of
                 Inl e \<Rightarrow> Some e
               | Inr p \<Rightarrow> validate_from os cfg (dmName d # seenNames) (Suc index) ds))"

definition verify_validate :: "os_env \<Rightarrow> verify_config \<Rightarrow> go_error option" where
  "verify_validate os cfg =
     (if vcDatabases cfg = [] then Some (ErrMsg ''verify.databases must contain at least one database mapping'')
      else validate_from os cfg [] 0 (vcDatabases cfg))"

definition config_Validate :: "os_env \<Rightarrow> config \<Rightarrow> go_error option" where
  "config_Validate os cfg =
     (case listener_validate (cfgListener cfg) of
        Some e \<Rightarrow> Some e
      | None \<Rightarrow> verify_validate os (cfgVerify cfg))"

definition asInvalidConfigError :: "go_error \<Rightarrow> go_error" where
  "asInvalidConfigError err =
     (let generic = ErrOperator (newOperatorError ''config'' ''invalid_config'' ''verify-service config is invalid''
                      [OperatorErrorDetail [] (err_Error err)])
      in case asOperatorError (Some err) of
           Some opErr \<Rightarrow> (if oeCategory opErr = ''config'' \<and> oeCode opErr = ''invalid_config'' then ErrOperator opErr else generic)
         | None \<Rightarrow> generic)"

text \<open>\<open>LoadConfig\<close>: \<open>decode\<close> stands for the YAML decoder with unknown fields refused.\<close>

definition LoadConfig :: "(string \<Rightarrow> config result) \<Rightarrow> os_env \<Rightarrow> string \<Rightarrow> config result" where
  "LoadConfig decode os path =
     (case osReadFile os path of
        Inl e \<Rightarrow> Inl (ErrOperator (newOperatorError ''config'' ''config_read_failed''
                   ''verify-service config could not be read'' [OperatorErrorDetail [] (err_Error e)]))
      | Inr content \<Rightarrow>
          (case decode content of
             Inl e \<Rightarrow> Inl (ErrOperator (newOperatorError ''config'' ''invalid_config''
                        ''verify-service config is invalid'' [OperatorErrorDetail [] (err_Error e)]))
           | Inr cfg \<Rightarrow>
               (case config_Validate os cfg of Some e \<Rightarrow> Inl (asInvalidConfigError e) | None \<Rightarrow> Inr cfg)))"

end
