(* ===== verification/Config_Properties.thy ===== *)
theory Config_Properties
  imports Verify_Config
begin

text \<open>
  Properties of the configuration: what validation guarantees for every later resolution, what a
  resolved credential is, the user part of a connection string, and the errors of \<open>LoadConfig\<close>.
\<close>

section \<open>Credentials and connections\<close>

lemma resolveCredential_Inr:
  "resolveCredential os path v = Inr s \<Longrightarrow> s \<noteq> [] \<and> sourceCount v = 1"
  by (auto simp: resolveCredential_def Let_def split: if_splits option.splits sum.splits)

definition valid_connection :: "resolved_connection \<Rightarrow> bool" where
  "valid_connection c \<longleftrightarrow>
     rcHost c \<noteq> [] \<and> rcDatabase c \<noteq> [] \<and> rcUsername c \<noteq> [] \<and> rcSSLMode c \<noteq> [] \<and> rcPort c \<noteq> 0 \<and>
     (rcSSLMode c \<in> {''verify-ca'', ''verify-full''} \<longrightarrow> dtCACertPath (rcTLS c) \<noteq> []) \<and>
     (dtClientCertPath (rcTLS c) = [] \<longleftrightarrow> dtClientKeyPath (rcTLS c) = [])"

lemma resolved_validate_None: "resolved_validate path c = None \<longleftrightarrow> valid_connection c"
  by (auto simp: resolved_validate_def valid_connection_def sslModeRequiresServerVerification_def)

lemma resolveConnection_Inr: "resolveConnection os path d ov db = Inr c \<Longrightarrow> valid_connection c"
  by (auto simp: resolveConnection_def Let_def resolved_validate_None
      split: sum.splits option.splits)

lemma resolveDatabaseAt_Inr:
  "resolveDatabaseAt os cfg path d = Inr p \<Longrightarrow>
   rdName p = dmName d \<and> valid_connection (rdSource p) \<and> valid_connection (rdDestination p)"
  by (auto simp: resolveDatabaseAt_def resolveConnection_Inr split: sum.splits)

text \<open>The path of a mapping only appears in error messages.\<close>

lemma resolveCredential_path:
  "resolveCredential os path v = Inr s \<Longrightarrow> resolveCredential os path' v = Inr s"
  by (auto simp: resolveCredential_def Let_def split: if_splits option.splits sum.splits)

section \<open>Validation\<close>

lemma validate_from_None:
  assumes "validate_from os cfg seen index ds = None"
  shows "(\<exists>ps. resolve_from os cfg index ds = Inr ps \<and> map rdName ps = map dmName ds \<and>
            list_all (\<lambda>p. valid_connection (rdSource p) \<and> valid_connection (rdDestination p)) ps) \<and>
    distinct (map dmName ds) \<and> set (map dmName ds) \<inter> set seen = {} \<and> [] \<notin> set (map dmName ds)"
  using assms
proof (induction os cfg seen index ds rule: validate_from.induct)
  case (2 os cfg seen index d ds)
  then obtain p where p: "resolveDatabaseAt os cfg (databasePath index) d = Inr p"
    by (auto simp: Let_def databasePath_def split: if_splits sum.splits)
  have rest: "validate_from os cfg (dmName d # seen) (Suc index) ds = None" "dmName d \<noteq> []" "dmName d \<notin> set seen"
    using "2.prems" p by (auto simp: Let_def databasePath_def split: if_splits sum.splits)
  from "2.IH" [OF refl rest(2,3) p [unfolded databasePath_def] rest(1)]
  show ?case using p resolveDatabaseAt_Inr [OF p] rest by auto
qed simp

lemma resolve_named_found:
  assumes "resolve_from os cfg index ds = Inr ps" "map rdName ps = map dmName ds" "distinct (map dmName ds)"
    "p \<in> set ps"
  shows "resolve_named os cfg (rdName p) index ds = Inr p"
  using assms
proof (induction os cfg index ds arbitrary: ps rule: resolve_from.induct)
  case (2 os cfg index d ds)
  then obtain q qs where q: "resolveDatabaseAt os cfg (databasePath index) d = Inr q"
    "resolve_from os cfg (Suc index) ds = Inr qs" "ps = q # qs" by (auto split: sum.splits)
  show ?case
  proof (cases "p = q")
    case False
    then have "p \<in> set qs" using "2.prems"(4) q(3) by simp
    moreover from this have "rdName p \<noteq> dmName d" using "2.prems"(2,3) q(3) by (metis distinct.simps(2) imageI list.inject list.set_map list.simps(9))
    ultimately show ?thesis using "2.IH" [OF q(1) q(2)] "2.prems"(2,3) q(3) by simp
  qed (use q "2.prems"(2) in auto)
qed simp

text \<open>C29: A configuration that validates has at least one database, distinct non-empty names, and every
  database resolves: resolving them all succeeds, in the order of the configuration, looking one up by
  its name gives the same pair, and both connections have a host, port, database, user and SSL mode, a
  CA certificate whenever the mode verifies the server, and a client key exactly when they have a
  client certificate.\<close>

theorem validated_config_resolves:
  assumes "config_Validate os cfg = None"
  shows "\<exists>ps. ResolveAllDatabases os (cfgVerify cfg) = Inr ps \<and> ps \<noteq> [] \<and>
    map rdName ps = map dmName (vcDatabases (cfgVerify cfg)) \<and> distinct (map rdName ps) \<and> [] \<notin> set (map rdName ps) \<and>
    (\<forall>p \<in> set ps. ResolveDatabase os (cfgVerify cfg) (rdName p) = Inr p \<and>
       valid_connection (rdSource p) \<and> valid_connection (rdDestination p))"
proof -
  let ?v = "cfgVerify cfg"
  have v: "vcDatabases ?v \<noteq> []" "validate_from os ?v [] 0 (vcDatabases ?v) = None"
    using assms by (auto simp: config_Validate_def verify_validate_def split: option.splits if_splits)
  from validate_from_None [OF v(2)] obtain ps where ps:
    "resolve_from os ?v 0 (vcDatabases ?v) = Inr ps" "map rdName ps = map dmName (vcDatabases ?v)"
    "list_all (\<lambda>p. valid_connection (rdSource p) \<and> valid_connection (rdDestination p)) ps"
    and d: "distinct (map dmName (vcDatabases ?v))" "[] \<notin> set (map dmName (vcDatabases ?v))" by auto
  have "ResolveDatabase os ?v (rdName p) = Inr p" if "p \<in> set ps" for p
  proof -
    have "rdName p \<in> set (map dmName (vcDatabases ?v))" using that ps(2) by (metis image_eqI list.set_map)
    then have "rdName p \<noteq> []" using d(2) by metis
    then show ?thesis using resolve_named_found [OF ps(1,2) d(1) that] by (simp add: ResolveDatabase_def)
  qed
  moreover have "ps \<noteq> []" using v(1) ps(2) by (metis list.map_disc_iff)
  ultimately show ?thesis
    using ps(1,3) d unfolding ps(2) [symmetric] by (intro exI [of _ ps]) (simp add: ResolveAllDatabases_def list_all_iff ps(2))
qed

definition example_env :: os_env where
  "example_env = \<lparr>osLookupEnv = (\<lambda>n. if n = ''PW'' then Some ''s3cr:t@'' else None), osReadFile = (\<lambda>f. Inl (ErrMsg ''no such file''))\<rparr>"

definition example_side :: database_config where
  "example_side = \<lparr>dcHost = ''db'', dcPort = 5432, dcDatabase = ''app'', dcUsername = credential_scalar ''ops'',
     dcPassword = credential_mapping None (Some ''PW'') None, dcSSLMode = ''require'', dcTLS = None\<rparr>"

definition example_config :: config where
  "example_config = \<lparr>cfgListener = \<lparr>lcBindAddr = '':8080'', lcTLS = None\<rparr>,
     cfgVerify = \<lparr>vcSource = Some example_side, vcDestination = Some example_side,
       vcDatabases = [\<lparr>dmName = ''main'', dmSourceDatabase = [], dmDestinationDatabase = ''copy'', dmSource = None, dmDestination = None\<rparr>],
       vcRawTableOutput = False\<rparr>\<rparr>"

theorem validated_config_resolves_witness:
  "\<exists>ps. ResolveAllDatabases example_env (cfgVerify example_config) = Inr ps \<and> map rdName ps = [''main'']"
proof -
  have "config_Validate example_env example_config = None" by code_simp
  moreover have "map dmName (vcDatabases (cfgVerify example_config)) = [''main'']" by code_simp
  ultimately show ?thesis using validated_config_resolves [of example_env example_config] by auto
qed

text \<open>A credential that resolves has exactly one source and its value is not empty: the literal
  itself, the value of a set environment variable, or a readable secret file without its last line
  break.\<close>

theorem resolved_credential_source:
  assumes "resolveRequiredCredential os path v = Inr s"
  shows "s \<noteq> [] \<and> declared v \<and> sourceCount v = 1 \<and>
    (if cvValueSet v \<or> cvValue v \<noteq> [] then s = cvValue v
     else if cvEnvRefSet v \<or> cvEnvRef v \<noteq> [] then osLookupEnv os (cvEnvRef v) = Some s
     else (\<exists>content. osReadFile os (cvSecretFile v) = Inr content \<and> s = trimTrailingCredentialNewline content))"
proof -
  have r: "resolveCredential os path v = Inr s" "declared v"
    using assms by (auto simp: resolveRequiredCredential_def split: if_splits)
  moreover from r(1) have "if cvValueSet v \<or> cvValue v \<noteq> [] then s = cvValue v
     else if cvEnvRefSet v \<or> cvEnvRef v \<noteq> [] then osLookupEnv os (cvEnvRef v) = Some s
     else (\<exists>content. osReadFile os (cvSecretFile v) = Inr content \<and> s = trimTrailingCredentialNewline content)"
    by (auto simp: resolveCredential_def Let_def split: if_splits option.splits sum.splits)
  ultimately show ?thesis using resolveCredential_Inr by blast
qed

theorem resolved_credential_source_witness:
  "sourceCount (credential_mapping None (Some ''PW'') None) = 1"
proof -
  have "resolveRequiredCredential example_env ''p'' (credential_mapping None (Some ''PW'') None) = Inr ''s3cr:t@''"
    by code_simp
  from resolved_credential_source [OF this] show ?thesis by blast
qed

section \<open>Connection strings\<close>

lemma takeWhile_stop: "x \<notin> set xs \<Longrightarrow> takeWhile (\<lambda>c. c \<noteq> x) (xs @ x # ys) = xs"
  by (induction xs) auto

lemma dropWhile_stop: "x \<notin> set xs \<Longrightarrow> dropWhile (\<lambda>c. c \<noteq> x) (xs @ x # ys) = x # ys"
  by (induction xs) auto

lemma takeWhile_all: "x \<notin> set xs \<Longrightarrow> takeWhile (\<lambda>c. c \<noteq> x) xs = xs \<and> dropWhile (\<lambda>c. c \<noteq> x) xs = []"
  by (induction xs) auto

text \<open>How a reader of the string finds user and password: the text between \<open>postgresql://\<close> and the
  first \<open>@\<close>, split at its first colon, each part percent-decoded.\<close>

definition read_user :: "string \<Rightarrow> string option \<times> string option" where
  "read_user s =
     (let ui = takeWhile (\<lambda>c. c \<noteq> CHR ''@'') (drop 13 s); rest = dropWhile (\<lambda>c. c \<noteq> CHR '':'') ui
      in (url_unescape EncodeUserPassword (takeWhile (\<lambda>c. c \<noteq> CHR '':'') ui),
          if rest = [] then None else url_unescape EncodeUserPassword (tl rest)))"

lemma escape_user_not: "x \<in> set ''@/?:'' \<Longrightarrow> x \<notin> set (url_escape EncodeUserPassword s)"
  using url_escape_user [of s] by blast

lemma ConnectionString_user:
  "\<exists>rest. ConnectionString c =
     ''postgresql://'' @ userinfo_String (rcUsername c, if rcPassword c = [] then None else Some (rcPassword c)) @ CHR ''@'' # rest"
  by (auto simp: ConnectionString_def url_String_def Let_def)

text \<open>User name and password survive the connection string whatever characters they contain: reading
  the user part of the string back gives the user name, and the password exactly when one is set. No
  character of a credential can end the user part early or be taken for another host.\<close>

theorem connection_string_user_roundtrip:
  "read_user (ConnectionString c) =
     (Some (rcUsername c), if rcPassword c = [] then None else Some (rcPassword c))"
proof -
  let ?E = "url_escape EncodeUserPassword"
  obtain rest where c: "ConnectionString c = ''postgresql://'' @
      userinfo_String (rcUsername c, if rcPassword c = [] then None else Some (rcPassword c)) @ CHR ''@'' # rest"
    using ConnectionString_user by blast
  have at: "CHR ''@'' \<notin> set (?E s)" "CHR '':'' \<notin> set (?E s)" for s by (rule escape_user_not; simp)+
  show ?thesis
  proof (cases "rcPassword c = []")
    case True
    have ui: "userinfo_String (rcUsername c, None) = ?E (rcUsername c)" by (simp add: userinfo_String_def url_escape_def)
    have "takeWhile (\<lambda>x. x \<noteq> CHR ''@'') (drop 13 (ConnectionString c)) = ?E (rcUsername c)"
      using True ui by (simp add: c takeWhile_stop at)
    then show ?thesis using True at(2) [of "rcUsername c"]
      by (auto simp: read_user_def Let_def url_unescape_escape takeWhile_all)
  next
    case False
    have ui: "userinfo_String (rcUsername c, Some (rcPassword c)) = ?E (rcUsername c) @ CHR '':'' # ?E (rcPassword c)"
      by (simp add: userinfo_String_def)
    have "takeWhile (\<lambda>x. x \<noteq> CHR ''@'') (drop 13 (ConnectionString c)) = ?E (rcUsername c) @ CHR '':'' # ?E (rcPassword c)"
      using False ui takeWhile_stop [of "CHR ''@''" "?E (rcUsername c) @ CHR '':'' # ?E (rcPassword c)" rest]
      by (simp add: c at)
    then show ?thesis using False by (simp add: read_user_def takeWhile_stop dropWhile_stop at url_unescape_escape)
  qed
qed

section \<open>Loading\<close>

lemma asInvalidConfigError_operator:
  "\<exists>oe. asInvalidConfigError e = ErrOperator oe \<and> oeCategory oe = ''config'' \<and> oeCode oe = ''invalid_config''"
  by (auto simp: asInvalidConfigError_def newOperatorError_def Let_def split: option.splits)

text \<open>\<open>LoadConfig\<close> returns either a configuration that validates in the environment it was loaded in, or
  an operator error of category \<open>config\<close>.\<close>

theorem load_config_outcome:
  "case LoadConfig decode os path of
     Inr cfg \<Rightarrow> config_Validate os cfg = None
   | Inl e \<Rightarrow> (\<exists>oe. e = ErrOperator oe \<and> oeCategory oe = ''config'' \<and>
                 oeCode oe \<in> {''config_read_failed'', ''invalid_config''})"
  using asInvalidConfigError_operator
  by (auto simp: LoadConfig_def newOperatorError_def split: sum.splits option.splits)

end
