(* ===== verification/Path_Match.thy ===== *)
theory Path_Match
  imports Go_Prelude
begin

text \<open>
  Go's \<open>path.Match\<close>, which decides the globs of a job request: the chunk-wise algorithm of the
  standard library, on byte strings (a byte is a character; patterns and names with multi-byte
  characters are outside the model), and its agreement with the textbook meaning of a glob.

  \<open>Inl\<close> is \<open>path.ErrBadPattern\<close>.
\<close>

definition ErrBadPattern :: go_error where
  "ErrBadPattern = ErrMsg ''syntax error in pattern''"

definition backslash :: char where
  "backslash = char_of (92 :: nat)"

section \<open>The algorithm\<close>

definition getEsc :: "string \<Rightarrow> (char \<times> string) result" where
  "getEsc chunk =
     (case chunk of
        [] \<Rightarrow> Inl ErrBadPattern
      | c # cs \<Rightarrow>
          (if c = CHR ''-'' \<or> c = CHR '']'' then Inl ErrBadPattern
           else (let chunk' = (if c = backslash then cs else chunk)
                 in case chunk' of
                      [] \<Rightarrow> Inl ErrBadPattern
                    | r # nchunk \<Rightarrow> (if nchunk = [] then Inl ErrBadPattern else Inr (r, nchunk)))))"

lemma getEsc_shorter: "getEsc chunk = Inr (r, rest) \<Longrightarrow> length rest < length chunk \<and> rest \<noteq> []"
  by (auto simp: getEsc_def Let_def split: list.splits if_splits)

text \<open>The loop over the ranges of a character class: whether \<open>r\<close> is in one of them, and what follows the
  closing bracket.\<close>

function parse_ranges :: "char \<Rightarrow> bool \<Rightarrow> nat \<Rightarrow> string \<Rightarrow> (bool \<times> string) result" where
  "parse_ranges r m nrange chunk =
     (if chunk \<noteq> [] \<and> hd chunk = CHR '']'' \<and> nrange > 0 then Inr (m, tl chunk)
      else case getEsc chunk of
        Inl e \<Rightarrow> Inl e
      | Inr (lo, c1) \<Rightarrow>
          (if hd c1 = CHR ''-'' then
             (case getEsc (tl c1) of
                Inl e \<Rightarrow> Inl e
              | Inr (hi, c2) \<Rightarrow> parse_ranges r (m \<or> lo \<le> r \<and> r \<le> hi) (Suc nrange) c2)
           else parse_ranges r (m \<or> lo \<le> r \<and> r \<le> lo) (Suc nrange) c1))"
  by pat_completeness auto
termination
  by (relation "measure (\<lambda>(r, m, n, c). length c)") (auto dest!: getEsc_shorter)

declare parse_ranges.simps [simp del]

lemma parse_ranges_shorter: "parse_ranges r m n chunk = Inr (b, rest) \<Longrightarrow> length rest < length chunk"
proof (induction r m n chunk rule: parse_ranges.induct)
  case (1 r m n chunk)
  show ?case
  proof (cases "chunk \<noteq> [] \<and> hd chunk = CHR '']'' \<and> n > 0")
    case True
    then show ?thesis using "1.prems" by (cases chunk) (auto simp: parse_ranges.simps [of r m n])
  next
    case False
    then obtain lo c1 where lo: "getEsc chunk = Inr (lo, c1)"
      using "1.prems" by (auto simp: parse_ranges.simps [of r m n chunk] split: sum.splits)
    show ?thesis
    proof (cases "hd c1 = CHR ''-''")
      case True
      then obtain hi c2 where hi: "getEsc (tl c1) = Inr (hi, c2)"
        using "1.prems" False lo by (auto simp: parse_ranges.simps [of r m n chunk] split: sum.splits)
      from "1.IH"(1) [OF False lo refl True hi refl] "1.prems" have "length rest < length c2"
        using False lo True hi by (simp add: parse_ranges.simps [of r m n chunk])
      then show ?thesis using getEsc_shorter [OF lo] getEsc_shorter [OF hi] by auto
    next
      case nd: False
      from "1.IH"(2) [OF False lo refl nd] "1.prems" have "length rest < length c1"
        using False lo nd by (simp add: parse_ranges.simps [of r m n chunk])
      then show ?thesis using getEsc_shorter [OF lo] by simp
    qed
  qed
qed

text \<open>\<open>matchChunk\<close>: the subject is \<open>None\<close> once the match has failed, when only the syntax of the chunk
  is still checked.\<close>

definition chunk_subject :: "string option \<Rightarrow> string option" where
  "chunk_subject s = (case s of Some [] \<Rightarrow> None | _ \<Rightarrow> s)"

function matchChunk :: "string \<Rightarrow> string option \<Rightarrow> string option result" where
  "matchChunk [] s = Inr s"
| "matchChunk (c # chunk) s0 =
     (let s = chunk_subject s0
      in if c = CHR ''['' then
           (let negated = (chunk \<noteq> [] \<and> hd chunk = CHR ''^'');
                body = (if negated then tl chunk else chunk);
                r = (case s of Some (x # xs) \<Rightarrow> x | _ \<Rightarrow> char_of (0 :: nat))
            in case parse_ranges r False 0 body of
                 Inl e \<Rightarrow> Inl e
               | Inr (m, rest) \<Rightarrow> matchChunk rest (if m = negated then None else map_option tl s))
         else if c = CHR ''?'' then
           matchChunk chunk (case s of Some (x # xs) \<Rightarrow> (if x = CHR ''/'' then None else Some xs) | _ \<Rightarrow> None)
         else if c = backslash then
           (case chunk of
              [] \<Rightarrow> Inl ErrBadPattern
            | d # chunk' \<Rightarrow> matchChunk chunk' (case s of Some (x # xs) \<Rightarrow> (if d = x then Some xs else None) | _ \<Rightarrow> None))
         else matchChunk chunk (case s of Some (x # xs) \<Rightarrow> (if c = x then Some xs else None) | _ \<Rightarrow> None))"
  by pat_completeness auto
termination
proof (relation "measure (\<lambda>(chunk, s). length chunk)", goal_cases)
  case (2 c chunk s0 s negated body r x m rest)
  then have "length rest < length body" using parse_ranges_shorter by metis
  moreover have "length body \<le> length chunk" using 2 by simp
  ultimately show ?case by simp
qed auto

declare matchChunk.simps [simp del]

fun scan_body :: "bool \<Rightarrow> string \<Rightarrow> string \<times> string" where
  "scan_body inrange [] = ([], [])"
| "scan_body inrange (c # cs) =
     (if c = backslash then
        (case cs of
           [] \<Rightarrow> ([c], [])
         | d # ds \<Rightarrow> (case scan_body inrange ds of (a, b) \<Rightarrow> (c # d # a, b)))
      else if c = CHR ''['' then (case scan_body True cs of (a, b) \<Rightarrow> (c # a, b))
      else if c = CHR '']'' then (case scan_body False cs of (a, b) \<Rightarrow> (c # a, b))
      else if c = CHR ''*'' \<and> \<not> inrange then ([], c # cs)
      else (case scan_body inrange cs of (a, b) \<Rightarrow> (c # a, b)))"

definition scanChunk :: "string \<Rightarrow> bool \<times> string \<times> string" where
  "scanChunk pattern =
     (pattern \<noteq> [] \<and> hd pattern = CHR ''*'',
      scan_body False (dropWhile (\<lambda>c. c = CHR ''*'') pattern))"

declare scan_body.simps(2) [simp del]

lemma scan_body_append: "fst (scan_body b p) @ snd (scan_body b p) = p"
proof (induction b p rule: scan_body.induct)
  case (2 b c cs)
  show ?case
  proof (cases "c = backslash")
    case True
    then show ?thesis using "2.IH"(1) [OF True] by (cases cs) (auto simp: scan_body.simps(2) [of b backslash] split: prod.splits)
  qed (use "2.IH"(2-) in \<open>auto simp: scan_body.simps(2) [of b c cs] split: prod.splits\<close>)
qed simp

lemma scan_body_progress: "p \<noteq> [] \<Longrightarrow> hd p \<noteq> CHR ''*'' \<Longrightarrow> fst (scan_body False p) \<noteq> []"
proof (cases p)
  case (Cons c cs)
  assume "hd p \<noteq> CHR ''*''"
  then show ?thesis using Cons by (cases cs) (auto simp: scan_body.simps(2) [of False c] split: prod.splits)
qed simp

lemma scanChunk_shorter: "scanChunk p = (star, chunk, rest) \<Longrightarrow> p \<noteq> [] \<Longrightarrow> length rest < length p"
proof -
  assume a: "scanChunk p = (star, chunk, rest)" "p \<noteq> []"
  let ?d = "dropWhile (\<lambda>c. c = CHR ''*'') p"
  have s: "scan_body False ?d = (chunk, rest)" using a by (simp add: scanChunk_def)
  have len: "length ?d \<le> length p" by (rule length_dropWhile_le)
  have app: "?d = chunk @ rest" using scan_body_append [of False ?d] s by simp
  show ?thesis
  proof (cases "?d = []")
    case True
    then show ?thesis using app a(2) by simp
  next
    case False
    then have "chunk \<noteq> []" using scan_body_progress [of ?d] s hd_dropWhile [of "\<lambda>c. c = CHR ''*''" p] by auto
    then show ?thesis using app len by (cases chunk) auto
  qed
qed

text \<open>The syntax check of what is left of the pattern after a failed match.\<close>

function check_tail :: "string \<Rightarrow> bool result" where
  "check_tail pattern =
     (if pattern = [] then Inr False
      else case scanChunk pattern of (star, chunk, rest) \<Rightarrow>
        (case matchChunk chunk (Some []) of Inl e \<Rightarrow> Inl e | Inr x \<Rightarrow> check_tail rest))"
  by pat_completeness auto
termination
  by (relation "measure length") (auto dest!: scanChunk_shorter [OF sym])

declare check_tail.simps [simp del]

fun star_search :: "string \<Rightarrow> bool \<Rightarrow> string \<Rightarrow> string option result" where
  "star_search chunk islast [] = Inr None"
| "star_search chunk islast (c # cs) =
     (if c = CHR ''/'' then Inr None
      else case matchChunk chunk (Some cs) of
        Inl e \<Rightarrow> Inl e
      | Inr (Some t) \<Rightarrow> (if islast \<and> t \<noteq> [] then star_search chunk islast cs else Inr (Some t))
      | Inr None \<Rightarrow> star_search chunk islast cs)"

function path_Match :: "string \<Rightarrow> string \<Rightarrow> bool result" where
  "path_Match pattern name =
     (if pattern = [] then Inr (name = [])
      else case scanChunk pattern of (star, chunk, rest) \<Rightarrow>
        (if star \<and> chunk = [] then Inr (CHR ''/'' \<notin> set name)
         else case matchChunk chunk (Some name) of
           Inl e \<Rightarrow> Inl e
         | Inr found \<Rightarrow>
             (if found \<noteq> None \<and> (found = Some [] \<or> rest \<noteq> []) then path_Match rest (the found)
              else if star then
                (case star_search chunk (rest = []) name of
                   Inl e \<Rightarrow> Inl e
                 | Inr (Some t) \<Rightarrow> path_Match rest t
                 | Inr None \<Rightarrow> check_tail rest)
              else check_tail rest)))"
  by pat_completeness auto
termination
  by (relation "measure (\<lambda>(p, n). length p)") (auto dest!: scanChunk_shorter [OF sym])

declare path_Match.simps [simp del]

section \<open>The meaning of a glob\<close>

text \<open>The textbook meaning of a glob made of characters, \<open>?\<close> and \<open>*\<close>, on names without a slash.\<close>

fun glob_ref :: "string \<Rightarrow> string \<Rightarrow> bool" where
  "glob_ref [] s = (s = [])"
| "glob_ref (p # ps) [] = (p = CHR ''*'' \<and> glob_ref ps [])"
| "glob_ref (p # ps) (c # cs) =
     (if p = CHR ''*'' then glob_ref ps (c # cs) \<or> glob_ref (p # ps) cs
      else (p = CHR ''?'' \<or> p = c) \<and> glob_ref ps cs)"

definition simple_glob :: "string \<Rightarrow> bool" where
  "simple_glob p \<longleftrightarrow> CHR ''['' \<notin> set p \<and> backslash \<notin> set p"

text \<open>A chunk without a star matches position by position.\<close>

definition plain_match :: "string \<Rightarrow> string \<Rightarrow> bool" where
  "plain_match chunk t \<longleftrightarrow> list_all2 (\<lambda>p c. p = CHR ''?'' \<or> p = c) chunk t"

definition starless :: "string \<Rightarrow> bool" where
  "starless p \<longleftrightarrow> simple_glob p \<and> CHR ''*'' \<notin> set p"

lemma matchChunk_None: "simple_glob chunk \<Longrightarrow> matchChunk chunk None = Inr None"
  by (induction chunk) (auto simp: matchChunk.simps simple_glob_def chunk_subject_def)

lemma matchChunk_plain:
  assumes "simple_glob chunk" "CHR ''/'' \<notin> set s"
  shows "matchChunk chunk (Some s) =
    Inr (if plain_match chunk (take (length chunk) s) then Some (drop (length chunk) s) else None)"
  using assms
proof (induction chunk arbitrary: s)
  case (Cons p ps)
  have sg: "simple_glob ps" "p \<noteq> CHR ''[''" "p \<noteq> backslash" using Cons.prems(1) by (auto simp: simple_glob_def)
  show ?case
  proof (cases s)
    case Nil
    then show ?thesis using sg
      by (simp add: matchChunk.simps chunk_subject_def plain_match_def matchChunk_None)
  next
    case (Cons c cs)
    then show ?thesis using sg Cons.IH [of cs] Cons.prems(2)
      by (auto simp: matchChunk.simps Let_def chunk_subject_def plain_match_def matchChunk_None)
  qed
qed (simp add: matchChunk.simps plain_match_def)

lemma glob_ref_chunk:
  "CHR ''*'' \<notin> set chunk \<Longrightarrow>
   glob_ref (chunk @ rest) s \<longleftrightarrow> plain_match chunk (take (length chunk) s) \<and> glob_ref rest (drop (length chunk) s)"
proof (induction chunk arbitrary: s)
  case (Cons p ps)
  then show ?case by (cases s) (auto simp: plain_match_def)
qed (simp add: plain_match_def)

lemma glob_ref_star: "glob_ref (CHR ''*'' # p) s \<longleftrightarrow> (\<exists>n \<le> length s. glob_ref p (drop n s))"
proof (induction s)
  case (Cons c cs)
  have "(\<exists>n \<le> length (c # cs). glob_ref p (drop n (c # cs))) \<longleftrightarrow>
      glob_ref p (c # cs) \<or> (\<exists>n \<le> length cs. glob_ref p (drop n cs))"
    (is "?L \<longleftrightarrow> ?R")
  proof
    assume ?L
    then obtain n where "n \<le> length (c # cs)" "glob_ref p (drop n (c # cs))" by blast
    then show ?R by (cases n) auto
  next
    assume ?R
    then show ?L by (metis drop0 drop_Suc_Cons length_Cons le0 Suc_le_mono)
  qed
  then show ?case using Cons by simp
qed simp

lemma glob_ref_star_star: "glob_ref (CHR ''*'' # CHR ''*'' # p) s = glob_ref (CHR ''*'' # p) s"
proof
  assume "glob_ref (CHR ''*'' # CHR ''*'' # p) s"
  then obtain n m where "n + m \<le> length s" "glob_ref p (drop (m + n) s)"
    unfolding glob_ref_star by (metis add.commute add_le_cancel_left drop_drop length_drop le_diff_conv nat_le_linear ordered_cancel_comm_monoid_diff_class.le_diff_conv2)
  then show "glob_ref (CHR ''*'' # p) s" unfolding glob_ref_star by (metis add.commute)
qed (metis drop0 glob_ref_star le0)

text \<open>The algorithm takes the first place where a chunk fits. That is enough: what a later star can
  reach from a later place it can reach from the first.\<close>

lemma glob_ref_star_mono:
  "glob_ref (CHR ''*'' # p) (drop j s) \<Longrightarrow> i \<le> j \<Longrightarrow> glob_ref (CHR ''*'' # p) (drop i s)"
proof -
  assume "glob_ref (CHR ''*'' # p) (drop j s)" "i \<le> j"
  then obtain n where n: "n \<le> length s - j" "glob_ref p (drop (n + j) s)" by (auto simp: glob_ref_star)
  show ?thesis
  proof (cases "j \<le> length s")
    case True
    then have "n + (j - i) \<le> length (drop i s)" "drop (n + (j - i)) (drop i s) = drop (n + j) s"
      using n \<open>i \<le> j\<close> by auto
    then show ?thesis using n(2) by (auto simp: glob_ref_star)
  next
    case False
    then have "drop (n + j) s = drop (length (drop i s)) (drop i s)" using n by simp
    then show ?thesis using n(2) by (auto simp: glob_ref_star)
  qed
qed

lemma scan_body_simple:
  "simple_glob p \<Longrightarrow> scan_body False p = (takeWhile (\<lambda>c. c \<noteq> CHR ''*'') p, dropWhile (\<lambda>c. c \<noteq> CHR ''*'') p)"
proof (induction p)
  case (Cons a p)
  then have "a \<noteq> CHR ''[''" "a \<noteq> backslash" "simple_glob p" by (auto simp: simple_glob_def)
  then show ?case using Cons.IH by (simp add: scan_body.simps(2) [of False a p])
qed simp

lemma simple_glob_parts:
  "simple_glob p \<Longrightarrow> simple_glob (takeWhile P p)" "simple_glob p \<Longrightarrow> simple_glob (dropWhile P p)"
  by (auto simp: simple_glob_def dest: set_takeWhileD set_dropWhileD)

lemma check_tail_simple: "simple_glob p \<Longrightarrow> check_tail p = Inr False"
proof (induction p rule: check_tail.induct)
  case (1 p)
  show ?case
  proof (cases "p = []")
    case False
    let ?d = "dropWhile (\<lambda>c. c = CHR ''*'') p"
    have d: "simple_glob ?d" using "1.prems" by (rule simple_glob_parts)
    then have sub: "simple_glob (takeWhile (\<lambda>c. c \<noteq> CHR ''*'') ?d)" "simple_glob (dropWhile (\<lambda>c. c \<noteq> CHR ''*'') ?d)"
      by (rule simple_glob_parts)+
    have sc: "scanChunk p = (hd p = CHR ''*'', takeWhile (\<lambda>c. c \<noteq> CHR ''*'') ?d, dropWhile (\<lambda>c. c \<noteq> CHR ''*'') ?d)"
      using False d by (simp add: scanChunk_def scan_body_simple)
    show ?thesis
      using "1.IH" [OF False sc [symmetric] refl matchChunk_plain [OF sub(1), of "[]", simplified]] sub(2) sc False
        matchChunk_plain [OF sub(1), of "[]"] by (simp add: check_tail.simps [of p])
  qed (simp add: check_tail.simps)
qed

definition fits :: "string \<Rightarrow> bool \<Rightarrow> string \<Rightarrow> nat \<Rightarrow> bool" where
  "fits chunk islast s n \<longleftrightarrow>
     plain_match chunk (take (length chunk) (drop n s)) \<and> (islast \<longrightarrow> drop (n + length chunk) s = [])"

lemma star_search_first:
  assumes "simple_glob chunk" "CHR ''/'' \<notin> set s"
  shows "(star_search chunk islast s = Inr None \<and> (\<forall>n. 1 \<le> n \<and> n \<le> length s \<longrightarrow> \<not> fits chunk islast s n)) \<or>
    (\<exists>n. star_search chunk islast s = Inr (Some (drop (n + length chunk) s)) \<and> 1 \<le> n \<and> n \<le> length s \<and>
       fits chunk islast s n \<and> (\<forall>m. 1 \<le> m \<and> m < n \<longrightarrow> \<not> fits chunk islast s m))"
  using assms(2)
proof (induction s)
  case (Cons c cs)
  have shift: "fits chunk islast (c # cs) (Suc n) = fits chunk islast cs n" for n by (simp add: fits_def)
  show ?case
  proof (cases "fits chunk islast cs 0")
    case True
    then have "star_search chunk islast (c # cs) = Inr (Some (drop (1 + length chunk) (c # cs)))"
      using Cons.prems matchChunk_plain [OF assms(1), of cs] by (auto simp: fits_def)
    then show ?thesis using True shift [of 0] by (intro disjI2 exI [of _ 1]) auto
  next
    case False
    then have step: "star_search chunk islast (c # cs) = star_search chunk islast cs"
      using Cons.prems matchChunk_plain [OF assms(1), of cs] by (auto simp: fits_def)
    have lift: "(\<forall>m. 1 \<le> m \<and> m < Suc n \<longrightarrow> \<not> fits chunk islast (c # cs) m)"
      if "\<forall>m. 1 \<le> m \<and> m < n \<longrightarrow> \<not> fits chunk islast cs m" for n
    proof (intro allI impI)
      fix m assume m: "1 \<le> m \<and> m < Suc n"
      then obtain m' where "m = Suc m'" by (cases m) auto
      then show "\<not> fits chunk islast (c # cs) m" using that False m shift [of m'] by (cases m') auto
    qed
    from Cons.IH Cons.prems consider
      (none) "star_search chunk islast cs = Inr None" "\<forall>n. 1 \<le> n \<and> n \<le> length cs \<longrightarrow> \<not> fits chunk islast cs n"
    | (some) n where "star_search chunk islast cs = Inr (Some (drop (n + length chunk) cs))" "1 \<le> n" "n \<le> length cs"
       "fits chunk islast cs n" "\<forall>m. 1 \<le> m \<and> m < n \<longrightarrow> \<not> fits chunk islast cs m" by auto
    then show ?thesis
    proof cases
      case none
      then show ?thesis using step lift [of "Suc (length cs)"] by (auto simp: less_Suc_eq_le)
    next
      case (some n)
      then show ?thesis using step shift [of n] lift [OF some(5)] by (intro disjI2 exI [of _ "Suc n"]) auto
    qed
  qed
qed simp

lemma glob_ref_stars: "p \<noteq> [] \<Longrightarrow> hd p = CHR ''*'' \<Longrightarrow> glob_ref p s = glob_ref (CHR ''*'' # dropWhile (\<lambda>c. c = CHR ''*'') p) s"
proof (induction p arbitrary: s)
  case (Cons a p)
  then show ?case
  proof (cases "p \<noteq> [] \<and> hd p = CHR ''*''")
    case True
    then obtain q where p: "p = CHR ''*'' # q" by (cases p) auto
    have "glob_ref (a # p) s = glob_ref p s" using Cons.prems p glob_ref_star_star by simp
    also have "\<dots> = glob_ref (CHR ''*'' # dropWhile (\<lambda>c. c = CHR ''*'') p) s" using Cons.IH True by blast
    finally show ?thesis using Cons.prems by simp
  next
    case False
    then have "dropWhile (\<lambda>c. c = CHR ''*'') p = p" by (cases p) auto
    then show ?thesis using Cons.prems by simp
  qed
qed simp

lemma dropWhile_head: "dropWhile P xs = [] \<or> (\<exists>y ys. dropWhile P xs = y # ys \<and> \<not> P y)"
  by (induction xs) auto

lemma scanChunk_simple:
  assumes "simple_glob p" "p \<noteq> []"
  obtains star chunk rest where "scanChunk p = (star, chunk, rest)" "simple_glob chunk" "CHR ''*'' \<notin> set chunk"
    "simple_glob rest" "rest = [] \<or> (\<exists>r. rest = CHR ''*'' # r)" "chunk = [] \<Longrightarrow> star \<and> rest = []"
    "\<And>s. glob_ref p s = glob_ref (if star then CHR ''*'' # chunk @ rest else chunk @ rest) s"
proof -
  let ?d = "dropWhile (\<lambda>c. c = CHR ''*'') p"
  let ?c = "takeWhile (\<lambda>c. c \<noteq> CHR ''*'') ?d" and ?r = "dropWhile (\<lambda>c. c \<noteq> CHR ''*'') ?d"
  have d: "simple_glob ?d" using assms(1) by (rule simple_glob_parts)
  have sub: "simple_glob ?c" "simple_glob ?r" using d by (rule simple_glob_parts)+
  have app: "?c @ ?r = ?d" by simp
  have sc: "scanChunk p = (hd p = CHR ''*'', ?c, ?r)" using assms(2) d by (simp add: scanChunk_def scan_body_simple)
  have star: "CHR ''*'' \<notin> set ?c" by (auto dest: set_takeWhileD)
  have rest: "?r = [] \<or> (\<exists>r. ?r = CHR ''*'' # r)" using dropWhile_head [of "\<lambda>c. c \<noteq> CHR ''*''" ?d] by blast
  have hd: "hd p = CHR ''*'' \<and> ?r = []" if "?c = []"
  proof -
    have "?d = []" using that hd_dropWhile [of "\<lambda>c. c = CHR ''*''" p] by (cases ?d) auto
    then show ?thesis using assms(2) by (cases p) (auto split: if_splits)
  qed
  have ref: "glob_ref p s = glob_ref (if hd p = CHR ''*'' then CHR ''*'' # ?c @ ?r else ?c @ ?r) s" for s
  proof (cases "hd p = CHR ''*''")
    case True
    then show ?thesis using glob_ref_stars [OF assms(2), of s] app by simp
  next
    case False
    then have "?d = p" using assms(2) by (cases p) auto
    then show ?thesis using False app by simp
  qed
  show thesis by (rule that [OF sc sub(1) star sub(2) rest hd ref])
qed

lemma glob_ref_star_chunk:
  assumes "CHR ''*'' \<notin> set chunk"
  shows "glob_ref (CHR ''*'' # chunk @ rest) s \<longleftrightarrow>
    (\<exists>n \<le> length s. plain_match chunk (take (length chunk) (drop n s)) \<and> glob_ref rest (drop (n + length chunk) s))"
  by (simp add: glob_ref_star glob_ref_chunk [OF assms] add.commute)

text \<open>Where the chunk fits at the earliest place, the rest decides.\<close>

lemma glob_ref_first_fit:
  assumes "CHR ''*'' \<notin> set chunk" "rest = [] \<or> (\<exists>r. rest = CHR ''*'' # r)" "n \<le> length s"
    "fits chunk (rest = []) s n" "\<And>m. m < n \<Longrightarrow> \<not> fits chunk (rest = []) s m"
  shows "glob_ref (CHR ''*'' # chunk @ rest) s = glob_ref rest (drop (n + length chunk) s)"
proof
  assume "glob_ref (CHR ''*'' # chunk @ rest) s"
  then obtain m where m: "plain_match chunk (take (length chunk) (drop m s))" "glob_ref rest (drop (m + length chunk) s)"
    using glob_ref_star_chunk [OF assms(1)] by blast
  then have "fits chunk (rest = []) s m" by (auto simp: fits_def)
  then have "n \<le> m" using assms(5) by (meson leI)
  then show "glob_ref rest (drop (n + length chunk) s)"
    using assms(2,4) m(2) glob_ref_star_mono [of _ "m + length chunk" s "n + length chunk"] by (auto simp: fits_def)
next
  assume "glob_ref rest (drop (n + length chunk) s)"
  then show "glob_ref (CHR ''*'' # chunk @ rest) s"
    using glob_ref_star_chunk [OF assms(1)] assms(3,4) by (auto simp: fits_def)
qed

lemma path_Match_simple:
  assumes "simple_glob p" "CHR ''/'' \<notin> set s"
  shows "path_Match p s = Inr (glob_ref p s)"
  using assms
proof (induction p arbitrary: s rule: length_induct)
  case (1 p)
  show ?case
  proof (cases "p = []")
    case False
    obtain star chunk rest where sc: "scanChunk p = (star, chunk, rest)" "simple_glob chunk" "CHR ''*'' \<notin> set chunk"
      "simple_glob rest" "rest = [] \<or> (\<exists>r. rest = CHR ''*'' # r)" "chunk = [] \<Longrightarrow> star \<and> rest = []"
      and ref: "\<And>s. glob_ref p s = glob_ref (if star then CHR ''*'' # chunk @ rest else chunk @ rest) s"
      using scanChunk_simple [OF "1.prems"(1) False] by metis
    let ?k = "length chunk" and ?l = "rest = []"
    have IH: "path_Match rest (drop n s) = Inr (glob_ref rest (drop n s))" for n
      using "1.IH" scanChunk_shorter [OF sc(1) False] sc(4) "1.prems"(2) by (meson in_set_dropD)
    note unf = path_Match.simps [of p s] sc(1) False matchChunk_plain [OF sc(2) "1.prems"(2)] IH
    have fit0: "fits chunk ?l s 0 \<longleftrightarrow> plain_match chunk (take ?k s) \<and> (drop ?k s = [] \<or> rest \<noteq> [])"
      by (auto simp: fits_def)
    have base: "glob_ref (chunk @ rest) s \<longleftrightarrow> fits chunk ?l s 0 \<and> glob_ref rest (drop ?k s)"
      by (auto simp: fits_def glob_ref_chunk [OF sc(3)])
    show ?thesis
    proof (cases "star \<and> chunk = []")
      case True
      then have "glob_ref p s" using ref sc(6) by (auto simp: glob_ref_star intro: exI [of _ "length s"])
      then show ?thesis using True "1.prems"(2) by (simp add: unf)
    next
      case nt: False
      show ?thesis
      proof (cases "fits chunk ?l s 0")
        case True
        have "path_Match p s = Inr (glob_ref rest (drop ?k s))" using nt True fit0 by (simp add: unf) blast
        moreover have "glob_ref p s = glob_ref rest (drop ?k s)"
          using ref [of s] base True glob_ref_first_fit [OF sc(3,5) _ True] by (cases star) auto
        ultimately show ?thesis by simp
      next
        case False
        then have step: "path_Match p s = (if star then (case star_search chunk ?l s of Inl e \<Rightarrow> Inl e
            | Inr (Some t) \<Rightarrow> path_Match rest t | Inr None \<Rightarrow> check_tail rest) else check_tail rest)"
          using nt fit0 by (auto simp: unf)
        show ?thesis
        proof (cases star)
          case True
          from star_search_first [OF sc(2) "1.prems"(2), of ?l] consider
            (none) "star_search chunk ?l s = Inr None" "\<forall>n. 1 \<le> n \<and> n \<le> length s \<longrightarrow> \<not> fits chunk ?l s n"
          | (some) n where "star_search chunk ?l s = Inr (Some (drop (n + ?k) s))" "n \<le> length s" "fits chunk ?l s n"
              "\<forall>m. 1 \<le> m \<and> m < n \<longrightarrow> \<not> fits chunk ?l s m" by auto
          then show ?thesis
          proof cases
            case none
            have "\<not> glob_ref (CHR ''*'' # chunk @ rest) s"
            proof
              assume "glob_ref (CHR ''*'' # chunk @ rest) s"
              then obtain n where "n \<le> length s" "plain_match chunk (take ?k (drop n s))" "glob_ref rest (drop (n + ?k) s)"
                using glob_ref_star_chunk [OF sc(3)] by blast
              then have n: "n \<le> length s" "fits chunk ?l s n" by (auto simp: fits_def)
              then show False using none(2) False by (cases n) auto
            qed
            then show ?thesis using True step none(1) check_tail_simple [OF sc(4)] ref [of s] by simp
          next
            case (some n)
            have "\<not> fits chunk ?l s m" if "m < n" for m using that some(4) False by (cases m) auto
            from glob_ref_first_fit [OF sc(3,5) some(2,3) this] show ?thesis
              using True step some(1) IH ref [of s] by simp
          qed
        qed (use step base False check_tail_simple [OF sc(4)] ref [of s] in simp)
      qed
    qed
  qed (simp add: path_Match.simps)
qed

end
