(* ===== verification/Job_Request.thy ===== *)
theory Job_Request
  imports Path_Match Verify_Config Db_Verify
begin

text \<open>
  \<open>verifyservice/filter.go\<close>: a job request, its decoding from JSON, its compilation into database
  selections, the resolution of those against the configuration, and the regular expressions a
  resolved plan runs with.

  A JSON document is a value of \<open>json\<close>; the lexical part of \<open>encoding/json\<close> is outside the model.
\<close>

datatype json = JNull | JBool bool | JNumber string | JString string | JArray "json list" | JObject "(string \<times> json) list"

record job_database_request =
  jdDatabaseMatch :: string
  jdSchemaMatch :: "string list"
  jdTableMatch :: "string list"

record job_request =
  jqDefaultSchemaMatch :: "string list"
  jqDefaultTableMatch :: "string list"
  jqDatabases :: "job_database_request list"

record normalized_selection =
  nsDatabaseMatch :: string
  nsSchemaGlobs :: "string list"
  nsTableGlobs :: "string list"

record resolved_database_plan =
  rpDatabase :: resolved_database_pair
  rpSchemaGlobs :: "string list"
  rpTableGlobs :: "string list"
  rpInitialSchemas :: "string list"

record run_request =
  rrDatabaseName :: string
  rrResolvedDatabase :: resolved_database_pair
  rrFilterConfig :: filter_config

section \<open>Decoding\<close>

text \<open>\<open>json.Unmarshal\<close> of a value into a \<open>string\<close> and a \<open>[]string\<close>: null leaves the zero value.\<close>

fun unmarshal_string :: "json \<Rightarrow> string option" where
  "unmarshal_string (JString s) = Some s"
| "unmarshal_string JNull = Some []"
| "unmarshal_string _ = None"

fun unmarshal_strings :: "json \<Rightarrow> string list option" where
  "unmarshal_strings (JArray items) = those (map unmarshal_string items)"
| "unmarshal_strings JNull = Some []"
| "unmarshal_strings _ = None"

definition matchExpression_UnmarshalJSON :: "json \<Rightarrow> string list result" where
  "matchExpression_UnmarshalJSON data =
     (if data = JNull then Inr []
      else case unmarshal_string data of
        Some single \<Rightarrow> Inr [single]
      | None \<Rightarrow>
          (case unmarshal_strings data of
             Some multiple \<Rightarrow> Inr multiple
           | None \<Rightarrow> Inl (ErrMsg ''must be a string or array of strings'')))"

text \<open>Struct keys match their fields up to the case of letters.\<close>

definition lower_char :: "char \<Rightarrow> char" where
  "lower_char c = (if CHR ''A'' \<le> c \<and> c \<le> CHR ''Z'' then char_of (of_char c + 32 :: nat) else c)"

definition same_json_key :: "string \<Rightarrow> string \<Rightarrow> bool" where
  "same_json_key a b \<longleftrightarrow> map lower_char a = map lower_char b"

definition empty_database_request :: job_database_request where
  "empty_database_request = \<lparr>jdDatabaseMatch = [], jdSchemaMatch = [], jdTableMatch = []\<rparr>"

text \<open>\<open>json.Unmarshal\<close> into a \<open>jobDatabaseRequest\<close>: unknown keys are ignored, \<open>None\<close> is a type error.\<close>

definition set_request_field :: "job_database_request option \<Rightarrow> string \<times> json \<Rightarrow> job_database_request option" where
  "set_request_field r kv =
     (case r of None \<Rightarrow> None
      | Some d \<Rightarrow>
          (case kv of (key, value) \<Rightarrow>
             if same_json_key key ''database_match'' then
               (case value of JString s \<Rightarrow> Some (d\<lparr>jdDatabaseMatch := s\<rparr>) | JNull \<Rightarrow> Some d | _ \<Rightarrow> None)
             else if same_json_key key ''schema_match'' then
               (case matchExpression_UnmarshalJSON value of Inr m \<Rightarrow> Some (d\<lparr>jdSchemaMatch := m\<rparr>) | Inl e \<Rightarrow> None)
             else if same_json_key key ''table_match'' then
               (case matchExpression_UnmarshalJSON value of Inr m \<Rightarrow> Some (d\<lparr>jdTableMatch := m\<rparr>) | Inl e \<Rightarrow> None)
             else Some d))"

fun unmarshal_database_request :: "json \<Rightarrow> job_database_request option" where
  "unmarshal_database_request (JObject kvs) = foldl set_request_field (Some empty_database_request) kvs"
| "unmarshal_database_request JNull = Some empty_database_request"
| "unmarshal_database_request _ = None"

fun unmarshal_item :: "json \<Rightarrow> job_database_request option" where
  "unmarshal_item item =
     (case unmarshal_string item of
        Some s \<Rightarrow> Some (empty_database_request\<lparr>jdDatabaseMatch := s\<rparr>)
      | None \<Rightarrow> unmarshal_database_request item)"

definition databaseRequestValue_UnmarshalJSON :: "json \<Rightarrow> job_database_request list result" where
  "databaseRequestValue_UnmarshalJSON data =
     (if data = JNull then Inr []
      else case unmarshal_string data of
        Some s \<Rightarrow> Inr [empty_database_request\<lparr>jdDatabaseMatch := s\<rparr>]
      | None \<Rightarrow>
          (case unmarshal_database_request data of
             Some d \<Rightarrow> Inr [d]
           | None \<Rightarrow>
               (case data of
                  JArray items \<Rightarrow>
                    (case those (map unmarshal_item items) of
                       Some ds \<Rightarrow> Inr ds
                     | None \<Rightarrow> Inl (ErrMsg ''array items must be strings or objects''))
                | _ \<Rightarrow> Inl (ErrMsg ''must be a string, object, or array''))))"

text \<open>Decoding a whole request with unknown fields refused: an unknown field is remembered and returned
  when nothing else fails.\<close>

definition empty_request :: job_request where
  "empty_request = \<lparr>jqDefaultSchemaMatch = [], jqDefaultTableMatch = [], jqDatabases = []\<rparr>"

fun decode_fields :: "job_request \<Rightarrow> go_error option \<Rightarrow> (string \<times> json) list \<Rightarrow> job_request result" where
  "decode_fields r saved [] = (case saved of Some e \<Rightarrow> Inl e | None \<Rightarrow> Inr r)"
| "decode_fields r saved ((key, value) # kvs) =
     (if same_json_key key ''default_schema_match'' then
        (case matchExpression_UnmarshalJSON value of
           Inl e \<Rightarrow> Inl e | Inr m \<Rightarrow> decode_fields (r\<lparr>jqDefaultSchemaMatch := m\<rparr>) saved kvs)
      else if same_json_key key ''default_table_match'' then
        (case matchExpression_UnmarshalJSON value of
           Inl e \<Rightarrow> Inl e | Inr m \<Rightarrow> decode_fields (r\<lparr>jqDefaultTableMatch := m\<rparr>) saved kvs)
      else if same_json_key key ''databases'' then
        (case databaseRequestValue_UnmarshalJSON value of
           Inl e \<Rightarrow> Inl e | Inr ds \<Rightarrow> decode_fields (r\<lparr>jqDatabases := ds\<rparr>) saved kvs)
      else decode_fields r
             (case saved of Some e \<Rightarrow> Some e | None \<Rightarrow> Some (ErrMsg (''json: unknown field '' @ quoted key))) kvs)"

fun json_kind :: "json \<Rightarrow> string" where
  "json_kind (JBool b) = ''bool''"
| "json_kind (JNumber n) = ''number''"
| "json_kind (JString s) = ''string''"
| "json_kind (JArray xs) = ''array''"
| "json_kind (JObject kvs) = ''object''"
| "json_kind JNull = ''null''"

fun decode_JobRequest :: "json \<Rightarrow> job_request result" where
  "decode_JobRequest (JObject kvs) = decode_fields empty_request None kvs"
| "decode_JobRequest JNull = Inr empty_request"
| "decode_JobRequest j = Inl (ErrMsg (''json: cannot unmarshal '' @ json_kind j @ '' into Go value of type verifyservice.JobRequest''))"

section \<open>Compilation\<close>

definition request_error :: "string \<Rightarrow> string \<Rightarrow> string \<Rightarrow> go_error" where
  "request_error code fld reason =
     ErrOperator (newOperatorError ''request_validation'' code ''request validation failed'' [OperatorErrorDetail fld reason])"

definition defaultGlobs :: "string list \<Rightarrow> string list" where
  "defaultGlobs globs = (if length globs = 0 then [''*''] else globs)"

fun validateGlobList :: "string \<Rightarrow> string list \<Rightarrow> go_error option" where
  "validateGlobList fld [] = None"
| "validateGlobList fld (glob # globs) =
     (case path_Match glob ''validate'' of
        Inl e \<Rightarrow> Some (request_error ''invalid_glob'' fld (err_Error e))
      | Inr b \<Rightarrow> validateGlobList fld globs)"

fun compile_selections ::
  "string list \<Rightarrow> string list \<Rightarrow> job_database_request list \<Rightarrow> normalized_selection list result" where
  "compile_selections dschema dtable [] = Inr []"
| "compile_selections dschema dtable (d # ds) =
     (if jdDatabaseMatch d = [] then
        Inl (request_error ''invalid_database_selection'' ''databases.database_match'' ''database_match must be set'')
      else case validateGlobList ''databases.database_match'' [jdDatabaseMatch d] of
        Some e \<Rightarrow> Inl e
      | None \<Rightarrow>
          (let schemaGlobs = (if length (jdSchemaMatch d) > 0 then jdSchemaMatch d else dschema);
               tableGlobs = (if length (jdTableMatch d) > 0 then jdTableMatch d else dtable)
           in case validateGlobList ''schema_match'' schemaGlobs of
                Some e \<Rightarrow> Inl e
              | None \<Rightarrow>
                  (case validateGlobList ''table_match'' tableGlobs of
                     Some e \<Rightarrow> Inl e
                   | None \<Rightarrow>
                       (case compile_selections dschema dtable ds of
                          Inl e \<Rightarrow> Inl e
                        | Inr ss \<Rightarrow>
                            Inr (\<lparr>nsDatabaseMatch = jdDatabaseMatch d, nsSchemaGlobs = schemaGlobs, nsTableGlobs = tableGlobs\<rparr> # ss)))))"

definition Compile :: "job_request \<Rightarrow> normalized_selection list result" where
  "Compile r =
     (let dschema = defaultGlobs (jqDefaultSchemaMatch r); dtable = defaultGlobs (jqDefaultTableMatch r)
      in case validateGlobList ''default_schema_match'' dschema of
           Some e \<Rightarrow> Inl e
         | None \<Rightarrow>
             (case validateGlobList ''default_table_match'' dtable of
                Some e \<Rightarrow> Inl e
              | None \<Rightarrow>
                  (let reqs = (if length (jqDatabases r) = 0 then [empty_database_request\<lparr>jdDatabaseMatch := ''*''\<rparr>]
                               else jqDatabases r)
                   in compile_selections dschema dtable reqs)))"

section \<open>Resolution\<close>

fun appendUniqueStrings :: "string list \<Rightarrow> string list \<Rightarrow> string list" where
  "appendUniqueStrings existing [] = existing"
| "appendUniqueStrings existing (c # cs) =
     (if c \<in> set existing then appendUniqueStrings existing cs
      else appendUniqueStrings (existing @ [c]) cs)"

lemma appendUniqueStrings_set [simp]: "set (appendUniqueStrings xs ys) = set xs \<union> set ys"
  by (induction xs ys rule: appendUniqueStrings.induct) auto

lemma appendUniqueStrings_distinct: "distinct xs \<Longrightarrow> distinct (appendUniqueStrings xs ys)"
  by (induction xs ys rule: appendUniqueStrings.induct) auto

definition literalPatternsOnly :: "string list \<Rightarrow> string list option" where
  "literalPatternsOnly globs =
     (if list_ex (\<lambda>g. list_ex (\<lambda>c. c \<in> set ''*?['') g) globs then None
      else Some (appendUniqueStrings [] globs))"

fun merge_selections ::
  "normalized_selection list \<Rightarrow> string \<Rightarrow> string list \<times> string list \<Rightarrow> (string list \<times> string list) result" where
  "merge_selections [] name acc = Inr acc"
| "merge_selections (sel # sels) name (schemaGlobs, tableGlobs) =
     (case path_Match (nsDatabaseMatch sel) name of
        Inl e \<Rightarrow> Inl (request_error ''invalid_glob'' ''databases.database_match'' (err_Error e))
      | Inr matched \<Rightarrow>
          (if \<not> matched then merge_selections sels name (schemaGlobs, tableGlobs)
           else merge_selections sels name
             (appendUniqueStrings schemaGlobs (nsSchemaGlobs sel), appendUniqueStrings tableGlobs (nsTableGlobs sel))))"

fun resolve_pairs ::
  "normalized_selection list \<Rightarrow> resolved_database_pair list \<Rightarrow> resolved_database_plan list result" where
  "resolve_pairs sels [] = Inr []"
| "resolve_pairs sels (pair # pairs) =
     (case merge_selections sels (rdName pair) ([], []) of
        Inl e \<Rightarrow> Inl e
      | Inr (schemaGlobs, tableGlobs) \<Rightarrow>
          (case resolve_pairs sels pairs of
             Inl e \<Rightarrow> Inl e
           | Inr plans \<Rightarrow>
               (if length schemaGlobs = 0 \<and> length tableGlobs = 0 then Inr plans
                else Inr (\<lparr>rpDatabase = pair, rpSchemaGlobs = schemaGlobs, rpTableGlobs = tableGlobs,
                           rpInitialSchemas = (case literalPatternsOnly schemaGlobs of Some s \<Rightarrow> s | None \<Rightarrow> [])\<rparr> # plans))))"

definition Resolve :: "os_env \<Rightarrow> verify_config \<Rightarrow> normalized_selection list \<Rightarrow> resolved_database_plan list result" where
  "Resolve os cfg sels =
     (case ResolveAllDatabases os cfg of
        Inl e \<Rightarrow> Inl e
      | Inr resolvedPairs \<Rightarrow>
          (case resolve_pairs sels resolvedPairs of
             Inl e \<Rightarrow> Inl e
           | Inr plans \<Rightarrow>
               (if length plans = 0 then
                  Inl (request_error ''invalid_database_selection'' ''databases'' ''no configured databases matched the request'')
                else Inr plans)))"

section \<open>Globs as regular expressions\<close>

text \<open>\<open>string(glob[index])\<close> converts a byte, not a character: a byte from 128 on becomes the two-byte
  UTF-8 encoding of the code point of that number.\<close>

definition string_of_byte :: "char \<Rightarrow> string" where
  "string_of_byte c =
     (let n = of_char c :: nat
      in if n < 128 then [c] else [char_of (192 + n div 64), char_of (128 + n mod 64)])"

definition QuoteMeta_byte :: "char \<Rightarrow> string" where
  "QuoteMeta_byte c =
     (if c = backslash \<or> c \<in> set ''.+*?()|[]{}^$'' then [backslash, c] else string_of_byte c)"

fun globToRegex :: "string \<Rightarrow> string result"
and glob_tail :: "nat \<Rightarrow> string \<Rightarrow> string result" where
  "globToRegex [] = Inr []"
| "globToRegex (c # cs) =
     (if c = CHR ''*'' then (case globToRegex cs of Inl e \<Rightarrow> Inl e | Inr r \<Rightarrow> Inr (''.*'' @ r))
      else if c = CHR ''?'' then (case globToRegex cs of Inl e \<Rightarrow> Inl e | Inr r \<Rightarrow> Inr (''.'' @ r))
      else if c = CHR ''['' then
        (if CHR '']'' \<notin> set cs then Inl ErrBadPattern
         else (let cls = takeWhile (\<lambda>x. x \<noteq> CHR '']'') cs
               in if cls = [] then Inl ErrBadPattern
                  else (let neg = (hd cls = CHR ''!''); body = (if neg then tl cls else cls)
                        in if body = [] then Inl ErrBadPattern
                           else (case glob_tail (Suc (length cls)) cs of
                                   Inl e \<Rightarrow> Inl e
                                 | Inr r \<Rightarrow> Inr (''['' @ (if neg then ''^'' else []) @ body @ '']'' @ r)))))
      else (case globToRegex cs of Inl e \<Rightarrow> Inl e | Inr r \<Rightarrow> Inr (QuoteMeta_byte c @ r)))"
| "glob_tail 0 cs = globToRegex cs"
| "glob_tail (Suc n) [] = globToRegex []"
| "glob_tail (Suc n) (c # cs) = glob_tail n cs"

fun glob_parts :: "string list \<Rightarrow> string list result" where
  "glob_parts [] = Inr []"
| "glob_parts (g # gs) =
     (case globToRegex g of
        Inl e \<Rightarrow> Inl e
      | Inr r \<Rightarrow> (case glob_parts gs of Inl e \<Rightarrow> Inl e | Inr rs \<Rightarrow> Inr (r # rs)))"

definition globsToRegex :: "string list \<Rightarrow> string result" where
  "globsToRegex globs =
     (if length globs = 0 then Inr DefaultFilterString
      else case glob_parts globs of
        Inl e \<Rightarrow> Inl e
      | Inr parts \<Rightarrow>
          (if length parts = 1 \<and> parts ! 0 = ''.*'' then Inr DefaultFilterString
           else Inr (''^('' @ strings_Join parts ''|'' @ '')$'')))"

definition filterConfigFromGlobs :: "string list \<Rightarrow> string list \<Rightarrow> filter_config result" where
  "filterConfigFromGlobs schemaGlobs tableGlobs =
     (case globsToRegex schemaGlobs of
        Inl e \<Rightarrow> Inl e
      | Inr schemaRegex \<Rightarrow>
          (case globsToRegex tableGlobs of
             Inl e \<Rightarrow> Inl e
           | Inr tableRegex \<Rightarrow>
               Inr \<lparr>fcSchemaFilter = schemaRegex, fcTableFilter = tableRegex, fcExcludeSchemaFilter = [], fcExcludeTableFilter = []\<rparr>))"

definition RunRequest :: "resolved_database_plan \<Rightarrow> run_request result" where
  "RunRequest p =
     (case filterConfigFromGlobs (rpSchemaGlobs p) (rpTableGlobs p) of
        Inl e \<Rightarrow> Inl e
      | Inr f \<Rightarrow> Inr \<lparr>rrDatabaseName = rdName (rpDatabase p), rrResolvedDatabase = rpDatabase p, rrFilterConfig = f\<rparr>)"

end
