(* ===== verification/Request_Properties.thy ===== *)
theory Request_Properties
  imports Job_Request
begin

text \<open>
  Properties of job requests: which databases a request selects, with which globs, and which tables
  the regular expressions of the resulting plan keep.

  Go's regular expressions are used by \<open>FilterResult\<close> through a regexp engine. \<open>subset_compile\<close> is
  the meaning of the expressions \<open>globsToRegex\<close> writes for globs of characters, \<open>?\<close> and \<open>*\<close>;
  \<open>posix_engine\<close> says of an engine that it gives the ASCII expressions of that form that meaning on
  ASCII names without a line break, where a rune is a byte.
\<close>

section \<open>The regular expressions of globs\<close>

datatype rx_atom = RxAnyStar | RxAny | RxLit char

fun cons_atom :: "rx_atom \<Rightarrow> rx_atom list list option \<Rightarrow> rx_atom list list option" where
  "cons_atom a (Some (x # xs)) = Some ((a # x) # xs)"
| "cons_atom a _ = None"

function parse_rx :: "string \<Rightarrow> rx_atom list list option" where
  "parse_rx s =
     (if s = '')$'' then Some [[]]
      else case s of
        [] \<Rightarrow> None
      | c # cs \<Rightarrow>
          (if c = CHR ''|'' then map_option ((#) []) (parse_rx cs)
           else if c = CHR ''.'' then
             (if cs \<noteq> [] \<and> hd cs = CHR ''*'' then cons_atom RxAnyStar (parse_rx (tl cs)) else cons_atom RxAny (parse_rx cs))
           else if c = backslash then (if cs = [] \<or> hd cs \<notin> set (backslash # ''.+*?()|[]{}^$'') then None else cons_atom (RxLit (hd cs)) (parse_rx (tl cs)))
           else if c \<in> set ''+*?()[]{}^$'' then None
           else cons_atom (RxLit c) (parse_rx cs)))"
  by pat_completeness auto
termination
  by (relation "measure length") auto

declare parse_rx.simps [simp del]

fun rx_match :: "rx_atom list \<Rightarrow> string \<Rightarrow> bool" where
  "rx_match [] s = (s = [])"
| "rx_match (RxAnyStar # as) [] = rx_match as []"
| "rx_match (RxAnyStar # as) (c # cs) = (rx_match as (c # cs) \<or> rx_match (RxAnyStar # as) cs)"
| "rx_match (RxAny # as) (c # cs) = rx_match as cs"
| "rx_match (RxLit l # as) (c # cs) = (l = c \<and> rx_match as cs)"
| "rx_match (a # as) [] = False"

definition subset_compile :: "string \<Rightarrow> matcher option" where
  "subset_compile p =
     (if p = ''.*'' then Some (\<lambda>s. True)
      else if take 2 p = ''^('' then map_option (\<lambda>alts s. list_ex (\<lambda>a. rx_match a s) alts) (parse_rx (drop 2 p))
      else None)"

definition posix_engine :: "regexp_engine \<Rightarrow> bool" where
  "posix_engine re \<longleftrightarrow>
     (\<forall>p m. is_ascii p \<and> subset_compile p = Some m \<longrightarrow>
        (\<exists>f. re p = Inr f \<and> (\<forall>s. is_ascii s \<and> char_of (10 :: nat) \<notin> set s \<longrightarrow> f s = m s)))"

definition subset_engine :: regexp_engine where
  "subset_engine p = (case subset_compile p of Some m \<Rightarrow> Inr m | None \<Rightarrow> Inl (ErrMsg ''unsupported''))"

lemma subset_engine_posix: "posix_engine subset_engine"
  by (auto simp: posix_engine_def subset_engine_def)

definition glob_atom :: "char \<Rightarrow> rx_atom" where
  "glob_atom c = (if c = CHR ''*'' then RxAnyStar else if c = CHR ''?'' then RxAny else RxLit c)"

definition glob_piece :: "char \<Rightarrow> string" where
  "glob_piece c = (if c = CHR ''*'' then ''.*'' else if c = CHR ''?'' then ''.'' else QuoteMeta_byte c)"

lemma globToRegex_simple: "simple_glob g \<Longrightarrow> globToRegex g = Inr (concat (map glob_piece g))"
  by (induction g) (auto simp: simple_glob_def glob_piece_def)

lemma rx_match_glob: "rx_match (map glob_atom g) s = glob_ref g s"
  by (induction g s rule: glob_ref.induct) (auto simp: glob_atom_def)

lemma backslash_not: "backslash \<noteq> CHR ''.''" "backslash \<noteq> CHR ''|''" "backslash \<noteq> CHR '')''" "backslash \<noteq> CHR ''*''"
  by code_simp+

lemma glob_piece_head:
  "is_ascii [c] \<Longrightarrow> \<exists>x xs. glob_piece c = x # xs \<and> x \<notin> set ''*|)''"
  by (auto simp: glob_piece_def QuoteMeta_byte_def string_of_byte_def is_ascii_iff backslash_not [symmetric] backslash_not)

lemma pieces_head:
  assumes "is_ascii g" "rest \<noteq> []" "hd rest \<noteq> CHR ''*''"
  shows "hd (concat (map glob_piece g) @ rest) \<noteq> CHR ''*''"
proof (cases g)
  case (Cons c cs)
  then obtain x xs where "glob_piece c = x # xs" "x \<notin> set ''*|)''"
    using glob_piece_head [of c] assms(1) by (auto simp: is_ascii_iff)
  then show ?thesis using Cons by simp
qed (use assms in simp)

lemma parse_piece:
  assumes "is_ascii [c]" "rest \<noteq> []" "hd rest \<noteq> CHR ''*''"
  shows "parse_rx (glob_piece c @ rest) = cons_atom (glob_atom c) (parse_rx rest)"
proof -
  have nl: "glob_piece c @ rest \<noteq> '')$''" using glob_piece_head [OF assms(1)] by auto
  consider "c = CHR ''*''" | "c = CHR ''?''" | (q) "c \<noteq> CHR ''*''" "c \<noteq> CHR ''?''" "c = backslash \<or> c \<in> set ''.+*?()|[]{}^$''"
    | (l) "c \<noteq> CHR ''*''" "c \<noteq> CHR ''?''" "\<not> (c = backslash \<or> c \<in> set ''.+*?()|[]{}^$'')" by blast
  then show ?thesis
  proof cases
    case q
    then have "glob_piece c = [backslash, c]" "glob_atom c = RxLit c" by (auto simp: glob_piece_def glob_atom_def QuoteMeta_byte_def)
    then show ?thesis using backslash_not q(3) by (auto simp: parse_rx.simps [of "backslash # c # rest"])
  next
    case l
    then have "glob_piece c = [c]" "glob_atom c = RxLit c"
      using assms(1) by (auto simp: glob_piece_def glob_atom_def QuoteMeta_byte_def string_of_byte_def is_ascii_iff)
    then show ?thesis using l nl by (simp add: parse_rx.simps [of "c # rest"])
  qed (use assms nl in \<open>auto simp: glob_piece_def glob_atom_def parse_rx.simps [of "CHR ''.'' # rest"]
         parse_rx.simps [of "CHR ''.'' # CHR ''*'' # rest"]\<close>)
qed

lemma parse_pieces:
  assumes "is_ascii g" "rest \<noteq> []" "hd rest \<noteq> CHR ''*''" "parse_rx rest = Some (a # alts)"
  shows "parse_rx (concat (map glob_piece g) @ rest) = Some ((map glob_atom g @ a) # alts)"
  using assms(1)
proof (induction g)
  case (Cons c g)
  let ?r = "concat (map glob_piece g) @ rest"
  have a: "is_ascii [c]" "is_ascii g" using Cons.prems by (auto simp: is_ascii_iff)
  have "?r \<noteq> []" "hd ?r \<noteq> CHR ''*''" using assms(2) pieces_head [OF a(2) assms(2,3)] by auto
  from parse_piece [OF a(1) this] show ?case using Cons.IH [OF a(2)] by simp
qed (use assms in simp)

lemma parse_join:
  assumes "gs \<noteq> []" "list_all is_ascii gs"
  shows "parse_rx (strings_Join (map (\<lambda>g. concat (map glob_piece g)) gs) ''|'' @ '')$'') = Some (map (map glob_atom) gs)"
  using assms
proof (induction gs rule: induct_list012)
  case (2 g)
  then show ?case using parse_pieces [of g "'')$''" "[]" "[]"] by (simp add: parse_rx.simps [of "'')$''"])
next
  case (3 g h gs)
  let ?r = "strings_Join (map (\<lambda>g. concat (map glob_piece g)) (h # gs)) ''|'' @ '')$''"
  have "parse_rx (CHR ''|'' # ?r) = Some ([] # map (map glob_atom) (h # gs))"
    using 3 by (simp add: parse_rx.simps [of "CHR ''|'' # _"])
  from parse_pieces [OF _ _ _ this, of g] 3 show ?case by simp
qed simp

lemma glob_parts_simple:
  "list_all simple_glob gs \<Longrightarrow> glob_parts gs = Inr (map (\<lambda>g. concat (map glob_piece g)) gs)"
  by (induction gs) (auto simp: globToRegex_simple)

lemma glob_piece_ascii: "is_ascii [c] \<Longrightarrow> is_ascii (glob_piece c)"
  by (auto simp: glob_piece_def QuoteMeta_byte_def string_of_byte_def is_ascii_iff backslash_def)

lemma pieces_ascii: "is_ascii g \<Longrightarrow> is_ascii (concat (map glob_piece g))"
proof (induction g)
  case (Cons c g)
  then show ?case using glob_piece_ascii [of c] by simp
qed simp

lemma join_ascii:
  "list_all is_ascii gs \<Longrightarrow> is_ascii (strings_Join (map (\<lambda>g. concat (map glob_piece g)) gs) ''|'')"
proof (induction gs rule: induct_list012)
  case (2 g)
  then show ?case using pieces_ascii by simp
next
  case (3 g h gs)
  then show ?case using pieces_ascii [of g] by simp
qed simp

definition plain_globs :: "string list \<Rightarrow> bool" where
  "plain_globs gs \<longleftrightarrow> gs \<noteq> [] \<and> list_all simple_glob gs \<and> list_all is_ascii gs"

definition plain_name :: "string \<Rightarrow> bool" where
  "plain_name s \<longleftrightarrow> is_ascii s \<and> CHR ''/'' \<notin> set s \<and> char_of (10 :: nat) \<notin> set s"

lemma pieces_any: "is_ascii g \<Longrightarrow> concat (map glob_piece g) = ''.*'' \<Longrightarrow> g = ''*''"
proof -
  assume a: "is_ascii g" and c: "concat (map glob_piece g) = ''.*''"
  have "parse_rx (concat (map glob_piece g) @ '')$'') = Some [map glob_atom g]"
    using parse_pieces [OF a, of "'')$''" "[]" "[]"] by (simp add: parse_rx.simps [of "'')$''"])
  moreover have "parse_rx ''.*)$'' = Some [[RxAnyStar]]" by (simp add: parse_rx.simps)
  ultimately have m: "map glob_atom g = [RxAnyStar]" using c by simp
  then obtain c where "g = [c]" "glob_atom c = RxAnyStar" by auto
  then show ?thesis by (auto simp: glob_atom_def split: if_splits)
qed

lemma globsToRegex_meaning:
  assumes "plain_globs gs" "posix_engine re"
  obtains p f where "globsToRegex gs = Inr p" "re p = Inr f"
    "\<And>s. plain_name s \<Longrightarrow> f s = (\<exists>g \<in> set gs. path_Match g s = Inr True)"
    "p = DefaultFilterString \<Longrightarrow> gs = [''*'']"
proof -
  let ?parts = "map (\<lambda>g. concat (map glob_piece g)) gs"
  have gs: "gs \<noteq> []" "list_all simple_glob gs" "list_all is_ascii gs" using assms(1) by (auto simp: plain_globs_def)
  have ref: "(\<exists>g \<in> set gs. path_Match g s = Inr True) \<longleftrightarrow> (\<exists>g \<in> set gs. glob_ref g s)" if "plain_name s" for s
    using that gs(2) by (auto simp: plain_name_def path_Match_simple list_all_iff)
  show thesis
  proof (cases "length ?parts = 1 \<and> ?parts ! 0 = ''.*''")
    case True
    then obtain g where g: "gs = [g]" by (cases gs) auto
    then have star: "g = ''*''" using True gs pieces_any [of g] by simp
    have r: "globsToRegex gs = Inr DefaultFilterString"
      using True g gs(2) by (simp add: globsToRegex_def globToRegex_simple)
    have sc: "subset_compile DefaultFilterString = Some (\<lambda>s. True)" by (simp add: subset_compile_def DefaultFilterString_def)
    moreover have "is_ascii DefaultFilterString" by code_simp
    ultimately obtain f where "re DefaultFilterString = Inr f"
      "\<forall>s. is_ascii s \<and> char_of (10 :: nat) \<notin> set s \<longrightarrow> f s = True"
      using assms(2) unfolding posix_engine_def by blast
    moreover have "glob_ref ''*'' s" for s by (simp add: glob_ref_star) (metis drop_all le_refl)
    ultimately show thesis using that [OF r] ref g star by (auto simp: plain_name_def)
  next
    case False
    let ?p = "''^('' @ strings_Join ?parts ''|'' @ '')$''"
    have r: "globsToRegex gs = Inr ?p"
      using False gs(1) by (auto simp: globsToRegex_def glob_parts_simple [OF gs(2)])
    have nd: "?p \<noteq> ''.*''" by simp
    have sc: "subset_compile ?p = Some (\<lambda>s. list_ex (\<lambda>a. rx_match a s) (map (map glob_atom) gs))"
      using parse_join [OF gs(1,3)] by (simp add: subset_compile_def)
    moreover have "is_ascii ?p" using join_ascii [OF gs(3)] by simp
    ultimately obtain f where f: "re ?p = Inr f"
      "\<And>s. is_ascii s \<Longrightarrow> char_of (10 :: nat) \<notin> set s \<Longrightarrow> f s = list_ex (\<lambda>a. rx_match a s) (map (map glob_atom) gs)"
      using assms(2) unfolding posix_engine_def by blast
    have "f s = (\<exists>g \<in> set gs. path_Match g s = Inr True)" if "plain_name s" for s
      using that f(2) [of s] ref [OF that] by (auto simp: plain_name_def list_ex_iff rx_match_glob)
    then show thesis using that [OF r f(1)] nd by (auto simp: DefaultFilterString_def)
  qed
qed

section \<open>Which tables a plan keeps\<close>

definition selects :: "string list \<Rightarrow> string \<Rightarrow> bool" where
  "selects globs name \<longleftrightarrow> (\<exists>g \<in> set globs. path_Match g name = Inr True)"

definition plan_selects :: "resolved_database_plan \<Rightarrow> db_table \<Rightarrow> bool" where
  "plan_selects p t \<longleftrightarrow> selects (rpSchemaGlobs p) (tnSchema t) \<and> selects (rpTableGlobs p) (tnTable t)"

lemma filter_tables_True: "filter_tables (\<lambda>t. True) r = r"
  by (simp add: filter_tables_def)

lemma selects_star: "plain_name s \<Longrightarrow> selects [''*''] s"
proof -
  assume "plain_name s"
  then have "path_Match ''*'' s = Inr (glob_ref ''*'' s)"
    by (intro path_Match_simple) (auto simp: plain_name_def simple_glob_def backslash_not)
  moreover have "glob_ref ''*'' s" by (simp add: glob_ref_star) (metis drop_all le_refl)
  ultimately show ?thesis by (simp add: selects_def)
qed

text \<open>C24: the regular expressions a plan runs with keep the tables its globs select. Side conditions: the
  globs are ASCII strings of literal characters, \<open>?\<close> and \<open>*\<close> (no \<open>[\<close> and no backslash), and the names
  of the compared tables are ASCII without \<open>/\<close> and without a line break. Then a run request is built
  for the plan's database, and filtering a comparison result with it keeps, in order, the verified
  pairs whose source table, and the missing and extraneous tables that, one schema glob and one table
  glob match in the sense of \<open>path.Match\<close>.\<close>

theorem plan_filter_matches_globs:
  assumes "posix_engine re" and "plain_globs (rpSchemaGlobs p)" and "plain_globs (rpTableGlobs p)"
    and "\<And>t. t \<in> fst ` set (orVerified r) \<union> set (orMissingTables r) \<union> set (orExtraneousTables r) \<Longrightarrow>
           plain_name (tnSchema t) \<and> plain_name (tnTable t)"
  shows "\<exists>rr. RunRequest p = Inr rr \<and> rrResolvedDatabase rr = rpDatabase p \<and>
    (\<exists>r'. FilterResult re (rrFilterConfig rr) r = Inr r' \<and>
       orVerified r' = filter (\<lambda>(source, target). plan_selects p source) (orVerified r) \<and>
       orMissingTables r' = filter (plan_selects p) (orMissingTables r) \<and>
       orExtraneousTables r' = filter (plan_selects p) (orExtraneousTables r))"
proof -
  obtain ps fs where s: "globsToRegex (rpSchemaGlobs p) = Inr ps" "re ps = Inr fs"
    "\<And>n. plain_name n \<Longrightarrow> fs n = (\<exists>g \<in> set (rpSchemaGlobs p). path_Match g n = Inr True)"
    "ps = DefaultFilterString \<Longrightarrow> rpSchemaGlobs p = [''*'']"
    using globsToRegex_meaning [OF assms(2,1)] by metis
  obtain pt ft where t: "globsToRegex (rpTableGlobs p) = Inr pt" "re pt = Inr ft"
    "\<And>n. plain_name n \<Longrightarrow> ft n = (\<exists>g \<in> set (rpTableGlobs p). path_Match g n = Inr True)"
    "pt = DefaultFilterString \<Longrightarrow> rpTableGlobs p = [''*'']"
    using globsToRegex_meaning [OF assms(3,1)] by metis
  let ?keep = "plan_selects p"
  let ?f = "\<lparr>fcSchemaFilter = ps, fcTableFilter = pt, fcExcludeSchemaFilter = [], fcExcludeTableFilter = []\<rparr>"
  have rr: "RunRequest p = Inr \<lparr>rrDatabaseName = rdName (rpDatabase p), rrResolvedDatabase = rpDatabase p, rrFilterConfig = ?f\<rparr>"
    using s(1) t(1) by (simp add: RunRequest_def filterConfigFromGlobs_def)
  have "FilterResult re ?f r = Inr (filter_tables ?keep r)"
  proof (cases "ps = DefaultFilterString \<and> pt = DefaultFilterString")
    case True
    then have "filter_tables ?keep r = filter_tables (\<lambda>t. True) r"
      using s(4) t(4) selects_star assms(4) by (intro filter_tables_cong) (simp add: plan_selects_def)
    then show ?thesis using True by (simp add: FilterResult_def filter_tables_True)
  next
    case False
    then have "FilterResult re ?f r = Inr (filter_tables (\<lambda>t. fs (tnSchema t) \<and> ft (tnTable t)) r)"
      using s(2) t(2) by (auto simp: FilterResult_def matchesFilters_def MatchesFilter_def cong: if_cong)
    also have "filter_tables (\<lambda>t. fs (tnSchema t) \<and> ft (tnTable t)) r = filter_tables ?keep r"
      using s(3) t(3) assms(4) by (intro filter_tables_cong) (auto simp: plan_selects_def selects_def)
    finally show ?thesis .
  qed
  then show ?thesis using rr by (simp add: filter_tables_def split_def)
qed

definition plan_conn :: resolved_connection where
  "plan_conn = \<lparr>rcHost = ''h'', rcPort = 1, rcDatabase = ''d'', rcUsername = ''u'', rcPassword = [], rcSSLMode = ''disable'',
     rcTLS = \<lparr>dtCACertPath = [], dtClientCertPath = [], dtClientKeyPath = []\<rparr>\<rparr>"

definition plan_example :: resolved_database_plan where
  "plan_example = \<lparr>rpDatabase = \<lparr>rdName = ''main'', rdSource = plan_conn, rdDestination = plan_conn\<rparr>,
     rpSchemaGlobs = [''public''], rpTableGlobs = [''a*'', ''x?''], rpInitialSchemas = [''public'']\<rparr>"

definition plan_result :: obj_result where
  "plan_result = \<lparr>orVerified = [], orMissingTables = [\<lparr>tnSchema = ''public'', tnTable = ''ab'', dtOID = 0, dtLocalityExpr = []\<rparr>, \<lparr>tnSchema = ''public'', tnTable = ''x'', dtOID = 1, dtLocalityExpr = []\<rparr>],
     orExtraneousTables = []\<rparr>"

theorem plan_filter_matches_globs_witness:
  "\<exists>rr r'. RunRequest plan_example = Inr rr \<and> FilterResult subset_engine (rrFilterConfig rr) plan_result = Inr r' \<and>
     orMissingTables r' = [\<lparr>tnSchema = ''public'', tnTable = ''ab'', dtOID = 0, dtLocalityExpr = []\<rparr>]"
proof -
  have g: "plain_globs (rpSchemaGlobs plan_example)" "plain_globs (rpTableGlobs plan_example)" by code_simp+
  have n: "\<forall>t \<in> fst ` set (orVerified plan_result) \<union> set (orMissingTables plan_result) \<union> set (orExtraneousTables plan_result).
      plain_name (tnSchema t) \<and> plain_name (tnTable t)" by code_simp
  have "filter (plan_selects plan_example) (orMissingTables plan_result) =
      [\<lparr>tnSchema = ''public'', tnTable = ''ab'', dtOID = 0, dtLocalityExpr = []\<rparr>]" by code_simp
  with plan_filter_matches_globs [OF subset_engine_posix g, of plan_result] n show ?thesis by metis
qed

section \<open>Which databases a request selects\<close>

definition chosen :: "normalized_selection list \<Rightarrow> string \<Rightarrow> normalized_selection list" where
  "chosen sels name = filter (\<lambda>s. path_Match (nsDatabaseMatch s) name = Inr True) sels"

lemma merge_selections_Inr:
  "merge_selections sels name (a, b) = Inr (x, y) \<Longrightarrow>
   set x = set a \<union> (\<Union>s \<in> set (chosen sels name). set (nsSchemaGlobs s)) \<and>
   set y = set b \<union> (\<Union>s \<in> set (chosen sels name). set (nsTableGlobs s))"
  by (induction sels arbitrary: a b) (auto simp: chosen_def split: sum.splits if_splits)

lemma compile_selections_nonempty:
  "compile_selections ds dt reqs = Inr sels \<Longrightarrow> ds \<noteq> [] \<Longrightarrow> dt \<noteq> [] \<Longrightarrow>
   (\<forall>s \<in> set sels. nsSchemaGlobs s \<noteq> [] \<and> nsTableGlobs s \<noteq> []) \<and> length sels = length reqs"
  by (induction ds dt reqs arbitrary: sels rule: compile_selections.induct)
    (auto simp: Let_def split: if_splits option.splits sum.splits)

lemma Compile_nonempty:
  "Compile req = Inr sels \<Longrightarrow> sels \<noteq> [] \<and> (\<forall>s \<in> set sels. nsSchemaGlobs s \<noteq> [] \<and> nsTableGlobs s \<noteq> [])"
  using compile_selections_nonempty
  by (fastforce simp: Compile_def Let_def defaultGlobs_def split: option.splits if_splits)

lemma resolve_pairs_Inr:
  assumes "resolve_pairs sels pairs = Inr plans"
    and ne: "\<And>s. s \<in> set sels \<Longrightarrow> nsSchemaGlobs s \<noteq> []"
  shows "map rpDatabase plans = filter (\<lambda>p. chosen sels (rdName p) \<noteq> []) pairs \<and>
    (\<forall>plan \<in> set plans.
       set (rpSchemaGlobs plan) = (\<Union>s \<in> set (chosen sels (rdName (rpDatabase plan))). set (nsSchemaGlobs s)) \<and>
       set (rpTableGlobs plan) = (\<Union>s \<in> set (chosen sels (rdName (rpDatabase plan))). set (nsTableGlobs s)))"
  using assms(1)
proof (induction pairs arbitrary: plans)
  case (Cons pair pairs)
  then obtain x y rest where m: "merge_selections sels (rdName pair) ([], []) = Inr (x, y)"
    and r: "resolve_pairs sels pairs = Inr rest" by (auto split: sum.splits if_splits)
  have xy: "set x = (\<Union>s \<in> set (chosen sels (rdName pair)). set (nsSchemaGlobs s))"
    "set y = (\<Union>s \<in> set (chosen sels (rdName pair)). set (nsTableGlobs s))"
    using merge_selections_Inr [OF m] by auto
  show ?case
  proof (cases "chosen sels (rdName pair) = []")
    case True
    then have "x = []" "y = []" using xy by auto
    then show ?thesis using Cons.prems m r Cons.IH [OF r] True by simp
  next
    case False
    then obtain s where "s \<in> set (chosen sels (rdName pair))" by (cases "chosen sels (rdName pair)") auto
    moreover from this have "nsSchemaGlobs s \<noteq> []" using ne by (auto simp: chosen_def)
    ultimately have "x \<noteq> []" using xy(1) by (cases "nsSchemaGlobs s") auto
    then have plans: "plans = \<lparr>rpDatabase = pair, rpSchemaGlobs = x, rpTableGlobs = y,
        rpInitialSchemas = (case literalPatternsOnly x of Some s \<Rightarrow> s | None \<Rightarrow> [])\<rparr> # rest"
      using Cons.prems m r by simp
    show ?thesis using Cons.IH [OF r] False xy by (simp add: plans)
  qed
qed simp

text \<open>C28: A request that compiles and resolves selects exactly the configured databases one of its database
  globs matches, in the order of the configuration and at least one; each is planned with all schema
  globs and all table globs of the selections that match it.\<close>

theorem request_selects_databases:
  assumes "Compile req = Inr sels" and "Resolve os cfg sels = Inr plans"
  shows "\<exists>pairs. ResolveAllDatabases os cfg = Inr pairs \<and> plans \<noteq> [] \<and>
    map rpDatabase plans = filter (\<lambda>p. chosen sels (rdName p) \<noteq> []) pairs \<and>
    (\<forall>plan \<in> set plans.
       set (rpSchemaGlobs plan) = (\<Union>s \<in> set (chosen sels (rdName (rpDatabase plan))). set (nsSchemaGlobs s)) \<and>
       set (rpTableGlobs plan) = (\<Union>s \<in> set (chosen sels (rdName (rpDatabase plan))). set (nsTableGlobs s)))"
proof -
  obtain pairs where "ResolveAllDatabases os cfg = Inr pairs" "resolve_pairs sels pairs = Inr plans" "plans \<noteq> []"
    using assms(2) by (auto simp: Resolve_def split: sum.splits if_splits)
  then show ?thesis using resolve_pairs_Inr [of sels pairs plans] Compile_nonempty [OF assms(1)] by blast
qed

definition side_example :: database_config where
  "side_example = \<lparr>dcHost = ''db'', dcPort = 5432, dcDatabase = ''app'', dcUsername = credential_scalar ''ops'',
     dcPassword = empty_credential, dcSSLMode = ''disable'', dcTLS = None\<rparr>"

definition cfg_example :: verify_config where
  "cfg_example = \<lparr>vcSource = Some side_example, vcDestination = Some side_example,
     vcDatabases = map (\<lambda>n. \<lparr>dmName = n, dmSourceDatabase = [], dmDestinationDatabase = [], dmSource = None, dmDestination = None\<rparr>)
       [''orders'', ''users''], vcRawTableOutput = False\<rparr>"

definition env_example :: os_env where
  "env_example = \<lparr>osLookupEnv = (\<lambda>n. None), osReadFile = (\<lambda>f. Inl (ErrMsg ''no such file''))\<rparr>"

definition two_selections :: job_request where
  "two_selections = \<lparr>jqDefaultSchemaMatch = [], jqDefaultTableMatch = [], jqDatabases =
     [\<lparr>jdDatabaseMatch = ''orders'', jdSchemaMatch = [''s1''], jdTableMatch = [''t1'']\<rparr>,
      \<lparr>jdDatabaseMatch = ''ord*'', jdSchemaMatch = [''s2''], jdTableMatch = [''t2'']\<rparr>]\<rparr>"

definition compiled_example :: "normalized_selection list" where
  "compiled_example =
     [\<lparr>nsDatabaseMatch = ''orders'', nsSchemaGlobs = [''s1''], nsTableGlobs = [''t1'']\<rparr>,
      \<lparr>nsDatabaseMatch = ''ord*'', nsSchemaGlobs = [''s2''], nsTableGlobs = [''t2'']\<rparr>]"

lemma compiled_two: "Compile two_selections = Inr compiled_example" by code_simp

theorem request_selects_databases_witness:
  "\<exists>plans pairs. Resolve env_example cfg_example compiled_example = Inr plans \<and> plans \<noteq> [] \<and>
     map rpDatabase plans = filter (\<lambda>p. chosen compiled_example (rdName p) \<noteq> []) pairs"
proof -
  have "case Resolve env_example cfg_example compiled_example of Inr p \<Rightarrow> True | Inl e \<Rightarrow> False" by code_simp
  then obtain plans where "Resolve env_example cfg_example compiled_example = Inr plans" by (auto split: sum.splits)
  with request_selects_databases [OF compiled_two this] show ?thesis by blast
qed

text \<open>Two selections of one database are merged glob by glob, not kept apart: a request for table \<open>t1\<close>
  of schema \<open>s1\<close> and table \<open>t2\<close> of schema \<open>s2\<close> runs a plan that also selects \<open>t2\<close> of \<open>s1\<close>,
  which no selection of the request names.\<close>

theorem selections_merge_as_product:
  "case Compile two_selections of
     Inr sels \<Rightarrow>
       (case Resolve env_example cfg_example sels of
          Inr [plan] \<Rightarrow> selects (rpSchemaGlobs plan) ''s1'' \<and> selects (rpTableGlobs plan) ''t2'' \<and>
            \<not> list_ex (\<lambda>s. selects (nsSchemaGlobs s) ''s1'' \<and> selects (nsTableGlobs s) ''t2'') sels
        | _ \<Rightarrow> False)
   | Inl e \<Rightarrow> False"
  by code_simp

text \<open>A character class is read in two ways: \<open>path.Match\<close> takes \<open>!\<close> in \<open>[!a]\<close> for a member of the
  class, the regular expression of the same glob negates the class. As database globs use the first
  and table globs the second, \<open>[!a]\<close> selects a database called \<open>a\<close> and no table called \<open>a\<close>. A glob
  byte from 128 on is written to the expression as another character.\<close>

theorem class_globs_disagree:
  "path_Match ''[!a]'' ''a'' = Inr True \<and> path_Match ''[!a]'' ''b'' = Inr False \<and>
   globToRegex ''[!a]'' = Inr ''[^a]'' \<and>
   globToRegex [char_of (195 :: nat), char_of (169 :: nat)] =
     Inr [char_of (195 :: nat), char_of (131 :: nat), char_of (194 :: nat), char_of (169 :: nat)]"
  by code_simp

end
