(* ===== verification/Job_Result.thy ===== *)
theory Job_Result
  imports Inconsistency Operator_Error "HOL-Library.Product_Lexorder"
begin

text \<open>
  \<open>verifyservice/result.go\<close>: what a database job keeps of the reports it receives, and the failure it
  ends with.

  \<open>mismatchTables\<close> is a Go map used as a set; it is kept as the list of its keys without repetition,
  and is only ever read through \<open>sortTableKeys\<close>.
\<close>

type_synonym table_id = "string \<times> string"

record table_summary =
  smSchema :: string
  smTable :: string
  smNumVerified :: nat
  smNumSuccess :: nat
  smNumMissing :: nat
  smNumMismatch :: nat
  smNumColumnMismatch :: nat
  smNumExtraneous :: nat
  smNumLiveRetry :: nat

type_synonym string_map = "(string \<times> string) list option"   \<comment> \<open>\<open>None\<close> is the nil map\<close>

record job_finding =
  jfKind :: string
  jfTable :: table_id
  jfPrimaryKey :: string_map
  jfMismatchingColumns :: "string list"
  jfSourceValues :: string_map
  jfDestinationValues :: string_map
  jfInfo :: "string list"
  jfMessage :: string

record job_result =
  jrTableSummaries :: "table_id \<Rightarrow> table_summary option"
  jrMismatchTables :: "table_id list"
  jrFindings :: "job_finding list"

definition newJobResult :: job_result where
  "newJobResult = \<lparr>jrTableSummaries = Map.empty, jrMismatchTables = [], jrFindings = []\<rparr>"

definition zero_summary :: table_summary where
  "zero_summary = \<lparr>smSchema = [], smTable = [], smNumVerified = 0, smNumSuccess = 0, smNumMissing = 0,
     smNumMismatch = 0, smNumColumnMismatch = 0, smNumExtraneous = 0, smNumLiveRetry = 0\<rparr>"

definition accumulate :: "table_summary \<Rightarrow> table_summary \<Rightarrow> table_summary" where
  "accumulate s other =
     \<lparr>smSchema = smSchema other, smTable = smTable other,
      smNumVerified = smNumVerified s + smNumVerified other,
      smNumSuccess = smNumSuccess s + smNumSuccess other,
      smNumMissing = smNumMissing s + smNumMissing other,
      smNumMismatch = smNumMismatch s + smNumMismatch other,
      smNumColumnMismatch = smNumColumnMismatch s + smNumColumnMismatch other,
      smNumExtraneous = smNumExtraneous s + smNumExtraneous other,
      smNumLiveRetry = smNumLiveRetry s + smNumLiveRetry other\<rparr>"

definition summary_of_stats :: "row_stats \<Rightarrow> table_summary" where
  "summary_of_stats st =
     \<lparr>smSchema = rsSchema st, smTable = rsTable st, smNumVerified = rsNumVerified st,
      smNumSuccess = rsNumSuccess st, smNumMissing = rsNumMissing st, smNumMismatch = rsNumMismatch st,
      smNumColumnMismatch = rsNumColumnMismatch st, smNumExtraneous = rsNumExtraneous st,
      smNumLiveRetry = rsNumLiveRetry st\<rparr>"

definition statsHaveMismatch :: "row_stats \<Rightarrow> bool" where
  "statsHaveMismatch st \<longleftrightarrow>
     rsNumMissing st > 0 \<or> rsNumMismatch st > 0 \<or> rsNumColumnMismatch st > 0 \<or> rsNumExtraneous st > 0"

text \<open>\<open>rendered[column] = value\<close> for each column in turn: a later column of the same name replaces the
  earlier value.\<close>

definition put :: "(string \<times> string) list \<Rightarrow> string \<Rightarrow> string \<Rightarrow> (string \<times> string) list" where
  "put m k v = (if k \<in> fst ` set m then map (\<lambda>(k', v'). if k' = k then (k, v) else (k', v')) m else m @ [(k, v)])"

definition renderDatumMap :: "'d datum_ops \<Rightarrow> string list \<Rightarrow> 'd list \<Rightarrow> string_map" where
  "renderDatumMap D columns values =
     (if length columns = 0 \<or> length values = 0 then None
      else Some (foldl (\<lambda>m (c, v). put m c (dExport D v)) [] (zip columns values)))"

definition add_mismatch :: "table_id \<Rightarrow> job_result \<Rightarrow> job_result" where
  "add_mismatch key r = r\<lparr>jrMismatchTables := List.insert key (jrMismatchTables r)\<rparr>"

definition add_finding :: "job_finding \<Rightarrow> job_result \<Rightarrow> job_result" where
  "add_finding f r = r\<lparr>jrFindings := jrFindings r @ [f]\<rparr>"

definition finding :: "string \<Rightarrow> table_id \<Rightarrow> job_finding" where
  "finding kind key =
     \<lparr>jfKind = kind, jfTable = key, jfPrimaryKey = None, jfMismatchingColumns = [], jfSourceValues = None,
      jfDestinationValues = None, jfInfo = [], jfMessage = []\<rparr>"

fun result_recordReport :: "'d datum_ops \<Rightarrow> 'd report \<Rightarrow> job_result \<Rightarrow> job_result" where
  "result_recordReport D (SummaryReport info st) r =
     (let key = (rsSchema st, rsTable st);
          old = (case jrTableSummaries r key of Some s \<Rightarrow> s | None \<Rightarrow> zero_summary);
          r1 = r\<lparr>jrTableSummaries := (jrTableSummaries r)(key \<mapsto> accumulate old (summary_of_stats st))\<rparr>
      in if statsHaveMismatch st then add_mismatch key r1 else r1)"
| "result_recordReport D (MismatchingTableDefinition t info) r =
     (let key = (tnSchema t, tnTable t)
      in add_finding ((finding ''mismatching_table_definition'' key)\<lparr>jfMessage := info\<rparr>) (add_mismatch key r))"
| "result_recordReport D (MismatchingRow m) r =
     (let key = (tnSchema m, tnTable m)
      in add_finding ((finding ''mismatching_row'' key)
           \<lparr>jfPrimaryKey := renderDatumMap D (mmPrimaryKeyColumns m) (mmPrimaryKeyValues m),
            jfMismatchingColumns := mmMismatchingColumns m,
            jfSourceValues := renderDatumMap D (mmMismatchingColumns m) (mmTruthVals m),
            jfDestinationValues := renderDatumMap D (mmMismatchingColumns m) (mmTargetVals m)\<rparr>)
           (add_mismatch key r))"
| "result_recordReport D (MismatchingColumn m) r =
     (let key = (tnSchema m, tnTable m)
      in add_finding ((finding ''mismatching_column'' key)
           \<lparr>jfPrimaryKey := renderDatumMap D (mcPrimaryKeyColumns m) (mcPrimaryKeyValues m),
            jfMismatchingColumns := mcMismatchingColumns m,
            jfSourceValues := renderDatumMap D (mcMismatchingColumns m) (mcTruthVals m),
            jfDestinationValues := renderDatumMap D (mcMismatchingColumns m) (mcTargetVals m),
            jfInfo := mcInfo m\<rparr>) (add_mismatch key r))"
| "result_recordReport D (MissingRow m) r =
     (let key = (tnSchema m, tnTable m)
      in add_finding ((finding ''missing_row'' key)
           \<lparr>jfPrimaryKey := renderDatumMap D (mrPrimaryKeyColumns m) (mrPrimaryKeyValues m),
            jfSourceValues := renderDatumMap D (mrColumns m) (mrValues m)\<rparr>) (add_mismatch key r))"
| "result_recordReport D (ExtraneousRow m) r =
     (let key = (tnSchema m, tnTable m)
      in add_finding ((finding ''extraneous_row'' key)
           \<lparr>jfPrimaryKey := renderDatumMap D (erPrimaryKeyColumns m) (erPrimaryKeyValues m)\<rparr>)
           (add_mismatch key r))"
| "result_recordReport D (MissingTable t) r =
     (let key = (tnSchema t, tnTable t) in add_finding (finding ''missing_table'' key) (add_mismatch key r))"
| "result_recordReport D (ExtraneousTable t) r =
     (let key = (tnSchema t, tnTable t) in add_finding (finding ''extraneous_table'' key) (add_mismatch key r))"
| "result_recordReport D (StatusReport info) r = r"

definition sortTableKeys :: "table_id list \<Rightarrow> table_id list" where
  "sortTableKeys keys = sort keys"

definition mismatchTablesView :: "job_result \<Rightarrow> table_id list" where
  "mismatchTablesView r = sortTableKeys (jrMismatchTables r)"

definition mismatchFailure :: "job_result \<Rightarrow> operatorError option" where
  "mismatchFailure r =
     (let mismatchTables = mismatchTablesView r
      in if length mismatchTables = 0 then None
         else Some (newOperatorError ''mismatch'' ''mismatch_detected''
                (''verify detected mismatches in '' @ Itoa (length mismatchTables) @ '' table'')
                (map (\<lambda>(s, t). OperatorErrorDetail [] (''mismatch detected for '' @ s @ ''.'' @ t)) mismatchTables)))"

definition findingsView :: "job_result \<Rightarrow> job_finding list" where
  "findingsView r = jrFindings r"

section \<open>Which reports make a job fail\<close>

fun inconsistency_at :: "'d report \<Rightarrow> table_id option" where
  "inconsistency_at (SummaryReport info st) =
     (if statsHaveMismatch st then Some (rsSchema st, rsTable st) else None)"
| "inconsistency_at (MismatchingTableDefinition t info) = Some (tnSchema t, tnTable t)"
| "inconsistency_at (MismatchingRow m) = Some (tnSchema m, tnTable m)"
| "inconsistency_at (MismatchingColumn m) = Some (tnSchema m, tnTable m)"
| "inconsistency_at (MissingRow m) = Some (tnSchema m, tnTable m)"
| "inconsistency_at (ExtraneousRow m) = Some (tnSchema m, tnTable m)"
| "inconsistency_at (MissingTable t) = Some (tnSchema t, tnTable t)"
| "inconsistency_at (ExtraneousTable t) = Some (tnSchema t, tnTable t)"
| "inconsistency_at (StatusReport info) = None"

lemma record_mismatch_tables:
  "jrMismatchTables (result_recordReport D obj r) =
     (case inconsistency_at obj of Some k \<Rightarrow> List.insert k (jrMismatchTables r) | None \<Rightarrow> jrMismatchTables r)"
  by (cases obj) (auto simp: Let_def add_mismatch_def add_finding_def)

lemma record_all_mismatch_tables:
  "set (jrMismatchTables (fold (result_recordReport D) objs r)) =
     set (jrMismatchTables r) \<union> {k. \<exists>obj \<in> set objs. inconsistency_at obj = Some k}"
  by (induction objs arbitrary: r) (auto simp: record_mismatch_tables split: option.splits)

lemma record_all_distinct:
  "distinct (jrMismatchTables r) \<Longrightarrow> distinct (jrMismatchTables (fold (result_recordReport D) objs r))"
  by (induction objs arbitrary: r) (auto simp: record_mismatch_tables split: option.splits)

lemma sort_Nil [simp]: "sort xs = [] \<longleftrightarrow> xs = []"
  by (metis length_0_conv length_sort)

lemma mismatchFailure_iff: "mismatchFailure r \<noteq> None \<longleftrightarrow> jrMismatchTables r \<noteq> []"
  by (simp add: mismatchFailure_def mismatchTablesView_def sortTableKeys_def Let_def)

lemma findings_grow:
  "jrFindings (result_recordReport D obj r) =
     jrFindings r @ (case obj of SummaryReport i s \<Rightarrow> [] | StatusReport i \<Rightarrow> []
       | _ \<Rightarrow> [last (jrFindings (result_recordReport D obj r))])"
  by (cases obj) (auto simp: Let_def add_mismatch_def add_finding_def)

end
