(* ===== verification/Job.thy ===== *)
theory Job
  imports Job_Result Job_Request
begin

text \<open>
  \<open>verifyservice/job.go\<close>: a job and its per-database parts. Times are natural numbers; a cancel
  function is represented by the number of the context it cancels (\<open>None\<close> is the nil function); the
  contexts themselves belong to the service.

  A databases slice holds pointers and every operation reaches a database through \<open>databaseNamed\<close>,
  the first one of that name; \<open>update_named\<close> changes exactly that one.
\<close>

datatype job_status = Running | Stopping | Succeeded | Failed | Stopped

record database_job =
  djName :: string
  djStatus :: job_status
  djStartedAt :: nat
  djFinishedAt :: "nat option"
  djSchemas :: "string list"
  djTables :: "string list"
  djRowsChecked :: "nat option"
  djErr :: "operatorError option"
  djResult :: job_result

record job =
  jbId :: string
  jbCreatedAt :: nat
  jbStartedAt :: nat
  jbFinishedAt :: "nat option"
  jbDatabases :: "database_job list"
  jbCancel :: "nat option"

definition newDatabaseJob :: "resolved_database_plan \<Rightarrow> nat \<Rightarrow> database_job" where
  "newDatabaseJob plan now =
     \<lparr>djName = rdName (rpDatabase plan), djStatus = Running, djStartedAt = now, djFinishedAt = None,
      djSchemas = rpInitialSchemas plan, djTables = [], djRowsChecked = None, djErr = None,
      djResult = newJobResult\<rparr>"

definition newJob :: "string \<Rightarrow> resolved_database_plan list \<Rightarrow> nat \<Rightarrow> nat \<Rightarrow> job" where
  "newJob jid plan now cancel =
     \<lparr>jbId = jid, jbCreatedAt = now, jbStartedAt = now, jbFinishedAt = None,
      jbDatabases = map (\<lambda>p. newDatabaseJob p now) plan, jbCancel = Some cancel\<rparr>"

section \<open>The status of a job\<close>

record status_flags =
  hasStopping :: bool
  hasRunning :: bool
  hasFailed :: bool
  hasStopped :: bool
  allSucceeded :: bool

fun note_status :: "job_status \<Rightarrow> status_flags \<Rightarrow> status_flags" where
  "note_status Stopping f = f\<lparr>hasStopping := True, allSucceeded := False\<rparr>"
| "note_status Running f = f\<lparr>hasRunning := True, allSucceeded := False\<rparr>"
| "note_status Failed f = f\<lparr>hasFailed := True, allSucceeded := False\<rparr>"
| "note_status Stopped f = f\<lparr>hasStopped := True, allSucceeded := False\<rparr>"
| "note_status Succeeded f = f"

definition job_status :: "job \<Rightarrow> job_status" where
  "job_status j =
     (let f = fold (\<lambda>d. note_status (djStatus d)) (jbDatabases j)
                \<lparr>hasStopping = False, hasRunning = False, hasFailed = False, hasStopped = False, allSucceeded = True\<rparr>
      in if hasStopping f then Stopping
         else if hasRunning f then Running
         else if allSucceeded f then Succeeded
         else if hasFailed f then Failed
         else if hasStopped f then Stopped
         else Succeeded)"

definition job_active :: "job \<Rightarrow> bool" where
  "job_active j = (case job_status j of Running \<Rightarrow> True | Stopping \<Rightarrow> True | _ \<Rightarrow> False)"

section \<open>Operations on one database\<close>

definition markStopping :: "database_job \<Rightarrow> database_job" where
  "markStopping d = (if djStatus d = Running then d\<lparr>djStatus := Stopping\<rparr> else d)"

definition markStopped :: "nat \<Rightarrow> database_job \<Rightarrow> database_job" where
  "markStopped now d =
     (if djStatus d \<noteq> Running \<and> djStatus d \<noteq> Stopping then d
      else d\<lparr>djStatus := Stopped, djFinishedAt := Some now\<rparr>)"

definition database_fail :: "nat \<Rightarrow> operatorError \<Rightarrow> database_job \<Rightarrow> database_job" where
  "database_fail now err d = d\<lparr>djStatus := Failed, djErr := Some err, djFinishedAt := Some now\<rparr>"

definition database_complete :: "nat \<Rightarrow> database_job \<Rightarrow> database_job \<times> operatorError option" where
  "database_complete now d =
     (case mismatchFailure (djResult d) of
        Some f \<Rightarrow> (d\<lparr>djStatus := Failed, djErr := Some f, djFinishedAt := Some now\<rparr>, Some f)
      | None \<Rightarrow> (d\<lparr>djStatus := Succeeded, djFinishedAt := Some now\<rparr>, None))"

fun reportLocation :: "'d report \<Rightarrow> (string \<times> string) option" where
  "reportLocation (SummaryReport i st) = Some (rsSchema st, rsTable st)"
| "reportLocation (MismatchingTableDefinition t i) = Some (tnSchema t, tnTable t)"
| "reportLocation (MismatchingRow m) = Some (tnSchema m, tnTable m)"
| "reportLocation (MismatchingColumn m) = Some (tnSchema m, tnTable m)"
| "reportLocation (MissingRow m) = Some (tnSchema m, tnTable m)"
| "reportLocation (ExtraneousRow m) = Some (tnSchema m, tnTable m)"
| "reportLocation (MissingTable t) = Some (tnSchema t, tnTable t)"
| "reportLocation (ExtraneousTable t) = Some (tnSchema t, tnTable t)"
| "reportLocation (StatusReport i) = None"

definition addRowsChecked :: "nat \<Rightarrow> database_job \<Rightarrow> database_job" where
  "addRowsChecked delta d =
     d\<lparr>djRowsChecked := Some ((case djRowsChecked d of Some n \<Rightarrow> n | None \<Rightarrow> 0) + delta)\<rparr>"

definition database_recordReport :: "'d datum_ops \<Rightarrow> 'd report \<Rightarrow> database_job \<Rightarrow> database_job" where
  "database_recordReport D obj d =
     (let d1 = d\<lparr>djResult := result_recordReport D obj (djResult d)\<rparr>;
          d2 = (case reportLocation obj of
                  Some (schema, table) \<Rightarrow>
                    d1\<lparr>djSchemas := appendUniqueStrings (djSchemas d1) [schema],
                       djTables := appendUniqueStrings (djTables d1) [table]\<rparr>
                | None \<Rightarrow> d1)
      in (case obj of SummaryReport i st \<Rightarrow> addRowsChecked (rsNumVerified st) d2 | _ \<Rightarrow> d2))"

section \<open>Operations on a job\<close>

fun databaseNamed :: "string \<Rightarrow> database_job list \<Rightarrow> database_job option" where
  "databaseNamed name [] = None"
| "databaseNamed name (d # ds) = (if djName d = name then Some d else databaseNamed name ds)"

fun update_named :: "string \<Rightarrow> (database_job \<Rightarrow> database_job) \<Rightarrow> database_job list \<Rightarrow> database_job list" where
  "update_named name f [] = []"
| "update_named name f (d # ds) = (if djName d = name then f d # ds else d # update_named name f ds)"

definition job_markStopping :: "job \<Rightarrow> job" where
  "job_markStopping j = j\<lparr>jbDatabases := map markStopping (jbDatabases j)\<rparr>"

definition job_finish :: "nat \<Rightarrow> job \<Rightarrow> job" where
  "job_finish now j = j\<lparr>jbFinishedAt := Some now, jbCancel := None\<rparr>"

definition job_stop :: "nat \<Rightarrow> job \<Rightarrow> job" where
  "job_stop now j = job_finish now (j\<lparr>jbDatabases := map (markStopped now) (jbDatabases j)\<rparr>)"

section \<open>Views\<close>

record database_view =
  dvName :: string
  dvStatus :: job_status
  dvStartedAt :: nat
  dvFinishedAt :: "nat option"
  dvSchemas :: "string list"
  dvTables :: "string list"
  dvRowsChecked :: "nat option"
  dvError :: "operator_error_payload option"
  dvFindings :: "job_finding list"

record job_view =
  jvJobID :: string
  jvStatus :: job_status
  jvCreatedAt :: nat
  jvStartedAt :: nat
  jvFinishedAt :: "nat option"
  jvDatabases :: "database_view list"

definition database_response :: "(string \<Rightarrow> string result) \<Rightarrow> database_job \<Rightarrow> database_view" where
  "database_response san d =
     \<lparr>dvName = djName d, dvStatus = djStatus d, dvStartedAt = djStartedAt d, dvFinishedAt = djFinishedAt d,
      dvSchemas = djSchemas d, dvTables = djTables d, dvRowsChecked = djRowsChecked d,
      dvError = map_option (\<lambda>e. payload san (Some e)) (djErr d), dvFindings = findingsView (djResult d)\<rparr>"

definition job_response :: "(string \<Rightarrow> string result) \<Rightarrow> job \<Rightarrow> job_view" where
  "job_response san j =
     \<lparr>jvJobID = jbId j, jvStatus = job_status j, jvCreatedAt = jbCreatedAt j, jvStartedAt = jbStartedAt j,
      jvFinishedAt = jbFinishedAt j, jvDatabases = map (database_response san) (jbDatabases j)\<rparr>"

section \<open>Lemmas\<close>

abbreviation statuses :: "job \<Rightarrow> job_status set" where
  "statuses j \<equiv> djStatus ` set (jbDatabases j)"

lemma fold_note_status:
  "fold (\<lambda>d. note_status (djStatus d)) ds f =
     \<lparr>hasStopping = (hasStopping f \<or> Stopping \<in> djStatus ` set ds),
      hasRunning = (hasRunning f \<or> Running \<in> djStatus ` set ds),
      hasFailed = (hasFailed f \<or> Failed \<in> djStatus ` set ds),
      hasStopped = (hasStopped f \<or> Stopped \<in> djStatus ` set ds),
      allSucceeded = (allSucceeded f \<and> djStatus ` set ds \<subseteq> {Succeeded})\<rparr>"
proof (induction ds arbitrary: f)
  case (Cons d ds)
  then show ?case by (cases "djStatus d") auto
qed simp

lemma job_status_iff:
  "job_status j =
     (if Stopping \<in> statuses j then Stopping
      else if Running \<in> statuses j then Running
      else if Failed \<in> statuses j then Failed
      else if Stopped \<in> statuses j then Stopped
      else Succeeded)"
proof -
  have "statuses j \<subseteq> {Succeeded} \<longleftrightarrow> Stopping \<notin> statuses j \<and> Running \<notin> statuses j \<and>
      Failed \<notin> statuses j \<and> Stopped \<notin> statuses j"
  proof
    assume none: "Stopping \<notin> statuses j \<and> Running \<notin> statuses j \<and> Failed \<notin> statuses j \<and> Stopped \<notin> statuses j"
    show "statuses j \<subseteq> {Succeeded}"
    proof
      fix s assume "s \<in> statuses j"
      then show "s \<in> {Succeeded}" using none by (cases s) auto
    qed
  qed auto
  then show ?thesis by (simp add: job_status_def fold_note_status)
qed

lemma job_active_iff: "job_active j \<longleftrightarrow> Stopping \<in> statuses j \<or> Running \<in> statuses j"
  by (simp add: job_active_def job_status_iff)

lemma update_named_names [simp]:
  "(\<And>d. djName (f d) = djName d) \<Longrightarrow> map djName (update_named name f ds) = map djName ds"
  by (induction ds) auto

lemma update_named_distinct:
  "distinct (map djName ds) \<Longrightarrow>
   update_named name f ds = map (\<lambda>d. if djName d = name then f d else d) ds"
proof (induction ds)
  case (Cons d ds)
  then have "djName d \<notin> djName ` set ds" by simp
  then have "djName x \<noteq> djName d" if "x \<in> set ds" for x using that by (metis imageI)
  then have "map (\<lambda>x. if djName x = djName d then f x else x) ds = ds" by (auto intro!: map_idI)
  then show ?case using Cons by auto
qed simp

lemma name_preserved [simp]:
  "djName (markStopping d) = djName d" "djName (markStopped now d) = djName d"
  "djName (database_fail now e d) = djName d" "djName (fst (database_complete now d)) = djName d"
  "djName (database_recordReport D obj d) = djName d"
  by (auto simp: markStopping_def markStopped_def database_fail_def database_complete_def
      database_recordReport_def addRowsChecked_def Let_def split: option.splits report.splits)

lemma status_after:
  "djStatus (database_recordReport D obj d) = djStatus d"
  "djStatus (database_fail now e d) = Failed"
  "djStatus (fst (database_complete now d)) \<in> {Failed, Succeeded}"
  "djStatus (markStopped now d) \<notin> {Running, Stopping}"
  "djStatus (markStopping d) \<noteq> Running"
  by (auto simp: markStopping_def markStopped_def database_fail_def database_complete_def
      database_recordReport_def addRowsChecked_def Let_def split: option.splits report.splits)

end
