(* ===== verification/Store_Interface.thy ===== *)
theory Store_Interface
  imports Go_Prelude
begin

text \<open>
  What the service relies on of a store of jobs: adding a job makes it the last one listed and the one
  found under its key, updating a job changes that job only. The client lemmas relate a store to a
  list of runners, one per stored job, each in a given relation with its job.
\<close>

definition linked ::
  "('s \<Rightarrow> string \<Rightarrow> 'j option) \<Rightarrow> ('s \<Rightarrow> string list) \<Rightarrow> ('r \<Rightarrow> string) \<Rightarrow> ('r \<Rightarrow> 'j \<Rightarrow> bool) \<Rightarrow> 'r list \<Rightarrow> 's \<Rightarrow> bool" where
  "linked look ids rid R rs s \<longleftrightarrow>
     distinct (ids s) \<and> map rid rs = ids s \<and> dom (look s) = set (ids s) \<and>
     (\<forall>r \<in> set rs. \<exists>j. look s (rid r) = Some j \<and> R r j)"

locale keyed_store =
  fixes look :: "'s \<Rightarrow> string \<Rightarrow> 'j option"
    and ids :: "'s \<Rightarrow> string list"
    and key :: "'j \<Rightarrow> string"
    and add :: "'j \<Rightarrow> 's \<Rightarrow> 's"
    and upd :: "string \<Rightarrow> ('j \<Rightarrow> 'j) \<Rightarrow> 's \<Rightarrow> 's"
  assumes look_add: "look (add j s) k = (if k = key j then Some j else look s k)"
    and ids_add: "ids (add j s) = ids s @ [key j]"
    and look_upd: "look (upd i f s) k = (if k = i then map_option f (look s i) else look s k)"
    and ids_upd: "ids (upd i f s) = ids s"
begin

lemma linked_add:
  assumes "linked look ids rid R rs s" "rid r = key j" "look s (key j) = None" "R r j"
  shows "linked look ids rid R (rs @ [r]) (add j s)"
proof -
  have fresh: "key j \<notin> set (ids s)" using assms(1,3) by (auto simp: linked_def)
  have rids: "rid x \<noteq> key j" if "x \<in> set rs" for x
    using that fresh assms(1) unfolding linked_def by (metis image_eqI list.set_map)
  have "dom (look (add j s)) = insert (key j) (dom (look s))"
    by (auto simp: look_add dom_def split: if_splits)
  then show ?thesis using assms fresh rids by (auto simp: linked_def look_add ids_add)
qed

lemma dom_upd: "dom (look (upd i f s)) = dom (look s)"
  by (auto simp: look_upd dom_def split: if_splits)

lemma linked_upd:
  assumes "linked look ids rid R rs s" "i < length rs" "rid r' = rid (rs ! i)"
    "\<And>j. look s (rid (rs ! i)) = Some j \<Longrightarrow> R (rs ! i) j \<Longrightarrow> R r' (f j)"
  shows "linked look ids rid R (rs[i := r']) (upd (rid (rs ! i)) f s)"
proof -
  have m: "map rid (rs[i := r']) = ids s"
    using assms(1,3) by (simp add: linked_def map_update) (metis list_update_id map_update)
  have d: "distinct (map rid rs)" using assms(1) by (simp add: linked_def)
  have "\<exists>j. look (upd (rid (rs ! i)) f s) (rid r) = Some j \<and> R r j" if r: "r \<in> set (rs[i := r'])" for r
  proof -
    from r obtain k where k: "k < length rs" "r = rs[i := r'] ! k" by (metis in_set_conv_nth length_list_update)
    show ?thesis
    proof (cases "k = i")
      case True
      then have "r = r'" using k assms(2) by simp
      then show ?thesis using assms by (auto simp: linked_def look_upd dest!: bspec [OF _ nth_mem [OF assms(2)]])
    next
      case False
      then have "r = rs ! k" "rid (rs ! k) \<noteq> rid (rs ! i)"
        using k assms(2) d by (auto simp: distinct_conv_nth)
      then show ?thesis using assms(1) k(1) by (simp add: linked_def look_upd)
    qed
  qed
  then show ?thesis using assms(1) m by (auto simp: linked_def ids_upd dom_upd)
qed

lemma linked_upd_all:
  assumes "linked look ids rid R rs s" "\<And>r j. r \<in> set rs \<Longrightarrow> look s (rid r) = Some j \<Longrightarrow> R r j \<Longrightarrow> R r (f j)"
  shows "linked look ids rid R rs (upd i f s)"
  using assms by (fastforce simp: linked_def look_upd ids_upd dom_upd)

lemma linked_nth:
  assumes "linked look ids rid R rs s" "i < length rs"
  obtains j where "look s (rid (rs ! i)) = Some j" "R (rs ! i) j"
  using assms nth_mem [of i rs] unfolding linked_def by blast

lemma linked_look:
  assumes "linked look ids rid R rs s" "look s k = Some j"
  obtains i where "i < length rs" "rid (rs ! i) = k" "R (rs ! i) j"
proof -
  have "k \<in> set (map rid rs)" using assms by (auto simp: linked_def)
  then obtain i where "i < length rs" "rid (rs ! i) = k" by (auto simp: in_set_conv_nth)
  with assms that show thesis by (metis linked_nth option.inject)
qed

end

end
