(* ===== verification/Job_Store.thy ===== *)
theory Job_Store
  imports Job Store_Interface
begin

text \<open>
  \<open>verifyservice/job_store.go\<close> and \<open>verifyservice/metrics.go\<close>: the jobs of the service and the order
  in which they were added. Every operation holds the store's mutex from beginning to end, so each is
  one function on the store.
\<close>

record job_store =
  jsJobs :: "string \<Rightarrow> job option"
  jsOrder :: "string list"

definition newJobStore :: job_store where
  "newJobStore = \<lparr>jsJobs = Map.empty, jsOrder = []\<rparr>"

definition store_add :: "job \<Rightarrow> job_store \<Rightarrow> job_store" where
  "store_add j s = s\<lparr>jsJobs := (jsJobs s)(jbId j \<mapsto> j), jsOrder := jsOrder s @ [jbId j]\<rparr>"

definition store_get :: "(string \<Rightarrow> string result) \<Rightarrow> string \<Rightarrow> job_store \<Rightarrow> job_view option" where
  "store_get san jobID s = (case jsJobs s jobID of None \<Rightarrow> None | Some j \<Rightarrow> Some (job_response san j))"

definition jobs_in_order :: "job_store \<Rightarrow> job list" where
  "jobs_in_order s = List.map_filter (jsJobs s) (jsOrder s)"

definition store_list :: "(string \<Rightarrow> string result) \<Rightarrow> job_store \<Rightarrow> job_view list" where
  "store_list san s = map (job_response san) (jobs_in_order s)"

definition errJobNotFound :: operatorError where
  "errJobNotFound = newOperatorError ''job_state'' ''job_not_found'' ''job not found'' []"

text \<open>\<open>stop\<close> returns the view of the job and its cancel function.\<close>

definition store_stop ::
  "(string \<Rightarrow> string result) \<Rightarrow> string \<Rightarrow> job_store \<Rightarrow> job_store \<times> (job_view \<times> nat) result" where
  "store_stop san jobID s =
     (case jsJobs s jobID of
        None \<Rightarrow> (s, Inl (ErrOperator errJobNotFound))
      | Some j \<Rightarrow>
          (if \<not> job_active j then (s, Inl (ErrOperator errJobNotFound))
           else case jbCancel j of
             None \<Rightarrow> (s, Inl (ErrOperator errJobNotFound))
           | Some cancel \<Rightarrow>
               (let j' = job_markStopping j
                in (s\<lparr>jsJobs := (jsJobs s)(jobID \<mapsto> j')\<rparr>, Inr (job_response san j', cancel)))))"

definition activeCancels :: "job_store \<Rightarrow> nat list" where
  "activeCancels s = List.map_filter (\<lambda>j. if job_active j then jbCancel j else None) (jobs_in_order s)"

definition update_job :: "string \<Rightarrow> (job \<Rightarrow> job) \<Rightarrow> job_store \<Rightarrow> job_store" where
  "update_job jobID f s =
     (case jsJobs s jobID of None \<Rightarrow> s | Some j \<Rightarrow> s\<lparr>jsJobs := (jsJobs s)(jobID \<mapsto> f j)\<rparr>)"

definition update_database :: "string \<Rightarrow> (database_job \<Rightarrow> database_job) \<Rightarrow> job \<Rightarrow> job" where
  "update_database name f j = j\<lparr>jbDatabases := update_named name f (jbDatabases j)\<rparr>"

definition store_recordReport :: "'d datum_ops \<Rightarrow> string \<Rightarrow> string \<Rightarrow> 'd report \<Rightarrow> job_store \<Rightarrow> job_store" where
  "store_recordReport D jobID databaseName obj s =
     update_job jobID (update_database databaseName (database_recordReport D obj)) s"

definition completeDatabase ::
  "string \<Rightarrow> string \<Rightarrow> nat \<Rightarrow> job_store \<Rightarrow> job_store \<times> operatorError option" where
  "completeDatabase jobID databaseName now s =
     (case jsJobs s jobID of
        None \<Rightarrow> (s, None)
      | Some j \<Rightarrow>
          (case databaseNamed databaseName (jbDatabases j) of
             None \<Rightarrow> (s, None)
           | Some d \<Rightarrow>
               (update_job jobID (update_database databaseName (\<lambda>d. fst (database_complete now d))) s,
                snd (database_complete now d))))"

definition failDatabase :: "string \<Rightarrow> string \<Rightarrow> nat \<Rightarrow> operatorError \<Rightarrow> job_store \<Rightarrow> job_store" where
  "failDatabase jobID databaseName now err s =
     update_job jobID (update_database databaseName (database_fail now err)) s"

definition finishJob :: "string \<Rightarrow> nat \<Rightarrow> job_store \<Rightarrow> job_store" where
  "finishJob jobID now s = update_job jobID (job_finish now) s"

definition stopJob :: "string \<Rightarrow> nat \<Rightarrow> job_store \<Rightarrow> job_store" where
  "stopJob jobID now s = update_job jobID (job_stop now) s"

definition orderedJobIDs :: "job_store \<Rightarrow> string list" where
  "orderedJobIDs s = jsOrder s"

section \<open>Metrics\<close>

record metrics_snapshot =
  msActiveJobs :: nat
  msStatusCounts :: "job_status \<Rightarrow> nat"

definition count_job :: "job \<Rightarrow> metrics_snapshot \<Rightarrow> metrics_snapshot" where
  "count_job j m =
     (let m1 = m\<lparr>msStatusCounts := (msStatusCounts m)(job_status j := msStatusCounts m (job_status j) + 1)\<rparr>
      in if job_active j then m1\<lparr>msActiveJobs := msActiveJobs m1 + 1\<rparr> else m1)"

definition metricsStatusSnapshot :: "job_store \<Rightarrow> metrics_snapshot" where
  "metricsStatusSnapshot s = fold count_job (jobs_in_order s) \<lparr>msActiveJobs = 0, msStatusCounts = (\<lambda>_. 0)\<rparr>"

fun status_text :: "job_status \<Rightarrow> string" where
  "status_text Running = ''running''"
| "status_text Stopping = ''stopping''"
| "status_text Succeeded = ''succeeded''"
| "status_text Failed = ''failed''"
| "status_text Stopped = ''stopped''"

text \<open>The metrics one scrape sends, with their label.\<close>

definition metrics_Collect :: "job_store \<Rightarrow> (string \<times> string list \<times> nat) list" where
  "metrics_Collect s =
     (let snapshot = metricsStatusSnapshot s
      in (''cockroach_migration_tool_verify_active_jobs'', [], msActiveJobs snapshot) #
         map (\<lambda>status. (''cockroach_migration_tool_verify_jobs_total'', [status_text status], msStatusCounts snapshot status))
           [Running, Stopping, Succeeded, Failed, Stopped])"

section \<open>Lemmas\<close>

text \<open>The order lists each job once, under its own id, and nothing else.\<close>

definition store_ok :: "job_store \<Rightarrow> bool" where
  "store_ok s \<longleftrightarrow> distinct (jsOrder s) \<and> set (jsOrder s) = dom (jsJobs s) \<and>
     (\<forall>i j. jsJobs s i = Some j \<longrightarrow> jbId j = i)"

lemma store_ok_new [inv_intros]: "store_ok newJobStore"
  by (simp add: store_ok_def newJobStore_def)

lemma store_ok_add [inv_intros]: "store_ok s \<Longrightarrow> jsJobs s (jbId j) = None \<Longrightarrow> store_ok (store_add j s)"
  by (auto simp: store_ok_def store_add_def)

lemma store_ok_update [inv_intros]: "store_ok s \<Longrightarrow> (\<And>j. jbId (f j) = jbId j) \<Longrightarrow> store_ok (update_job i f s)"
  by (auto simp: store_ok_def update_job_def split: option.splits if_splits)

lemma job_id_kept [simp]:
  "jbId (update_database n f j) = jbId j" "jbId (job_finish now j) = jbId j" "jbId (job_stop now j) = jbId j"
  "jbId (job_markStopping j) = jbId j"
  by (simp_all add: update_database_def job_finish_def job_stop_def job_markStopping_def)

lemma jsJobs_update [simp]:
  "jsJobs (update_job i f s) k = (if k = i then map_option f (jsJobs s i) else jsJobs s k)"
  by (auto simp: update_job_def split: option.splits)

lemma jsOrder_update [simp]: "jsOrder (update_job i f s) = jsOrder s"
  by (simp add: update_job_def split: option.splits)

lemma jsJobs_complete [simp]:
  "jsJobs (fst (completeDatabase i n now s)) k =
     (if k = i then map_option (update_database n (\<lambda>d. fst (database_complete now d))) (jsJobs s i) else jsJobs s k)"
proof -
  have "update_named n f ds = ds" if "databaseNamed n ds = None" for f ds
    using that by (induction ds) (auto split: if_splits)
  then show ?thesis by (auto simp: completeDatabase_def update_database_def split: option.splits)
qed

lemma store_ok_complete [inv_intros]: "store_ok s \<Longrightarrow> store_ok (fst (completeDatabase i n now s))"
  using store_ok_update [of s "update_database n (\<lambda>d. fst (database_complete now d))" i]
  by (auto simp: completeDatabase_def split: option.splits)

lemma jsJobs_stop:
  "jsJobs (fst (store_stop san i s)) k =
     (case jsJobs s k of
        Some j \<Rightarrow> Some (if k = i \<and> job_active j \<and> jbCancel j \<noteq> None then job_markStopping j else j)
      | None \<Rightarrow> None)"
  by (auto simp: store_stop_def Let_def split: option.splits)

lemma store_ok_stop [inv_intros]: "store_ok s \<Longrightarrow> store_ok (fst (store_stop san i s))"
  by (auto simp: store_ok_def store_stop_def Let_def split: option.splits if_splits)

lemma map_filter_total: "\<forall>x \<in> set xs. f x \<noteq> None \<Longrightarrow> length (List.map_filter f xs) = length xs"
  by (induction xs) (auto simp: List.map_filter_simps)

lemma set_map_filter: "set (List.map_filter f xs) = {y. \<exists>x \<in> set xs. f x = Some y}"
  by (induction xs) (auto simp: List.map_filter_simps split: option.splits)

lemma jobs_in_order_ok:
  "store_ok s \<Longrightarrow> length (jobs_in_order s) = length (jsOrder s) \<and> set (jobs_in_order s) = ran (jsJobs s)"
  by (auto simp: jobs_in_order_def store_ok_def set_map_filter ran_def intro!: map_filter_total)

lemma fold_count_job:
  "msActiveJobs (fold count_job js m) = msActiveJobs m + length (filter job_active js) \<and>
   msStatusCounts (fold count_job js m) st = msStatusCounts m st + length (filter (\<lambda>j. job_status j = st) js)"
proof (induction js arbitrary: m)
  case (Cons j js)
  show ?case using Cons [of "count_job j m"] by (auto simp: count_job_def Let_def)
qed simp

lemma metrics_counts:
  "msActiveJobs (metricsStatusSnapshot s) = length (filter job_active (jobs_in_order s))"
  "msStatusCounts (metricsStatusSnapshot s) st = length (filter (\<lambda>j. job_status j = st) (jobs_in_order s))"
  using fold_count_job [of "jobs_in_order s"] by (auto simp: metricsStatusSnapshot_def)

lemma status_partition:
  "length (filter (\<lambda>j. job_status j = Running) js) + length (filter (\<lambda>j. job_status j = Stopping) js) =
     length (filter job_active js) \<and>
   length (filter job_active js) + length (filter (\<lambda>j. job_status j = Succeeded) js) +
     length (filter (\<lambda>j. job_status j = Failed) js) + length (filter (\<lambda>j. job_status j = Stopped) js) = length js"
proof (induction js)
  case (Cons j js)
  then show ?case by (cases "job_status j") (simp_all add: job_active_def)
qed simp

text \<open>Completing and stopping are updates of one job.\<close>

lemma completeDatabase_update:
  "fst (completeDatabase i n now s) = update_job i (update_database n (\<lambda>d. fst (database_complete now d))) s"
proof -
  have "update_named n f ds = ds" if "databaseNamed n ds = None" for f ds
    using that by (induction ds) (auto split: if_splits)
  then show ?thesis
    by (auto simp: completeDatabase_def update_job_def update_database_def fun_upd_idem split: option.splits)
qed

lemma store_stop_update:
  "fst (store_stop san i s) =
     update_job i (\<lambda>j. if job_active j \<and> jbCancel j \<noteq> None then job_markStopping j else j) s"
  by (auto simp: store_stop_def update_job_def Let_def fun_upd_idem split: option.splits)

interpretation store: keyed_store jsJobs jsOrder jbId store_add update_job
  by unfold_locales (auto simp: store_add_def)

end
