(* ===== verification/Service.thy ===== *)
theory Service
  imports Job_Store
begin

text \<open>
  \<open>verifyservice/service.go\<close>: the HTTP handlers, the goroutine that runs a job, and how they
  interleave.

  A service state holds the store, the id generator's counter, which contexts are cancelled, one
  entry per job goroutine and the cancel functions that a handler has taken from the store and not
  called yet. Every access to the store is one atomic step (it holds the mutex), so an execution is a
  sequence of the steps of \<open>service_step\<close>: a request, the call of a pending cancel function, or a step
  of one goroutine: what it does at the head of its loop, one report while \<open>Run\<close> is in progress, and
  what it does when \<open>Run\<close> returns. Nothing is assumed of the runner but that it does not report after
  it has returned.
\<close>

datatype runner_phase = AtHead | InRun | Returned

record job_runner =
  rnJobID :: string
  rnCtx :: nat
  rnPlans :: "resolved_database_plan list"
  rnPhase :: runner_phase

record service =
  svVerifyConfig :: verify_config
  svCounter :: nat
  svStore :: job_store
  svCancelled :: "nat \<Rightarrow> bool"
  svRunners :: "job_runner list"
  svPending :: "nat list"

section \<open>Identifiers\<close>

definition job_id :: "nat \<Rightarrow> string" where
  "job_id counter = ''job-'' @ replicate (6 - length (Itoa counter)) (CHR ''0'') @ Itoa counter"

section \<open>Requests and responses\<close>

datatype decode_step = DecEOF | DecTooLarge | DecErr go_error | DecValue json

definition normalize_decode :: "decode_step \<Rightarrow> go_error" where
  "normalize_decode d =
     (case d of DecTooLarge \<Rightarrow> errRequestBodyTooLarge | DecErr e \<Rightarrow> e | _ \<Rightarrow> ErrMsg ''EOF'')"

text \<open>The body is what the JSON decoder gives for its first and for its second document.\<close>

definition decodeJSONBody :: "(json \<Rightarrow> 'a result) \<Rightarrow> decode_step \<times> decode_step \<Rightarrow> 'a result" where
  "decodeJSONBody dec body =
     (case fst body of
        DecValue j \<Rightarrow>
          (case dec j of
             Inl e \<Rightarrow> Inl e
           | Inr x \<Rightarrow>
               (case snd body of
                  DecEOF \<Rightarrow> Inr x
                | DecValue extra \<Rightarrow> Inl (ErrMsg ''request body must contain exactly one JSON object'')
                | d \<Rightarrow> Inl (normalize_decode d)))
      | d \<Rightarrow> Inl (normalize_decode d))"

fun decode_empty :: "json \<Rightarrow> unit result" where
  "decode_empty (JObject []) = Inr ()"
| "decode_empty (JObject ((key, value) # kvs)) = Inl (ErrMsg (''json: unknown field '' @ quoted key))"
| "decode_empty JNull = Inr ()"
| "decode_empty j = Inl (ErrMsg (''json: cannot unmarshal '' @ json_kind j @ '' into Go value of type struct {}''))"

datatype http_payload =
    PJob job_view
  | PJobs "job_view list"
  | POperatorError operator_error_payload
  | PError string

type_synonym http_response = "nat \<times> http_payload"

definition writeOperatorError :: "(string \<Rightarrow> string result) \<Rightarrow> nat \<Rightarrow> go_error \<Rightarrow> http_response" where
  "writeOperatorError san status err =
     (case asOperatorError (Some err) of
        Some opErr \<Rightarrow> (status, POperatorError (payload san (Some opErr)))
      | None \<Rightarrow> (status, PError (err_Error err)))"

definition writeDecodeJSONError :: "(string \<Rightarrow> string result) \<Rightarrow> go_error \<Rightarrow> http_response" where
  "writeDecodeJSONError san err =
     (if err = errRequestBodyTooLarge then writeOperatorError san 413 (ErrOperator (classifyDecodeJSONError err))
      else writeOperatorError san 400 (ErrOperator (classifyDecodeJSONError err)))"

section \<open>Handlers\<close>

definition startJob :: "resolved_database_plan list \<Rightarrow> nat \<Rightarrow> service \<Rightarrow> service \<times> job" where
  "startJob plan now s =
     (let n = Suc (svCounter s); j = newJob (job_id n) plan now n
      in (s\<lparr>svCounter := n, svStore := store_add j (svStore s),
            svRunners := svRunners s @ [\<lparr>rnJobID = job_id n, rnCtx = n, rnPlans = plan, rnPhase = AtHead\<rparr>]\<rparr>, j))"

definition handlePostJobs ::
  "os_env \<Rightarrow> (string \<Rightarrow> string result) \<Rightarrow> decode_step \<times> decode_step \<Rightarrow> nat \<Rightarrow> service \<Rightarrow> service \<times> http_response" where
  "handlePostJobs os san body now s =
     (case decodeJSONBody decode_JobRequest body of
        Inl err \<Rightarrow> (s, writeDecodeJSONError san err)
      | Inr jobRequest \<Rightarrow>
          (case Compile jobRequest of
             Inl err \<Rightarrow> (s, writeOperatorError san 400 err)
           | Inr normalizedRequest \<Rightarrow>
               (case Resolve os (svVerifyConfig s) normalizedRequest of
                  Inl err \<Rightarrow> (s, writeOperatorError san 400 err)
                | Inr jobPlan \<Rightarrow>
                    (case startJob jobPlan now s of (s', j) \<Rightarrow> (s', (202, PJob (job_response san j)))))))"

definition handleGetJobs :: "(string \<Rightarrow> string result) \<Rightarrow> service \<Rightarrow> http_response" where
  "handleGetJobs san s = (200, PJobs (store_list san (svStore s)))"

definition handleGetJob :: "(string \<Rightarrow> string result) \<Rightarrow> string \<Rightarrow> service \<Rightarrow> http_response" where
  "handleGetJob san jobID s =
     (case store_get san jobID (svStore s) of
        None \<Rightarrow> writeOperatorError san 404 (ErrOperator errJobNotFound)
      | Some v \<Rightarrow> (200, PJob v))"

text \<open>The cancel function is called after the store's mutex is released: it is left pending.\<close>

definition handlePostJobStop ::
  "(string \<Rightarrow> string result) \<Rightarrow> string \<Rightarrow> decode_step \<times> decode_step \<Rightarrow> service \<Rightarrow> service \<times> http_response" where
  "handlePostJobStop san jobID body s =
     (case decodeJSONBody decode_empty body of
        Inl err \<Rightarrow> (s, writeDecodeJSONError san err)
      | Inr u \<Rightarrow>
          (case store_stop san jobID (svStore s) of
             (st, Inl err) \<Rightarrow>
               (if err = ErrOperator errJobNotFound then (s\<lparr>svStore := st\<rparr>, writeOperatorError san 404 err)
                else (s\<lparr>svStore := st\<rparr>, (500, PError (err_Error err))))
           | (st, Inr (v, cancel)) \<Rightarrow> (s\<lparr>svStore := st, svPending := svPending s @ [cancel]\<rparr>, (200, PJob v))))"

definition service_Close :: "service \<Rightarrow> service" where
  "service_Close s = s\<lparr>svPending := svPending s @ activeCancels (svStore s)\<rparr>"

definition call_cancel :: "nat \<Rightarrow> service \<Rightarrow> service" where
  "call_cancel ctx s = s\<lparr>svCancelled := (svCancelled s)(ctx := True), svPending := remove1 ctx (svPending s)\<rparr>"

section \<open>The goroutine of a job\<close>

abbreviation plan_name :: "resolved_database_plan \<Rightarrow> string" where
  "plan_name p \<equiv> rdName (rpDatabase p)"

definition run_head :: "bool \<Rightarrow> nat \<Rightarrow> job_runner \<Rightarrow> job_store \<Rightarrow> job_runner \<times> job_store" where
  "run_head cancelled now r st =
     (case rnPlans r of
        [] \<Rightarrow> (r\<lparr>rnPhase := Returned\<rparr>, finishJob (rnJobID r) now st)
      | p # ps \<Rightarrow>
          (if cancelled then (r\<lparr>rnPhase := Returned\<rparr>, stopJob (rnJobID r) now st)
           else case RunRequest p of
             Inl err \<Rightarrow>
               (r\<lparr>rnPlans := ps\<rparr>, failDatabase (rnJobID r) (plan_name p) now (classifyRunFailure err) st)
           | Inr runRequest \<Rightarrow> (r\<lparr>rnPhase := InRun\<rparr>, st)))"

definition run_return :: "nat \<Rightarrow> go_error option \<Rightarrow> job_runner \<Rightarrow> job_store \<Rightarrow> job_runner \<times> job_store" where
  "run_return now err r st =
     (let name = plan_name (hd (rnPlans r)); next = r\<lparr>rnPlans := tl (rnPlans r), rnPhase := AtHead\<rparr>
      in case err of
           Some e \<Rightarrow>
             (if errors_Is_canceled e then (r\<lparr>rnPhase := Returned\<rparr>, stopJob (rnJobID r) now st)
              else (next, failDatabase (rnJobID r) name now (classifyRunFailure e) st))
         | None \<Rightarrow> (next, fst (completeDatabase (rnJobID r) name now st)))"

definition run_report :: "'d datum_ops \<Rightarrow> 'd report \<Rightarrow> job_runner \<Rightarrow> job_store \<Rightarrow> job_store" where
  "run_report D obj r st = store_recordReport D (rnJobID r) (plan_name (hd (rnPlans r))) obj st"

definition head_at :: "nat \<Rightarrow> nat \<Rightarrow> service \<Rightarrow> service" where
  "head_at i now s =
     (case run_head (svCancelled s (rnCtx (svRunners s ! i))) now (svRunners s ! i) (svStore s) of
        (r', st) \<Rightarrow> s\<lparr>svRunners := (svRunners s)[i := r'], svStore := st\<rparr>)"

definition return_at :: "nat \<Rightarrow> nat \<Rightarrow> go_error option \<Rightarrow> service \<Rightarrow> service" where
  "return_at i now err s =
     (case run_return now err (svRunners s ! i) (svStore s) of
        (r', st) \<Rightarrow> s\<lparr>svRunners := (svRunners s)[i := r'], svStore := st\<rparr>)"

definition report_at :: "'d datum_ops \<Rightarrow> nat \<Rightarrow> 'd report \<Rightarrow> service \<Rightarrow> service" where
  "report_at D i obj s = s\<lparr>svStore := run_report D obj (svRunners s ! i) (svStore s)\<rparr>"

definition NewService :: "verify_config \<Rightarrow> service" where
  "NewService cfg = \<lparr>svVerifyConfig = cfg, svCounter = 0, svStore = newJobStore, svCancelled = (\<lambda>c. False),
     svRunners = [], svPending = []\<rparr>"

inductive service_step :: "'d datum_ops \<Rightarrow> service \<Rightarrow> service \<Rightarrow> bool" for D where
  post: "service_step D s (fst (handlePostJobs os san body now s))"
| stop: "service_step D s (fst (handlePostJobStop san jobID body s))"
| close: "service_step D s (service_Close s)"
| cancel: "ctx \<in> set (svPending s) \<Longrightarrow> service_step D s (call_cancel ctx s)"
| head: "i < length (svRunners s) \<Longrightarrow> rnPhase (svRunners s ! i) = AtHead \<Longrightarrow> service_step D s (head_at i now s)"
| report: "i < length (svRunners s) \<Longrightarrow> rnPhase (svRunners s ! i) = InRun \<Longrightarrow> service_step D s (report_at D i obj s)"
| return: "i < length (svRunners s) \<Longrightarrow> rnPhase (svRunners s ! i) = InRun \<Longrightarrow> service_step D s (return_at i now err s)"

abbreviation service_run :: "'d datum_ops \<Rightarrow> service \<Rightarrow> service \<Rightarrow> bool" where
  "service_run D \<equiv> (service_step D)\<^sup>*\<^sup>*"

section \<open>Identifiers are never reused\<close>

lemma foldl_zeros: "foldl (\<lambda>a c. 10 * a + (of_char c - 48)) (0 :: nat) (replicate k (CHR ''0'') @ xs) =
    foldl (\<lambda>a c. 10 * a + (of_char c - 48)) 0 xs"
  by (induction k) auto

lemma job_id_inj [simp]: "job_id m = job_id n \<longleftrightarrow> m = n"
proof
  assume "job_id m = job_id n"
  then have "replicate (6 - length (Itoa m)) (CHR ''0'') @ Itoa m = replicate (6 - length (Itoa n)) (CHR ''0'') @ Itoa n"
    by (simp add: job_id_def)
  then show "m = n" by (metis foldl_zeros Itoa_value)
qed simp

end
