(* ===== verification/Service_Invariant.thy ===== *)
theory Service_Invariant
  imports Service
begin

text \<open>
  The invariant of the service: every job has one goroutine, in the order of the store, and the two
  agree on what is left to do. It is kept by every step of \<open>service_step\<close>.
\<close>

abbreviation live :: "database_job \<Rightarrow> bool" where
  "live d \<equiv> djStatus d = Running \<or> djStatus d = Stopping"

text \<open>A goroutine and its job: the databases before the ones still planned are in a final state; until
  the goroutine has returned, the planned ones are live and the job is open; afterwards nothing is live
  and the job is closed.\<close>

definition runner_ok :: "job_runner \<Rightarrow> job \<Rightarrow> bool" where
  "runner_ok r j \<longleftrightarrow>
     jbId j = rnJobID r \<and> distinct (map djName (jbDatabases j)) \<and>
     (rnPhase r = InRun \<longrightarrow> rnPlans r \<noteq> []) \<and>
     (if rnPhase r = Returned
      then (\<forall>d \<in> set (jbDatabases j). \<not> live d) \<and> jbFinishedAt j \<noteq> None \<and> jbCancel j = None
      else jbFinishedAt j = None \<and> jbCancel j = Some (rnCtx r) \<and>
        (\<exists>past todo. jbDatabases j = past @ todo \<and> map djName todo = map plan_name (rnPlans r) \<and>
           (\<forall>d \<in> set past. \<not> live d) \<and> (\<forall>d \<in> set todo. live d)))"

lemma runner_ok_open:
  assumes "runner_ok r j" "rnPhase r \<noteq> Returned"
  obtains past todo where "jbDatabases j = past @ todo" "map djName todo = map plan_name (rnPlans r)"
    "\<forall>d \<in> set past. \<not> live d" "\<forall>d \<in> set todo. live d"
  using assms by (auto simp: runner_ok_def)

section \<open>Each action of a goroutine\<close>

text \<open>A database leaves the plan: it is set to a final state and the goroutine moves on.\<close>

lemma runner_ok_next:
  assumes "runner_ok r j" "rnPhase r \<noteq> Returned" "rnPlans r = p # ps"
    and "\<And>d. djName (f d) = djName d" "\<And>d. \<not> live (f d)"
  shows "runner_ok (r\<lparr>rnPlans := ps, rnPhase := AtHead\<rparr>) (update_database (plan_name p) f j)"
proof -
  obtain past todo where dt: "jbDatabases j = past @ todo" "map djName todo = map plan_name (rnPlans r)"
    "\<forall>d \<in> set past. \<not> live d" "\<forall>d \<in> set todo. live d"
    by (rule runner_ok_open [OF assms(1,2)])
  obtain d ds where todo: "todo = d # ds" "djName d = plan_name p" "map djName ds = map plan_name ps"
    using dt(2) assms(3) by (cases todo) auto
  have dist: "distinct (map djName (jbDatabases j))" using assms(1) by (simp add: runner_ok_def)
  have other: "djName x \<noteq> plan_name p" if "x \<in> set past \<or> x \<in> set ds" for x
  proof -
    have "plan_name p \<notin> djName ` (set past \<union> set ds)" using dist todo(1,2) dt(1) by auto
    then show ?thesis using that by (metis UnI1 UnI2 imageI)
  qed
  have "update_named (plan_name p) f (jbDatabases j) = past @ f d # ds"
  proof -
    have "map (\<lambda>d. if djName d = plan_name p then f d else d) past = past"
      "map (\<lambda>d. if djName d = plan_name p then f d else d) ds = ds"
      using other by (auto intro!: map_idI)
    then show ?thesis using update_named_distinct [OF dist] dt(1) todo by simp
  qed
  moreover have "(\<exists>past' todo'. past @ f d # ds = past' @ todo' \<and> map djName todo' = map plan_name ps \<and>
      (\<forall>d \<in> set past'. \<not> live d) \<and> (\<forall>d \<in> set todo'. live d))"
    using dt todo assms(5) by (intro exI [of _ "past @ [f d]"] exI [of _ ds]) auto
  ultimately show ?thesis
    using assms(1,2,4) dist dt(1) todo by (simp add: runner_ok_def update_database_def)
qed

text \<open>Steps that keep the plan: a report, or a stop request.\<close>

lemma runner_ok_keep:
  assumes "runner_ok r j" "rnPhase r \<noteq> Returned"
    and "jbId j' = jbId j" "jbFinishedAt j' = jbFinishedAt j" "jbCancel j' = jbCancel j"
    and "jbDatabases j' = map g (jbDatabases j)" "\<And>d. djName (g d) = djName d" "\<And>d. live (g d) = live d"
  shows "runner_ok r j'"
proof -
  obtain past todo where dt: "jbDatabases j = past @ todo" "map djName todo = map plan_name (rnPlans r)"
    "\<forall>d \<in> set past. \<not> live d" "\<forall>d \<in> set todo. live d"
    by (rule runner_ok_open [OF assms(1,2)])
  have names: "map djName (map g ds) = map djName ds" for ds using assms(7) by simp
  have "jbDatabases j' = map g past @ map g todo" using assms(6) dt(1) by simp
  moreover have "map djName (map g todo) = map plan_name (rnPlans r)" using dt(2) names by (simp only:)
  moreover have "\<forall>d \<in> set (map g past). \<not> live d" "\<forall>d \<in> set (map g todo). live d" using dt(3,4) assms(8) by auto
  ultimately have "\<exists>past todo. jbDatabases j' = past @ todo \<and> map djName todo = map plan_name (rnPlans r) \<and>
      (\<forall>d \<in> set past. \<not> live d) \<and> (\<forall>d \<in> set todo. live d)" by blast
  moreover have "distinct (map djName (jbDatabases j'))"
    using assms(1,6) names by (simp add: runner_ok_def del: map_map)
  ultimately show ?thesis using assms(1-5) by (simp add: runner_ok_def)
qed

lemma runner_ok_stopping:
  assumes "runner_ok r j"
  shows "runner_ok r (if job_active j \<and> jbCancel j \<noteq> None then job_markStopping j else j)"
proof (cases "job_active j \<and> jbCancel j \<noteq> None")
  case True
  then have "rnPhase r \<noteq> Returned" using assms by (auto simp: runner_ok_def)
  moreover have "live (markStopping d) = live d" for d by (auto simp: markStopping_def)
  ultimately have "runner_ok r (job_markStopping j)"
    by (intro runner_ok_keep [OF assms, of _ markStopping]) (simp_all add: job_markStopping_def)
  then show ?thesis using True by simp
qed (use assms in auto)

lemma runner_ok_report:
  assumes "runner_ok r j" "rnPhase r \<noteq> Returned"
  shows "runner_ok r (update_database n (database_recordReport D obj) j)"
proof -
  have "distinct (map djName (jbDatabases j))" using assms(1) by (simp add: runner_ok_def)
  from update_named_distinct [OF this] show ?thesis
    by (intro runner_ok_keep [OF assms, of _ "\<lambda>d. if djName d = n then database_recordReport D obj d else d"])
      (auto simp: update_database_def status_after)
qed

lemma runner_ok_stopped:
  assumes "runner_ok r j" "rnPhase r \<noteq> Returned"
  shows "runner_ok (r\<lparr>rnPhase := Returned\<rparr>) (job_stop now j)"
  using assms status_after(4) by (auto simp: runner_ok_def job_stop_def job_finish_def o_def)

lemma runner_ok_finished:
  assumes "runner_ok r j" "rnPhase r \<noteq> Returned" "rnPlans r = []"
  shows "runner_ok (r\<lparr>rnPhase := Returned\<rparr>) (job_finish now j)"
  using assms by (auto simp: runner_ok_def job_finish_def)

section \<open>The invariant\<close>

definition svc_inv :: "service \<Rightarrow> bool" where
  "svc_inv s \<longleftrightarrow>
     linked jsJobs jsOrder rnJobID runner_ok (svRunners s) (svStore s) \<and>
     map rnJobID (svRunners s) = map (\<lambda>k. job_id (Suc k)) [0..<svCounter s] \<and>
     map rnCtx (svRunners s) = map Suc [0..<svCounter s] \<and>
     distinct (map dmName (vcDatabases (svVerifyConfig s)))"

lemma svc_inv_new [inv_intros]: "distinct (map dmName (vcDatabases cfg)) \<Longrightarrow> svc_inv (NewService cfg)"
  by (simp add: svc_inv_def NewService_def linked_def newJobStore_def)

text \<open>The databases of a plan have distinct names: they are among the configured ones.\<close>

lemma resolve_from_names: "resolve_from os cfg i ds = Inr ps \<Longrightarrow> map rdName ps = map dmName ds"
  by (induction os cfg i ds arbitrary: ps rule: resolve_from.induct)
    (auto simp: resolveDatabaseAt_def split: sum.splits)

lemma resolve_pairs_names:
  "resolve_pairs sels pairs = Inr plans \<Longrightarrow>
   set (map plan_name plans) \<subseteq> set (map rdName pairs) \<and>
   (distinct (map rdName pairs) \<longrightarrow> distinct (map plan_name plans))"
proof (induction pairs arbitrary: plans)
  case (Cons pair pairs)
  then obtain x y rest where *: "merge_selections sels (rdName pair) ([], []) = Inr (x, y)"
    "resolve_pairs sels pairs = Inr rest" by (auto split: sum.splits if_splits)
  then have "plans = rest \<or> (\<exists>p. plans = p # rest \<and> rpDatabase p = pair)"
    using Cons.prems by (auto split: if_splits)
  then show ?case using Cons.IH [OF *(2)] by (elim disjE exE conjE) (auto simp: subset_eq)
qed simp

lemma Resolve_distinct:
  "Resolve os cfg sels = Inr plans \<Longrightarrow> distinct (map dmName (vcDatabases cfg)) \<Longrightarrow> distinct (map plan_name plans)"
  using resolve_pairs_names resolve_from_names
  by (fastforce simp: Resolve_def ResolveAllDatabases_def split: sum.splits if_splits)

lemma runner_ok_new:
  "distinct (map plan_name plan) \<Longrightarrow>
   runner_ok \<lparr>rnJobID = i, rnCtx = c, rnPlans = plan, rnPhase = AtHead\<rparr> (newJob i plan now c)"
  by (auto simp: runner_ok_def newJob_def newDatabaseJob_def o_def intro: exI [of _ "[]"])

lemma svc_inv_start [inv_intros]:
  assumes "svc_inv s" "distinct (map plan_name plan)"
  shows "svc_inv (fst (startJob plan now s))"
proof -
  let ?n = "Suc (svCounter s)" and ?j = "newJob (job_id (Suc (svCounter s))) plan now (Suc (svCounter s))"
  have link: "linked jsJobs jsOrder rnJobID runner_ok (svRunners s) (svStore s)" using assms(1) by (simp add: svc_inv_def)
  have "jsOrder (svStore s) = map (\<lambda>k. job_id (Suc k)) [0..<svCounter s]"
    using assms(1) unfolding svc_inv_def linked_def by metis
  then have "dom (jsJobs (svStore s)) = set (map (\<lambda>k. job_id (Suc k)) [0..<svCounter s])" using link by (simp add: linked_def)
  moreover have "job_id ?n \<notin> set (map (\<lambda>k. job_id (Suc k)) [0..<svCounter s])" by auto
  ultimately have "jsJobs (svStore s) (job_id ?n) = None" by blast
  then have "linked jsJobs jsOrder rnJobID runner_ok
      (svRunners s @ [\<lparr>rnJobID = job_id ?n, rnCtx = ?n, rnPlans = plan, rnPhase = AtHead\<rparr>]) (store_add ?j (svStore s))"
    using runner_ok_new [OF assms(2)] by (intro store.linked_add [OF link]) (simp_all add: newJob_def)
  then show ?thesis using assms(1) by (simp add: svc_inv_def startJob_def Let_def)
qed

lemma svc_inv_post [inv_intros]: "svc_inv s \<Longrightarrow> svc_inv (fst (handlePostJobs os san body now s))"
  using svc_inv_start [of s] Resolve_distinct [of os "svVerifyConfig s"]
  by (auto simp: handlePostJobs_def svc_inv_def [of s] split: sum.splits prod.splits) (metis fst_conv)+

lemma svc_inv_stop [inv_intros]: "svc_inv s \<Longrightarrow> svc_inv (fst (handlePostJobStop san i body s))"
proof -
  assume inv: "svc_inv s"
  have "linked jsJobs jsOrder rnJobID runner_ok (svRunners s) (fst (store_stop san i (svStore s)))"
    unfolding store_stop_update using inv runner_ok_stopping
    by (intro store.linked_upd_all) (auto simp: svc_inv_def)
  then show ?thesis using inv
    by (auto simp: handlePostJobStop_def svc_inv_def split: sum.splits prod.splits)
qed

lemma svc_inv_runner:
  assumes "svc_inv s" "i < length (svRunners s)" "rnJobID r' = rnJobID (svRunners s ! i)" "rnCtx r' = rnCtx (svRunners s ! i)"
    "\<And>j. runner_ok (svRunners s ! i) j \<Longrightarrow> runner_ok r' (f j)"
  shows "svc_inv (s\<lparr>svRunners := (svRunners s)[i := r'], svStore := update_job (rnJobID (svRunners s ! i)) f (svStore s)\<rparr>)"
proof -
  have "map rnJobID ((svRunners s)[i := r']) = map rnJobID (svRunners s)" "map rnCtx ((svRunners s)[i := r']) = map rnCtx (svRunners s)"
    using assms(2,3,4) by (simp_all add: map_update) (metis list_update_id map_update)+
  moreover have "linked jsJobs jsOrder rnJobID runner_ok ((svRunners s)[i := r'])
      (update_job (rnJobID (svRunners s ! i)) f (svStore s))"
    using assms by (intro store.linked_upd) (auto simp: svc_inv_def)
  ultimately show ?thesis using assms(1) by (simp add: svc_inv_def)
qed

lemma svc_inv_idle:
  assumes "svc_inv s" "i < length (svRunners s)" "rnJobID r' = rnJobID (svRunners s ! i)" "rnCtx r' = rnCtx (svRunners s ! i)"
    "\<And>j. runner_ok (svRunners s ! i) j \<Longrightarrow> runner_ok r' j"
  shows "svc_inv (s\<lparr>svRunners := (svRunners s)[i := r']\<rparr>)"
proof -
  have "update_job k (\<lambda>j. j) st = st" for k st by (simp add: update_job_def fun_upd_idem split: option.splits)
  then show ?thesis using svc_inv_runner [OF assms(1-4), of "\<lambda>j. j"] assms(5) by simp
qed

lemma svc_inv_head [inv_intros]:
  assumes "svc_inv s" "i < length (svRunners s)" "rnPhase (svRunners s ! i) = AtHead"
  shows "svc_inv (head_at i now s)"
proof -
  let ?r = "svRunners s ! i"
  have ph: "rnPhase ?r \<noteq> Returned" using assms(3) by simp
  show ?thesis
  proof (cases "rnPlans ?r")
    case Nil
    then show ?thesis using runner_ok_finished [OF _ ph]
      by (auto simp: head_at_def run_head_def finishJob_def intro!: svc_inv_runner [OF assms(1,2)])
  next
    case (Cons p ps)
    show ?thesis
    proof (cases "svCancelled s (rnCtx ?r)")
      case True
      then show ?thesis using Cons runner_ok_stopped [OF _ ph]
        by (auto simp: head_at_def run_head_def stopJob_def intro!: svc_inv_runner [OF assms(1,2)])
    next
      case False
      show ?thesis
      proof (cases "RunRequest p")
        case (Inl e)
        have r: "?r\<lparr>rnPlans := ps, rnPhase := AtHead\<rparr> = ?r\<lparr>rnPlans := ps\<rparr>" using assms(3) by (cases ?r) simp
        have "runner_ok (?r\<lparr>rnPlans := ps\<rparr>) (update_database (plan_name p) (database_fail now err) j)"
          if "runner_ok ?r j" for j err
          using runner_ok_next [OF that ph Cons, of "database_fail now err"] r status_after(2) [of now err] by simp
        then show ?thesis using Cons False Inl
          by (auto simp: head_at_def run_head_def failDatabase_def intro!: svc_inv_runner [OF assms(1,2)])
      next
        case (Inr rr)
        have "runner_ok (?r\<lparr>rnPhase := InRun\<rparr>) j" if "runner_ok ?r j" for j
          using that Cons assms(3) by (simp add: runner_ok_def)
        from svc_inv_idle [OF assms(1,2) _ _ this] show ?thesis using Cons False Inr
          by (simp add: head_at_def run_head_def)
      qed
    qed
  qed
qed

lemma svc_inv_return [inv_intros]:
  assumes "svc_inv s" "i < length (svRunners s)" "rnPhase (svRunners s ! i) = InRun"
  shows "svc_inv (return_at i now err s)"
proof -
  let ?r = "svRunners s ! i"
  have ph: "rnPhase ?r \<noteq> Returned" using assms(3) by simp
  have plans: "rnPlans ?r = hd (rnPlans ?r) # tl (rnPlans ?r)"
  proof -
    obtain j where "runner_ok ?r j" using assms(1,2) store.linked_nth unfolding svc_inv_def by metis
    then show ?thesis using assms(3) by (simp add: runner_ok_def)
  qed
  show ?thesis
  proof (cases err)
    case None
    have completed: "\<not> live (fst (database_complete now d))" for d using status_after(3) [of now d] by auto
    have "runner_ok (?r\<lparr>rnPlans := tl (rnPlans ?r), rnPhase := AtHead\<rparr>)
        (update_database (plan_name (hd (rnPlans ?r))) (\<lambda>d. fst (database_complete now d)) j)" if "runner_ok ?r j" for j
      using completed by (intro runner_ok_next [OF that ph plans]) simp_all
    then show ?thesis using None
      by (auto simp: return_at_def run_return_def Let_def completeDatabase_update intro!: svc_inv_runner [OF assms(1,2)])
  next
    case (Some e)
    have "runner_ok (?r\<lparr>rnPlans := tl (rnPlans ?r), rnPhase := AtHead\<rparr>)
        (update_database (plan_name (hd (rnPlans ?r))) (database_fail now e) j)" if "runner_ok ?r j" for j e
      using runner_ok_next [OF that ph plans, of "database_fail now e"] status_after(2) [of now e] by simp
    then show ?thesis using Some runner_ok_stopped [OF _ ph]
      by (auto simp: return_at_def run_return_def Let_def failDatabase_def stopJob_def intro!: svc_inv_runner [OF assms(1,2)])
  qed
qed

lemma svc_inv_report [inv_intros]:
  assumes "svc_inv s" "i < length (svRunners s)" "rnPhase (svRunners s ! i) = InRun"
  shows "svc_inv (report_at D i obj s)"
proof -
  let ?r = "svRunners s ! i"
  have "runner_ok ?r (update_database n (database_recordReport D obj) j)" if "runner_ok ?r j" for j n
    using runner_ok_report [OF that] assms(3) by simp
  from svc_inv_runner [OF assms(1,2) refl refl this] show ?thesis
    by (simp add: report_at_def run_report_def store_recordReport_def)
qed

lemma svc_inv_step: "service_step D s s' \<Longrightarrow> svc_inv s \<Longrightarrow> svc_inv s'"
proof (induction rule: service_step.induct)
  case (close s)
  then show ?case by (simp add: service_Close_def svc_inv_def)
next
  case (cancel ctx s)
  then show ?case by (simp add: call_cancel_def svc_inv_def)
qed (auto intro: inv_intros)

lemma svc_inv_run: "service_run D s s' \<Longrightarrow> svc_inv s \<Longrightarrow> svc_inv s'"
  by (induction rule: rtranclp_induct) (auto intro: svc_inv_step)

end
