(* ===== verification/Service_Properties.thy ===== *)
theory Service_Properties
  imports Service_Invariant Request_Properties
begin

text \<open>
  What holds of the service in every reachable state, whatever requests arrive, however the job
  goroutines interleave and whatever the runner reports and returns.
\<close>

section \<open>Reachable states\<close>

lemma reachable_inv:
  "distinct (map dmName (vcDatabases cfg)) \<Longrightarrow> service_run D (NewService cfg) s \<Longrightarrow> svc_inv s"
  using svc_inv_run svc_inv_new by blast

lemma svc_inv_ids: "svc_inv s \<Longrightarrow> jsOrder (svStore s) = map (\<lambda>k. job_id (Suc k)) [0..<svCounter s]"
  unfolding svc_inv_def linked_def by metis

lemma svc_inv_store_ok: "svc_inv s \<Longrightarrow> store_ok (svStore s)"
proof -
  assume inv: "svc_inv s"
  then have l: "linked jsJobs jsOrder rnJobID runner_ok (svRunners s) (svStore s)" by (simp add: svc_inv_def)
  have "jbId j = k" if "jsJobs (svStore s) k = Some j" for k j
    by (rule store.linked_look [OF l that]) (simp add: runner_ok_def)
  then show ?thesis using l by (auto simp: store_ok_def linked_def)
qed

lemma svc_inv_job:
  assumes "svc_inv s" "jsJobs (svStore s) k = Some j"
  obtains i where "i < length (svRunners s)" "rnJobID (svRunners s ! i) = k" "runner_ok (svRunners s ! i) j"
  using assms store.linked_look unfolding svc_inv_def by metis

lemma svc_inv_runner_job:
  assumes "svc_inv s" "i < length (svRunners s)"
  obtains j where "jsJobs (svStore s) (rnJobID (svRunners s ! i)) = Some j" "runner_ok (svRunners s ! i) j"
  using assms store.linked_nth unfolding svc_inv_def by metis

lemma svc_inv_runner_inj:
  "svc_inv s \<Longrightarrow> i < length (svRunners s) \<Longrightarrow> k < length (svRunners s) \<Longrightarrow>
   rnJobID (svRunners s ! i) = rnJobID (svRunners s ! k) \<Longrightarrow> i = k"
  unfolding svc_inv_def linked_def by (metis length_map nth_eq_iff_index_eq nth_map)

lemma runner_ok_finished_iff: "runner_ok r j \<Longrightarrow> rnPhase r = Returned \<longleftrightarrow> jbFinishedAt j \<noteq> None"
  by (auto simp: runner_ok_def split: if_splits)

lemma runner_ok_active: "runner_ok r j \<Longrightarrow> rnPhase r = Returned \<Longrightarrow> \<not> job_active j"
  by (auto simp: runner_ok_def job_active_iff)

lemma runner_ok_cancel: "runner_ok r j \<Longrightarrow> jbCancel j = (if rnPhase r = Returned then None else Some (rnCtx r))"
  by (simp add: runner_ok_def)

section \<open>An execution\<close>

text \<open>A job for the database \<open>orders\<close> is accepted, its goroutine calls \<open>Run\<close>, which returns, and the
  goroutine ends.\<close>

definition demo_body :: "decode_step \<times> decode_step" where
  "demo_body = (DecValue (JObject [(''databases'', JArray [JString ''orders''])]), DecEOF)"

definition demo_conn :: resolved_connection where
  "demo_conn = \<lparr>rcHost = ''db'', rcPort = 5432, rcDatabase = ''app'', rcUsername = ''ops'', rcPassword = [],
     rcSSLMode = ''disable'', rcTLS = \<lparr>dtCACertPath = [], dtClientCertPath = [], dtClientKeyPath = []\<rparr>\<rparr>"

definition demo_plan :: resolved_database_plan where
  "demo_plan = \<lparr>rpDatabase = \<lparr>rdName = ''orders'', rdSource = demo_conn, rdDestination = demo_conn\<rparr>,
     rpSchemaGlobs = [''*''], rpTableGlobs = [''*''], rpInitialSchemas = []\<rparr>"

definition demo_selection :: normalized_selection where
  "demo_selection = \<lparr>nsDatabaseMatch = ''orders'', nsSchemaGlobs = [''*''], nsTableGlobs = [''*'']\<rparr>"

definition demo_accepted :: service where
  "demo_accepted = fst (startJob [demo_plan] 0 (NewService cfg_example))"

lemma demo_post:
  "svVerifyConfig s = cfg_example \<Longrightarrow>
   fst (handlePostJobs env_example san demo_body now s) = fst (startJob [demo_plan] now s)"
proof -
  have d: "decodeJSONBody decode_JobRequest demo_body =
      Inr \<lparr>jqDefaultSchemaMatch = [], jqDefaultTableMatch = [],
        jqDatabases = [\<lparr>jdDatabaseMatch = ''orders'', jdSchemaMatch = [], jdTableMatch = []\<rparr>]\<rparr>" by code_simp
  have c: "Compile \<lparr>jqDefaultSchemaMatch = [], jqDefaultTableMatch = [],
        jqDatabases = [\<lparr>jdDatabaseMatch = ''orders'', jdSchemaMatch = [], jdTableMatch = []\<rparr>]\<rparr> = Inr [demo_selection]"
    by code_simp
  have "Resolve env_example cfg_example [demo_selection] = Inr [demo_plan]" by code_simp
  moreover assume "svVerifyConfig s = cfg_example"
  ultimately show ?thesis by (simp add: handlePostJobs_def d c split: prod.splits)
qed

definition demo_running :: service where
  "demo_running = head_at 0 1 demo_accepted"

definition demo_returned :: service where
  "demo_returned = return_at 0 2 None demo_running"

definition demo_finished :: service where
  "demo_finished = head_at 0 3 demo_returned"

lemma demo_phases:
  "length (svRunners demo_accepted) = 1" "rnPhase (svRunners demo_accepted ! 0) = AtHead"
  "length (svRunners demo_running) = 1" "rnPhase (svRunners demo_running ! 0) = InRun"
  "length (svRunners demo_returned) = 1" "rnPhase (svRunners demo_returned ! 0) = AtHead"
  by code_simp+

lemma demo_reachable:
  "service_run D (NewService cfg_example) demo_accepted"
  "service_run D (NewService cfg_example) demo_running"
  "service_run D (NewService cfg_example) demo_finished"
proof -
  show a: "service_run D (NewService cfg_example) demo_accepted"
    unfolding demo_accepted_def
    using service_step.post [of D "NewService cfg_example" env_example Inr demo_body 0]
    by (simp add: demo_post NewService_def)
  show b: "service_run D (NewService cfg_example) demo_running"
    unfolding demo_running_def by (rule rtranclp.rtrancl_into_rtrancl [OF a], rule service_step.head) (simp_all add: demo_phases)
  have c: "service_run D (NewService cfg_example) demo_returned"
    unfolding demo_returned_def by (rule rtranclp.rtrancl_into_rtrancl [OF b], rule service_step.return) (simp_all add: demo_phases)
  show "service_run D (NewService cfg_example) demo_finished"
    unfolding demo_finished_def by (rule rtranclp.rtrancl_into_rtrancl [OF c], rule service_step.head) (simp_all add: demo_phases)
qed

lemma demo_config: "distinct (map dmName (vcDatabases cfg_example))"
  by code_simp

lemma demo_final:
  "map_option (\<lambda>j. (jbFinishedAt j, job_status j)) (jsJobs (svStore demo_finished) (job_id 1)) = Some (Some 3, Succeeded)"
  by code_simp

section \<open>The life of a job\<close>

text \<open>C7: the state of a job that is in the store. In every reachable state the store lists each of its jobs
  once, under its own id, which is that of an accepted request; a job is finished exactly when its
  cancel function is gone, and then none of its databases is running or stopping; an active job is
  unfinished and can be cancelled. Nothing is said of how long a job stays in the store.\<close>

theorem job_lifecycle:
  assumes "distinct (map dmName (vcDatabases cfg))" and "service_run D (NewService cfg) s"
  shows "distinct (orderedJobIDs (svStore s)) \<and> set (orderedJobIDs (svStore s)) = dom (jsJobs (svStore s)) \<and>
    (\<forall>k j. jsJobs (svStore s) k = Some j \<longrightarrow>
       jbId j = k \<and> (\<exists>n < svCounter s. k = job_id (Suc n)) \<and> (jbFinishedAt j \<noteq> None \<longleftrightarrow> jbCancel j = None) \<and>
       (jbFinishedAt j \<noteq> None \<longrightarrow> \<not> job_active j \<and> (\<forall>d \<in> set (jbDatabases j). \<not> live d)) \<and>
       (job_active j \<longrightarrow> jbFinishedAt j = None \<and> jbCancel j \<noteq> None))"
proof -
  note inv = reachable_inv [OF assms]
  have "jbId j = k \<and> (jbFinishedAt j \<noteq> None \<longleftrightarrow> jbCancel j = None) \<and>
       (jbFinishedAt j \<noteq> None \<longrightarrow> \<not> job_active j \<and> (\<forall>d \<in> set (jbDatabases j). \<not> live d)) \<and>
       (job_active j \<longrightarrow> jbFinishedAt j = None \<and> jbCancel j \<noteq> None)" if j: "jsJobs (svStore s) k = Some j" for k j
  proof (rule svc_inv_job [OF inv j])
    fix i
    assume r: "rnJobID (svRunners s ! i) = k" "runner_ok (svRunners s ! i) j"
    show ?thesis
    proof (cases "rnPhase (svRunners s ! i) = Returned")
      case True
      then show ?thesis using r runner_ok_active [OF r(2)] by (auto simp: runner_ok_def)
    next
      case False
      then show ?thesis using r by (auto simp: runner_ok_def)
    qed
  qed
  moreover have "\<exists>n < svCounter s. k = job_id (Suc n)" if "jsJobs (svStore s) k = Some j" for k j
  proof -
    have "k \<in> set (jsOrder (svStore s))" using that svc_inv_store_ok [OF inv] by (auto simp: store_ok_def)
    then show ?thesis using svc_inv_ids [OF inv] by auto
  qed
  ultimately show ?thesis using svc_inv_store_ok [OF inv] by (simp add: orderedJobIDs_def store_ok_def)
qed

section \<open>A finished job never changes\<close>

lemma update_job_id [simp]: "update_job k (\<lambda>j. j) st = st"
  by (simp add: update_job_def fun_upd_idem split: option.splits)

text \<open>A goroutine changes its own job only, and never the names of its databases.\<close>

definition keeps_names :: "(job \<Rightarrow> job) \<Rightarrow> bool" where
  "keeps_names f \<longleftrightarrow> (\<forall>j. map djName (jbDatabases (f j)) = map djName (jbDatabases j))"

lemma keeps_names_ops [simp]:
  "keeps_names (\<lambda>j. j)" "keeps_names (job_finish now)" "keeps_names (job_stop now)" "keeps_names job_markStopping"
  "(\<And>d. djName (f d) = djName d) \<Longrightarrow> keeps_names (update_database n f)"
  by (simp_all add: keeps_names_def job_finish_def job_stop_def job_markStopping_def update_database_def o_def)

lemma updates_intros:
  "keeps_names f \<Longrightarrow> \<exists>g. keeps_names g \<and> update_job k f st = update_job k g st"
  "\<exists>g. keeps_names g \<and> st = update_job k g st"
  by (auto intro: exI [of _ "\<lambda>j. j"])

lemma head_updates:
  "\<exists>f. keeps_names f \<and> svStore (head_at i now s) = update_job (rnJobID (svRunners s ! i)) f (svStore s)"
  by (auto simp: head_at_def run_head_def finishJob_def stopJob_def failDatabase_def split: list.splits sum.splits
      intro: updates_intros)

lemma return_updates:
  "\<exists>f. keeps_names f \<and> svStore (return_at i now err s) = update_job (rnJobID (svRunners s ! i)) f (svStore s)"
  by (auto simp: return_at_def run_return_def Let_def stopJob_def failDatabase_def completeDatabase_update split: option.splits
      intro: updates_intros)

lemma report_updates:
  "\<exists>f. keeps_names f \<and> svStore (report_at D i obj s) = update_job (rnJobID (svRunners s ! i)) f (svStore s)"
  by (auto simp: report_at_def run_report_def store_recordReport_def intro: updates_intros)

lemma own_update_keeps_finished:
  assumes "svc_inv s" "i < length (svRunners s)" "rnPhase (svRunners s ! i) \<noteq> Returned"
    and "jsJobs (svStore s) k = Some j" "jbFinishedAt j \<noteq> None"
    and "\<exists>f. keeps_names f \<and> st = update_job (rnJobID (svRunners s ! i)) f (svStore s)"
  shows "jsJobs st k = Some j"
proof -
  have "k \<noteq> rnJobID (svRunners s ! i)"
  proof
    assume k: "k = rnJobID (svRunners s ! i)"
    obtain j' where "jsJobs (svStore s) k = Some j'" "runner_ok (svRunners s ! i) j'"
      using svc_inv_runner_job [OF assms(1,2)] k by metis
    then show False using assms(3-5) runner_ok_finished_iff by force
  qed
  then show ?thesis using assms(4,6) by auto
qed

lemma post_keeps:
  assumes "svc_inv s" "jsJobs (svStore s) k = Some j"
  shows "jsJobs (svStore (fst (handlePostJobs os san body now s))) k = Some j"
proof -
  have "k \<in> set (jsOrder (svStore s))" using assms svc_inv_store_ok by (auto simp: store_ok_def)
  then have "k \<noteq> job_id (Suc (svCounter s))" using svc_inv_ids [OF assms(1)] by auto
  then show ?thesis using assms(2)
    by (auto simp: handlePostJobs_def startJob_def store_add_def newJob_def Let_def split: sum.splits)
qed

lemma stop_store: "svStore (fst (handlePostJobStop san k body s)) = svStore s \<or>
    svStore (fst (handlePostJobStop san k body s)) = fst (store_stop san k (svStore s))"
  by (auto simp: handlePostJobStop_def split: sum.splits prod.splits)

lemma finished_no_cancel:
  assumes "svc_inv s" "jsJobs (svStore s) k = Some j" "jbFinishedAt j \<noteq> None"
  shows "jbCancel j = None"
proof (rule svc_inv_job [OF assms(1,2)])
  fix i
  assume "runner_ok (svRunners s ! i) j"
  then show ?thesis using assms(3) runner_ok_cancel runner_ok_finished_iff by simp
qed

lemma step_keeps_finished:
  assumes "service_step D s s'" "svc_inv s" "jsJobs (svStore s) k = Some j" "jbFinishedAt j \<noteq> None"
  shows "jsJobs (svStore s') k = Some j"
  using assms
proof (induction rule: service_step.induct)
  case (post s os san body now)
  then show ?case by (intro post_keeps)
next
  case (stop s san jobID body)
  have "jbCancel j = None" by (rule finished_no_cancel [OF stop])
  then have "jsJobs (fst (store_stop san jobID (svStore s))) k = Some j" using stop(2) by (simp add: jsJobs_stop)
  then show ?case using stop_store [of san jobID body s] stop(2) by (metis (no_types))
next
  case (close s)
  then show ?case by (simp add: service_Close_def)
next
  case (cancel ctx s)
  then show ?case by (simp add: call_cancel_def)
next
  case (head i s now)
  show ?case by (rule own_update_keeps_finished [OF head(3,1) _ head(4,5) head_updates]) (simp add: head(2))
next
  case (report i s obj)
  show ?case by (rule own_update_keeps_finished [OF report(3,1) _ report(4,5) report_updates]) (simp add: report(2))
next
  case (return i s now err)
  show ?case by (rule own_update_keeps_finished [OF return(3,1) _ return(4,5) return_updates]) (simp add: return(2))
qed

text \<open>C8: a finished job is final. Once a job has a finishing time, no later request, goroutine or report
  changes anything of it: whenever the store has a job under its id, that job is the one that
  finished.\<close>

theorem finished_job_frozen:
  assumes "distinct (map dmName (vcDatabases cfg))" and "service_run D (NewService cfg) s"
    and "jsJobs (svStore s) k = Some j" and "jbFinishedAt j \<noteq> None"
    and "service_run D s s'" and "jsJobs (svStore s') k = Some j'"
  shows "j' = j"
proof -
  have "jsJobs (svStore s') k = Some j"
    using assms(5)
  proof (induction rule: rtranclp_induct)
    case base
    show ?case by (rule assms(3))
  next
    case (step s1 s2)
    have "svc_inv s1" using reachable_inv [OF assms(1)] assms(2) step(1) by (meson rtranclp_trans)
    then show ?case using step_keeps_finished [OF step(2)] step(3) assms(4) by blast
  qed
  then show ?thesis using assms(6) by simp
qed

section \<open>Metrics\<close>

text \<open>The metrics add up. The five status counts sum to the number of jobs ever accepted, the
  active-jobs gauge is the number of running and stopping jobs, and at most one goroutine that has not
  returned stands behind each.\<close>

theorem metrics_add_up:
  assumes "distinct (map dmName (vcDatabases cfg))" and "service_run D (NewService cfg) s"
  defines "m \<equiv> metricsStatusSnapshot (svStore s)"
  shows "sum (msStatusCounts m) {Running, Stopping, Succeeded, Failed, Stopped} = svCounter s \<and>
    msActiveJobs m = msStatusCounts m Running + msStatusCounts m Stopping \<and>
    msActiveJobs m \<le> length (filter (\<lambda>r. rnPhase r \<noteq> Returned) (svRunners s))"
proof -
  note inv = reachable_inv [OF assms(1,2)]
  note ok = jobs_in_order_ok [OF svc_inv_store_ok [OF inv]]
  have n: "length (jobs_in_order (svStore s)) = svCounter s" using ok svc_inv_ids [OF inv] by simp
  have l: "linked jsJobs jsOrder rnJobID runner_ok (svRunners s) (svStore s)" using inv by (simp add: svc_inv_def)
  have "jobs_in_order (svStore s) = map (\<lambda>r. the (jsJobs (svStore s) (rnJobID r))) (svRunners s)"
  proof -
    have "List.map_filter f (map g xs) = map (\<lambda>x. the (f (g x))) xs" if "\<forall>x \<in> set xs. f (g x) \<noteq> None"
      for f :: "string \<Rightarrow> job option" and g :: "job_runner \<Rightarrow> string" and xs
      using that by (induction xs) (auto simp: List.map_filter_simps)
    moreover have "jsOrder (svStore s) = map rnJobID (svRunners s)" using l by (simp add: linked_def)
    moreover have "\<forall>r \<in> set (svRunners s). jsJobs (svStore s) (rnJobID r) \<noteq> None" using l by (auto simp: linked_def)
    ultimately show ?thesis by (simp add: jobs_in_order_def)
  qed
  moreover have "length (filter (\<lambda>r. job_active (the (jsJobs (svStore s) (rnJobID r)))) (svRunners s)) \<le>
      length (filter (\<lambda>r. rnPhase r \<noteq> Returned) (svRunners s))"
  proof -
    have "rnPhase r \<noteq> Returned" if "r \<in> set (svRunners s)" "job_active (the (jsJobs (svStore s) (rnJobID r)))" for r
      using that l runner_ok_active unfolding linked_def by fastforce
    then have "filter (\<lambda>r. job_active (the (jsJobs (svStore s) (rnJobID r)))) (svRunners s) =
        filter (\<lambda>r. job_active (the (jsJobs (svStore s) (rnJobID r)))) (filter (\<lambda>r. rnPhase r \<noteq> Returned) (svRunners s))"
      unfolding filter_filter by (intro filter_cong) auto
    then show ?thesis by (metis length_filter_le)
  qed
  ultimately have "msActiveJobs m \<le> length (filter (\<lambda>r. rnPhase r \<noteq> Returned) (svRunners s))"
    by (simp add: m_def metrics_counts filter_map o_def)
  then show ?thesis using status_partition [of "jobs_in_order (svStore s)"] n by (simp add: m_def metrics_counts)
qed

theorem job_lifecycle_witness:
  "distinct (orderedJobIDs (svStore demo_running)) \<and>
   (\<exists>j. jsJobs (svStore demo_running) (job_id 1) = Some j \<and> job_active j \<and> jbFinishedAt j = None \<and> jbCancel j \<noteq> None)"
proof -
  have "case jsJobs (svStore demo_running) (job_id 1) of Some j \<Rightarrow> job_active j | None \<Rightarrow> False" by code_simp
  then obtain j where j: "jsJobs (svStore demo_running) (job_id 1) = Some j" "job_active j" by (auto split: option.splits)
  show ?thesis using job_lifecycle [OF demo_config demo_reachable(2)] j by blast
qed

theorem finished_job_frozen_witness:
  "\<exists>j. jsJobs (svStore demo_finished) (job_id 1) = Some j \<and>
     jsJobs (svStore (fst (handlePostJobs env_example Inr demo_body 4 demo_finished))) (job_id 1) = Some j"
proof -
  let ?s = "fst (handlePostJobs env_example Inr demo_body 4 demo_finished)"
  obtain j where j: "jsJobs (svStore demo_finished) (job_id 1) = Some j" "jbFinishedAt j \<noteq> None"
    using demo_final by auto
  obtain j' where j': "jsJobs (svStore ?s) (job_id 1) = Some j'"
    using post_keeps [OF reachable_inv [OF demo_config demo_reachable(3)] j(1)] by blast
  have "service_run (undefined :: unit datum_ops) demo_finished ?s"
    by (rule r_into_rtranclp) (rule service_step.post)
  from finished_job_frozen [OF demo_config demo_reachable(3) j this j'] show ?thesis using j j' by simp
qed

theorem metrics_add_up_witness:
  "sum (msStatusCounts (metricsStatusSnapshot (svStore demo_finished))) {Running, Stopping, Succeeded, Failed, Stopped} = 1"
proof -
  have "svCounter demo_finished = 1" by code_simp
  then show ?thesis using metrics_add_up [OF demo_config demo_reachable(3)] by simp
qed

section \<open>Stop requests\<close>

lemma markStopping_status: "job_active j \<Longrightarrow> job_status (job_markStopping j) = Stopping"
proof -
  assume "job_active j"
  then obtain d where d: "d \<in> set (jbDatabases j)" "live d" by (auto simp: job_active_iff)
  then have "djStatus (markStopping d) = Stopping" by (auto simp: markStopping_def)
  with d(1) have "Stopping \<in> statuses (job_markStopping j)" by (force simp: job_markStopping_def)
  then show ?thesis by (simp add: job_status_iff)
qed

text \<open>C31: what a stop request does. For a job that is running or stopping it answers 200 with the job shown as
  stopping, marks its running databases and hands the job's own cancel function on; for any other id,
  a finished job included, it answers 404 and changes nothing.\<close>

theorem stop_request_outcome:
  assumes "distinct (map dmName (vcDatabases cfg))" and "service_run D (NewService cfg) s"
    and "decodeJSONBody decode_empty body = Inr ()"
  shows "case jsJobs (svStore s) k of
      None \<Rightarrow> handlePostJobStop san k body s = (s, writeOperatorError san 404 (ErrOperator errJobNotFound))
    | Some j \<Rightarrow>
        (if job_active j
         then \<exists>i < length (svRunners s). rnJobID (svRunners s ! i) = k \<and> rnPhase (svRunners s ! i) \<noteq> Returned \<and>
           handlePostJobStop san k body s =
             (s\<lparr>svStore := update_job k job_markStopping (svStore s), svPending := svPending s @ [rnCtx (svRunners s ! i)]\<rparr>,
              (200, PJob (job_response san (job_markStopping j)))) \<and>
           job_status (job_markStopping j) = Stopping
         else handlePostJobStop san k body s = (s, writeOperatorError san 404 (ErrOperator errJobNotFound)))"
proof (cases "jsJobs (svStore s) k")
  case None
  then show ?thesis using assms(3) by (simp add: handlePostJobStop_def store_stop_def)
next
  case (Some j)
  show ?thesis
  proof (cases "job_active j")
    case True
    obtain i where i: "i < length (svRunners s)" "rnJobID (svRunners s ! i) = k" "runner_ok (svRunners s ! i) j"
      by (rule svc_inv_job [OF reachable_inv [OF assms(1,2)] Some])
    then have "rnPhase (svRunners s ! i) \<noteq> Returned" "jbCancel j = Some (rnCtx (svRunners s ! i))"
      using True runner_ok_active [OF i(3)] runner_ok_cancel [OF i(3)] by auto
    then show ?thesis using i Some True assms(3) markStopping_status [OF True]
      by (auto simp: handlePostJobStop_def store_stop_def update_job_def Let_def)
  next
    case False
    then show ?thesis using Some assms(3) by (simp add: handlePostJobStop_def store_stop_def)
  qed
qed

theorem stop_request_outcome_witness:
  "fst (snd (handlePostJobStop Inr (job_id 1) (DecValue (JObject []), DecEOF) demo_running)) = 200"
proof -
  have c: "case jsJobs (svStore demo_running) (job_id 1) of Some j \<Rightarrow> job_active j | None \<Rightarrow> False" by code_simp
  have b: "decodeJSONBody decode_empty (DecValue (JObject []), DecEOF) = Inr ()" by code_simp
  obtain j where "jsJobs (svStore demo_running) (job_id 1) = Some j" "job_active j" using c by (auto split: option.splits)
  with stop_request_outcome [OF demo_config demo_reachable(2) b, of Inr "job_id 1"] show ?thesis by auto
qed

section \<open>Every job finishes\<close>

text \<open>What a goroutine has left to do: two steps for each planned database, and one to end.\<close>

definition runner_work :: "job_runner \<Rightarrow> nat" where
  "runner_work r = (case rnPhase r of Returned \<Rightarrow> 0 | AtHead \<Rightarrow> 2 * length (rnPlans r) + 1 | InRun \<Rightarrow> 2 * length (rnPlans r))"

text \<open>\<open>own_run D i k s s'\<close>: an execution from \<open>s\<close> to \<open>s'\<close>, other goroutines and requests included, in which
  goroutine \<open>i\<close> takes at least \<open>k\<close> steps of its own besides reporting.\<close>

inductive own_run :: "'d datum_ops \<Rightarrow> nat \<Rightarrow> nat \<Rightarrow> service \<Rightarrow> service \<Rightarrow> bool" for D i where
  start: "own_run D i 0 s s"
| any_step: "own_run D i k s s1 \<Longrightarrow> service_step D s1 s2 \<Longrightarrow> own_run D i k s s2"
| own_head: "own_run D i k s s1 \<Longrightarrow> rnPhase (svRunners s1 ! i) = AtHead \<Longrightarrow> own_run D i (Suc k) s (head_at i now s1)"
| own_return: "own_run D i k s s1 \<Longrightarrow> rnPhase (svRunners s1 ! i) = InRun \<Longrightarrow> own_run D i (Suc k) s (return_at i now err s1)"

lemma run_head_work: "rnPhase r = AtHead \<Longrightarrow> runner_work (fst (run_head c now r st)) < runner_work r"
  by (auto simp: run_head_def runner_work_def split: list.splits sum.splits)

lemma run_return_work:
  "rnPhase r = InRun \<Longrightarrow> rnPlans r \<noteq> [] \<Longrightarrow> runner_work (fst (run_return now err r st)) < runner_work r"
  by (cases "rnPlans r") (auto simp: run_return_def runner_work_def Let_def split: option.splits)

lemma head_runners: "svRunners (head_at i now s) =
    (svRunners s)[i := fst (run_head (svCancelled s (rnCtx (svRunners s ! i))) now (svRunners s ! i) (svStore s))]"
  by (simp add: head_at_def split: prod.splits)

lemma return_runners: "svRunners (return_at i now err s) =
    (svRunners s)[i := fst (run_return now err (svRunners s ! i) (svStore s))]"
  by (simp add: return_at_def split: prod.splits)

lemma in_run_plans:
  assumes "svc_inv s" "i < length (svRunners s)" "rnPhase (svRunners s ! i) = InRun"
  shows "rnPlans (svRunners s ! i) \<noteq> []"
  by (rule svc_inv_runner_job [OF assms(1,2)]) (use assms(3) in \<open>simp add: runner_ok_def\<close>)

lemma step_work:
  assumes "service_step D s s'" "svc_inv s" "i < length (svRunners s)"
  shows "i < length (svRunners s') \<and> runner_work (svRunners s' ! i) \<le> runner_work (svRunners s ! i)"
  using assms
proof (induction rule: service_step.induct)
  case (post s os san body now)
  then show ?case by (auto simp: handlePostJobs_def startJob_def Let_def nth_append split: sum.splits)
next
  case (stop s san jobID body)
  then show ?case by (auto simp: handlePostJobStop_def split: sum.splits prod.splits)
next
  case (close s)
  then show ?case by (simp add: service_Close_def)
next
  case (cancel ctx s)
  then show ?case by (simp add: call_cancel_def)
next
  case (head k s now)
  then show ?case using run_head_work [OF head(2)] by (auto simp: head_runners nth_list_update less_imp_le)
next
  case (report k s obj)
  then show ?case by (simp add: report_at_def)
next
  case (return k s now err)
  then show ?case using run_return_work [OF return(2) in_run_plans [OF return(3,1,2)]]
    by (auto simp: return_runners nth_list_update less_imp_le)
qed

lemma own_run_work:
  assumes "own_run D i k s s'" "svc_inv s" "i < length (svRunners s)"
  shows "svc_inv s' \<and> i < length (svRunners s') \<and> service_run D s s' \<and>
    k + runner_work (svRunners s' ! i) \<le> runner_work (svRunners s ! i)"
  using assms
proof (induction rule: own_run.induct)
  case (any_step k s s1 s2)
  then have IH: "svc_inv s1" "i < length (svRunners s1)" "service_run D s s1"
    "k + runner_work (svRunners s1 ! i) \<le> runner_work (svRunners s ! i)" by blast+
  then show ?case using step_work [OF any_step(2) IH(1,2)] svc_inv_step [OF any_step(2) IH(1)] any_step(2)
    by (auto intro: rtranclp.rtrancl_into_rtrancl)
next
  case (own_head k s s1 now)
  then have IH: "svc_inv s1" "i < length (svRunners s1)" "service_run D s s1"
    "k + runner_work (svRunners s1 ! i) \<le> runner_work (svRunners s ! i)" by blast+
  have st: "service_step D s1 (head_at i now s1)" using IH(2) own_head(2) by (rule service_step.head)
  have "runner_work (svRunners (head_at i now s1) ! i) < runner_work (svRunners s1 ! i)"
    using run_head_work [OF own_head(2)] IH(2) by (simp add: head_runners)
  then show ?case using IH st svc_inv_step [OF st IH(1)] by (auto simp: head_runners intro: rtranclp.rtrancl_into_rtrancl)
next
  case (own_return k s s1 now err)
  then have IH: "svc_inv s1" "i < length (svRunners s1)" "service_run D s s1"
    "k + runner_work (svRunners s1 ! i) \<le> runner_work (svRunners s ! i)" by blast+
  have st: "service_step D s1 (return_at i now err s1)" using IH(2) own_return(2) by (rule service_step.return)
  have "runner_work (svRunners (return_at i now err s1) ! i) < runner_work (svRunners s1 ! i)"
    using run_return_work [OF own_return(2) in_run_plans [OF IH(1,2) own_return(2)]] IH(2) by (simp add: return_runners)
  then show ?case using IH st svc_inv_step [OF st IH(1)] by (auto simp: return_runners intro: rtranclp.rtrancl_into_rtrancl)
qed auto

text \<open>C6: every job finishes. In any execution, the goroutine of a job over \<open>n\<close> remaining databases takes at most
  \<open>2 n + 1\<close> steps besides reporting; as long as its job is not finished it can take one, whatever the
  others do and whatever \<open>Run\<close> returns; and once it has none left, its job is finished.\<close>

theorem every_job_finishes:
  assumes "distinct (map dmName (vcDatabases cfg))" and "service_run D (NewService cfg) s"
    and "i < length (svRunners s)" and "own_run D i k s s'"
  shows "k \<le> 2 * length (rnPlans (svRunners s ! i)) + 1 \<and>
    (\<exists>j. jsJobs (svStore s') (rnJobID (svRunners s' ! i)) = Some j \<and>
      (if k = 2 * length (rnPlans (svRunners s ! i)) + 1 then jbFinishedAt j \<noteq> None
       else jbFinishedAt j \<noteq> None \<or> (\<forall>now err. own_run D i (Suc k) s (head_at i now s') \<or> own_run D i (Suc k) s (return_at i now err s'))))"
proof -
  note w = own_run_work [OF assms(4) reachable_inv [OF assms(1,2)] assms(3)]
  then have le: "k + runner_work (svRunners s' ! i) \<le> 2 * length (rnPlans (svRunners s ! i)) + 1"
    by (cases "rnPhase (svRunners s ! i)") (auto simp: runner_work_def)
  obtain j where j: "jsJobs (svStore s') (rnJobID (svRunners s' ! i)) = Some j" "runner_ok (svRunners s' ! i) j"
    using svc_inv_runner_job w by blast
  have fin: "jbFinishedAt j \<noteq> None" if "runner_work (svRunners s' ! i) = 0"
  proof -
    have "rnPhase (svRunners s' ! i) = Returned"
      using that j(2) by (cases "rnPhase (svRunners s' ! i)") (auto simp: runner_work_def runner_ok_def)
    then show ?thesis using runner_ok_finished_iff [OF j(2)] by simp
  qed
  have "jbFinishedAt j \<noteq> None \<or> own_run D i (Suc k) s (head_at i now s') \<or> own_run D i (Suc k) s (return_at i now err s')"
    for now err
    using runner_ok_finished_iff [OF j(2)] own_run.own_head [OF assms(4), of now] own_run.own_return [OF assms(4), of now err]
    by (cases "rnPhase (svRunners s' ! i)") auto
  then show ?thesis using le fin j(1) by auto
qed

theorem every_job_finishes_witness:
  "\<exists>j. jsJobs (svStore demo_finished) (rnJobID (svRunners demo_finished ! 0)) = Some j \<and> jbFinishedAt j \<noteq> None"
proof -
  let ?D = "undefined :: unit datum_ops"
  have "own_run ?D 0 (Suc 0) demo_accepted demo_running"
    unfolding demo_running_def by (rule own_run.own_head [OF own_run.start demo_phases(2)])
  then have "own_run ?D 0 (Suc (Suc 0)) demo_accepted demo_returned"
    unfolding demo_returned_def by (rule own_run.own_return [OF _ demo_phases(4)])
  then have "own_run ?D 0 (Suc (Suc (Suc 0))) demo_accepted demo_finished"
    unfolding demo_finished_def by (rule own_run.own_head [OF _ demo_phases(6)])
  moreover have "length (rnPlans (svRunners demo_accepted ! 0)) = 1" by code_simp
  ultimately show ?thesis
    using every_job_finishes [OF demo_config demo_reachable(1) [of ?D], of 0] demo_phases(1) by fastforce
qed

section \<open>Cancellation between databases\<close>

text \<open>C33: a cancelled job stops at the next database. When the goroutine is at the head of its loop with databases
  left and its context is cancelled, its step finishes the job: every database not verified yet ends
  \<open>stopped\<close>, the others keep their outcome, and the job is no longer active.\<close>

theorem cancelled_job_stops:
  assumes "distinct (map dmName (vcDatabases cfg))" and "service_run D (NewService cfg) s"
    and "i < length (svRunners s)" and "rnPhase (svRunners s ! i) = AtHead" and "rnPlans (svRunners s ! i) \<noteq> []"
    and "svCancelled s (rnCtx (svRunners s ! i))" and "jsJobs (svStore s) (rnJobID (svRunners s ! i)) = Some j"
  shows "\<exists>j'. jsJobs (svStore (head_at i now s)) (rnJobID (svRunners s ! i)) = Some j' \<and>
    jbFinishedAt j' = Some now \<and> jbCancel j' = None \<and> \<not> job_active j' \<and>
    jbDatabases j' = map (\<lambda>d. if djName d \<in> plan_name ` set (rnPlans (svRunners s ! i))
      then d\<lparr>djStatus := Stopped, djFinishedAt := Some now\<rparr> else d) (jbDatabases j)"
proof -
  let ?r = "svRunners s ! i"
  obtain p ps where pl: "rnPlans ?r = p # ps" using assms(5) by (cases "rnPlans ?r") auto
  have st: "svStore (head_at i now s) = update_job (rnJobID ?r) (job_stop now) (svStore s)"
    using pl assms(6) by (simp add: head_at_def run_head_def stopJob_def)
  have ok: "runner_ok ?r j"
    using svc_inv_runner_job [OF reachable_inv [OF assms(1,2)] assms(3)] assms(7) by (metis option.inject)
  obtain past todo where dt: "jbDatabases j = past @ todo" "map djName todo = map plan_name (rnPlans ?r)"
    "\<forall>d \<in> set past. \<not> live d" "\<forall>d \<in> set todo. live d"
    by (rule runner_ok_open [OF ok]) (use assms(4) in auto)
  have names: "djName ` set todo = plan_name ` set (rnPlans ?r)" using dt(2) by (metis list.set_map)
  have "distinct (map djName (jbDatabases j))" using ok by (simp add: runner_ok_def)
  then have past: "djName d \<notin> plan_name ` set (rnPlans ?r)" if "d \<in> set past" for d
    using that dt(1) names by (auto simp: image_iff)
  have "markStopped now d = (if djName d \<in> plan_name ` set (rnPlans ?r) then d\<lparr>djStatus := Stopped, djFinishedAt := Some now\<rparr> else d)"
    if "d \<in> set (jbDatabases j)" for d
    using that dt(1,3,4) past names by (auto simp: markStopped_def)
  then have "jbDatabases (job_stop now j) = map (\<lambda>d. if djName d \<in> plan_name ` set (rnPlans ?r)
      then d\<lparr>djStatus := Stopped, djFinishedAt := Some now\<rparr> else d) (jbDatabases j)"
    by (simp add: job_stop_def job_finish_def)
  moreover have "\<not> job_active (job_stop now j)" using runner_ok_stopped [OF ok, of now] runner_ok_active assms(4) by fastforce
  ultimately show ?thesis unfolding st using assms(7)
    by (intro exI [of _ "job_stop now j"]) (simp add: job_stop_def job_finish_def)
qed

definition demo_cancelled :: service where
  "demo_cancelled = call_cancel 1 (service_Close demo_accepted)"

theorem cancelled_job_stops_witness:
  "\<exists>j. jsJobs (svStore (head_at 0 7 demo_cancelled)) (rnJobID (svRunners demo_cancelled ! 0)) = Some j \<and>
    jbFinishedAt j = Some 7 \<and> \<not> job_active j"
proof -
  have p: "svPending (service_Close demo_accepted) = [1]" "length (svRunners demo_cancelled) = 1"
    "rnPhase (svRunners demo_cancelled ! 0) = AtHead" "rnPlans (svRunners demo_cancelled ! 0) \<noteq> []"
    "svCancelled demo_cancelled (rnCtx (svRunners demo_cancelled ! 0))"
    "\<not> Option.is_none (jsJobs (svStore demo_cancelled) (rnJobID (svRunners demo_cancelled ! 0)))"
    by code_simp+
  obtain j where j: "jsJobs (svStore demo_cancelled) (rnJobID (svRunners demo_cancelled ! 0)) = Some j"
    using p(6) by (auto simp: Option.is_none_def)
  have "service_step (undefined :: unit datum_ops) (service_Close demo_accepted) demo_cancelled"
    unfolding demo_cancelled_def by (rule service_step.cancel) (simp add: p(1))
  then have "service_run (undefined :: unit datum_ops) (NewService cfg_example) demo_cancelled"
    using demo_reachable(1) service_step.close by (meson rtranclp.rtrancl_into_rtrancl)
  from cancelled_job_stops [OF demo_config this _ p(3-5) j, of 7] p(2) show ?thesis by auto
qed

end
