(* ===== verification/Fix_Reporter.thy ===== *)
theory Fix_Reporter
  imports Row_Report
begin

text \<open>
  \<open>verify/inconsistency/reporter.go\<close>: the reporter that repairs the target (\<open>--fixup\<close>) and the
  combination of reporters.

  The statement the code builds as a syntax tree and sends as text is a value of \<open>dml\<close>; \<open>exec\<close> is the
  error the connection returns for it, and a failing statement panics (\<open>None\<close>). The table is named
  without its schema, as in the code.
\<close>

datatype 'd dml =
    DUpdate string "(string \<times> 'd) list" "'d expr option"
  | DInsert string "string list" "'d list"
  | DDelete string "'d expr option"

record 'd fixer =
  fxExecuted :: "'d dml list"
  fxMetrics :: "(string \<times> string \<times> nat) list"

definition eq_expr :: "string \<Rightarrow> 'd \<Rightarrow> 'd expr" where
  "eq_expr col v = ComparisonExpr EQ (UnresolvedName col) (Datum v)"

text \<open>The loop of \<open>buildWhereClause\<close> over the values left, with the clause built so far.\<close>

fun where_loop :: "string list \<Rightarrow> 'd list \<Rightarrow> 'd expr option \<Rightarrow> 'd expr option option" where
  "where_loop cols [] e = Some e"
| "where_loop (c # cols) (v # vs) None = where_loop cols vs (Some (eq_expr c v))"
| "where_loop (c # cols) (v # vs) (Some e) = where_loop cols vs (Some (AndExpr e (eq_expr c v)))"
| "where_loop [] (v # vs) e = None"

definition buildWhereClause :: "string list \<Rightarrow> 'd list \<Rightarrow> 'd expr option option" where
  "buildWhereClause cols values = where_loop cols values None"

text \<open>The statement for a report: the outer \<open>None\<close> is an index out of range, the inner one that the
  reporter does nothing.\<close>

fun fix_statement :: "'d report \<Rightarrow> 'd dml option option" where
  "fix_statement (MismatchingRow m) = do {
     w \<leftarrow> buildWhereClause (mmPrimaryKeyColumns m) (mmPrimaryKeyValues m);
     (if length (mmMismatchingColumns m) \<le> length (mmTruthVals m)
      then Some (Some (DUpdate (tnTable m) (zip (mmMismatchingColumns m) (mmTruthVals m)) w))
      else None)
   }"
| "fix_statement (MissingRow m) =
     (if length (mrColumns m) \<le> length (mrValues m)
      then Some (Some (DInsert (tnTable m) (mrColumns m) (take (length (mrColumns m)) (mrValues m)))) else None)"
| "fix_statement (ExtraneousRow m) = do {
     w \<leftarrow> buildWhereClause (erPrimaryKeyColumns m) (erPrimaryKeyValues m);
     Some (Some (DDelete (tnTable m) w))
   }"
| "fix_statement _ = Some None"

fun fix_label :: "'d report \<Rightarrow> (string \<times> string) option" where
  "fix_label (MismatchingRow m) = Some (''mismatching'', SchemaTableString (tnSchema m) (tnTable m))"
| "fix_label (MissingRow m) = Some (''missing'', SchemaTableString (tnSchema m) (tnTable m))"
| "fix_label (ExtraneousRow m) = Some (''extraneous'', SchemaTableString (tnSchema m) (tnTable m))"
| "fix_label _ = None"

definition count_fixup :: "'d report \<Rightarrow> 'd fixer \<Rightarrow> 'd fixer" where
  "count_fixup obj fx =
     (case fix_label obj of
        Some (kind, table) \<Rightarrow> fx\<lparr>fxMetrics := fxMetrics fx @ [(''num_row_fixups:'' @ kind, table, 1)]\<rparr>
      | None \<Rightarrow> fx)"

definition FixReporter_Report :: "bool \<Rightarrow> ('d dml \<Rightarrow> go_error option) \<Rightarrow> 'd report \<Rightarrow> 'd fixer \<Rightarrow> 'd fixer option" where
  "FixReporter_Report isPG exec obj fx =
     (if \<not> isPG then Some (count_fixup obj fx)
      else do {
        s \<leftarrow> fix_statement obj;
        (case s of
           None \<Rightarrow> Some fx
         | Some stmt \<Rightarrow>
             (if exec stmt = None then Some (count_fixup obj (fx\<lparr>fxExecuted := fxExecuted fx @ [stmt]\<rparr>)) else None))
      })"

fun fix_all :: "bool \<Rightarrow> ('d dml \<Rightarrow> go_error option) \<Rightarrow> 'd report list \<Rightarrow> 'd fixer \<Rightarrow> 'd fixer option" where
  "fix_all isPG exec [] fx = Some fx"
| "fix_all isPG exec (obj # objs) fx = do { fx' \<leftarrow> FixReporter_Report isPG exec obj fx; fix_all isPG exec objs fx' }"

text \<open>\<open>CombinedReporter\<close>: every reporter receives every object, in the order of the list.\<close>

definition CombinedReporter_Report :: "('o \<Rightarrow> 's \<Rightarrow> 's) list \<Rightarrow> 'o \<Rightarrow> 's \<Rightarrow> 's" where
  "CombinedReporter_Report reporters obj s = fold (\<lambda>r. r obj) reporters s"

section \<open>What the statements mean\<close>

text \<open>The documented effect of a statement, used only to state what a repair achieves. \<open>dml_rows\<close> is the
  effect on the rows of the table it is executed on, over the columns \<open>cols\<close>. A database holds rows
  under qualified names; \<open>resolve\<close> is its search path: the qualified table an unqualified name
  denotes. \<open>apply_dml\<close> changes that table and no other.\<close>

type_synonym qualified_name = "string \<times> string"

definition assign :: "string list \<Rightarrow> (string \<times> 'd) list \<Rightarrow> 'd row \<Rightarrow> 'd row" where
  "assign cols as r = map (\<lambda>(c, x). case map_of as c of Some v \<Rightarrow> v | None \<Rightarrow> x) (zip cols r)"

fun dml_rows :: "'d datum_ops \<Rightarrow> string list \<Rightarrow> 'd dml \<Rightarrow> 'd row list \<Rightarrow> 'd row list" where
  "dml_rows D cols (DUpdate t as w) rows = map (\<lambda>r. if where_holds D cols w r then assign cols as r else r) rows"
| "dml_rows D cols (DInsert t cs vs) rows = rows @ [map (\<lambda>c. the (map_of (zip cs vs) c)) cols]"
| "dml_rows D cols (DDelete t w) rows = filter (\<lambda>r. \<not> where_holds D cols w r) rows"

fun dml_table :: "'d dml \<Rightarrow> string" where
  "dml_table (DUpdate t as w) = t"
| "dml_table (DInsert t cs vs) = t"
| "dml_table (DDelete t w) = t"

definition apply_dml ::
  "'d datum_ops \<Rightarrow> (string \<Rightarrow> qualified_name) \<Rightarrow> (qualified_name \<Rightarrow> string list) \<Rightarrow> 'd dml \<Rightarrow>
   (qualified_name \<Rightarrow> 'd row list) \<Rightarrow> (qualified_name \<Rightarrow> 'd row list)" where
  "apply_dml D resolve columns s db =
     (let n = resolve (dml_table s) in db(n := dml_rows D (columns n) s (db n)))"

lemma fold_apply_dml:
  "list_all (\<lambda>s. dml_table s = t) ss \<Longrightarrow>
   fold (apply_dml D resolve columns) ss db =
     db(resolve t := fold (dml_rows D (columns (resolve t))) ss (db (resolve t)))"
  by (induction ss arbitrary: db) (auto simp: apply_dml_def Let_def)

section \<open>The where clause selects one key\<close>

definition eq_all :: "'d datum_ops \<Rightarrow> string list \<Rightarrow> 'd row \<Rightarrow> string list \<Rightarrow> 'd list \<Rightarrow> bool" where
  "eq_all D cols r cs vs \<longleftrightarrow> list_all2 (\<lambda>c v. expr_holds D cols r (eq_expr c v)) cs vs"

lemma where_loop_some:
  "length cs = length vs \<Longrightarrow>
   \<exists>w. where_loop cs vs (Some e) = Some (Some w) \<and> (\<forall>r. expr_holds D cols r w \<longleftrightarrow> expr_holds D cols r e \<and> eq_all D cols r cs vs)"
proof (induction cs vs arbitrary: e rule: list_induct2)
  case (Cons c cs v vs)
  then show ?case using Cons.IH [of "AndExpr e (eq_expr c v)"] by (auto simp: eq_all_def)
qed (simp add: eq_all_def)

lemma buildWhereClause_holds:
  assumes "length cs = length vs"
  shows "\<exists>w. buildWhereClause cs vs = Some w \<and> (\<forall>r. where_holds D cols w r \<longleftrightarrow> eq_all D cols r cs vs)"
proof (cases cs)
  case Nil
  then show ?thesis using assms by (simp add: buildWhereClause_def where_holds_def eq_all_def)
next
  case (Cons c cs')
  then obtain v vs' where v: "vs = v # vs'" "length cs' = length vs'" using assms by (cases vs) auto
  from where_loop_some [OF v(2), of "eq_expr c v" D cols] show ?thesis
    using Cons v(1) by (auto simp: buildWhereClause_def where_holds_def eq_all_def)
qed

lemma eq_expr_holds:
  assumes "distinct cols" "length r = length cols" "i < length cols"
  shows "expr_holds D cols r (eq_expr (cols ! i) v) \<longleftrightarrow> dCompare D (r ! i) v = 0"
proof -
  have "col_value cols r (cols ! i) = Some (r ! i)"
    using map_of_zip_nth_distinct [OF assms(1), of r i] assms(2,3) by (simp add: col_value_def)
  then show ?thesis by (simp add: eq_expr_def op_holds_def)
qed

lemma eq_all_take:
  assumes "distinct cols" "length r = length cols" "n \<le> length cols" "length vs = n"
  shows "eq_all D cols r (take n cols) vs \<longleftrightarrow> lex_cmp (dCompare D) (take n r) vs = 0"
proof -
  have "eq_all D cols r (take n cols) vs \<longleftrightarrow> (\<forall>i < n. dCompare D (r ! i) (vs ! i) = 0)"
    using assms eq_expr_holds [OF assms(1,2)] by (auto simp: eq_all_def list_all2_conv_all_nth)
  also have "\<dots> \<longleftrightarrow> (\<forall>i < n. dCompare D (take n r ! i) (vs ! i) = 0)" by simp
  also have "\<dots> \<longleftrightarrow> lex_cmp (dCompare D) (take n r) vs = 0"
  proof -
    have "length xs = length ys \<Longrightarrow> (\<forall>i < length xs. c (xs ! i) (ys ! i) = 0) \<longleftrightarrow> lex_cmp c xs ys = 0"
      for c :: "'a \<Rightarrow> 'a \<Rightarrow> int" and xs ys
    proof (induction xs ys rule: list_induct2)
      case (Cons x xs y ys)
      then show ?case by (auto simp: nth_Cons less_Suc_eq_0_disj split: nat.splits)
    qed simp
    from this [of "take n r" vs "dCompare D"] show ?thesis using assms by simp
  qed
  finally show ?thesis .
qed

end
