(* ===== verification/Worker_Pool.thy ===== *)
theory Worker_Pool
  imports Go_Prelude
begin

text \<open>
  The row-verification goroutines of \<open>verify.Verify\<close>: a fixed number of workers receive work items
  from an unbuffered channel, in the order they are sent, and each item makes its worker call the
  reporter a number of times. \<open>work\<close> gives the reports of an item; a state holds the items not sent
  yet, what each worker has left to report (\<open>None\<close> while it waits for an item) and what the reporter
  has received. Workers interleave freely.
\<close>

record ('a, 'b) pool =
  plQueue :: "'a list"
  plWorkers :: "'b list option list"
  plLog :: "'b list"

inductive pool_step :: "('a \<Rightarrow> 'b list) \<Rightarrow> ('a, 'b) pool \<Rightarrow> ('a, 'b) pool \<Rightarrow> bool" for work where
  receive: "i < length (plWorkers s) \<Longrightarrow> plWorkers s ! i = None \<Longrightarrow> plQueue s = q # qs \<Longrightarrow>
    pool_step work s (s\<lparr>plQueue := qs, plWorkers := (plWorkers s)[i := Some (work q)]\<rparr>)"
| report: "i < length (plWorkers s) \<Longrightarrow> plWorkers s ! i = Some (b # bs) \<Longrightarrow>
    pool_step work s (s\<lparr>plWorkers := (plWorkers s)[i := Some bs], plLog := plLog s @ [b]\<rparr>)"
| finish: "i < length (plWorkers s) \<Longrightarrow> plWorkers s ! i = Some [] \<Longrightarrow>
    pool_step work s (s\<lparr>plWorkers := (plWorkers s)[i := None]\<rparr>)"

definition pool_start :: "nat \<Rightarrow> 'a list \<Rightarrow> ('a, 'b) pool" where
  "pool_start n items = \<lparr>plQueue = items, plWorkers = replicate n None, plLog = []\<rparr>"

text \<open>\<open>g.Wait()\<close> returns: the channel is closed and drained and every worker has seen it.\<close>

definition pool_finished :: "('a, 'b) pool \<Rightarrow> bool" where
  "pool_finished s \<longleftrightarrow> plQueue s = [] \<and> list_all (\<lambda>w. w = None) (plWorkers s)"

definition pool_run :: "('a \<Rightarrow> 'b list) \<Rightarrow> nat \<Rightarrow> 'a list \<Rightarrow> 'b list \<Rightarrow> bool" where
  "pool_run work n items log \<longleftrightarrow>
     (\<exists>s. (pool_step work)\<^sup>*\<^sup>* (pool_start n items) s \<and> pool_finished s \<and> plLog s = log)"

section \<open>Every report arrives, once\<close>

definition held :: "'b list option \<Rightarrow> 'b list" where
  "held w = (case w of None \<Rightarrow> [] | Some bs \<Rightarrow> bs)"

definition pool_total :: "('a \<Rightarrow> 'b list) \<Rightarrow> ('a, 'b) pool \<Rightarrow> 'b multiset" where
  "pool_total work s =
     mset (plLog s) + mset (concat (map held (plWorkers s))) + mset (concat (map work (plQueue s)))"

lemma mset_concat_update:
  "i < length ws \<Longrightarrow> mset (concat (map held (ws[i := w]))) + mset (held (ws ! i)) =
     mset (concat (map held ws)) + mset (held w)"
proof (induction ws arbitrary: i)
  case (Cons x ws)
  then show ?case by (cases i) (auto simp: ac_simps)
qed simp

lemma pool_step_total: "pool_step work s s' \<Longrightarrow> pool_total work s' = pool_total work s"
proof (induction rule: pool_step.induct)
  case (receive i s q qs)
  then show ?case using mset_concat_update [of i "plWorkers s" "Some (work q)"]
    by (simp add: pool_total_def held_def ac_simps)
next
  case (report i s b bs)
  then show ?case using mset_concat_update [of i "plWorkers s" "Some bs"]
    by (simp add: pool_total_def held_def)
next
  case (finish i s)
  then show ?case using mset_concat_update [of i "plWorkers s" None]
    by (simp add: pool_total_def held_def)
qed

lemma pool_steps_total: "(pool_step work)\<^sup>*\<^sup>* s s' \<Longrightarrow> pool_total work s' = pool_total work s"
  by (induction rule: rtranclp_induct) (auto dest: pool_step_total)

lemma finished_held: "list_all (\<lambda>w. w = None) ws \<Longrightarrow> concat (map held ws) = []"
  by (induction ws) (auto simp: held_def)

lemma pool_run_reports: "pool_run work n items log \<Longrightarrow> mset log = mset (concat (map work items))"
proof -
  assume "pool_run work n items log"
  then obtain s where s: "(pool_step work)\<^sup>*\<^sup>* (pool_start n items) s" "pool_finished s" "plLog s = log"
    by (auto simp: pool_run_def)
  have "pool_total work s = mset log" using s(2,3) finished_held [of "plWorkers s"]
    by (simp add: pool_total_def pool_finished_def)
  moreover have "pool_total work (pool_start n items) = mset (concat (map work items))"
  proof -
    have "concat (map held (replicate n None)) = []" by (rule finished_held) (simp add: list_all_iff)
    then show ?thesis by (simp add: pool_total_def pool_start_def)
  qed
  ultimately show ?thesis using pool_steps_total [OF s(1)] by simp
qed

lemma pool_run_set: "pool_run work n items log \<Longrightarrow> set log = (\<Union>q \<in> set items. set (work q))"
  by (drule pool_run_reports, drule arg_cong [of _ _ set_mset]) simp

section \<open>The pool neither deadlocks nor runs forever\<close>

definition pool_measure :: "('a \<Rightarrow> 'b list) \<Rightarrow> ('a, 'b) pool \<Rightarrow> nat" where
  "pool_measure work s =
     sum_list (map (\<lambda>w. case w of None \<Rightarrow> 0 | Some bs \<Rightarrow> Suc (length bs)) (plWorkers s)) +
     sum_list (map (\<lambda>q. Suc (Suc (length (work q)))) (plQueue s))"

lemma sum_list_update_nat:
  fixes f :: "'x \<Rightarrow> nat"
  shows "i < length ws \<Longrightarrow> sum_list (map f (ws[i := w])) + f (ws ! i) = sum_list (map f ws) + f w"
proof (induction ws arbitrary: i)
  case (Cons x ws)
  then show ?case by (cases i) auto
qed simp

lemma pool_step_measure: "pool_step work s s' \<Longrightarrow> pool_measure work s' < pool_measure work s"
proof (induction rule: pool_step.induct)
  case (receive i s q qs)
  then show ?case
    using sum_list_update_nat [OF receive(1), of "\<lambda>w. case w of None \<Rightarrow> 0 | Some bs \<Rightarrow> Suc (length bs)" "Some (work q)"]
    by (simp add: pool_measure_def)
next
  case (report i s b bs)
  then show ?case
    using sum_list_update_nat [OF report(1), of "\<lambda>w. case w of None \<Rightarrow> 0 | Some bs \<Rightarrow> Suc (length bs)" "Some bs"]
    by (simp add: pool_measure_def)
next
  case (finish i s)
  then show ?case
    using sum_list_update_nat [OF finish(1), of "\<lambda>w. case w of None \<Rightarrow> 0 | Some bs \<Rightarrow> Suc (length bs)" None]
    by (simp add: pool_measure_def)
qed

lemma pool_step_workers: "pool_step work s s' \<Longrightarrow> length (plWorkers s') = length (plWorkers s)"
  by (induction rule: pool_step.induct) auto

lemma pool_progress:
  assumes "0 < length (plWorkers s)" "\<not> pool_finished s"
  shows "\<exists>s'. pool_step work s s'"
proof (cases "\<exists>w \<in> set (plWorkers s). w \<noteq> None")
  case True
  then obtain i bs where "i < length (plWorkers s)" "plWorkers s ! i = Some bs" by (auto simp: in_set_conv_nth)
  then show ?thesis by (cases bs) (auto intro: pool_step.report pool_step.finish)
next
  case False
  then obtain q qs where "plQueue s = q # qs" using assms(2) by (cases "plQueue s") (auto simp: pool_finished_def list_all_iff)
  moreover have "plWorkers s ! 0 = None" using False assms(1) by auto
  ultimately show ?thesis using assms(1) by (auto intro: pool_step.receive)
qed

lemma pool_completes:
  assumes "0 < length (plWorkers s)"
  shows "\<exists>s'. (pool_step work)\<^sup>*\<^sup>* s s' \<and> pool_finished s'"
  using assms
proof (induction "pool_measure work s" arbitrary: s rule: less_induct)
  case less
  show ?case
  proof (cases "pool_finished s")
    case False
    then obtain s1 where s1: "pool_step work s s1" using pool_progress less.prems by blast
    from less.hyps [OF pool_step_measure [OF s1]] pool_step_workers [OF s1] less.prems
    show ?thesis using s1 by (metis converse_rtranclp_into_rtranclp)
  qed auto
qed

lemma pool_runs: "0 < n \<Longrightarrow> \<exists>log. pool_run work n items log"
  using pool_completes [of "pool_start n items" work] by (auto simp: pool_run_def pool_start_def)

lemma no_workers_stuck: "pool_step work (pool_start 0 items) s \<Longrightarrow> False"
  by (auto simp: pool_start_def elim: pool_step.cases)

lemma no_workers_deadlock: "items \<noteq> [] \<Longrightarrow> \<not> pool_run work 0 items log"
proof
  assume "items \<noteq> []" "pool_run work 0 items log"
  then obtain s where s: "(pool_step work)\<^sup>*\<^sup>* (pool_start 0 items) s" "pool_finished s" by (auto simp: pool_run_def)
  then have "s = pool_start 0 items" by (metis converse_rtranclpE no_workers_stuck)
  then show False using s(2) \<open>items \<noteq> []\<close> by (simp add: pool_finished_def pool_start_def)
qed

lemma no_items_run: "pool_run work n [] log \<longleftrightarrow> log = []"
proof
  assume "pool_run work n [] log"
  from pool_run_reports [OF this] show "log = []" by simp
next
  assume "log = []"
  then show "pool_run work n [] log"
    by (auto simp: pool_run_def pool_finished_def pool_start_def list_all_iff intro!: exI [of _ "pool_start n []"])
qed

end
