(* ===== verification/Verify.thy ===== *)
theory Verify
  imports Table_Verify Shard_Table Worker_Pool
begin

text \<open>
  \<open>verify/verify.go\<close>: the whole verification of two databases. The part before the goroutines start
  is a function (\<open>verify_front\<close>: what has been reported, and the error or the shards to verify); the
  row verification runs the shards on a worker pool, so \<open>verify_run\<close> relates the inputs to every
  outcome the interleavings allow.

  A connection is its catalog, its query interface and the outcome of \<open>Clone\<close>. Row verification is
  modelled without live re-verification (\<open>WithLive\<close>).
\<close>

section \<open>Options\<close>

record verify_opts =
  voConcurrency :: int
  voRowBatchSize :: nat
  voTableSplits :: int
  voRowsPerSecond :: int
  voContinuous :: bool
  voContinuousPause :: int
  voRows :: bool
  voDbFilter :: filter_config
  voTestOnly :: bool

definition default_opts :: verify_opts where
  "default_opts = \<lparr>voConcurrency = 8, voRowBatchSize = 1000, voTableSplits = 8, voRowsPerSecond = 0,
     voContinuous = False, voContinuousPause = 0, voRows = True, voDbFilter = DefaultFilterConfig, voTestOnly = False\<rparr>"

definition WithConcurrency :: "int \<Rightarrow> verify_opts \<Rightarrow> verify_opts" where
  "WithConcurrency c o' = o'\<lparr>voConcurrency := c\<rparr>"

definition WithRowBatchSize :: "nat \<Rightarrow> verify_opts \<Rightarrow> verify_opts" where
  "WithRowBatchSize c o' = o'\<lparr>voRowBatchSize := c\<rparr>"

definition WithRowsPerSecond :: "int \<Rightarrow> verify_opts \<Rightarrow> verify_opts" where
  "WithRowsPerSecond c o' = o'\<lparr>voRowsPerSecond := c\<rparr>"

definition WithTableSplits :: "int \<Rightarrow> verify_opts \<Rightarrow> verify_opts" where
  "WithTableSplits c o' = o'\<lparr>voTableSplits := c\<rparr>"

definition WithContinuous :: "bool \<Rightarrow> int \<Rightarrow> verify_opts \<Rightarrow> verify_opts" where
  "WithContinuous c pauseLength o' = o'\<lparr>voContinuous := c, voContinuousPause := pauseLength\<rparr>"

definition WithDBFilter :: "filter_config \<Rightarrow> verify_opts \<Rightarrow> verify_opts" where
  "WithDBFilter f o' = o'\<lparr>voDbFilter := f\<rparr>"

definition WithRows :: "bool \<Rightarrow> verify_opts \<Rightarrow> verify_opts" where
  "WithRows b o' = o'\<lparr>voRows := b\<rparr>"

definition WithTestOnly :: "bool \<Rightarrow> verify_opts \<Rightarrow> verify_opts" where
  "WithTestOnly b o' = o'\<lparr>voTestOnly := b\<rparr>"

definition apply_opts :: "(verify_opts \<Rightarrow> verify_opts) list \<Rightarrow> verify_opts" where
  "apply_opts inOpts = fold (\<lambda>applyOpt. applyOpt) inOpts default_opts"

section \<open>What the code calls\<close>

record 'd db_conn =
  cnCatalog :: catalog
  cnConn :: "'d pg_conn"
  cnClone :: "'d pg_conn result"       \<comment> \<open>\<open>conn.Clone(ctx)\<close>\<close>

record ('d, 'f) verify_env =
  veDatums :: "'d datum_ops"
  veSplit :: "('d, 'f) split_ops"
  veTypes :: type_table
  veMapLower :: "string \<Rightarrow> string"       \<comment> \<open>\<open>strings.Map(unicode.ToLower, s)\<close>\<close>
  veSort :: "db_table list \<Rightarrow> db_table list"
  veRange :: "column_map \<Rightarrow> string list"
  veRegexp :: regexp_engine
  veLimiter :: "verify_opts \<Rightarrow> 'd limiter"  \<comment> \<open>\<open>rate.NewLimiter(opts.rateLimit(), 1)\<close>\<close>
  veString :: "'d \<Rightarrow> string"             \<comment> \<open>\<open>Datum.String()\<close>\<close>
  veNumCPU :: nat

section \<open>Before the goroutines\<close>

fun shard_tables ::
  "('d, 'f) verify_env \<Rightarrow> int \<Rightarrow> 'd pg_conn \<Rightarrow> table_result list \<Rightarrow> 'd report list \<Rightarrow>
   ('d report list \<times> 'd table_shard list result) option" where
  "shard_tables env splits truthConn [] sent = Some (sent, Inr [])"
| "shard_tables env splits truthConn (tbl # tbls) sent =
     (if \<not> trRowVerifiable tbl then shard_tables env splits truthConn tbls sent
      else do {
        (r, sent') \<leftarrow> ShardTable (veDatums env) (veSplit env) truthConn tbl (Some sent) splits;
        sent1 \<leftarrow> sent';
        (case r of
           Inl e \<Rightarrow> Some (sent1, Inl (ErrWrap ''error splitting tables'' e))
         | Inr shs \<Rightarrow> do {
             (sent2, r2) \<leftarrow> shard_tables env splits truthConn tbls sent1;
             Some (sent2, case r2 of Inl e \<Rightarrow> Inl e | Inr rest \<Rightarrow> Inr (shs @ rest))
           })
      })"

definition definition_reports :: "table_result list \<Rightarrow> 'd report list" where
  "definition_reports tbls =
     concat (map (\<lambda>t. map (\<lambda>(tbl, info). MismatchingTableDefinition tbl info) (trMismatching t)) tbls)"

text \<open>The tables that are compared, after filtering: \<open>None\<close> as the outcome means the rows are skipped.\<close>

definition verify_front ::
  "('d, 'f) verify_env \<Rightarrow> verify_opts \<Rightarrow> 'd db_conn \<times> 'd db_conn \<Rightarrow>
   ('d report list \<times> (table_result list \<times> 'd table_shard list) option result) option" where
  "verify_front env opts conns =
     (let cats = (cnCatalog (fst conns), cnCatalog (snd conns))
      in do {
        listed \<leftarrow> dbverify_Verify (veMapLower env) (veSort env) cats;
        (case listed of
           Inl e \<Rightarrow> Some ([], Inl (ErrWrap ''error comparing database tables'' e))
         | Inr allTables \<Rightarrow>
             (case FilterResult (veRegexp env) (voDbFilter opts) allTables of
                Inl e \<Rightarrow> Some ([], Inl e)
              | Inr dbTables \<Rightarrow>
                  (let sent1 = map MissingTable (orMissingTables dbTables) @ map ExtraneousTable (orExtraneousTables dbTables)
                   in case VerifyCommonTables (veTypes env) (veRange env) cats (orVerified dbTables) of
                        Inl e \<Rightarrow> Some (sent1, Inl e)
                      | Inr tbls \<Rightarrow>
                          (let sent2 = sent1 @ definition_reports tbls
                           in if \<not> voRows opts then Some (sent2, Inr None)
                              else do {
                                (sent3, r) \<leftarrow> shard_tables env (voTableSplits opts) (cnConn (fst conns)) tbls sent2;
                                Some (sent3, case r of Inl e \<Rightarrow> Inl e | Inr shards \<Rightarrow> Inr (Some (tbls, shards)))
                              }))))
      })"

section \<open>One shard\<close>

definition verifyRowShard ::
  "('d, 'f) verify_env \<Rightarrow> verify_opts \<Rightarrow> 'd db_conn \<times> 'd db_conn \<Rightarrow> 'd table_shard \<Rightarrow>
   (go_error option \<times> 'd report list) option" where
  "verifyRowShard env opts conns shard =
     (case cnClone (fst conns) of
        Inl e \<Rightarrow> Some (Some (ErrWrap ''error establishing connection to compare'' e), [])
      | Inr c1 \<Rightarrow>
          (case cnClone (snd conns) of
             Inl e \<Rightarrow> Some (Some (ErrWrap ''error establishing connection to compare'' e), [])
           | Inr c2 \<Rightarrow> VerifyRowsOnShard (veDatums env) (c1, c2) (veLimiter env opts) shard (voRowBatchSize opts) []))"

text \<open>The text a worker reports before it verifies a shard; \<open>runNum\<close> counts the runs of continuous mode.\<close>

definition start_message :: "('d, 'f) verify_env \<Rightarrow> verify_opts \<Rightarrow> 'd table_shard \<Rightarrow> nat \<Rightarrow> string" where
  "start_message env opts shard runNum =
     ''starting verify on '' @ tnSchema shard @ ''.'' @ tnTable shard @ '', shard '' @ Itoa (tsShardNum shard) @ ''/'' @
       Itoa (tsTotalShards shard) @
     (if voContinuous opts then '', run #'' @ Itoa runNum else []) @
     (if tsTotalShards shard > 1 then
        '', range: ['' @
        (if length (tsStartPKVals shard) > 0 then strings_Join (map (veString env) (tsStartPKVals shard)) '','' else ''<beginning>'') @
        '' - '' @
        (if length (tsEndPKVals shard) > 0 then strings_Join (map (veString env) (tsEndPKVals shard)) '', '' @ '')'' else ''<end>]'')
      else [])"

text \<open>One run of a worker on a shard: the error of \<open>verifyRowShard\<close> is logged and reported as a status,
  and goes no further.\<close>

definition shard_run ::
  "('d, 'f) verify_env \<Rightarrow> verify_opts \<Rightarrow> 'd db_conn \<times> 'd db_conn \<Rightarrow> nat \<Rightarrow> 'd table_shard \<Rightarrow> 'd report list option" where
  "shard_run env opts conns runNum shard = do {
     (err, reps) \<leftarrow> verifyRowShard env opts conns shard;
     Some (StatusReport (start_message env opts shard runNum) # reps @
       (if err = None then [] else [StatusReport ''failed to verify'']))
   }"

definition numGoroutines :: "('d, 'f) verify_env \<Rightarrow> verify_opts \<Rightarrow> nat \<Rightarrow> nat" where
  "numGoroutines env opts nshards =
     (if voContinuous opts then nshards
      else if voConcurrency opts = 0 then veNumCPU env
      else nat (voConcurrency opts))"

section \<open>Verify\<close>

text \<open>
  \<open>verify_run env opts conns reps err\<close>: \<open>Verify\<close> can return \<open>err\<close> with \<open>reps\<close> reported. In
  continuous mode a worker never leaves its first shard, so \<open>Verify\<close> returns only when there is none;
  otherwise it returns when every worker has finished, which needs every shard's verification to
  return.
\<close>

inductive verify_run ::
  "('d, 'f) verify_env \<Rightarrow> verify_opts \<Rightarrow> 'd db_conn \<times> 'd db_conn \<Rightarrow> 'd report list \<Rightarrow> go_error option \<Rightarrow> bool"
  for env opts conns where
  front_error: "verify_front env opts conns = Some (reps, Inl e) \<Longrightarrow> verify_run env opts conns reps (Some e)"
| rows_skipped: "verify_front env opts conns = Some (reps, Inr None) \<Longrightarrow> verify_run env opts conns reps None"
| rows_verified: "verify_front env opts conns = Some (reps, Inr (Some (tbls, shards))) \<Longrightarrow>
    \<not> voContinuous opts \<or> shards = [] \<Longrightarrow>
    list_all (\<lambda>sh. shard_run env opts conns 1 sh \<noteq> None) shards \<Longrightarrow>
    pool_run (\<lambda>sh. the (shard_run env opts conns 1 sh)) (numGoroutines env opts (length shards)) shards log \<Longrightarrow>
    verify_run env opts conns (reps @ log) None"

inductive_cases verify_runE: "verify_run env opts conns reps err"

end
