(* ===== verification/Verify_Properties.thy ===== *)
theory Verify_Properties
  imports Verify Shard_Properties Db_Properties Table_Properties
begin

text \<open>
  The whole verification: over databases that answer queries as SQL defines them, the row reports of
  \<open>Verify\<close> are exactly the differences of the verifiable tables, whatever the sharding, the batch
  size and the interleaving of the workers; and what becomes of errors on the way.
\<close>

section \<open>Shards of a table\<close>

definition table_iter :: "('x) verified_table_scheme \<Rightarrow> iter_table" where
  "table_iter T = \<lparr>tnSchema = tnSchema T, tnTable = tnTable T, itColumnsWithAttr = vtColumns T,
     itColumnOIDs = [], itPrimaryKeyColumns = vtPrimaryKeyColumns T\<rparr>"

text \<open>The connection holds the rows \<open>tbl\<close> in table \<open>T\<close>.\<close>

definition table_world :: "'d datum_ops \<Rightarrow> ('x) verified_table_scheme \<Rightarrow> 'd row list \<Rightarrow> 'd pg_conn \<Rightarrow> bool" where
  "table_world D T tbl conn \<longleftrightarrow>
     table_shape (table_iter T) \<and> stored_rows D (table_iter T) tbl \<and> conn_answers D (table_iter T) tbl conn"

definition shard_of :: "('x) verified_table_scheme \<Rightarrow> 'd table_shard \<Rightarrow> bool" where
  "shard_of T sh \<longleftrightarrow> (\<exists>start end' k n. sh = mk_shard T start end' k n \<and> length start \<le> 1 \<and> length end' \<le> 1)"

lemma shard_of_mk [intro]: "length start \<le> 1 \<Longrightarrow> length end' \<le> 1 \<Longrightarrow> shard_of T (mk_shard T start end' k n)"
  unfolding shard_of_def by blast

lemma le_one_nonempty: "n \<le> 1 \<Longrightarrow> xs \<noteq> [] \<Longrightarrow> n \<le> length xs"
  by (cases xs) auto

lemma shard_of_world:
  assumes "shard_of T sh" "table_world D T tbl conn"
  shows "shard_world D sh oids tbl conn"
proof -
  obtain start end' k n where sh: "sh = mk_shard T start end' k n" "length start \<le> 1" "length end' \<le> 1"
    using assms(1) by (auto simp: shard_of_def)
  have "vtPrimaryKeyColumns T \<noteq> []" using assms(2) by (simp add: table_world_def table_shape_def table_iter_def)
  then have "length start \<le> length (vtPrimaryKeyColumns T)" "length end' \<le> length (vtPrimaryKeyColumns T)"
    using sh le_one_nonempty by blast+
  then show ?thesis using assms(2) sh(1)
    by (auto simp: table_world_def shard_world_def scan_world_def shard_scan_def mk_shard_def
        table_iter_def table_shape_def stored_rows_def conn_answers_def bounds_shape_def)
qed

lemma split_loop_shard_of:
  "split_loop D S T n lo hi k left start = Some shs \<Longrightarrow> length start \<le> 1 \<Longrightarrow> sh \<in> set shs \<Longrightarrow> shard_of T sh"
proof (induction left arbitrary: k start shs)
  case (Suc left)
  show ?case
  proof (cases "k < n")
    case True
    with Suc.prems obtain b rest where *: "split_loop D S T n lo hi (Suc k) left [b] = Some rest"
      "shs = mk_shard T start [b] k n # rest" by (auto split: option.splits)
    then show ?thesis using Suc.prems(2,3) Suc.IH [OF *(1)] by auto
  next
    case False
    with Suc.prems obtain rest where *: "split_loop D S T n lo hi (Suc k) left [] = Some rest"
      "shs = mk_shard T start [] k n # rest" by auto
    then show ?thesis using Suc.prems(2,3) Suc.IH [OF *(1)] by auto
  qed
qed simp

lemma ShardTable_shard_of:
  assumes "ShardTable D S conn T sent n = Some (Inr shs, sent')" "sh \<in> set shs"
  shows "shard_of T sh"
proof -
  have "shard_of T (mk_shard T [] [] 1 1 :: 'a table_shard)" by (rule shard_of_mk) simp_all
  then show ?thesis using ShardTable_cases [OF assms(1)] assms(2) split_loop_shard_of by fastforce
qed

lemma equal_keys_bound:
  assumes "three_way (dCompare D)" "length t = length g" "m \<le> length t" "m \<le> k"
    and "lex_cmp (dCompare D) (take k t) (take k g) = 0" "length b = m"
  shows "lex_cmp (dCompare D) (take m t) b = lex_cmp (dCompare D) (take m g) b"
proof -
  have "lex_cmp (dCompare D) (take m t) (take m g) = 0"
    using lex_cmp_take [of "dCompare D" m "take k t" "take k g"] assms(4,5) by (simp add: min_def)
  then show ?thesis using assms by (intro lex_cmp_eq_trans) auto
qed

text \<open>Rows with equal keys are in the same shards.\<close>

lemma same_key_same_shard:
  assumes "shard_of T sh" "table_world D T ts conn1" "table_world D T gs conn2"
    and "t \<in> set ts" "g \<in> set gs" "row_cmp D T t g = 0"
  shows "in_shard D t sh = in_shard D g sh"
proof -
  obtain start end' k n where sh: "sh = mk_shard T start end' k n" "length start \<le> 1" "length end' \<le> 1"
    using assms(1) by (auto simp: shard_of_def)
  have l: "length t = length (vtColumns T)" "length g = length (vtColumns T)" "three_way (dCompare D)"
    using assms(2-5) by (auto simp: table_world_def stored_rows_def table_iter_def list_all_iff)
  have k: "vtPrimaryKeyColumns T \<noteq> []" "length (vtPrimaryKeyColumns T) \<le> length (vtColumns T)"
    using assms(2) table_shape_npk [of "table_iter T"] by (auto simp: table_world_def table_shape_def table_iter_def)
  have "lex_cmp (dCompare D) (take (length b) t) b = lex_cmp (dCompare D) (take (length b) g) b" if "length b \<le> 1" for b
    by (rule equal_keys_bound [of D t g "length b" "length (vtPrimaryKeyColumns T)"])
       (use l k that assms(6) le_one_nonempty [OF that k(1)] in \<open>auto simp: row_cmp_def\<close>)
  then show ?thesis using sh by (simp add: in_shard_def mk_shard_def not_before_def before_end_def)
qed

lemma shard_of_fields:
  assumes "shard_of T sh"
  shows "missing_report sh = missing_report T" "extraneous_report sh = extraneous_report T"
    "mismatch_report D sh = mismatch_report D T" "row_cmp D sh = row_cmp D T" "value_cols sh = value_cols T"
  using assms
  by (auto simp: shard_of_def mk_shard_def fun_eq_iff missing_report_def extraneous_report_def mismatch_report_def
      row_cmp_def)

lemma same_key_of_shard:
  assumes "shard_of T sh" "table_world D T ts conn1" "table_world D T gs conn2"
    and "t \<in> set ts" "in_shard D t sh"
  shows "same_key D sh t (rows_in D sh gs) = same_key D T t gs"
  using same_key_same_shard [OF assms(1-4)] assms(5)
  by (auto simp: same_key_def list_ex_iff in_shard_rows shard_of_fields [OF assms(1)])

text \<open>The row reports a pair of tables calls for.\<close>

definition missing_in :: "'d datum_ops \<Rightarrow> ('x) verified_table_scheme \<Rightarrow> 'd row list \<Rightarrow> 'd row list \<Rightarrow> 'd missing_row set" where
  "missing_in D T ts gs = {missing_report T t | t. t \<in> set ts \<and> \<not> same_key D T t gs}"

definition extraneous_in :: "'d datum_ops \<Rightarrow> ('x) verified_table_scheme \<Rightarrow> 'd row list \<Rightarrow> 'd row list \<Rightarrow> 'd extraneous_row set" where
  "extraneous_in D T ts gs = {extraneous_report T g | g. g \<in> set gs \<and> \<not> same_key D T g ts}"

definition mismatching_in :: "'d datum_ops \<Rightarrow> ('x) verified_table_scheme \<Rightarrow> 'd row list \<Rightarrow> 'd row list \<Rightarrow> 'd mismatching_row set" where
  "mismatching_in D T ts gs = {mismatch_report D T t g | t g. t \<in> set ts \<and> g \<in> set gs \<and>
     row_cmp D T t g = 0 \<and> list_ex (col_differs D t g) (value_cols T)}"

lemma matched_set: "(t, g) \<in> set (matched D T ts gs) \<longleftrightarrow> t \<in> set ts \<and> g \<in> set gs \<and> row_cmp D T t g = 0"
  by (auto simp: matched_def)

text \<open>What one shard contributes.\<close>

lemma shard_contributes:
  assumes "shard_of T sh" "table_world D T ts conn1" "table_world D T gs conn2" "0 < b"
  shows "\<exists>reps. VerifyRowsOnShard D (conn1, conn2) no_limit sh b [] = Some (None, reps) \<and>
    set (missing_rows reps) = {missing_report T t | t. t \<in> set ts \<and> in_shard D t sh \<and> \<not> same_key D T t gs} \<and>
    set (extraneous_rows reps) = {extraneous_report T g | g. g \<in> set gs \<and> in_shard D g sh \<and> \<not> same_key D T g ts} \<and>
    set (mismatching_rows reps) = {mismatch_report D T t g | t g. t \<in> set ts \<and> g \<in> set gs \<and> in_shard D t sh \<and>
      row_cmp D T t g = 0 \<and> list_ex (col_differs D t g) (value_cols T)}"
proof -
  let ?reps = "dlReports (shard_listener D sh ts gs []) @ [finished_report sh (dlStats (shard_listener D sh ts gs []))]"
  note w = shard_of_world [OF assms(1,2)] shard_of_world [OF assms(1,3)]
  note f = shard_listener_facts [OF w(1) [of "fst (vtColumnOIDs sh)"] w(2) [of "snd (vtColumnOIDs sh)"], of "[]"]
  have 0: "VerifyRowsOnShard D (conn1, conn2) no_limit sh b [] = Some (None, ?reps)"
    using VerifyRowsOnShard_refines [OF w(1) w(2) assms(4)] .
  have 1: "set (missing_rows ?reps) = {missing_report T t | t. t \<in> set ts \<and> in_shard D t sh \<and> \<not> same_key D T t gs}"
    using same_key_of_shard [OF assms(1-3)]
    by (auto simp: f finished_report_def in_shard_rows shard_of_fields [OF assms(1)])
  have 2: "set (extraneous_rows ?reps) = {extraneous_report T g | g. g \<in> set gs \<and> in_shard D g sh \<and> \<not> same_key D T g ts}"
    using same_key_of_shard [OF assms(1,3,2)]
    by (auto simp: f finished_report_def in_shard_rows shard_of_fields [OF assms(1)])
  have 3: "set (mismatching_rows ?reps) = {mismatch_report D T t g | t g. t \<in> set ts \<and> g \<in> set gs \<and> in_shard D t sh \<and>
      row_cmp D T t g = 0 \<and> list_ex (col_differs D t g) (value_cols T)}"
    using same_key_same_shard [OF assms(1-3)]
    by (fastforce simp: f finished_report_def in_shard_rows shard_of_fields [OF assms(1)] matched_set)
  show ?thesis using 0 1 2 3 by blast
qed

section \<open>The shards of all tables\<close>

fun is_status :: "'d report \<Rightarrow> bool" where
  "is_status (StatusReport i) = True"
| "is_status _ = False"

lemma ShardTable_sent:
  assumes "ShardTable D S conn T (Some sent) n = Some (r, sent')"
  shows "\<exists>rs. sent' = Some (sent @ rs) \<and> list_all is_status rs"
proof -
  have fs: "\<exists>rs. snd (full_scan T n (Some sent) :: 'a table_shard list result \<times> 'a report list option) = Some (sent @ rs) \<and>
      list_all is_status rs"
    by (auto simp: full_scan_def intro: exI [of _ "[]"])
  then show ?thesis using assms
    by (auto simp: ShardTable_def split: if_splits sum.splits option.splits bind_splits intro: exI [of _ "[]"])
qed

definition shards_of_table :: "'d datum_ops \<Rightarrow> ('x) verified_table_scheme \<Rightarrow> 'd table_shard list \<Rightarrow> bool" where
  "shards_of_table D T shs \<longleftrightarrow> (\<forall>sh \<in> set shs. shard_of T sh) \<and> (\<forall>r. \<exists>sh \<in> set shs. in_shard D r sh)"

lemma shard_tables_step:
  assumes "shard_tables env n conn (T # Ts) sent = Some (sent', Inr shards)" "trRowVerifiable T"
  shows "\<exists>shs rest sent1. shards = shs @ rest \<and> shards_of_table (veDatums env) T shs \<and>
    list_all is_status sent1 \<and> shard_tables env n conn Ts (sent @ sent1) = Some (sent', Inr rest)"
proof -
  obtain r s1 where st: "ShardTable (veDatums env) (veSplit env) conn T (Some sent) n = Some (r, s1)"
    using assms by (cases "ShardTable (veDatums env) (veSplit env) conn T (Some sent) n") auto
  obtain sent1 where s1: "s1 = Some (sent @ sent1)" "list_all is_status sent1" using ShardTable_sent [OF st] by blast
  obtain shs where r: "r = Inr shs" using assms st s1 by (cases r) auto
  obtain rest where rest: "shard_tables env n conn Ts (sent @ sent1) = Some (sent', Inr rest)" "shards = shs @ rest"
    using assms st s1(1) r by (auto split: sum.splits bind_splits)
  have "shards_of_table (veDatums env) T shs"
    using ShardTable_shard_of [OF st [unfolded r]] chained_covers [OF ShardTable_chained [OF st [unfolded r]]]
    by (simp add: shards_of_table_def not_before_def)
  then show ?thesis using rest s1(2) by blast
qed

lemma shard_tables_Inr:
  assumes "shard_tables env n conn Ts sent = Some (sent', Inr shards)"
  shows "(\<exists>rs. sent' = sent @ rs \<and> list_all is_status rs) \<and>
    (\<forall>sh \<in> set shards. \<exists>T \<in> set Ts. trRowVerifiable T \<and> shard_of T sh) \<and>
    (\<forall>T \<in> set Ts. trRowVerifiable T \<longrightarrow>
      (\<exists>shs. set shs \<subseteq> set shards \<and> shards_of_table (veDatums env) T shs))"
  using assms
proof (induction Ts arbitrary: sent shards)
  case (Cons T Ts)
  show ?case
  proof (cases "trRowVerifiable T")
    case True
    obtain shs rest sent1 where *: "shards = shs @ rest" "shards_of_table (veDatums env) T shs"
      "list_all is_status sent1" "shard_tables env n conn Ts (sent @ sent1) = Some (sent', Inr rest)"
      using shard_tables_step [OF Cons.prems True] by blast
    then obtain rs where "sent' = sent @ sent1 @ rs" "list_all is_status rs" using Cons.IH [OF *(4)] by auto
    then have "\<exists>rs. sent' = sent @ rs \<and> list_all is_status rs" using *(3) by (intro exI [of _ "sent1 @ rs"]) simp
    moreover have "\<forall>sh \<in> set shards. \<exists>T \<in> set (T # Ts). trRowVerifiable T \<and> shard_of T sh"
      using *(1,2) True Cons.IH [OF *(4)] by (auto simp: shards_of_table_def)
    moreover have "\<forall>T \<in> set (T # Ts). trRowVerifiable T \<longrightarrow>
        (\<exists>shs. set shs \<subseteq> set shards \<and> shards_of_table (veDatums env) T shs)"
      using *(1,2) Cons.IH [OF *(4)] by (auto intro: exI [of _ shs]) (metis le_supI2)
    ultimately show ?thesis by blast
  next
    case False
    then show ?thesis using Cons by simp
  qed
qed simp

text \<open>Nothing reported before the goroutines start is a row report.\<close>

fun is_row_report :: "'d report \<Rightarrow> bool" where
  "is_row_report (MissingRow r) = True"
| "is_row_report (ExtraneousRow r) = True"
| "is_row_report (MismatchingRow r) = True"
| "is_row_report _ = False"

lemma verify_front_Some:
  assumes "verify_front env opts conns = Some (reps, Inr (Some (tbls, shards)))"
  shows "list_all (\<lambda>r. \<not> is_row_report r) reps"
    and "\<And>sh. sh \<in> set shards \<Longrightarrow> \<exists>T \<in> set tbls. trRowVerifiable T \<and> shard_of T sh"
    and "\<And>T. T \<in> set tbls \<Longrightarrow> trRowVerifiable T \<Longrightarrow>
      \<exists>shs. set shs \<subseteq> set shards \<and> shards_of_table (veDatums env) T shs"
proof -
  obtain allTables dbTables where
    f: "FilterResult (veRegexp env) (voDbFilter opts) allTables = Inr dbTables"
    and s: "shard_tables env (voTableSplits opts) (cnConn (fst conns)) tbls
      (map MissingTable (orMissingTables dbTables) @ map ExtraneousTable (orExtraneousTables dbTables) @
       definition_reports tbls) = Some (reps, Inr shards)"
    using assms
    by (auto simp: verify_front_def Let_def split: sum.splits bind_splits if_splits prod.splits)
  have d: "list_all (\<lambda>r. \<not> is_row_report r) (definition_reports tbls)"
    by (auto simp: definition_reports_def list_all_iff)
  have st: "list_all is_status rs \<Longrightarrow> list_all (\<lambda>r. \<not> is_row_report r) rs" for rs :: "'a report list"
  proof (induction rs)
    case (Cons r rs)
    then show ?case by (cases r) auto
  qed simp
  note r = shard_tables_Inr [OF s]
  then show "list_all (\<lambda>r. \<not> is_row_report r) reps" using d st by (auto simp: list_all_iff)
  show "\<And>sh. sh \<in> set shards \<Longrightarrow> \<exists>T \<in> set tbls. trRowVerifiable T \<and> shard_of T sh"
    "\<And>T. T \<in> set tbls \<Longrightarrow> trRowVerifiable T \<Longrightarrow>
      \<exists>shs. set shs \<subseteq> set shards \<and> shards_of_table (veDatums env) T shs"
    using r by blast+
qed

lemma row_reports_set:
  "r \<in> set (missing_rows reps) \<longleftrightarrow> MissingRow r \<in> set reps"
  "e \<in> set (extraneous_rows reps) \<longleftrightarrow> ExtraneousRow e \<in> set reps"
  "m \<in> set (mismatching_rows reps) \<longleftrightarrow> MismatchingRow m \<in> set reps"
proof -
  show "r \<in> set (missing_rows reps) \<longleftrightarrow> MissingRow r \<in> set reps" by (induction reps rule: missing_rows.induct) auto
  show "e \<in> set (extraneous_rows reps) \<longleftrightarrow> ExtraneousRow e \<in> set reps" by (induction reps rule: extraneous_rows.induct) auto
  show "m \<in> set (mismatching_rows reps) \<longleftrightarrow> MismatchingRow m \<in> set reps" by (induction reps rule: mismatching_rows.induct) auto
qed

section \<open>The reports of a whole verification\<close>

text \<open>Both connections can be cloned, nothing limits the rate, and for each verifiable table \<open>T\<close> the clones
  hold the rows \<open>c1 T\<close> and \<open>c2 T\<close>.\<close>

definition verify_world ::
  "('d, 'f) verify_env \<Rightarrow> verify_opts \<Rightarrow> 'd db_conn \<times> 'd db_conn \<Rightarrow> table_result list \<Rightarrow>
   (table_result \<Rightarrow> 'd row list) \<Rightarrow> (table_result \<Rightarrow> 'd row list) \<Rightarrow> bool" where
  "verify_world env opts conns tbls c1 c2 \<longleftrightarrow> veLimiter env opts = no_limit \<and>
     (\<exists>k1 k2. cnClone (fst conns) = Inr k1 \<and> cnClone (snd conns) = Inr k2 \<and>
       (\<forall>T \<in> set tbls. trRowVerifiable T \<longrightarrow>
          table_world (veDatums env) T (c1 T) k1 \<and> table_world (veDatums env) T (c2 T) k2))"

abbreviation verifiable :: "table_result list \<Rightarrow> table_result set" where
  "verifiable tbls \<equiv> {T \<in> set tbls. trRowVerifiable T}"

lemma shard_run_contributes:
  assumes "verify_world env opts conns tbls c1 c2" "T \<in> verifiable tbls" "shard_of T sh" "0 < voRowBatchSize opts"
  defines "D \<equiv> veDatums env"
  shows "\<exists>reps. shard_run env opts conns k sh = Some reps \<and>
    set (missing_rows reps) = {missing_report T t | t. t \<in> set (c1 T) \<and> in_shard D t sh \<and> \<not> same_key D T t (c2 T)} \<and>
    set (extraneous_rows reps) = {extraneous_report T g | g. g \<in> set (c2 T) \<and> in_shard D g sh \<and> \<not> same_key D T g (c1 T)} \<and>
    set (mismatching_rows reps) = {mismatch_report D T t g | t g. t \<in> set (c1 T) \<and> g \<in> set (c2 T) \<and> in_shard D t sh \<and>
      row_cmp D T t g = 0 \<and> list_ex (col_differs D t g) (value_cols T)}"
proof -
  obtain k1 k2 where k: "veLimiter env opts = no_limit" "cnClone (fst conns) = Inr k1" "cnClone (snd conns) = Inr k2"
    "table_world D T (c1 T) k1" "table_world D T (c2 T) k2"
    using assms(1,2) by (auto simp: verify_world_def D_def)
  obtain reps where r: "VerifyRowsOnShard D (k1, k2) no_limit sh (voRowBatchSize opts) [] = Some (None, reps)"
    "set (missing_rows reps) = {missing_report T t | t. t \<in> set (c1 T) \<and> in_shard D t sh \<and> \<not> same_key D T t (c2 T)}"
    "set (extraneous_rows reps) = {extraneous_report T g | g. g \<in> set (c2 T) \<and> in_shard D g sh \<and> \<not> same_key D T g (c1 T)}"
    "set (mismatching_rows reps) = {mismatch_report D T t g | t g. t \<in> set (c1 T) \<and> g \<in> set (c2 T) \<and> in_shard D t sh \<and>
      row_cmp D T t g = 0 \<and> list_ex (col_differs D t g) (value_cols T)}"
    using shard_contributes [OF assms(3) k(4,5) assms(4)] by blast
  have "shard_run env opts conns k sh = Some (StatusReport (start_message env opts sh k) # reps)"
    using r(1) k(1-3) by (simp add: shard_run_def verifyRowShard_def D_def)
  then show ?thesis using r(2-4) by auto
qed

lemma union_over_shards:
  assumes "\<And>sh. sh \<in> set shards \<Longrightarrow> \<exists>T \<in> V. shard_of T sh \<and> rep sh = {f T x | x. P T x \<and> in_shard D (key x) sh}"
    and "\<And>T. T \<in> V \<Longrightarrow> \<exists>shs. set shs \<subseteq> set shards \<and> shards_of_table D T shs"
    and "\<And>T sh. T \<in> V \<Longrightarrow> shard_of T sh \<Longrightarrow> sh \<in> set shards \<Longrightarrow> rep sh = {f T x | x. P T x \<and> in_shard D (key x) sh}"
  shows "(\<Union>sh \<in> set shards. rep sh) = (\<Union>T \<in> V. {f T x | x. P T x})"
proof (rule set_eqI, rule iffI)
  fix y assume "y \<in> (\<Union>sh \<in> set shards. rep sh)"
  then show "y \<in> (\<Union>T \<in> V. {f T x | x. P T x})" using assms(1) by fastforce
next
  fix y assume "y \<in> (\<Union>T \<in> V. {f T x | x. P T x})"
  then obtain T x where y: "T \<in> V" "y = f T x" "P T x" by blast
  then obtain shs where shs: "set shs \<subseteq> set shards" "shards_of_table D T shs" using assms(2) by blast
  then obtain sh where "sh \<in> set shs" "shard_of T sh" "in_shard D (key x) sh"
    unfolding shards_of_table_def by blast
  then have "y \<in> rep sh" "sh \<in> set shards" using assms(3) [OF y(1)] shs(1) y(2,3) by auto
  then show "y \<in> (\<Union>sh \<in> set shards. rep sh)" by blast
qed

lemma verify_runs:
  assumes "verify_front env opts conns = Some (front, Inr (Some (tbls, shards)))"
    and "verify_world env opts conns tbls c1 c2" "0 < voRowBatchSize opts" "sh \<in> set shards"
  shows "shard_run env opts conns k sh \<noteq> None"
  using verify_front_Some(2) [OF assms(1,4)] shard_run_contributes [OF assms(2) _ _ assms(3), of _ sh k] by blast

lemma no_row_reports:
  assumes "list_all (\<lambda>r. \<not> is_row_report r) reps"
  shows "missing_rows reps = []" "extraneous_rows reps = []" "mismatching_rows reps = []"
proof -
  show "missing_rows reps = []" using assms by (induction reps rule: missing_rows.induct) auto
  show "extraneous_rows reps = []" using assms by (induction reps rule: extraneous_rows.induct) auto
  show "mismatching_rows reps = []" using assms by (induction reps rule: mismatching_rows.induct) auto
qed

lemma pool_run_rows:
  assumes "pool_run work n items log"
  shows "set (missing_rows log) = (\<Union>q \<in> set items. set (missing_rows (work q)))"
    "set (extraneous_rows log) = (\<Union>q \<in> set items. set (extraneous_rows (work q)))"
    "set (mismatching_rows log) = (\<Union>q \<in> set items. set (mismatching_rows (work q)))"
  using pool_run_set [OF assms] by (auto simp: row_reports_set)

lemma verify_row_sets:
  assumes "verify_front env opts conns = Some (front, Inr (Some (tbls, shards)))"
    and "verify_world env opts conns tbls c1 c2" and "0 < voRowBatchSize opts"
    and "verify_run env opts conns reps err"
  defines "D \<equiv> veDatums env"
  shows "err = None"
    and "set (missing_rows reps) = (\<Union>T \<in> verifiable tbls. missing_in D T (c1 T) (c2 T))"
    and "set (extraneous_rows reps) = (\<Union>T \<in> verifiable tbls. extraneous_in D T (c1 T) (c2 T))"
    and "set (mismatching_rows reps) = (\<Union>T \<in> verifiable tbls. mismatching_in D T (c1 T) (c2 T))"
proof -
  let ?work = "\<lambda>sh. the (shard_run env opts conns 1 sh)"
  obtain log n where log: "pool_run ?work n shards log" "reps = front @ log" "err = None"
    using assms(4,1) by (auto elim!: verify_runE)
  note ft = verify_front_Some [OF assms(1)]
  note sr = shard_run_contributes [OF assms(2) _ _ assms(3), folded D_def, of _ _ 1]
  show "err = None" by (rule log(3))
  have "set (missing_rows reps) = (\<Union>sh \<in> set shards. set (missing_rows (?work sh)))"
    "set (extraneous_rows reps) = (\<Union>sh \<in> set shards. set (extraneous_rows (?work sh)))"
    "set (mismatching_rows reps) = (\<Union>sh \<in> set shards. set (mismatching_rows (?work sh)))"
    using pool_run_rows [OF log(1)] no_row_reports [OF ft(1)] log(2) by simp_all
  moreover have "(\<Union>sh \<in> set shards. set (missing_rows (?work sh))) =
      (\<Union>T \<in> verifiable tbls. {missing_report T t | t. t \<in> set (c1 T) \<and> \<not> same_key D T t (c2 T)})"
    by (rule union_over_shards [where D = D and key = "\<lambda>x. x"])
       (use ft(2,3) sr in \<open>fastforce simp: D_def\<close>)+
  moreover have "(\<Union>sh \<in> set shards. set (extraneous_rows (?work sh))) =
      (\<Union>T \<in> verifiable tbls. {extraneous_report T t | t. t \<in> set (c2 T) \<and> \<not> same_key D T t (c1 T)})"
    by (rule union_over_shards [where D = D and key = "\<lambda>x. x"])
       (use ft(2,3) sr in \<open>fastforce simp: D_def\<close>)+
  moreover have "(\<Union>sh \<in> set shards. set (mismatching_rows (?work sh))) =
      (\<Union>T \<in> verifiable tbls. {(\<lambda>(t, g). mismatch_report D T t g) p | p. fst p \<in> set (c1 T) \<and> snd p \<in> set (c2 T) \<and>
        row_cmp D T (fst p) (snd p) = 0 \<and> list_ex (col_differs D (fst p) (snd p)) (value_cols T)})"
    by (rule union_over_shards [where D = D and key = fst])
       (use ft(2,3) sr in \<open>fastforce simp: D_def\<close>)+
  ultimately show "set (missing_rows reps) = (\<Union>T \<in> verifiable tbls. missing_in D T (c1 T) (c2 T))"
    "set (extraneous_rows reps) = (\<Union>T \<in> verifiable tbls. extraneous_in D T (c1 T) (c2 T))"
    "set (mismatching_rows reps) = (\<Union>T \<in> verifiable tbls. mismatching_in D T (c1 T) (c2 T))"
    by (simp_all add: missing_in_def extraneous_in_def mismatching_in_def)
qed

text \<open>C1: end to end, the row reports are exactly the differences. When the databases answer queries as
  SQL defines them, every way the workers of \<open>Verify\<close> can interleave returns no error, and the rows
  reported missing, extraneous and mismatching are exactly those of the verifiable tables, however
  they were split into shards and paged.\<close>

theorem verify_reports_exact:
  assumes "verify_front env opts conns = Some (front, Inr (Some (tbls, shards)))"
    and "verify_world env opts conns tbls c1 c2" and "0 < voRowBatchSize opts"
    and "verify_run env opts conns reps err"
  shows "err = None \<and>
    set (missing_rows reps) = (\<Union>T \<in> verifiable tbls. missing_in (veDatums env) T (c1 T) (c2 T)) \<and>
    set (extraneous_rows reps) = (\<Union>T \<in> verifiable tbls. extraneous_in (veDatums env) T (c1 T) (c2 T)) \<and>
    set (mismatching_rows reps) = (\<Union>T \<in> verifiable tbls. mismatching_in (veDatums env) T (c1 T) (c2 T))"
  using verify_row_sets [OF assms] by blast

lemma verify_can_return:
  assumes "verify_front env opts conns = Some (front, Inr (Some (tbls, shards)))"
    and "verify_world env opts conns tbls c1 c2" and "0 < voRowBatchSize opts"
    and "\<not> voContinuous opts" and "0 < numGoroutines env opts (length shards)"
  shows "\<exists>reps. verify_run env opts conns reps None"
proof -
  obtain log where "pool_run (\<lambda>sh. the (shard_run env opts conns 1 sh)) (numGoroutines env opts (length shards)) shards log"
    using pool_runs [OF assms(5)] by blast
  moreover have "list_all (\<lambda>sh. shard_run env opts conns 1 sh \<noteq> None) shards"
    using verify_runs [OF assms(1-3)] by (simp add: list_all_iff)
  ultimately have "verify_run env opts conns (front @ log) None"
    using assms(1,4) by (intro verify_run.rows_verified) auto
  then show ?thesis by blast
qed

text \<open>C9: verification terminates. With at least one worker and outside continuous mode, over such databases
  \<open>Verify\<close> can always run to its end, and no schedule of the workers runs forever: each of their steps
  decreases a measure.\<close>

theorem verify_returns:
  assumes "verify_front env opts conns = Some (front, Inr (Some (tbls, shards)))"
    and "verify_world env opts conns tbls c1 c2" and "0 < voRowBatchSize opts"
    and "\<not> voContinuous opts" and "0 < numGoroutines env opts (length shards)"
  shows "(\<exists>reps. verify_run env opts conns reps None) \<and>
    wfP (\<lambda>s' s. pool_step (\<lambda>sh. the (shard_run env opts conns 1 sh)) s s')"
proof -
  have "wfP (\<lambda>s' s. pool_step (\<lambda>sh. the (shard_run env opts conns 1 sh)) s s')"
    by (rule wfp_if_convertible_to_nat [where f = "pool_measure (\<lambda>sh. the (shard_run env opts conns 1 sh))"])
       (rule pool_step_measure)
  with verify_can_return [OF assms] show ?thesis by blast
qed

section \<open>Two databases with one table\<close>

definition kv_catalog :: catalog where
  "kv_catalog = (catalog_of [(1, ''kv'', ''public'')])
     \<lparr>catColumns := \<lambda>t. Inr \<lparr>crRows = [Inr \<lparr>colName = ''k'', colOID = 20, colNotNull = True, colCollation = None\<rparr>,
          Inr \<lparr>colName = ''v'', colOID = 20, colNotNull = False, colCollation = None\<rparr>], crErr = None\<rparr>,
      catPrimaryKey := \<lambda>t. Inr \<lparr>crRows = [Inr ''k''], crErr = None\<rparr>\<rparr>"

definition kv_db :: "int row list \<Rightarrow> int db_conn" where
  "kv_db rows = \<lparr>cnCatalog = kv_catalog, cnConn = kv_conn rows, cnClone = Inr (kv_conn rows)\<rparr>"

definition kv_env :: "(int, int) verify_env" where
  "kv_env = \<lparr>veDatums = int_datums, veSplit = int_split, veTypes = no_types, veMapLower = (\<lambda>s. s), veSort = (\<lambda>xs. xs),
     veRange = (\<lambda>m. filter (\<lambda>c. m c \<noteq> None) [''k'', ''v'']), veRegexp = literal_engine,
     veLimiter = (\<lambda>o'. no_limit), veString = (\<lambda>d. []), veNumCPU = 4\<rparr>"

definition kv_result :: table_result where
  "kv_result = \<lparr>tnSchema = ''public'', tnTable = ''kv'', vtPrimaryKeyColumns = [''k''], vtColumns = kv_columns,
     vtColumnOIDs = ([20, 20], [20, 20]), trRowVerifiable = True, trMismatching = []\<rparr>"

lemma kv_tables:
  "VerifyCommonTables no_types (veRange kv_env) (kv_catalog, kv_catalog)
     [(mk_db_table (1, ''kv'', ''public''), mk_db_table (1, ''kv'', ''public''))] = Inr [kv_result]"
  by (simp add: getPrimaryKeysForTables_def getColumnsForTables_def both_def getPrimaryKey_def GetColumns_def
      kv_catalog_def catalog_of_def fill_collation_def verifyTable_def mapColumns_def check_column_def Let_def
      comparableType_def no_types_def enumCodec_def array_element_def add_def_def kv_env_def is_string_col_def
      add_column_def kv_result_def kv_columns_def mk_db_table_def col_oid_def)

lemma kv_listed: "dbverify_Verify lw (\<lambda>xs. xs) (kv_catalog, kv_catalog) =
    Some (Inr (empty_result\<lparr>orVerified := [(mk_db_table (1, ''kv'', ''public''), mk_db_table (1, ''kv'', ''public''))]\<rparr>))"
  by (simp add: kv_catalog_def catalog_of_def dbverify_Verify_def conn_tables_def compare_spec ti_rest_def
      append_result_def empty_result_def key_less_def cons_verified_def)

lemma kv_front:
  assumes "voTableSplits opts = 1" "voRows opts" "voDbFilter opts = DefaultFilterConfig"
    "cnCatalog c1 = kv_catalog" "cnCatalog c2 = kv_catalog"
  shows "verify_front kv_env opts (c1, c2) = Some ([], Inr (Some ([kv_result], [mk_shard kv_result [] [] 1 1])))"
proof -
  have "shard_tables kv_env 1 k [kv_result] [] = Some ([], Inr [mk_shard kv_result [] [] 1 1])" for k
    by (simp add: ShardTable_def full_scan_def kv_result_def)
  moreover have "FilterResult (veRegexp kv_env) DefaultFilterConfig r = Inr r" for r
    by (simp add: FilterResult_def DefaultFilterConfig_def)
  moreover have "veSort kv_env = (\<lambda>xs. xs)" "veTypes kv_env = no_types" by (simp_all add: kv_env_def)
  moreover have "definition_reports [kv_result] = ([] :: int report list)" by (simp add: definition_reports_def kv_result_def)
  ultimately show ?thesis using assms
    by (simp add: verify_front_def kv_listed kv_tables empty_result_def Let_def
        del: VerifyCommonTables.simps shard_tables.simps)
qed

definition kv_opts :: verify_opts where
  "kv_opts = default_opts\<lparr>voTableSplits := 1, voRowBatchSize := 2\<rparr>"

lemma kv_opts_front:
  "cnCatalog c1 = kv_catalog \<Longrightarrow> cnCatalog c2 = kv_catalog \<Longrightarrow>
    verify_front kv_env kv_opts (c1, c2) = Some ([], Inr (Some ([kv_result], [mk_shard kv_result [] [] 1 1])))"
  by (rule kv_front) (simp_all add: kv_opts_def default_opts_def)

lemma kv_verify_world:
  assumes "list_all (\<lambda>r. length r = 2) r1" "pk_sorted int_datums 1 r1"
    and "list_all (\<lambda>r. length r = 2) r2" "pk_sorted int_datums 1 r2"
  shows "verify_world kv_env opts (kv_db r1, kv_db r2) [kv_result] (\<lambda>T. r1) (\<lambda>T. r2)"
proof -
  have "table_world int_datums kv_result r (kv_conn r)" if "list_all (\<lambda>r. length r = 2) r" "pk_sorted int_datums 1 r" for r
    using that
    by (auto simp: table_world_def table_iter_def kv_result_def table_shape_def stored_rows_def conn_answers_def
        kv_conn_def kv_columns_def ColumnNames_def numeral_2_eq_2)
  then show ?thesis using assms by (auto simp: verify_world_def kv_env_def kv_db_def)
qed

lemma kv_missing:
  "missing_in int_datums kv_result [[1, 10], [2, 20]] [[2, 21], [3, 30]] = {missing_report kv_result [1, 10]}"
  by (auto simp: missing_in_def same_key_def row_cmp_def kv_result_def int_datums_def cmp_ord_def)

lemma kv_params:
  "0 < voRowBatchSize kv_opts" "\<not> voContinuous kv_opts" "0 < numGoroutines kv_env kv_opts n"
  by (simp_all add: kv_opts_def default_opts_def numGoroutines_def)

lemma kv_db_front:
  "verify_front kv_env kv_opts (kv_db r1, kv_db r2) = Some ([], Inr (Some ([kv_result], [mk_shard kv_result [] [] 1 1])))"
  by (rule kv_opts_front) (simp_all add: kv_db_def)

lemma kv_small_world:
  "verify_world kv_env opts (kv_db [[1, 10], [2, 20]], kv_db [[2, 21], [3, 30]]) [kv_result]
     (\<lambda>T. [[1, 10], [2, 20]]) (\<lambda>T. [[2, 21], [3, 30]])"
  by (rule kv_verify_world) (simp_all add: pk_sorted_def pk_less_def int_datums_def cmp_ord_def)

theorem verify_reports_exact_witness:
  "\<exists>reps. verify_run kv_env kv_opts (kv_db [[1, 10], [2, 20]], kv_db [[2, 21], [3, 30]]) reps None \<and>
     set (missing_rows reps) = {missing_report kv_result [1, 10]}"
proof -
  obtain reps where r: "verify_run kv_env kv_opts (kv_db [[1, 10], [2, 20]], kv_db [[2, 21], [3, 30]]) reps None"
    using verify_can_return [OF kv_db_front kv_small_world kv_params] by blast
  have v: "verifiable [kv_result] = {kv_result}" by (auto simp: kv_result_def)
  have "set (missing_rows reps) = missing_in int_datums kv_result [[1, 10], [2, 20]] [[2, 21], [3, 30]]"
    using verify_reports_exact [OF kv_db_front kv_small_world kv_params(1) r] unfolding v by (simp add: kv_env_def)
  with r show ?thesis using kv_missing by blast
qed

theorem verify_returns_witness:
  "\<exists>reps. verify_run kv_env kv_opts (kv_db [[1, 10], [2, 20]], kv_db [[2, 21], [3, 30]]) reps None"
  using verify_returns [OF kv_db_front kv_small_world kv_params] by blast

section \<open>Errors of the row verification\<close>

text \<open>A failed row verification looks like a clean one. When the target refuses the workers' connections
  (after the tables were compared on the existing one), \<open>Verify\<close> runs to its end, returns no error and
  reports no row at all: the error of a shard is only logged and reported as a status.\<close>

theorem shard_failure_swallowed:
  assumes "verify_front env opts conns = Some (front, Inr (Some (tbls, shards)))"
    and "cnClone (snd conns) = Inl e" and "verify_run env opts conns reps err"
  shows "err = None \<and> missing_rows reps = [] \<and> extraneous_rows reps = [] \<and> mismatching_rows reps = [] \<and>
    (\<forall>r \<in> set reps. r \<in> set front \<or> is_status r)"
proof -
  obtain log n where log: "pool_run (\<lambda>sh. the (shard_run env opts conns 1 sh)) n shards log" "reps = front @ log" "err = None"
    using assms(1,3) by (auto elim!: verify_runE)
  have run: "\<exists>rs. shard_run env opts conns 1 sh = Some rs \<and> list_all is_status rs" for sh
    using assms(2) by (cases "cnClone (fst conns)") (auto simp: shard_run_def verifyRowShard_def)
  have st: "list_all is_status (the (shard_run env opts conns 1 sh))" for sh using run [of sh] by auto
  have status: "is_status r" if "r \<in> set log" for r
    using that pool_run_set [OF log(1)] st by (auto simp: list_all_iff)
  have "\<not> is_row_report r" if "is_status r" for r :: "'a report" using that by (cases r) auto
  then have "list_all (\<lambda>r. \<not> is_row_report r) reps"
    using verify_front_Some(1) [OF assms(1)] status log(2) by (auto simp: list_all_iff)
  from no_row_reports [OF this] show ?thesis using log(2,3) status by auto
qed

definition refusing_db :: "int db_conn" where
  "refusing_db = (kv_db [])\<lparr>cnClone := Inl (ErrMsg ''too many connections'')\<rparr>"

lemma kv_refused_front:
  "verify_front kv_env kv_opts (kv_db r, refusing_db) = Some ([], Inr (Some ([kv_result], [mk_shard kv_result [] [] 1 1])))"
  by (rule kv_opts_front) (simp_all add: kv_db_def refusing_db_def)

theorem shard_failure_swallowed_witness:
  "\<exists>reps. verify_run kv_env kv_opts (kv_db kv_rows, refusing_db) reps None \<and> missing_rows reps = []"
proof -
  let ?w = "\<lambda>sh. the (shard_run kv_env kv_opts (kv_db kv_rows, refusing_db) 1 sh)"
  have l: "list_all (\<lambda>sh. shard_run kv_env kv_opts (kv_db kv_rows, refusing_db) 1 sh \<noteq> None) [mk_shard kv_result [] [] 1 1]"
    by (simp add: shard_run_def verifyRowShard_def refusing_db_def kv_db_def)
  obtain log where log: "pool_run ?w (numGoroutines kv_env kv_opts (length [mk_shard kv_result [] [] 1 1 :: int table_shard]))
      [mk_shard kv_result [] [] 1 1] log"
    using pool_runs [OF kv_params(3)] by blast
  have "verify_run kv_env kv_opts (kv_db kv_rows, refusing_db) ([] @ log) None"
    by (rule verify_run.rows_verified [OF kv_refused_front _ l log]) (simp add: kv_params(2))
  then show ?thesis
    using shard_failure_swallowed [OF kv_refused_front, of kv_rows "ErrMsg ''too many connections''" "[] @ log" None]
    by (auto simp: refusing_db_def)
qed

text \<open>A negative concurrency hangs. No guard rejects it, no worker is started, and \<open>Verify\<close> blocks forever
  sending the first shard.\<close>

theorem negative_concurrency_hangs:
  assumes "verify_front env opts conns = Some (front, Inr (Some (tbls, shards)))"
    and "shards \<noteq> []" and "\<not> voContinuous opts" and "voConcurrency opts < 0"
  shows "\<not> verify_run env opts conns reps err"
proof -
  have "numGoroutines env opts n = 0" for n using assms(3,4) by (simp add: numGoroutines_def)
  then show ?thesis using assms(1,2) by (auto elim!: verify_runE simp: no_workers_deadlock [OF assms(2)])
qed

theorem negative_concurrency_hangs_witness:
  "\<nexists>reps err. verify_run kv_env (WithConcurrency (- 1) kv_opts) (kv_db kv_rows, kv_db kv_rows) reps err"
proof -
  have "verify_front kv_env (WithConcurrency (- 1) kv_opts) (kv_db kv_rows, kv_db kv_rows) =
      Some ([], Inr (Some ([kv_result], [mk_shard kv_result [] [] 1 1])))"
    by (rule kv_front) (simp_all add: kv_opts_def default_opts_def WithConcurrency_def kv_db_def)
  from negative_concurrency_hangs [OF this] show ?thesis
    by (simp add: WithConcurrency_def kv_opts_def default_opts_def)
qed

end
