(* ===== verification/Fix_Properties.thy ===== *)
theory Fix_Properties
  imports Fix_Reporter Verify_Properties
begin

text \<open>
  When repairing works: the statements the fix reporter sends for the reports of a verification turn
  the target into a table on which the verification finds nothing, provided the unqualified name they
  carry denotes that table; and what happens when it does not.
\<close>

section \<open>The effect of a list of statements\<close>

fun row_after :: "'d datum_ops \<Rightarrow> string list \<Rightarrow> 'd dml list \<Rightarrow> 'd row \<Rightarrow> 'd row option" where
  "row_after D cols [] r = Some r"
| "row_after D cols (DUpdate t as w # ss) r = row_after D cols ss (if where_holds D cols w r then assign cols as r else r)"
| "row_after D cols (DInsert t cs vs # ss) r = row_after D cols ss r"
| "row_after D cols (DDelete t w # ss) r = (if where_holds D cols w r then None else row_after D cols ss r)"

fun inserted :: "'d datum_ops \<Rightarrow> string list \<Rightarrow> 'd dml list \<Rightarrow> 'd row set" where
  "inserted D cols [] = {}"
| "inserted D cols (DInsert t cs vs # ss) =
     set_option (row_after D cols ss (map (\<lambda>c. the (map_of (zip cs vs) c)) cols)) \<union> inserted D cols ss"
| "inserted D cols (s # ss) = inserted D cols ss"

lemma fold_dml_rows:
  "set (fold (dml_rows D cols) ss rows) = {r'. \<exists>r \<in> set rows. row_after D cols ss r = Some r'} \<union> inserted D cols ss"
proof (induction ss arbitrary: rows)
  case (Cons s ss)
  then show ?case by (cases s) (auto simp: elem_set simp del: if_image_distrib)
qed auto

section \<open>Keys\<close>

definition key_eq :: "'d datum_ops \<Rightarrow> ('x) verified_table_scheme \<Rightarrow> 'd row \<Rightarrow> 'd row \<Rightarrow> bool" where
  "key_eq D T a b \<longleftrightarrow> row_cmp D T a b = 0"

lemma key_eq_sym: "three_way (dCompare D) \<Longrightarrow> key_eq D T a b \<longleftrightarrow> key_eq D T b a"
  using row_cmp_flip [of D T a b] by (auto simp: key_eq_def)

lemma key_eq_trans:
  assumes "three_way (dCompare D)" "keyed T" "full_row T a" "full_row T b" "full_row T c" "key_eq D T a b" "key_eq D T b c"
  shows "key_eq D T a c"
  using assms lex_cmp_eq_trans [of "dCompare D" "take (length (vtPrimaryKeyColumns T)) a" "take (length (vtPrimaryKeyColumns T)) b"
      "take (length (vtPrimaryKeyColumns T)) c"]
  by (simp add: key_eq_def row_cmp_def full_row_def keyed_def)

lemma key_unique:
  assumes "comparable D T rs" "a \<in> set rs" "b \<in> set rs" "key_eq D T a b"
  shows "a = b"
proof (rule ccontr)
  assume "a \<noteq> b"
  obtain i k where ik: "i < length rs" "k < length rs" "a = rs ! i" "b = rs ! k"
    using assms(2,3) by (metis in_set_conv_nth)
  have s: "sorted_wrt (pk_less D (length (vtPrimaryKeyColumns T))) rs" and tw: "three_way (dCompare D)"
    using assms(1) by (simp_all add: comparable_def pk_sorted_def)
  from \<open>a \<noteq> b\<close> ik have "i < k \<or> k < i" by (metis nat_neq_iff)
  then have "row_cmp D T a b = - 1 \<or> row_cmp D T b a = - 1"
    using sorted_wrt_nth_less [OF s] ik by (auto simp: pk_less_def row_cmp_def)
  then show False using assms(4) row_cmp_flip [OF tw, of T b a] by (auto simp: key_eq_def)
qed

section \<open>Patched rows\<close>

definition patch_cols :: "'d datum_ops \<Rightarrow> ('x) verified_table_scheme \<Rightarrow> 'd row \<Rightarrow> 'd row \<Rightarrow> nat list" where
  "patch_cols D T t g = filter (col_differs D t g) (value_cols T)"

definition patched :: "'d datum_ops \<Rightarrow> ('x) verified_table_scheme \<Rightarrow> 'd row \<Rightarrow> 'd row \<Rightarrow> 'd row" where
  "patched D T t g = map (\<lambda>i. if i \<in> set (patch_cols D T t g) then t ! i else g ! i) [0..<length g]"

lemma map_of_columns:
  assumes "distinct cols" "u < length cols" "\<forall>v \<in> set is. v < length cols"
  shows "map_of (map (\<lambda>v. (cols ! v, t ! v)) is) (cols ! u) = (if u \<in> set is then Some (t ! u) else None)"
  using assms(3) by (induction "is") (auto simp: nth_eq_iff_index_eq [OF assms(1)] assms(2))

lemma patch_cols_bound: "\<forall>v \<in> set (patch_cols D T t g). v < length (ColumnNames (vtColumns T))"
  by (auto simp: patch_cols_def)

lemma assign_patch:
  assumes "distinct (ColumnNames (vtColumns T))" "full_row T r"
  shows "assign (ColumnNames (vtColumns T)) (zip (map (\<lambda>v. ColumnNames (vtColumns T) ! v) (patch_cols D T t g))
      (map (\<lambda>v. t ! v) (patch_cols D T t g))) r =
    map (\<lambda>i. if i \<in> set (patch_cols D T t g) then t ! i else r ! i) [0..<length r]"
  using map_of_columns [OF assms(1) _ patch_cols_bound [of D T t g], where t = t] assms(2)
  by (auto simp: assign_def zip_map_map zip_same_conv_map full_row_def o_def intro!: nth_equalityI)

lemma patched_props:
  assumes "full_row T g"
  shows "full_row T (patched D T t g)" "key_eq D T a (patched D T t g) = key_eq D T a g"
    "key_eq D T (patched D T t g) a = key_eq D T g a"
    "v < length g \<Longrightarrow> patched D T t g ! v = (if v \<in> set (patch_cols D T t g) then t ! v else g ! v)"
    "map (\<lambda>i. if i \<in> set (patch_cols D T t g) then t ! i else patched D T t g ! i) [0..<length (patched D T t g)] = patched D T t g"
proof -
  have "take (length (vtPrimaryKeyColumns T)) (patched D T t g) = take (length (vtPrimaryKeyColumns T)) g"
    by (auto simp: patched_def patch_cols_def intro!: nth_equalityI)
  then show "key_eq D T a (patched D T t g) = key_eq D T a g" "key_eq D T (patched D T t g) a = key_eq D T g a"
    by (simp_all add: key_eq_def row_cmp_def)
qed (use assms in \<open>auto simp: patched_def full_row_def intro!: nth_equalityI\<close>)

lemma patched_equal:
  assumes "full_row T g" "\<And>d. dCompareError D d d = Inr 0"
  shows "\<not> list_ex (col_differs D t (patched D T t g)) (value_cols T)"
proof -
  have "\<not> col_differs D t (patched D T t g) v" if v: "v \<in> set (value_cols T)" for v
  proof (cases "v \<in> set (patch_cols D T t g)")
    case True
    then have "patched D T t g ! v = t ! v" using v assms(1) by (simp add: patched_props full_row_def)
    then show ?thesis using assms(2) by (simp add: col_differs_def col_result_def preprocess_same)
  next
    case False
    then have "patched D T t g ! v = g ! v" "\<not> col_differs D t g v"
      using v assms(1) by (simp_all add: patched_props full_row_def patch_cols_def)
    then show ?thesis by (simp add: col_differs_def col_result_def)
  qed
  then show ?thesis by (simp add: list_ex_iff)
qed

lemma patched_same: "\<not> list_ex (col_differs D t g) (value_cols T) \<Longrightarrow> patched D T t g = g"
  by (auto simp: patched_def patch_cols_def list_ex_iff intro!: nth_equalityI)

section \<open>Sound and complete repairs\<close>

definition selects_key :: "'d datum_ops \<Rightarrow> ('x) verified_table_scheme \<Rightarrow> 'd row \<Rightarrow> 'd expr option \<Rightarrow> bool" where
  "selects_key D T g w \<longleftrightarrow>
     (\<forall>r. full_row T r \<longrightarrow> where_holds D (ColumnNames (vtColumns T)) w r = key_eq D T r g)"

text \<open>Each statement repairs a difference of \<open>ts\<close> and \<open>gs\<close>.\<close>

fun repairs :: "'d datum_ops \<Rightarrow> ('x) verified_table_scheme \<Rightarrow> 'd row list \<Rightarrow> 'd row list \<Rightarrow> 'd dml \<Rightarrow> bool" where
  "repairs D T ts gs (DUpdate n as w) =
     (n = tnTable T \<and> (\<exists>t \<in> set ts. \<exists>g \<in> set gs. key_eq D T t g \<and> selects_key D T g w \<and>
        as = zip (map (\<lambda>v. ColumnNames (vtColumns T) ! v) (patch_cols D T t g)) (map (\<lambda>v. t ! v) (patch_cols D T t g))))"
| "repairs D T ts gs (DInsert n cs vs) =
     (n = tnTable T \<and> (\<exists>t \<in> set ts. \<not> same_key D T t gs \<and> cs = ColumnNames (vtColumns T) \<and> vs = t))"
| "repairs D T ts gs (DDelete n w) =
     (n = tnTable T \<and> (\<exists>g \<in> set gs. \<not> same_key D T g ts \<and> selects_key D T g w))"

lemma repairs_table: "list_all (repairs D T ts gs) ss \<Longrightarrow> list_all (\<lambda>s. dml_table s = tnTable T) ss"
proof (induction ss)
  case (Cons s ss)
  then show ?case by (cases s) auto
qed simp

fun updates_key :: "'d datum_ops \<Rightarrow> ('x) verified_table_scheme \<Rightarrow> 'd row \<Rightarrow> 'd dml \<Rightarrow> bool" where
  "updates_key D T g (DUpdate n as w) = selects_key D T g w"
| "updates_key D T g _ = False"

fun deletes_key :: "'d datum_ops \<Rightarrow> ('x) verified_table_scheme \<Rightarrow> 'd row \<Rightarrow> 'd dml \<Rightarrow> bool" where
  "deletes_key D T g (DDelete n w) = selects_key D T g w"
| "deletes_key D T g _ = False"

lemma same_key_eq: "same_key D T t gs \<longleftrightarrow> (\<exists>g \<in> set gs. key_eq D T t g)"
  by (simp add: same_key_def list_ex_iff key_eq_def)

lemma comparable_rows: "comparable D T rs \<Longrightarrow> r \<in> set rs \<Longrightarrow> full_row T r"
  by (simp add: comparable_def list_all_iff)

lemma comparable_key: "comparable D T rs \<Longrightarrow> three_way (dCompare D)" "comparable D T rs \<Longrightarrow> keyed T"
  by (simp_all add: comparable_def)

lemma key_eq_refl: "three_way (dCompare D) \<Longrightarrow> key_eq D T a a"
  by (simp add: key_eq_def row_cmp_def lex_cmp_refl)

lemma partner_unique:
  assumes "comparable D T ts" "comparable D T gs" "t \<in> set ts" "t0 \<in> set ts" "g \<in> set gs" "key_eq D T t g" "key_eq D T t0 g"
  shows "t0 = t"
proof -
  note c = comparable_key [OF assms(1)] and f = comparable_rows [OF assms(1)] comparable_rows [OF assms(2)]
  have "key_eq D T g t" using assms(6) key_eq_sym [OF c(1)] by blast
  then have "key_eq D T t0 t" using key_eq_trans [OF c f(1) [OF assms(4)] f(2) [OF assms(5)] f(1) [OF assms(3)] assms(7)] by blast
  then show ?thesis using key_unique [OF assms(1,4,3)] by blast
qed

text \<open>A target row with a partner ends as itself or patched; patched if a statement updates its key.\<close>

lemma row_after_partner:
  assumes "comparable D T ts" "comparable D T gs" "distinct (ColumnNames (vtColumns T))"
    and "t \<in> set ts" "g \<in> set gs" "key_eq D T t g"
    and "list_all (repairs D T ts gs) ss" "r = g \<or> r = patched D T t g"
  shows "row_after D (ColumnNames (vtColumns T)) ss r \<in> {Some r, Some (patched D T t g)} \<and>
    (list_ex (updates_key D T g) ss \<longrightarrow> row_after D (ColumnNames (vtColumns T)) ss r = Some (patched D T t g))"
  using assms(7,8)
proof (induction ss arbitrary: r)
  case (Cons s ss)
  have rg: "full_row T r" "key_eq D T r x \<longleftrightarrow> key_eq D T g x" for x
    using Cons.prems(2) patched_props [OF comparable_rows [OF assms(2,5)]] comparable_rows [OF assms(2,5)] by auto
  have IH: "row_after D (ColumnNames (vtColumns T)) ss x \<in> {Some x, Some (patched D T t g)} \<and>
      (list_ex (updates_key D T g) ss \<longrightarrow> row_after D (ColumnNames (vtColumns T)) ss x = Some (patched D T t g))"
    if "x = g \<or> x = patched D T t g" for x using Cons.IH that Cons.prems(1) by simp
  show ?case
  proof (cases s)
    case (DUpdate n as w)
    obtain t0 g0 where tg: "t0 \<in> set ts" "g0 \<in> set gs" "key_eq D T t0 g0" "selects_key D T g0 w"
      "as = zip (map (\<lambda>v. ColumnNames (vtColumns T) ! v) (patch_cols D T t0 g0)) (map (\<lambda>v. t0 ! v) (patch_cols D T t0 g0))"
      using Cons.prems(1) DUpdate by auto
    show ?thesis
    proof (cases "key_eq D T g g0")
      case True
      then have g0: "g0 = g" using key_unique [OF assms(2,5) tg(2)] by simp
      then have t0: "t0 = t" using partner_unique [OF assms(1,2,4) tg(1) assms(5,6)] tg(3) by simp
      have "assign (ColumnNames (vtColumns T)) as r = patched D T t g"
        unfolding tg(5) t0 g0 assign_patch [OF assms(3) rg(1)]
        using Cons.prems(2) patched_props(5) [OF comparable_rows [OF assms(2,5)]] by (auto simp: patched_def)
      moreover have "where_holds D (ColumnNames (vtColumns T)) w r"
        using tg(4) rg True by (simp add: selects_key_def)
      ultimately show ?thesis using DUpdate IH [of "patched D T t g"] by auto
    next
      case False
      then have "\<not> where_holds D (ColumnNames (vtColumns T)) w r" using tg(4) rg by (simp add: selects_key_def)
      moreover have "\<not> updates_key D T g s"
      proof
        assume "updates_key D T g s"
        then have "selects_key D T g w" using DUpdate by simp
        then have "where_holds D (ColumnNames (vtColumns T)) w r"
          using rg key_eq_refl [OF comparable_key(1) [OF assms(1)]] by (auto simp: selects_key_def)
        then show False using calculation by simp
      qed
      ultimately show ?thesis using DUpdate IH [OF Cons.prems(2)] by simp
    qed
  next
    case (DInsert n cs vs)
    then show ?thesis using IH [OF Cons.prems(2)] by simp
  next
    case (DDelete n w)
    obtain g0 where g0: "g0 \<in> set gs" "\<not> same_key D T g0 ts" "selects_key D T g0 w"
      using Cons.prems(1) DDelete by auto
    have "\<not> key_eq D T g g0"
    proof
      assume "key_eq D T g g0"
      then have "g0 = g" using key_unique [OF assms(2,5) g0(1)] by simp
      then show False using g0(2) assms(4,6) key_eq_sym [OF comparable_key(1) [OF assms(1)]]
        by (auto simp: same_key_eq)
    qed
    then have "\<not> where_holds D (ColumnNames (vtColumns T)) w r" using g0(3) rg by (simp add: selects_key_def)
    then show ?thesis using DDelete IH [OF Cons.prems(2)] by simp
  qed
qed auto

text \<open>No statement touches a row whose key the target does not have.\<close>

lemma row_after_missing:
  assumes "comparable D T ts" "comparable D T gs" "t \<in> set ts" "\<not> same_key D T t gs" "list_all (repairs D T ts gs) ss"
  shows "row_after D (ColumnNames (vtColumns T)) ss t = Some t"
  using assms(5)
proof (induction ss)
  case (Cons s ss)
  have "\<not> where_holds D (ColumnNames (vtColumns T)) w t" if "g \<in> set gs" "selects_key D T g w" for g w
    using that assms(3,4) comparable_rows [OF assms(1,3)] by (auto simp: selects_key_def same_key_eq)
  then show ?case using Cons by (cases s) auto
qed simp

lemma row_after_extraneous:
  assumes "comparable D T ts" "comparable D T gs" "g \<in> set gs" "\<not> same_key D T g ts" "list_all (repairs D T ts gs) ss"
    "list_ex (deletes_key D T g) ss"
  shows "row_after D (ColumnNames (vtColumns T)) ss g = None"
  using assms(5,6)
proof (induction ss)
  case (Cons s ss)
  show ?case
  proof (cases s)
    case (DUpdate n as w)
    obtain t0 g0 where tg: "t0 \<in> set ts" "g0 \<in> set gs" "key_eq D T t0 g0" "selects_key D T g0 w"
      using Cons.prems(1) DUpdate by auto
    have "\<not> key_eq D T g g0"
    proof
      assume "key_eq D T g g0"
      then have "g0 = g" using key_unique [OF assms(2,3) tg(2)] by simp
      then show False using tg(1,3) assms(4) key_eq_sym [OF comparable_key(1) [OF assms(1)]] by (auto simp: same_key_eq)
    qed
    then show ?thesis using DUpdate Cons tg(4) comparable_rows [OF assms(2,3)] by (simp add: selects_key_def)
  next
    case (DInsert n cs vs)
    then show ?thesis using Cons by simp
  next
    case (DDelete n w)
    show ?thesis
    proof (cases "where_holds D (ColumnNames (vtColumns T)) w g")
      case False
      then have "\<not> deletes_key D T g s" using DDelete comparable_rows [OF assms(2,3)]
          key_eq_refl [OF comparable_key(1) [OF assms(1)]] by (auto simp: selects_key_def)
      then show ?thesis using DDelete Cons False by simp
    qed (simp add: DDelete)
  qed
qed simp

lemma inserted_rows:
  assumes "comparable D T ts" "comparable D T gs" "distinct (ColumnNames (vtColumns T))" "list_all (repairs D T ts gs) ss"
  shows "inserted D (ColumnNames (vtColumns T)) ss = {t. \<exists>n. DInsert n (ColumnNames (vtColumns T)) t \<in> set ss}"
  using assms(4)
proof (induction ss)
  case (Cons s ss)
  have IH: "inserted D (ColumnNames (vtColumns T)) ss = {t. \<exists>n. DInsert n (ColumnNames (vtColumns T)) t \<in> set ss}"
    using Cons by simp
  show ?case
  proof (cases s)
    case (DInsert n cs vs)
    then have t: "vs \<in> set ts" "\<not> same_key D T vs gs" "cs = ColumnNames (vtColumns T)" using Cons.prems by auto
    have "length vs = length (ColumnNames (vtColumns T))" using comparable_rows [OF assms(1) t(1)] by (simp add: full_row_def)
    then have "map (\<lambda>c. the (map_of (zip cs vs) c)) (ColumnNames (vtColumns T)) = vs"
      unfolding t(3) using map_of_zip_nth_distinct [OF assms(3), of vs] by (auto intro!: nth_equalityI)
    moreover have "row_after D (ColumnNames (vtColumns T)) ss vs = Some vs"
      using row_after_missing [OF assms(1,2) t(1,2)] Cons.prems by simp
    ultimately show ?thesis using DInsert IH t(3) by auto
  qed (use IH in auto)
qed simp

definition covers :: "'d datum_ops \<Rightarrow> ('x) verified_table_scheme \<Rightarrow> 'd row list \<Rightarrow> 'd row list \<Rightarrow> 'd dml list \<Rightarrow> bool" where
  "covers D T ts gs ss \<longleftrightarrow>
     (\<forall>t \<in> set ts. \<not> same_key D T t gs \<longrightarrow> (\<exists>n. DInsert n (ColumnNames (vtColumns T)) t \<in> set ss)) \<and>
     (\<forall>t \<in> set ts. \<forall>g \<in> set gs. key_eq D T t g \<longrightarrow> list_ex (col_differs D t g) (value_cols T) \<longrightarrow>
        list_ex (updates_key D T g) ss) \<and>
     (\<forall>g \<in> set gs. \<not> same_key D T g ts \<longrightarrow> list_ex (deletes_key D T g) ss)"

text \<open>The rows after the repair: a truth row the target did not have, or what became of a target row with a
  partner.\<close>

lemma repaired_rows:
  assumes "comparable D T ts" "comparable D T gs" "distinct (ColumnNames (vtColumns T))"
    and "list_all (repairs D T ts gs) ss" "covers D T ts gs ss"
    and "r \<in> set (fold (dml_rows D (ColumnNames (vtColumns T))) ss gs)"
  obtains (kept) t g where "t \<in> set ts" "g \<in> set gs" "key_eq D T t g" "r = patched D T t g"
  | (new) "r \<in> set ts" "\<not> same_key D T r gs"
proof -
  let ?cols = "ColumnNames (vtColumns T)"
  consider (old) g where "g \<in> set gs" "row_after D ?cols ss g = Some r" | (ins) n where "DInsert n ?cols r \<in> set ss"
    using assms(6) unfolding fold_dml_rows inserted_rows [OF assms(1-4)] by blast
  then show thesis
  proof cases
    case old
    have "same_key D T g ts"
    proof (rule ccontr)
      assume n: "\<not> same_key D T g ts"
      then have "row_after D ?cols ss g = None"
        using row_after_extraneous [OF assms(1,2) old(1) _ assms(4)] assms(5) old(1) unfolding covers_def by blast
      then show False using old(2) by simp
    qed
    then obtain t where t: "t \<in> set ts" "key_eq D T t g"
      using key_eq_sym [OF comparable_key(1) [OF assms(1)]] unfolding same_key_eq by blast
    note after = row_after_partner [OF assms(1-3) t(1) old(1) t(2) assms(4), of g]
    have "r = patched D T t g"
    proof (cases "list_ex (col_differs D t g) (value_cols T)")
      case True
      then have "list_ex (updates_key D T g) ss" using assms(5) t old(1) unfolding covers_def by blast
      then show ?thesis using after old(2) by simp
    next
      case False
      then show ?thesis using after old(2) patched_same [OF False] by auto
    qed
    then show ?thesis using kept t old(1) by blast
  next
    case ins
    then show ?thesis using assms(4) new by (auto simp: list_all_iff)
  qed
qed

lemma repair_leaves_no_difference:
  assumes "comparable D T ts" "comparable D T gs" "distinct (ColumnNames (vtColumns T))"
    and "list_all (repairs D T ts gs) ss" "covers D T ts gs ss" "\<And>d. dCompareError D d d = Inr 0"
  defines "gs' \<equiv> fold (dml_rows D (ColumnNames (vtColumns T))) ss gs"
  shows "missing_in D T ts gs' = {}" "extraneous_in D T ts gs' = {}" "mismatching_in D T ts gs' = {}"
proof -
  let ?cols = "ColumnNames (vtColumns T)"
  note tw = comparable_key(1) [OF assms(1)]
  have "same_key D T t gs'" if t: "t \<in> set ts" for t
  proof (cases "same_key D T t gs")
    case True
    then obtain g where g: "g \<in> set gs" "key_eq D T t g" by (auto simp: same_key_eq)
    then obtain r where "row_after D ?cols ss g = Some r" "r = g \<or> r = patched D T t g"
      using row_after_partner [OF assms(1-3) t g assms(4), of g] by auto
    then have "r \<in> set gs'" "key_eq D T t r"
      using g patched_props(2) [OF comparable_rows [OF assms(2) g(1)]] by (auto simp: gs'_def fold_dml_rows)
    then show ?thesis by (auto simp: same_key_eq)
  next
    case False
    then obtain n where "DInsert n ?cols t \<in> set ss" using assms(5) t unfolding covers_def by blast
    then have "t \<in> set gs'" unfolding gs'_def fold_dml_rows inserted_rows [OF assms(1-4)] by blast
    then show ?thesis using key_eq_refl [OF tw] by (auto simp: same_key_eq)
  qed
  then show "missing_in D T ts gs' = {}" by (auto simp: missing_in_def)
  have "same_key D T r ts" if r: "r \<in> set gs'" for r
  proof (rule repaired_rows [OF assms(1-5) r [unfolded gs'_def]])
    fix t g
    assume kept: "t \<in> set ts" "g \<in> set gs" "key_eq D T t g" "r = patched D T t g"
    then have "key_eq D T r t"
      using patched_props(3) [OF comparable_rows [OF assms(2) kept(2)]] key_eq_sym [OF tw, of T] by blast
    then show ?thesis using kept(1) by (auto simp: same_key_eq)
  next
    assume "r \<in> set ts"
    then show ?thesis using key_eq_refl [OF tw] by (auto simp: same_key_eq)
  qed
  then show "extraneous_in D T ts gs' = {}" by (auto simp: extraneous_in_def)
  have "\<not> list_ex (col_differs D t r) (value_cols T)" if t: "t \<in> set ts" "key_eq D T t r" and r: "r \<in> set gs'" for t r
  proof (rule repaired_rows [OF assms(1-5) r [unfolded gs'_def]])
    fix t0 g
    assume kept: "t0 \<in> set ts" "g \<in> set gs" "key_eq D T t0 g" "r = patched D T t0 g"
    then have "key_eq D T t g" using t(2) patched_props(2) [OF comparable_rows [OF assms(2) kept(2)]] by simp
    then have "t = t0" using partner_unique [OF assms(1,2) kept(1) t(1) kept(2,3)] by blast
    then show ?thesis using patched_equal [OF comparable_rows [OF assms(2) kept(2)] assms(6)] kept(4) by simp
  next
    assume "r \<in> set ts"
    then have "t = r" using key_unique [OF assms(1) t(1) _ t(2)] by blast
    then show ?thesis using assms(6) by (simp add: list_ex_iff col_differs_def col_result_same)
  qed
  then show "mismatching_in D T ts gs' = {}" by (auto simp: mismatching_in_def key_eq_def)
qed

section \<open>The statements of the reports\<close>

lemma where_selects_key:
  assumes "distinct (ColumnNames (vtColumns T))" "vtPrimaryKeyColumns T = take (length (vtPrimaryKeyColumns T)) (ColumnNames (vtColumns T))"
    and "keyed T" "full_row T g"
  shows "\<exists>w. buildWhereClause (vtPrimaryKeyColumns T) (take (length (vtPrimaryKeyColumns T)) g) = Some w \<and> selects_key D T g w"
proof -
  let ?n = "length (vtPrimaryKeyColumns T)" and ?cols = "ColumnNames (vtColumns T)"
  have n: "?n \<le> length ?cols" "length (take ?n g) = ?n" using assms(3,4) by (simp_all add: keyed_def full_row_def)
  obtain w where w: "buildWhereClause (vtPrimaryKeyColumns T) (take ?n g) = Some w"
    "\<forall>r. where_holds D ?cols w r \<longleftrightarrow> eq_all D ?cols r (vtPrimaryKeyColumns T) (take ?n g)"
    using buildWhereClause_holds [of "vtPrimaryKeyColumns T" "take ?n g" D ?cols] n(2) by auto
  have "where_holds D ?cols w r = key_eq D T r g" if "full_row T r" for r
  proof -
    have "length r = length ?cols" using that by (simp add: full_row_def)
    from eq_all_take [OF assms(1) this n(1,2), of D] show ?thesis
      using w(2) assms(2) by (metis key_eq_def row_cmp_def)
  qed
  then show ?thesis using w(1) by (auto simp: selects_key_def)
qed

lemma fix_all_statements:
  assumes "\<And>obj. obj \<in> set objs \<Longrightarrow> fix_statement obj \<noteq> None" "\<And>s. exec s = None"
  shows "\<exists>fx'. fix_all True exec objs fx = Some fx' \<and>
    fxExecuted fx' = fxExecuted fx @ List.map_filter (\<lambda>obj. the (fix_statement obj)) objs"
  using assms(1)
proof (induction objs arbitrary: fx)
  case (Cons obj objs)
  have e: "fxExecuted (count_fixup obj y) = fxExecuted y" for y :: "'a fixer"
    by (auto simp: count_fixup_def split: option.splits)
  obtain s where s: "fix_statement obj = Some s" using Cons.prems by fastforce
  define fx1 where "fx1 = (case s of None \<Rightarrow> fx | Some stmt \<Rightarrow> count_fixup obj (fx\<lparr>fxExecuted := fxExecuted fx @ [stmt]\<rparr>))"
  have "FixReporter_Report True exec obj fx = Some fx1"
    using s assms(2) by (cases s) (simp_all add: FixReporter_Report_def fx1_def)
  moreover have "fxExecuted fx1 = fxExecuted fx @ (case s of None \<Rightarrow> [] | Some x \<Rightarrow> [x])"
    by (simp add: fx1_def e split: option.splits)
  ultimately show ?case using Cons.IH [of fx1] Cons.prems s by (cases s) (auto simp: List.map_filter_simps)
qed (simp add: List.map_filter_simps)

text \<open>A report that calls for a repair of \<open>ts\<close> and \<open>gs\<close>, and its statement.\<close>

definition calls_repair :: "'d datum_ops \<Rightarrow> ('x) verified_table_scheme \<Rightarrow> 'd row list \<Rightarrow> 'd row list \<Rightarrow> 'd report \<Rightarrow> bool" where
  "calls_repair D T ts gs obj \<longleftrightarrow>
     (case obj of MissingRow m \<Rightarrow> m \<in> missing_in D T ts gs | ExtraneousRow m \<Rightarrow> m \<in> extraneous_in D T ts gs
      | MismatchingRow m \<Rightarrow> m \<in> mismatching_in D T ts gs | _ \<Rightarrow> True)"

lemma fix_missing: "full_row T t \<Longrightarrow>
    fix_statement (MissingRow (missing_report T t)) = Some (Some (DInsert (tnTable T) (ColumnNames (vtColumns T)) t))"
  by (simp add: missing_report_def full_row_def)

lemma fix_extraneous:
  assumes "distinct (ColumnNames (vtColumns T))" "vtPrimaryKeyColumns T = take (length (vtPrimaryKeyColumns T)) (ColumnNames (vtColumns T))"
    and "keyed T" "full_row T g"
  shows "\<exists>w. fix_statement (ExtraneousRow (extraneous_report T g)) = Some (Some (DDelete (tnTable T) w)) \<and> selects_key D T g w"
  using where_selects_key [OF assms, of D] by (auto simp: extraneous_report_def)

lemma fix_mismatch:
  assumes "distinct (ColumnNames (vtColumns T))" "vtPrimaryKeyColumns T = take (length (vtPrimaryKeyColumns T)) (ColumnNames (vtColumns T))"
    and "keyed T" "full_row T g"
  shows "\<exists>w. fix_statement (MismatchingRow (mismatch_report D T t g)) =
      Some (Some (DUpdate (tnTable T) (zip (map (\<lambda>v. ColumnNames (vtColumns T) ! v) (patch_cols D T t g))
        (map (\<lambda>v. t ! v) (patch_cols D T t g))) w)) \<and> selects_key D T g w"
  using where_selects_key [OF assms, of D] by (auto simp: mismatch_report_def patch_cols_def Let_def)

lemma statement_repairs:
  assumes "distinct (ColumnNames (vtColumns T))" "vtPrimaryKeyColumns T = take (length (vtPrimaryKeyColumns T)) (ColumnNames (vtColumns T))"
    and "comparable D T ts" "comparable D T gs" "calls_repair D T ts gs obj"
  shows "\<exists>s. fix_statement obj = Some s \<and> (\<forall>x. s = Some x \<longrightarrow> repairs D T ts gs x)"
proof -
  note k = comparable_key(2) [OF assms(3)]
  show ?thesis
  proof (cases obj)
    case (MissingRow m)
    then obtain t where t: "t \<in> set ts" "\<not> same_key D T t gs" "m = missing_report T t"
      using assms(5) by (auto simp: calls_repair_def missing_in_def)
    show ?thesis unfolding MissingRow t(3) fix_missing [OF comparable_rows [OF assms(3) t(1)]] using t(1,2) by auto
  next
    case (ExtraneousRow m)
    then obtain g where g: "g \<in> set gs" "\<not> same_key D T g ts" "m = extraneous_report T g"
      using assms(5) by (auto simp: calls_repair_def extraneous_in_def)
    then show ?thesis using ExtraneousRow fix_extraneous [OF assms(1,2) k comparable_rows [OF assms(4) g(1)], of D] by fastforce
  next
    case (MismatchingRow m)
    then obtain t g where g: "t \<in> set ts" "g \<in> set gs" "key_eq D T t g" "m = mismatch_report D T t g"
      using assms(5) by (auto simp: calls_repair_def mismatching_in_def key_eq_def)
    then show ?thesis using MismatchingRow fix_mismatch [OF assms(1,2) k comparable_rows [OF assms(4) g(2)], of D t] by fastforce
  qed auto
qed

lemma set_map_filter_the:
  "fix_statement obj = Some (Some x) \<Longrightarrow> obj \<in> set objs \<Longrightarrow> x \<in> set (List.map_filter (\<lambda>obj. the (fix_statement obj)) objs)"
  by (induction objs) (auto simp: List.map_filter_simps split: option.splits)

lemma statement_listed:
  "fix_statement obj = Some (Some x) \<Longrightarrow> obj \<in> set objs \<Longrightarrow> P x \<Longrightarrow>
   list_ex P (List.map_filter (\<lambda>obj. the (fix_statement obj)) objs)"
  unfolding list_ex_iff by (rule bexI [OF _ set_map_filter_the])

lemma in_statements:
  "x \<in> set (List.map_filter (\<lambda>obj. the (fix_statement obj)) objs) \<Longrightarrow> \<exists>obj \<in> set objs. the (fix_statement obj) = Some x"
  by (induction objs) (auto simp: List.map_filter_simps split: option.splits)

text \<open>C11: fixing repairs the target. When every report of a full verification of a table goes to the fix
  reporter, the target executes its statements, the unqualified name they carry denotes that table in
  the target's search path, and the verified columns are all columns of the table, then the repaired
  table has no difference left (a verification of it finds no missing, extraneous or mismatching row)
  and every other table is as it was. The condition on the search path is needed: the statements drop
  the schema.\<close>

theorem fixup_repairs_target:
  assumes "table_world D T ts conn1" and "table_world D T (db (tnSchema T, tnTable T)) conn2" and "0 < b"
    and "\<forall>d. dCompareError D d d = Inr 0" and "\<forall>s. exec s = None"
    and "resolve (tnTable T) = (tnSchema T, tnTable T)"
    and "columns (tnSchema T, tnTable T) = ColumnNames (vtColumns T)"
  shows "\<exists>reps fx. VerifyRowsOnShard D (conn1, conn2) no_limit (mk_shard T [] [] 1 1) b [] = Some (None, reps) \<and>
    fix_all True exec reps \<lparr>fxExecuted = [], fxMetrics = []\<rparr> = Some fx \<and>
    (let db' = fold (apply_dml D resolve columns) (fxExecuted fx) db; gs' = db' (tnSchema T, tnTable T)
     in missing_in D T ts gs' = {} \<and> extraneous_in D T ts gs' = {} \<and> mismatching_in D T ts gs' = {} \<and>
        (\<forall>n. n \<noteq> (tnSchema T, tnTable T) \<longrightarrow> db' n = db n))"
proof -
  define gs where "gs = db (tnSchema T, tnTable T)"
  let ?sh = "mk_shard T [] [] 1 1 :: 'a table_shard" and ?cols = "ColumnNames (vtColumns T)"
  have all: "in_shard D r ?sh" for r by (simp add: in_shard_def mk_shard_def not_before_def before_end_def)
  have so: "shard_of T ?sh" by (rule shard_of_mk) simp_all
  have shape: "distinct ?cols" "vtPrimaryKeyColumns T = take (length (vtPrimaryKeyColumns T)) ?cols"
    using assms(1) by (simp_all add: table_world_def table_shape_def table_iter_def)
  have cmp: "comparable D T ts" "comparable D T gs"
    using assms(1) assms(2) [folded gs_def] table_shape_npk [of "table_iter T"]
    by (auto simp: table_world_def stored_rows_def comparable_def keyed_def full_row_def [abs_def] table_iter_def)
  obtain reps where reps: "VerifyRowsOnShard D (conn1, conn2) no_limit ?sh b [] = Some (None, reps)"
    "set (missing_rows reps) = missing_in D T ts gs" "set (extraneous_rows reps) = extraneous_in D T ts gs"
    "set (mismatching_rows reps) = mismatching_in D T ts gs"
    using shard_contributes [OF so assms(1) assms(2) [folded gs_def] assms(3)] unfolding missing_in_def extraneous_in_def mismatching_in_def
    by (simp only: all simp_thms) blast
  let ?ss = "List.map_filter (\<lambda>obj. the (fix_statement obj)) reps"
  have calls: "calls_repair D T ts gs obj" if "obj \<in> set reps" for obj
    using that reps(2-4) row_reports_set [of _ reps] unfolding calls_repair_def by (auto split: report.splits)
  note st = statement_repairs [OF shape cmp calls]
  have sound: "list_all (repairs D T ts gs) ?ss"
    using st in_statements [of _ reps] by (force simp: list_all_iff)
  have "covers D T ts gs ?ss"
    unfolding covers_def
  proof (intro conjI ballI impI)
    fix t assume t: "t \<in> set ts" "\<not> same_key D T t gs"
    then have "MissingRow (missing_report T t) \<in> set reps" using reps(2) row_reports_set(1) [of _ reps] by (auto simp: missing_in_def)
    then show "\<exists>n. DInsert n ?cols t \<in> set ?ss"
      using set_map_filter_the [OF fix_missing [OF comparable_rows [OF cmp(1) t(1)]]] by blast
  next
    fix t g assume tg: "t \<in> set ts" "g \<in> set gs" "key_eq D T t g" "list_ex (col_differs D t g) (value_cols T)"
    then have "MismatchingRow (mismatch_report D T t g) \<in> set reps"
      using reps(4) row_reports_set(3) [of _ reps] unfolding mismatching_in_def key_eq_def by blast
    then show "list_ex (updates_key D T g) ?ss"
      using fix_mismatch [OF shape comparable_key(2) [OF cmp(1)] comparable_rows [OF cmp(2) tg(2)], of D t]
      by (elim exE conjE) (rule statement_listed, auto)
  next
    fix g assume g: "g \<in> set gs" "\<not> same_key D T g ts"
    then have "ExtraneousRow (extraneous_report T g) \<in> set reps"
      using reps(3) row_reports_set(2) [of _ reps] unfolding extraneous_in_def by blast
    then show "list_ex (deletes_key D T g) ?ss"
      using fix_extraneous [OF shape comparable_key(2) [OF cmp(1)] comparable_rows [OF cmp(2) g(1)], of D]
      by (elim exE conjE) (rule statement_listed, auto)
  qed
  note rep = repair_leaves_no_difference [OF cmp shape(1) sound this] 
  have "fix_statement obj \<noteq> None" if "obj \<in> set reps" for obj using st [OF that] by auto
  then obtain fx where "fix_all True exec reps \<lparr>fxExecuted = [], fxMetrics = []\<rparr> = Some fx" "fxExecuted fx = ?ss"
    using fix_all_statements [of reps exec "\<lparr>fxExecuted = [], fxMetrics = []\<rparr>"] assms(5) by auto
  moreover have "fold (apply_dml D resolve columns) ?ss db = db((tnSchema T, tnTable T) := fold (dml_rows D ?cols) ?ss gs)"
    using fold_apply_dml [OF repairs_table [OF sound], of D resolve columns db] assms(6,7) by (simp add: gs_def)
  ultimately show ?thesis using reps(1) rep assms(4) by (auto simp: Let_def)
qed

text \<open>The dropped schema matters. When the unqualified name denotes another table of the target, the
  statements leave the verified table as it was, and its differences stay.\<close>

lemma fixup_misses_schema:
  assumes "list_all (\<lambda>s. dml_table s = tnTable T) ss" "resolve (tnTable T) \<noteq> (tnSchema T, tnTable T)"
  shows "fold (apply_dml D resolve columns) ss db (tnSchema T, tnTable T) = db (tnSchema T, tnTable T)"
  using assms by (simp add: fold_apply_dml)

definition kv_target :: "qualified_name \<Rightarrow> int row list" where
  "kv_target n = (if n = (''public'', ''kv'') then [[2, 21], [3, 30]] else [[7, 7]])"

theorem fixup_repairs_target_witness:
  "\<exists>reps fx. VerifyRowsOnShard int_datums (kv_conn [[1, 10], [2, 20]], kv_conn [[2, 21], [3, 30]]) no_limit
      (mk_shard kv_result [] [] 1 1) 2 [] = Some (None, reps) \<and>
    fix_all True (\<lambda>s. None) reps \<lparr>fxExecuted = [], fxMetrics = []\<rparr> = Some fx \<and>
    (let db' = fold (apply_dml int_datums (Pair ''public'') (\<lambda>n. [''k'', ''v''])) (fxExecuted fx) kv_target
     in missing_in int_datums kv_result [[1, 10], [2, 20]] (db' (''public'', ''kv'')) = {} \<and>
        db' (''app'', ''kv'') = [[7, 7]])"
proof -
  have w: "table_world int_datums kv_result r (kv_conn r)"
    if "list_all (\<lambda>r. length r = 2) r" "pk_sorted int_datums 1 r" for r
    using kv_verify_world [OF that that, of kv_opts] by (simp add: verify_world_def kv_env_def kv_db_def kv_result_def)
  have c: "ColumnNames (vtColumns kv_result) = [''k'', ''v'']" "tnSchema kv_result = ''public''" "tnTable kv_result = ''kv''"
    by (simp_all add: kv_result_def kv_columns_def ColumnNames_def mk_db_table_def)
  have t: "kv_target (tnSchema kv_result, tnTable kv_result) = [[2, 21], [3, 30]]" "kv_target (''app'', ''kv'') = [[7, 7]]"
    by (simp_all add: kv_target_def c)
  have "table_world int_datums kv_result [[1, 10], [2, 20]] (kv_conn [[1, 10], [2, 20]])"
    "table_world int_datums kv_result (kv_target (tnSchema kv_result, tnTable kv_result)) (kv_conn [[2, 21], [3, 30]])"
    unfolding t by (rule w; simp add: pk_sorted_def pk_less_def int_datums_def cmp_ord_def)+
  note fixed = fixup_repairs_target [where T = kv_result and D = int_datums and db = kv_target and b = 2 and
      exec = "\<lambda>s. None" and resolve = "Pair ''public''" and columns = "\<lambda>n. [''k'', ''v'']", OF this]
  have "\<forall>d. dCompareError int_datums d d = Inr 0" by (simp add: int_datums_def cmp_ord_def)
  from fixed [OF _ this] show ?thesis unfolding c Let_def using t(2) by fastforce
qed

end
