(* ===== verification/Verify_Runner.thy ===== *)
theory Verify_Runner
  imports Service_Properties Verify_Properties
begin

text \<open>
  \<open>verifyservice/verify_runner.go\<close>: what runs between the service and \<open>verify.Verify\<close>, and the
  guarantees that need all of them: what the status of a database job says about the two databases.

  \<open>dbconn.Connect\<close> and \<open>Conn.Close\<close> are parameters; \<open>runVerify\<close> is the runner's field of that name, with
  \<open>verify_run\<close> as the outcomes of the default one.
\<close>

text \<open>\<open>errors.CombineErrors\<close>: the second error only decorates the first.\<close>

definition combine_errors :: "go_error option \<Rightarrow> go_error option \<Rightarrow> go_error option" where
  "combine_errors err other = (if err = None then other else err)"

definition runner_error :: "string \<Rightarrow> string \<Rightarrow> string \<Rightarrow> go_error \<Rightarrow> go_error" where
  "runner_error category code prefix err =
     ErrOperator (newOperatorError category code (prefix @ err_Error err) [OperatorErrorDetail [] (err_Error err)])"

definition VerifyRunner_Run ::
  "(string \<Rightarrow> string \<Rightarrow> 'c result) \<Rightarrow> ('c \<Rightarrow> go_error option) \<Rightarrow>
   ('c \<times> 'c \<Rightarrow> filter_config \<Rightarrow> go_error option \<times> 'd report list) \<Rightarrow> run_request \<Rightarrow> go_error option \<times> 'd report list" where
  "VerifyRunner_Run connect close runVerify request =
     (case connect ''source'' (ConnectionString (rdSource (rrResolvedDatabase request))) of
        Inl err \<Rightarrow> (Some (runner_error ''source_access'' ''connection_failed'' ''source connection failed: '' err), [])
      | Inr sourceConn \<Rightarrow>
          (case connect ''target'' (ConnectionString (rdDestination (rrResolvedDatabase request))) of
             Inl err \<Rightarrow>
               (combine_errors
                  (Some (runner_error ''destination_access'' ''connection_failed'' ''destination connection failed: '' err))
                  (close sourceConn), [])
           | Inr destinationConn \<Rightarrow>
               (case runVerify (sourceConn, destinationConn) (rrFilterConfig request) of
                  (err, reps) \<Rightarrow>
                    (combine_errors
                       (combine_errors
                          (map_option (runner_error ''verify_execution'' ''verify_failed'' ''verify execution failed: '') err)
                          (close destinationConn))
                       (close sourceConn), reps))))"

text \<open>The options \<open>defaultRunVerify\<close> gives to \<open>Verify\<close>.\<close>

definition defaultRunVerify_opts :: "filter_config \<Rightarrow> verify_opts" where
  "defaultRunVerify_opts f = apply_opts [WithDBFilter f]"

section \<open>Cancellation\<close>

lemma named_database_after:
  assumes "runner_ok r j" "rnPhase r = InRun" "\<And>d. djName (f d) = djName d"
  shows "\<exists>d \<in> set (jbDatabases j). djName d = plan_name (hd (rnPlans r)) \<and>
    f d \<in> set (jbDatabases (update_database (plan_name (hd (rnPlans r))) f j))"
proof -
  obtain past todo where dt: "jbDatabases j = past @ todo" "map djName todo = map plan_name (rnPlans r)"
    using runner_ok_open [OF assms(1)] assms(2) by (metis runner_phase.distinct(5))
  have "rnPlans r \<noteq> []" "distinct (map djName (jbDatabases j))" using assms(1,2) by (auto simp: runner_ok_def)
  then obtain d ds where d: "todo = d # ds" "djName d = plan_name (hd (rnPlans r))"
    using dt(2) by (cases todo; cases "rnPlans r") auto
  have "f d \<in> set (update_named (plan_name (hd (rnPlans r))) f (jbDatabases j))"
    unfolding update_named_distinct [OF \<open>distinct (map djName (jbDatabases j))\<close>] using d dt(1) by force
  then show ?thesis using d dt(1) by (auto simp: update_database_def)
qed

text \<open>A cancellation that \<open>Verify\<close> itself returns is recorded as a failure. When \<open>Verify\<close> ends with an error that is
  the cancellation of its context (it does so before its row phase; a cancellation met by a worker is only
  logged), \<open>Run\<close> wraps the text into an operator error without the cause, so the goroutine does not
  recognise it: the database ends \<open>failed\<close>, where the guide says \<open>stopped\<close>, and the job goes on.\<close>

theorem cancelled_run_marked_failed:
  assumes "distinct (map dmName (vcDatabases cfg))" and "service_run D (NewService cfg) s"
    and "i < length (svRunners s)" and "rnPhase (svRunners s ! i) = InRun"
    and "connect ''source'' (ConnectionString (rdSource (rrResolvedDatabase req))) = Inr c1"
    and "connect ''target'' (ConnectionString (rdDestination (rrResolvedDatabase req))) = Inr c2"
    and "runVerify (c1, c2) (rrFilterConfig req) = (Some e, reps)" and "errors_Is_canceled e"
  shows "\<exists>err j d. fst (VerifyRunner_Run connect close runVerify req) = Some err \<and> \<not> errors_Is_canceled err \<and>
      jsJobs (svStore (return_at i now (Some err) s)) (rnJobID (svRunners s ! i)) = Some j \<and>
      d \<in> set (jbDatabases j) \<and> djName d = plan_name (hd (rnPlans (svRunners s ! i))) \<and> djStatus d = Failed \<and>
      jbFinishedAt j = None"
proof -
  let ?r = "svRunners s ! i"
  have inv: "svc_inv s" by (rule reachable_inv [OF assms(1,2)])
  obtain j where j: "jsJobs (svStore s) (rnJobID ?r) = Some j" "runner_ok ?r j"
    by (rule svc_inv_runner_job [OF inv assms(3)])
  let ?oe = "newOperatorError ''verify_execution'' ''verify_failed'' (''verify execution failed: '' @ err_Error e)
    [OperatorErrorDetail [] (err_Error e)]"
  have err: "fst (VerifyRunner_Run connect close runVerify req) = Some (ErrOperator ?oe)"
    using assms(5-7) by (simp add: VerifyRunner_Run_def runner_error_def combine_errors_def)
  have st: "svStore (return_at i now (Some (ErrOperator ?oe)) s) =
      update_job (rnJobID ?r) (update_database (plan_name (hd (rnPlans ?r))) (database_fail now ?oe)) (svStore s)"
    by (simp add: return_at_def run_return_def Let_def failDatabase_def classifyRunFailure_def)
  obtain d where d: "djName d = plan_name (hd (rnPlans ?r))"
    "database_fail now ?oe d \<in> set (jbDatabases (update_database (plan_name (hd (rnPlans ?r))) (database_fail now ?oe) j))"
    using named_database_after [OF j(2) assms(4), of "database_fail now ?oe"] by auto
  have "jbFinishedAt j = None" using runner_ok_finished_iff [OF j(2)] assms(4) by auto
  then show ?thesis unfolding err using j(1) d status_after(2) [of now ?oe d] st
    by (intro exI [of _ "ErrOperator ?oe"] exI [of _ "update_database (plan_name (hd (rnPlans ?r))) (database_fail now ?oe) j"]
        exI [of _ "database_fail now ?oe d"]) (simp add: update_database_def newOperatorError_def)
qed

section \<open>What the status of a database says\<close>








end
