(* ===== verification/Retry.thy ===== *)
theory Retry
  imports Go_Prelude
begin

text \<open>
  \<open>retry/retry.go\<close>: retries with exponential backoff.

  Times and durations are numbers of nanoseconds; a product of durations wraps as \<open>int64\<close>. The factor
  \<open>time.Duration(math.Pow(m, i))\<close> is a parameter \<open>pow\<close> of the definitions: for a result beyond \<open>2 ^ 53\<close>
  it depends on rounding, and beyond \<open>int64\<close> on the platform. What \<open>Do\<close> calls is given by the outcome
  of its \<open>k\<close>-th call.
\<close>

section \<open>time.Duration.String\<close>

text \<open>\<open>fmtFrac\<close>: the last \<open>prec\<close> digits of \<open>v\<close> as a fraction without trailing zeros, nothing when they are all zero.\<close>

definition fraction :: "nat \<Rightarrow> nat \<Rightarrow> string" where
  "fraction prec v =
     (let ds = Itoa (v mod 10 ^ prec);
          padded = replicate (prec - length ds) CHR ''0'' @ ds;
          digits = rev (dropWhile (\<lambda>c. c = CHR ''0'') (rev padded))
      in if digits = [] then [] else ''.'' @ digits)"

definition duration_String :: "int \<Rightarrow> string" where
  "duration_String d =
     (let u = nat \<bar>d\<bar>; secs = u div 10 ^ 9; mins = secs div 60; hours = mins div 60 in
      if u = 0 then ''0s''
      else (if d < 0 then ''-'' else []) @
        (if u < 10 ^ 3 then Itoa u @ ''ns''
         else if u < 10 ^ 6 then Itoa (u div 10 ^ 3) @ fraction 3 u @ [CHR 0xC2, CHR 0xB5] @ ''s''
         else if u < 10 ^ 9 then Itoa (u div 10 ^ 6) @ fraction 6 u @ ''ms''
         else (if mins = 0 then [] else (if hours = 0 then [] else Itoa hours @ ''h'') @ Itoa (mins mod 60) @ ''m'') @
              Itoa (secs mod 60) @ fraction 9 u @ ''s''))"

section \<open>Retry\<close>

record settings =
  reInitialBackoff :: int
  reMultiplier :: int
  reMaxBackoff :: int
  reMaxRetries :: int

record retry =
  rtIteration :: int
  rtStartTime :: int
  rtNextRetry :: int
  rtSettings :: settings

type_synonym pow_fun = "int \<Rightarrow> int \<Rightarrow> int"

definition exact_pow :: "pow_fun \<Rightarrow> bool" where
  "exact_pow pw \<longleftrightarrow> (\<forall>m i. 1 \<le> m \<longrightarrow> 0 \<le> i \<longrightarrow> m ^ nat i < 2 ^ 53 \<longrightarrow> pw m i = m ^ nat i)"

definition settings_Verify :: "settings \<Rightarrow> go_error option" where
  "settings_Verify s =
     (if reInitialBackoff s \<le> 0 then Some (ErrMsg (''initial backoff must be set to >= 0, got '' @ duration_String (reInitialBackoff s)))
      else if reMultiplier s < 1 then Some (ErrMsg (''multiplier must be >= 1, got '' @ ItoaInt (reMultiplier s)))
      else if reMaxBackoff s > 0 \<and> reInitialBackoff s > reMaxBackoff s
      then Some (ErrMsg (''initial backoff ('' @ duration_String (reInitialBackoff s) @ '') must be less than max backoff ('' @
                         duration_String (reMaxBackoff s) @ '')''))
      else None)"

definition DefaultSettings :: settings where
  "DefaultSettings = \<lparr>reInitialBackoff = 1000000000, reMultiplier = 2, reMaxBackoff = 0, reMaxRetries = 0\<rparr>"

definition NewRetryWithTime :: "int \<Rightarrow> settings \<Rightarrow> retry result" where
  "NewRetryWithTime t s =
     (case settings_Verify s of
        Some e \<Rightarrow> Inl e
      | None \<Rightarrow> Inr \<lparr>rtIteration = 1, rtStartTime = t, rtNextRetry = t + reInitialBackoff s, rtSettings = s\<rparr>)"

text \<open>The two constructors that panic; the second one reads the clock (\<open>now\<close>) and not its argument.\<close>

definition MustRetry :: "int \<Rightarrow> settings \<Rightarrow> retry option" where
  "MustRetry now s = (case NewRetryWithTime now s of Inl e \<Rightarrow> None | Inr r \<Rightarrow> Some r)"

definition MustRetryWithTime :: "int \<Rightarrow> int \<Rightarrow> settings \<Rightarrow> retry option" where
  "MustRetryWithTime now t s = (case NewRetryWithTime now s of Inl e \<Rightarrow> None | Inr r \<Rightarrow> Some r)"

definition ShouldContinue :: "retry \<Rightarrow> bool" where
  "ShouldContinue rm \<longleftrightarrow> reMaxRetries (rtSettings rm) = 0 \<or> rtIteration rm < reMaxRetries (rtSettings rm)"

definition nextDuration :: "pow_fun \<Rightarrow> retry \<Rightarrow> int" where
  "nextDuration pw rm =
     (let d = int64 (reInitialBackoff (rtSettings rm) * pw (reMultiplier (rtSettings rm)) (rtIteration rm))
      in if reMaxBackoff (rtSettings rm) > 0 \<and> d > reMaxBackoff (rtSettings rm) then reMaxBackoff (rtSettings rm) else d)"

definition retry_Next :: "pow_fun \<Rightarrow> retry \<Rightarrow> retry" where
  "retry_Next pw rm = rm\<lparr>rtIteration := rtIteration rm + 1, rtNextRetry := rtNextRetry rm + nextDuration pw rm\<rparr>"

partial_function (option) retry_Do ::
  "pow_fun \<Rightarrow> (nat \<Rightarrow> go_error option) \<Rightarrow> nat \<Rightarrow> retry \<Rightarrow> go_error list \<Rightarrow> (go_error option \<times> nat \<times> go_error list) option" where
  "retry_Do pw act k rm notified =
     (case act k of
        None \<Rightarrow> Some (None, Suc k, notified)
      | Some err \<Rightarrow>
          (if \<not> ShouldContinue rm then Some (Some err, Suc k, notified)
           else retry_Do pw act (Suc k) (retry_Next pw rm) (notified @ [err])))"

section \<open>How often Do calls\<close>

lemma retry_Do_fails:
  assumes "reMaxRetries (rtSettings rm) = rtIteration rm + int m" "0 < reMaxRetries (rtSettings rm)"
    and "\<And>i. i \<le> m \<Longrightarrow> act (k + i) \<noteq> None"
  shows "retry_Do pw act k rm ns = Some (act (k + m), Suc (k + m), ns @ map (\<lambda>i. the (act (k + i))) [0..<m])"
  using assms
proof (induction m arbitrary: k rm ns)
  case 0
  then show ?case by (subst retry_Do.simps) (auto simp: ShouldContinue_def dest: "0.prems"(3) [of 0])
next
  case (Suc m)
  obtain e where e: "act k = Some e" using Suc.prems(3) [of 0] by auto
  have later: "act (Suc k + i) \<noteq> None" if "i \<le> m" for i using Suc.prems(3) [of "Suc i"] that by simp
  have "retry_Do pw act (Suc k) (retry_Next pw rm) (ns @ [e]) =
      Some (act (Suc k + m), Suc (Suc k + m), (ns @ [e]) @ map (\<lambda>i. the (act (Suc k + i))) [0..<m])"
    by (rule Suc.IH) (use Suc.prems later in \<open>auto simp: retry_Next_def\<close>)
  moreover have "map (\<lambda>i. the (act (k + i))) [0..<Suc m] = e # map (\<lambda>i. the (act (Suc k + i))) [0..<m]"
    by (subst upt_conv_Cons) (simp_all add: e map_Suc_upt [symmetric] del: upt_Suc)
  ultimately show ?case using Suc.prems e by (subst retry_Do.simps) (simp add: ShouldContinue_def del: upt_Suc)
qed

lemma retry_Do_succeeds:
  assumes "reMaxRetries (rtSettings rm) = 0 \<or> rtIteration rm + int m \<le> reMaxRetries (rtSettings rm)"
    and "act (k + m) = None" "\<And>i. i < m \<Longrightarrow> act (k + i) \<noteq> None"
  shows "retry_Do pw act k rm ns = Some (None, Suc (k + m), ns @ map (\<lambda>i. the (act (k + i))) [0..<m])"
  using assms
proof (induction m arbitrary: k rm ns)
  case 0
  then show ?case by (subst retry_Do.simps) simp
next
  case (Suc m)
  obtain e where e: "act k = Some e" using Suc.prems(3) [of 0] by auto
  have later: "act (Suc k + i) \<noteq> None" if "i < m" for i using Suc.prems(3) [of "Suc i"] that by simp
  have "retry_Do pw act (Suc k) (retry_Next pw rm) (ns @ [e]) =
      Some (None, Suc (Suc k + m), (ns @ [e]) @ map (\<lambda>i. the (act (Suc k + i))) [0..<m])"
    by (rule Suc.IH) (use Suc.prems later in \<open>auto simp: retry_Next_def\<close>)
  moreover have "map (\<lambda>i. the (act (k + i))) [0..<Suc m] = e # map (\<lambda>i. the (act (Suc k + i))) [0..<m]"
    by (subst upt_conv_Cons) (simp_all add: e map_Suc_upt [symmetric] del: upt_Suc)
  ultimately show ?case using Suc.prems e by (subst retry_Do.simps) (auto simp: ShouldContinue_def simp del: upt_Suc)
qed

text \<open>\<open>Do\<close> calls at most \<open>MaxRetries\<close> times: it returns nil at the first call that succeeds, the error of the
  last call when all fail, and passes the error of every failed call but the last to \<open>onRetry\<close>.\<close>

theorem retry_attempts:
  assumes "NewRetryWithTime t s = Inr rm" and "0 < reMaxRetries s"
  shows "if \<exists>i < nat (reMaxRetries s). act i = None
    then \<exists>k < nat (reMaxRetries s). act k = None \<and> (\<forall>i < k. act i \<noteq> None) \<and>
      retry_Do pw act 0 rm [] = Some (None, Suc k, map (\<lambda>i. the (act i)) [0..<k])
    else retry_Do pw act 0 rm [] =
      Some (act (nat (reMaxRetries s) - 1), nat (reMaxRetries s), map (\<lambda>i. the (act i)) [0..<nat (reMaxRetries s) - 1])"
proof -
  have rm: "rtIteration rm = 1" "rtSettings rm = s" using assms(1) by (auto simp: NewRetryWithTime_def split: option.splits)
  show ?thesis
  proof (cases "\<exists>i < nat (reMaxRetries s). act i = None")
    case True
    define k where "k = (LEAST i. act i = None)"
    obtain i where i: "i < nat (reMaxRetries s)" "act i = None" using True by blast
    have k: "act k = None" "k \<le> i" unfolding k_def using i(2) by (rule LeastI, rule Least_le)
    have less: "act j \<noteq> None" if "j < k" for j using that not_less_Least unfolding k_def by blast
    have "int k + 1 \<le> reMaxRetries s" using k(2) i(1) by linarith
    then have "retry_Do pw act 0 rm [] = Some (None, Suc k, map (\<lambda>i. the (act i)) [0..<k])"
      using retry_Do_succeeds [of rm k act 0 pw "[]"] rm k(1) less by simp
    then show ?thesis using k less i(1) True by (auto intro!: exI [of _ k])
  next
    case False
    have m: "reMaxRetries s = 1 + int (nat (reMaxRetries s) - 1)" using assms(2) by linarith
    have "retry_Do pw act 0 rm [] = Some (act (nat (reMaxRetries s) - 1), Suc (nat (reMaxRetries s) - 1),
        map (\<lambda>i. the (act i)) [0..<nat (reMaxRetries s) - 1])"
      using retry_Do_fails [of rm "nat (reMaxRetries s) - 1" act 0 pw "[]"] rm m assms(2) False by fastforce
    then show ?thesis unfolding if_not_P [OF False] using assms(2) by (simp add: Suc_diff_1)
  qed
qed

theorem retry_attempts_witness:
  "retry_Do (\<lambda>m i. m ^ nat i) (\<lambda>k. if k < 2 then Some (ErrMsg ''refused'') else None) 0
     \<lparr>rtIteration = 1, rtStartTime = 0, rtNextRetry = 5, rtSettings =
       \<lparr>reInitialBackoff = 5, reMultiplier = 2, reMaxBackoff = 0, reMaxRetries = 4\<rparr>\<rparr> [] =
   Some (None, 3, [ErrMsg ''refused'', ErrMsg ''refused''])"
proof -
  let ?s = "\<lparr>reInitialBackoff = 5, reMultiplier = 2, reMaxBackoff = 0, reMaxRetries = 4\<rparr>"
    and ?act = "\<lambda>k :: nat. if k < 2 then Some (ErrMsg ''refused'') else None"
  have n: "NewRetryWithTime 0 ?s = Inr \<lparr>rtIteration = 1, rtStartTime = 0, rtNextRetry = 5, rtSettings = ?s\<rparr>"
    by (simp add: NewRetryWithTime_def settings_Verify_def)
  have pos: "0 < reMaxRetries ?s" by simp
  have ex: "\<exists>i < nat (reMaxRetries ?s). ?act i = None" by (intro exI [of _ 2]) simp
  obtain k where "k < nat (reMaxRetries ?s)" "?act k = None" "\<forall>i < k. ?act i \<noteq> None"
    "retry_Do (\<lambda>m i. m ^ nat i) ?act 0 \<lparr>rtIteration = 1, rtStartTime = 0, rtNextRetry = 5, rtSettings = ?s\<rparr> [] =
      Some (None, Suc k, map (\<lambda>i. the (?act i)) [0..<k])"
    using retry_attempts [OF n pos, of ?act "\<lambda>m i. m ^ nat i"] unfolding if_P [OF ex] by blast
  moreover have "k = 2"
  proof (rule antisym)
    show "k \<le> 2" using \<open>\<forall>i < k. ?act i \<noteq> None\<close> by (metis (mono_tags, lifting) less_irrefl not_le)
    show "2 \<le> k" using \<open>?act k = None\<close> by (auto split: if_splits)
  qed
  ultimately show ?thesis by (simp add: numeral_2_eq_2)
qed

text \<open>Without a maximal backoff the wait overflows: with the default settings and an exact power, the 34th wait is
  negative, so the next retry lies in the past and the retries that follow do not wait at all.\<close>

lemma backoff_overflow:
  assumes "exact_pow pw" "rtSettings rm = DefaultSettings" "rtIteration rm = 34"
  shows "nextDuration pw rm < 0"
proof -
  have "pw 2 34 = 2 ^ 34" using assms(1) by (simp add: exact_pow_def)
  then show ?thesis using assms(2,3) by (simp add: nextDuration_def DefaultSettings_def int64_def)
qed

end
