(* ===== verification/Live_Queue.thy ===== *)
theory Live_Queue
  imports Retry
begin

text \<open>
  \<open>verify/rowverify/live_retry_queue.go\<close>: the priority queue of batches that wait for re-verification,
  with the binary heap of Go's \<open>container/heap\<close> it is built on. The heap operations work on any list
  with an integer key; the queue uses the time of the next retry.

  The locale \<open>retry_queue\<close> states what the re-verifier relies on; it is interpreted on the heap.
\<close>

section \<open>The interface\<close>

text \<open>What \<open>n\<close> pops in a row return, fewer when the queue runs empty.\<close>

fun pops :: "('q \<Rightarrow> ('a \<times> 'q) option) \<Rightarrow> nat \<Rightarrow> 'q \<Rightarrow> 'a list" where
  "pops pop 0 q = []"
| "pops pop (Suc n) q = (case pop q of None \<Rightarrow> [] | Some (x, q') \<Rightarrow> x # pops pop n q')"

locale retry_queue =
  fixes push :: "'a \<Rightarrow> 'q \<Rightarrow> 'q"
    and pop :: "'q \<Rightarrow> ('a \<times> 'q) option"
    and items :: "'q \<Rightarrow> 'a multiset"
    and prio :: "'a \<Rightarrow> int"
    and inv :: "'q \<Rightarrow> bool"
  assumes push_inv: "inv q \<Longrightarrow> inv (push x q)"
    and push_items: "items (push x q) = add_mset x (items q)"
    and pop_inv: "inv q \<Longrightarrow> pop q = Some (x, q') \<Longrightarrow> inv q'"
    and pop_items: "inv q \<Longrightarrow> pop q = Some (x, q') \<Longrightarrow> items q = add_mset x (items q')"
    and pop_least: "inv q \<Longrightarrow> pop q = Some (x, q') \<Longrightarrow> y \<in># items q \<Longrightarrow> prio x \<le> prio y"
    and pop_some: "items q \<noteq> {#} \<Longrightarrow> pop q \<noteq> None"
begin

lemma pop_none: "inv q \<Longrightarrow> pop q = None \<longleftrightarrow> items q = {#}"
  using pop_some pop_items by (cases "pop q") fastforce+

text \<open>Taking everything out yields the items in order of priority.\<close>

lemma pops_items: "inv q \<Longrightarrow> size (items q) \<le> n \<Longrightarrow> mset (pops pop n q) = items q"
proof (induction n arbitrary: q)
  case (Suc n)
  show ?case
  proof (cases "pop q")
    case None
    then show ?thesis using pop_none [OF Suc.prems(1)] by simp
  next
    case (Some p)
    obtain x q' where p: "p = (x, q')" by (cases p)
    then show ?thesis
      using Some Suc.IH [of q'] pop_inv [OF Suc.prems(1)] pop_items [OF Suc.prems(1)] Suc.prems(2) by simp
  qed
qed simp

lemma pops_sorted: "inv q \<Longrightarrow> size (items q) \<le> n \<Longrightarrow> sorted (map prio (pops pop n q))"
proof (induction n arbitrary: q)
  case (Suc n)
  show ?case
  proof (cases "pop q")
    case (Some p)
    obtain x q' where p: "p = (x, q')" by (cases p)
    have pop: "pop q = Some (x, q')" using Some p by simp
    note q' = pop_inv [OF Suc.prems(1) pop] and it = pop_items [OF Suc.prems(1) pop]
    have n: "size (items q') \<le> n" using it Suc.prems(2) by simp
    have "prio x \<le> prio y" if "y \<in> set (pops pop n q')" for y
      using pop_least [OF Suc.prems(1) pop, of y] it that pops_items [OF q' n] by (metis set_mset_mset union_iff add_mset_add_single)
    then show ?thesis using Suc.IH [OF q' n] pop by auto
  qed simp
qed simp

end

section \<open>container/heap\<close>

definition swap :: "'a list \<Rightarrow> nat \<Rightarrow> nat \<Rightarrow> 'a list" where
  "swap xs i j = xs[i := xs ! j, j := xs ! i]"

text \<open>Go's \<open>(j - 1) / 2\<close>, which is 0 for \<open>j = 0\<close>.\<close>

abbreviation parent :: "nat \<Rightarrow> nat" where
  "parent j \<equiv> (j - 1) div 2"

function heap_up :: "('a \<Rightarrow> int) \<Rightarrow> 'a list \<Rightarrow> nat \<Rightarrow> 'a list" where
  "heap_up key xs j =
     (if parent j = j \<or> \<not> key (xs ! j) < key (xs ! parent j) then xs
      else heap_up key (swap xs (parent j) j) (parent j))"
  by auto
termination by (relation "measure (\<lambda>(k, xs, j). j)") auto

text \<open>The lesser of the two children of \<open>i\<close>, the left one when there is no right one below \<open>n\<close>.\<close>

definition lesser_child :: "('a \<Rightarrow> int) \<Rightarrow> 'a list \<Rightarrow> nat \<Rightarrow> nat \<Rightarrow> nat" where
  "lesser_child key xs i n =
     (let j1 = 2 * i + 1; j2 = j1 + 1 in if j2 < n \<and> key (xs ! j2) < key (xs ! j1) then j2 else j1)"

function heap_down :: "('a \<Rightarrow> int) \<Rightarrow> 'a list \<Rightarrow> nat \<Rightarrow> nat \<Rightarrow> 'a list" where
  "heap_down key xs i n =
     (if 2 * i + 1 \<ge> n \<or> \<not> key (xs ! lesser_child key xs i n) < key (xs ! i) then xs
      else heap_down key (swap xs i (lesser_child key xs i n)) (lesser_child key xs i n) n)"
  by auto
termination by (relation "measure (\<lambda>(k, xs, i, n). n - i)") (auto simp: lesser_child_def Let_def)

declare heap_up.simps [simp del] heap_down.simps [simp del]

definition heap_Push :: "('a \<Rightarrow> int) \<Rightarrow> 'a \<Rightarrow> 'a list \<Rightarrow> 'a list" where
  "heap_Push key x xs = heap_up key (xs @ [x]) (length xs)"

text \<open>\<open>None\<close> is the index panic on an empty heap.\<close>

definition heap_Pop :: "('a \<Rightarrow> int) \<Rightarrow> 'a list \<Rightarrow> ('a \<times> 'a list) option" where
  "heap_Pop key xs =
     (if xs = [] then None
      else let n = length xs - 1; ys = heap_down key (swap xs 0 n) 0 n in Some (ys ! n, take n ys))"

section \<open>The heap is a priority queue\<close>

definition heap_below :: "('a \<Rightarrow> int) \<Rightarrow> 'a list \<Rightarrow> nat \<Rightarrow> bool" where
  "heap_below key xs n \<longleftrightarrow> (\<forall>k < n. 0 < k \<longrightarrow> key (xs ! parent k) \<le> key (xs ! k))"

lemma swap_length [simp]: "length (swap xs i j) = length xs"
  by (simp add: swap_def)

lemma swap_nth: "i < length xs \<Longrightarrow> j < length xs \<Longrightarrow> k < length xs \<Longrightarrow>
    swap xs i j ! k = (if k = j then xs ! i else if k = i then xs ! j else xs ! k)"
  by (auto simp: swap_def nth_list_update)

lemma swap_mset: "i < length xs \<Longrightarrow> j < length xs \<Longrightarrow> mset (swap xs i j) = mset xs"
  by (simp add: swap_def mset_swap)

lemma heap_up_basics: "j < length xs \<Longrightarrow> length (heap_up key xs j) = length xs \<and> mset (heap_up key xs j) = mset xs"
proof (induction key xs j rule: heap_up.induct)
  case (1 key xs j)
  have "parent j < length xs" using "1.prems" by linarith
  then show ?case using 1 by (subst (1 2) heap_up.simps) (auto simp: swap_mset)
qed

text \<open>All edges are in order but the one above \<open>j\<close>, and the children of \<open>j\<close> are not below its parent.\<close>

definition up_hole :: "('a \<Rightarrow> int) \<Rightarrow> 'a list \<Rightarrow> nat \<Rightarrow> bool" where
  "up_hole key xs j \<longleftrightarrow>
     (\<forall>k < length xs. 0 < k \<longrightarrow> k \<noteq> j \<longrightarrow> key (xs ! parent k) \<le> key (xs ! k)) \<and>
     (\<forall>k < length xs. 0 < k \<longrightarrow> parent k = j \<longrightarrow> 0 < j \<longrightarrow> key (xs ! parent j) \<le> key (xs ! k))"

lemma heap_up_heap: "j < length xs \<Longrightarrow> up_hole key xs j \<Longrightarrow> heap_below key (heap_up key xs j) (length xs)"
proof (induction key xs j rule: heap_up.induct)
  case (1 key xs j)
  show ?case
  proof (cases "parent j = j \<or> \<not> key (xs ! j) < key (xs ! parent j)")
    case True
    then have "key (xs ! parent j) \<le> key (xs ! j)" by (metis not_le order_refl)
    then have "heap_below key xs (length xs)" using "1.prems"(2) by (auto simp: up_hole_def heap_below_def)
    then show ?thesis using True by (subst heap_up.simps) simp
  next
    case False
    then have j: "0 < j" "parent j < j" by (cases j; auto)+
    let ?p = "parent j" and ?ys = "swap xs (parent j) j"
    have p: "?p < length xs" using j "1.prems"(1) by simp
    have nth: "?ys ! k = (if k = j then xs ! ?p else if k = ?p then xs ! j else xs ! k)" if "k < length xs" for k
      using swap_nth [OF p "1.prems"(1) that] .
    have up1: "key (xs ! parent k) \<le> key (xs ! k)" if "k < length xs" "0 < k" "k \<noteq> j" for k
      using "1.prems"(2) that by (auto simp: up_hole_def)
    have up2: "key (xs ! ?p) \<le> key (xs ! k)" if "k < length xs" "0 < k" "parent k = j" for k
      using "1.prems"(2) that j by (auto simp: up_hole_def)
    have "up_hole key ?ys ?p"
      unfolding up_hole_def swap_length
    proof (intro conjI allI impI)
      fix k assume k: "k < length xs" "0 < k" "k \<noteq> ?p"
      have pk: "parent k < length xs" using k by linarith
      show "key (?ys ! parent k) \<le> key (?ys ! k)"
      proof (cases "k = j")
        case True
        then show ?thesis using False nth [OF k(1)] nth [OF pk] j by simp
      next
        case kj: False
        show ?thesis
        proof (cases "parent k = j")
          case True
          then show ?thesis using up2 [OF k(1,2) True] nth [OF k(1)] nth [OF pk] kj k(3) by simp
        next
          case pj: False
          have "key (xs ! j) \<le> key (xs ! k)" if "parent k = ?p"
            using False up1 [OF k(1,2) kj] that by simp
          then show ?thesis using up1 [OF k(1,2) kj] nth [OF k(1)] nth [OF pk] kj pj k(3) by auto
        qed
      qed
    next
      fix k assume k: "k < length xs" "0 < k" "parent k = ?p" "0 < ?p"
      have pp: "parent ?p < length xs" "parent ?p \<noteq> ?p" "parent ?p \<noteq> j" using k(4) p j by linarith+
      have "key (xs ! parent ?p) \<le> key (xs ! ?p)" using up1 [OF p k(4)] j by simp
      moreover have "key (xs ! ?p) \<le> key (xs ! k)" if "k \<noteq> j" using up1 [OF k(1,2) that] k(3) by simp
      moreover have "k \<noteq> ?p" using k(3,4) by linarith
      ultimately show "key (?ys ! parent ?p) \<le> key (?ys ! k)"
        using nth [OF k(1)] nth [OF pp(1)] pp by auto
    qed
    then have "heap_below key (heap_up key ?ys ?p) (length ?ys)" using "1.IH" [OF False] p by simp
    then show ?thesis using False by (subst heap_up.simps) simp
  qed
qed

lemma heap_down_basics:
  "i < n \<Longrightarrow> n \<le> length xs \<Longrightarrow> length (heap_down key xs i n) = length xs \<and> mset (heap_down key xs i n) = mset xs \<and>
   (\<forall>k. n \<le> k \<longrightarrow> k < length xs \<longrightarrow> heap_down key xs i n ! k = xs ! k)"
proof (induction key xs i n rule: heap_down.induct)
  case (1 key xs i n)
  define j where "j = lesser_child key xs i n"
  show ?case
  proof (cases "2 * i + 1 \<ge> n \<or> \<not> key (xs ! j) < key (xs ! i)")
    case True
    then have "heap_down key xs i n = xs" by (subst heap_down.simps) (simp add: j_def)
    then show ?thesis by simp
  next
    case False
    have j: "j < n" using False by (auto simp: j_def lesser_child_def Let_def)
    have "length (heap_down key (swap xs i j) j n) = length xs \<and> mset (heap_down key (swap xs i j) j n) = mset xs \<and>
      (\<forall>k. n \<le> k \<longrightarrow> k < length xs \<longrightarrow> heap_down key (swap xs i j) j n ! k = swap xs i j ! k)"
      using "1.IH" [OF False [unfolded j_def] , folded j_def, OF j] "1.prems" j by (simp add: swap_mset)
    moreover have "heap_down key xs i n = heap_down key (swap xs i j) j n"
      using False by (subst heap_down.simps) (simp add: j_def)
    ultimately show ?thesis using "1.prems" j by (auto simp: swap_nth)
  qed
qed

definition down_hole :: "('a \<Rightarrow> int) \<Rightarrow> 'a list \<Rightarrow> nat \<Rightarrow> nat \<Rightarrow> bool" where
  "down_hole key xs i n \<longleftrightarrow>
     (\<forall>k < n. 0 < k \<longrightarrow> parent k \<noteq> i \<longrightarrow> key (xs ! parent k) \<le> key (xs ! k)) \<and>
     (\<forall>k < n. 0 < k \<longrightarrow> parent k = i \<longrightarrow> 0 < i \<longrightarrow> key (xs ! parent i) \<le> key (xs ! k))"

lemma children: "0 < k \<Longrightarrow> parent k = i \<longleftrightarrow> k = 2 * i + 1 \<or> k = 2 * i + 2"
  by auto

lemma heap_down_heap:
  "i < n \<Longrightarrow> n \<le> length xs \<Longrightarrow> down_hole key xs i n \<Longrightarrow> heap_below key (heap_down key xs i n) n"
proof (induction key xs i n rule: heap_down.induct)
  case (1 key xs i n)
  define j where "j = lesser_child key xs i n"
  have d1: "key (xs ! parent k) \<le> key (xs ! k)" if "k < n" "0 < k" "parent k \<noteq> i" for k
    using "1.prems"(3) that by (auto simp: down_hole_def)
  have d2: "key (xs ! parent i) \<le> key (xs ! k)" if "k < n" "0 < k" "parent k = i" "0 < i" for k
    using "1.prems"(3) that by (auto simp: down_hole_def)
  have least: "key (xs ! j) \<le> key (xs ! k)" if "k < n" "0 < k" "parent k = i" for k
  proof -
    consider "k = 2 * i + 1" | "k = 2 * i + 2" using \<open>parent k = i\<close> children [OF \<open>0 < k\<close>] by blast
    then show ?thesis using \<open>k < n\<close> by cases (simp_all add: j_def lesser_child_def)
  qed
  show ?case
  proof (cases "2 * i + 1 \<ge> n \<or> \<not> key (xs ! j) < key (xs ! i)")
    case True
    have "key (xs ! parent k) \<le> key (xs ! k)" if k: "k < n" "0 < k" for k
    proof (cases "parent k = i")
      case pk: True
      then have "\<not> key (xs ! j) < key (xs ! i)" using True k children [OF k(2)] by auto
      then show ?thesis using least [OF k pk] pk by simp
    qed (use d1 [OF k] in simp)
    then show ?thesis using True by (subst heap_down.simps) (simp add: j_def heap_below_def)
  next
    case False
    let ?ys = "swap xs i j"
    have j: "j < n" "parent j = i" "0 < j" "i < j" using False by (auto simp: j_def lesser_child_def Let_def)
    have nth: "?ys ! k = (if k = j then xs ! i else if k = i then xs ! j else xs ! k)" if "k < n" for k
      using swap_nth [of i xs j k] "1.prems" j that by simp
    have "down_hole key ?ys j n"
      unfolding down_hole_def
    proof (intro conjI allI impI)
      fix k assume k: "k < n" "0 < k" "parent k \<noteq> j"
      have pk: "parent k < n" using k by linarith
      show "key (?ys ! parent k) \<le> key (?ys ! k)"
      proof (cases "parent k = i")
        case True
        then show ?thesis using least [OF k(1,2) True] nth [OF k(1)] nth [OF pk] False j by auto
      next
        case pi: False
        then have "k \<noteq> j" using j(2) by auto
        then show ?thesis
          using d1 [OF k(1,2) pi] nth [OF k(1)] nth [OF pk] k(3) pi d2 [OF j(1,3,2)] k(2) by auto
      qed
    next
      fix k assume k: "k < n" "0 < k" "parent k = j" "0 < j"
      have "key (xs ! j) \<le> key (xs ! k)" using d1 [OF k(1,2)] k(3) j(4) by simp
      moreover have "k \<noteq> j" "k \<noteq> i" using k(2,3) j(4) by auto
      ultimately show "key (?ys ! parent j) \<le> key (?ys ! k)"
        using nth [OF k(1)] nth [of i] "1.prems"(1) j by simp
    qed
    then have "heap_below key (heap_down key ?ys j n) n" using "1.IH" [OF False [unfolded j_def] , folded j_def, OF j(1)] "1.prems"(2) by simp
    moreover have "heap_down key xs i n = heap_down key ?ys j n"
      using False by (subst heap_down.simps) (simp add: j_def)
    ultimately show ?thesis by simp
  qed
qed

lemma heap_root_least: "heap_below key xs n \<Longrightarrow> k < n \<Longrightarrow> key (xs ! 0) \<le> key (xs ! k)"
proof (induction k rule: less_induct)
  case (less k)
  show ?case
  proof (cases "k = 0")
    case False
    then have "parent k < k" "parent k < n" using less.prems(2) by linarith+
    then have "key (xs ! 0) \<le> key (xs ! parent k)" using less by blast
    also have "\<dots> \<le> key (xs ! k)" using less.prems False by (simp add: heap_below_def)
    finally show ?thesis .
  qed simp
qed

lemma heap_Push_heap:
  assumes "heap_below key xs (length xs)"
  shows "heap_below key (heap_Push key x xs) (length (heap_Push key x xs))" "mset (heap_Push key x xs) = add_mset x (mset xs)"
proof -
  have hole: "up_hole key (xs @ [x]) (length xs)"
  proof -
    have "parent k < length xs" if "k < Suc (length xs)" "0 < k" "k \<noteq> length xs" for k using that by linarith
    then have "key ((xs @ [x]) ! parent k) \<le> key ((xs @ [x]) ! k)"
      if "k < Suc (length xs)" "0 < k" "k \<noteq> length xs" for k
      using assms that by (auto simp: nth_append heap_below_def)
    moreover have "parent k \<noteq> length xs" if "k < Suc (length xs)" "0 < k" for k using that by linarith
    ultimately show ?thesis by (simp add: up_hole_def)
  qed
  note b = heap_up_basics [of "length xs" "xs @ [x]" key]
  show "heap_below key (heap_Push key x xs) (length (heap_Push key x xs))"
    using heap_up_heap [OF _ hole] b by (simp add: heap_Push_def)
  show "mset (heap_Push key x xs) = add_mset x (mset xs)" using b by (simp add: heap_Push_def)
qed

lemma heap_Pop_heap:
  assumes "heap_below key xs (length xs)" "heap_Pop key xs = Some (x, ys)"
  shows "heap_below key ys (length ys)" "mset xs = add_mset x (mset ys)" "x = xs ! 0"
proof -
  let ?n = "length xs - 1"
  have ne: "xs \<noteq> []" using assms(2) by (auto simp: heap_Pop_def split: if_splits)
  then have l: "0 < length xs" "?n < length xs" by simp_all
  define zs where "zs = heap_down key (swap xs 0 ?n) 0 ?n"
  have x: "x = zs ! ?n" "ys = take ?n zs" using assms(2) ne by (auto simp: heap_Pop_def zs_def Let_def)
  have b: "length zs = length xs \<and> mset zs = mset xs \<and> zs ! ?n = xs ! 0 \<and> heap_below key zs ?n"
  proof (cases "0 < ?n")
    case True
    note bas = heap_down_basics [OF True, of "swap xs 0 ?n" key]
    have "down_hole key (swap xs 0 ?n) 0 ?n"
      unfolding down_hole_def
    proof (intro conjI allI impI)
      fix k assume k: "k < ?n" "0 < k" "parent k \<noteq> 0"
      then have pk: "parent k < length xs" "parent k \<noteq> ?n" "k < length xs" by linarith+
      show "key (swap xs 0 ?n ! parent k) \<le> key (swap xs 0 ?n ! k)"
        using swap_nth [OF l(1,2) pk(1)] swap_nth [OF l(1,2) pk(3)] k pk assms(1) by (simp add: heap_below_def)
    qed simp
    then have "heap_below key zs ?n" using heap_down_heap [OF True, of "swap xs 0 ?n" key] by (simp add: zs_def)
    then show ?thesis using bas l swap_nth [OF l(1,2,2)] by (simp add: zs_def swap_mset)
  next
    case False
    then have "zs = swap xs 0 0" unfolding zs_def by (subst heap_down.simps) simp
    then have "zs = xs" by (simp add: swap_def)
    then show ?thesis using False by (simp add: heap_below_def)
  qed
  show "x = xs ! 0" using x(1) b by simp
  show "heap_below key ys (length ys)" using b x(2) l by (auto simp: heap_below_def)
  have "zs = take ?n zs @ [zs ! ?n]" using b l by (metis Suc_diff_1 take_Suc_conv_app_nth take_all order_refl)
  then show "mset xs = add_mset x (mset ys)" using b x by (metis mset_append mset_single_iff_right mset.simps add_mset_add_single)
qed

section \<open>liveRetryQueue\<close>

record 'd live_retry_item =
  liPrimaryKeys :: "'d list list"
  liRetry :: retry

record 'd live_retry_queue =
  lqItems :: "'d live_retry_item list"
  lqNumPKs :: int

abbreviation next_retry :: "'d live_retry_item \<Rightarrow> int" where
  "next_retry it \<equiv> rtNextRetry (liRetry it)"

definition emptyRetryQueue :: "'d live_retry_queue" where
  "emptyRetryQueue = \<lparr>lqItems = [], lqNumPKs = 0\<rparr>"

definition heapPush :: "'d live_retry_item \<Rightarrow> 'd live_retry_queue \<Rightarrow> 'd live_retry_queue" where
  "heapPush it rq =
     \<lparr>lqItems = heap_Push next_retry it (lqItems rq), lqNumPKs = lqNumPKs rq + int (length (liPrimaryKeys it))\<rparr>"

definition heapPop :: "'d live_retry_queue \<Rightarrow> ('d live_retry_item \<times> 'd live_retry_queue) option" where
  "heapPop rq = do {
     (it, items) \<leftarrow> heap_Pop next_retry (lqItems rq);
     Some (it, \<lparr>lqItems = items, lqNumPKs = lqNumPKs rq - int (length (liPrimaryKeys it))\<rparr>)
   }"

definition retry_queue_inv :: "'d live_retry_queue \<Rightarrow> bool" where
  "retry_queue_inv rq \<longleftrightarrow>
     heap_below next_retry (lqItems rq) (length (lqItems rq)) \<and>
     lqNumPKs rq = (\<Sum>it \<in># mset (lqItems rq). int (length (liPrimaryKeys it)))"

lemma heapPop_Some:
  assumes "retry_queue_inv rq" "heapPop rq = Some (it, rq')"
  shows "retry_queue_inv rq'" "mset (lqItems rq) = add_mset it (mset (lqItems rq'))" "it = lqItems rq ! 0" "lqItems rq \<noteq> []"
proof -
  obtain items where pop: "heap_Pop next_retry (lqItems rq) = Some (it, items)"
    and rq': "rq' = \<lparr>lqItems = items, lqNumPKs = lqNumPKs rq - int (length (liPrimaryKeys it))\<rparr>"
    using assms(2) by (auto simp: heapPop_def bind_eq_Some_conv)
  have h: "heap_below next_retry (lqItems rq) (length (lqItems rq))" using assms(1) by (simp add: retry_queue_inv_def)
  note facts = heap_Pop_heap [OF h pop]
  show "retry_queue_inv rq'" using facts assms(1) rq' by (simp add: retry_queue_inv_def)
  show "mset (lqItems rq) = add_mset it (mset (lqItems rq'))" "it = lqItems rq ! 0" using facts rq' by simp_all
  show "lqItems rq \<noteq> []" using pop by (auto simp: heap_Pop_def)
qed

interpretation live: retry_queue heapPush heapPop "\<lambda>rq. mset (lqItems rq)" next_retry retry_queue_inv
proof
  fix q q' :: "'d live_retry_queue" and x y
  show "retry_queue_inv (heapPush x q)" if "retry_queue_inv q"
    using that heap_Push_heap [of next_retry "lqItems q" x] by (simp add: retry_queue_inv_def heapPush_def)
  show "mset (lqItems (heapPush x q)) = add_mset x (mset (lqItems q))" 
    by (simp add: heapPush_def heap_Push_def heap_up_basics)
  show "heapPop q \<noteq> None" if "mset (lqItems q) \<noteq> {#}" using that by (simp add: heapPop_def heap_Pop_def Let_def)
  assume q: "retry_queue_inv q" and pop: "heapPop q = Some (x, q')"
  show "retry_queue_inv q'" "mset (lqItems q) = add_mset x (mset (lqItems q'))" using heapPop_Some [OF q pop] by simp_all
  assume "y \<in># mset (lqItems q)"
  then obtain k where k: "k < length (lqItems q)" "y = lqItems q ! k" by (auto simp: in_set_conv_nth)
  have "heap_below next_retry (lqItems q) (length (lqItems q))" using q by (simp add: retry_queue_inv_def)
  from heap_root_least [OF this k(1)] show "next_retry x \<le> next_retry y" using heapPop_Some(3) [OF q pop] k(2) by simp
qed

lemma fold_heapPush:
  "retry_queue_inv rq \<Longrightarrow> retry_queue_inv (fold heapPush batches rq) \<and>
   mset (lqItems (fold heapPush batches rq)) = mset batches + mset (lqItems rq)"
  by (induction batches arbitrary: rq) (simp_all add: live.push_inv live.push_items)

text \<open>C40: a queue filled by \<open>heapPush\<close> in any order gives every batch back, by the time of its next retry, and its
  count of primary keys is that of the batches in it.\<close>

theorem queue_drains_in_order:
  "lqNumPKs (fold heapPush batches emptyRetryQueue) = (\<Sum>it \<leftarrow> batches. int (length (liPrimaryKeys it))) \<and>
   mset (pops heapPop (length batches) (fold heapPush batches emptyRetryQueue)) = mset batches \<and>
   sorted (map next_retry (pops heapPop (length batches) (fold heapPush batches emptyRetryQueue)))"
proof -
  let ?rq = "fold heapPush batches emptyRetryQueue"
  have "retry_queue_inv emptyRetryQueue" by (simp add: retry_queue_inv_def emptyRetryQueue_def heap_below_def)
  from fold_heapPush [OF this, of batches]
  have rq: "retry_queue_inv ?rq" and items: "mset (lqItems ?rq) = mset batches" by (simp_all add: emptyRetryQueue_def)
  have size: "size (mset (lqItems ?rq)) \<le> length batches" using items by simp
  have "lqNumPKs ?rq = (\<Sum>it \<leftarrow> batches. int (length (liPrimaryKeys it)))"
    using rq items by (simp add: retry_queue_inv_def sum_mset_sum_list [symmetric])
  then show ?thesis using live.pops_items [OF rq size] live.pops_sorted [OF rq size] items by simp
qed

end
