(* ===== verification/Live_Reverify.thy ===== *)
theory Live_Reverify
  imports Live_Queue Row_Report
begin

text \<open>
  Live mode: \<open>live_reverifier.go\<close> and the \<open>liveRowEventListener\<close> of \<open>row_event_listener.go\<close>.

  Two goroutines work on one shard. The scan compares the tables as usual, but its listener only collects
  the keys of rows that differ and sends them in batches to the re-verifier, which looks the keys up again,
  keeps those that still differ for another round and reports them in the last round. Both goroutines
  write to the same base listener.

  What the scan does to that shared state is a list of actions (\<open>live_action\<close>), in order: a callback of the
  base listener, an increment of \<open>NumLiveRetry\<close>, a send on the insert channel. \<open>live_step\<close> interleaves these
  actions with the re-verifier's rounds in any order. One call of a listener and one round of the
  re-verifier are each one step; the data races on the statistics are not modelled, and neither is the time at
  which a batch becomes due (a round may happen at any time after the batch is queued). The limiter's
  \<open>Wait\<close> and the loggers have no effect on the state: an error of \<open>Wait\<close> is only logged. The clock is a parameter: its \<open>k\<close>-th reading.
\<close>

section \<open>The listener of the scan\<close>

record live_settings =
  lsMaxBatchSize :: int
  lsFlushInterval :: int
  lsRetrySettings :: settings
  lsRunsPerSecond :: int

datatype 'd live_action =
    ABase "'d row_event"
  | ALiveRetry
  | APush "'d live_retry_item"

record 'd live_listener =
  llActions :: "'d live_action list"
  llPks :: "'d list list"
  llSettings :: live_settings
  llLastFlush :: int
  llTick :: nat       \<comment> \<open>how often the clock has been read\<close>
  llPanic :: "go_error option"

definition live_act :: "'d live_action \<Rightarrow> 'd live_listener \<Rightarrow> 'd live_listener" where
  "live_act a n = n\<lparr>llActions := llActions n @ [a]\<rparr>"

text \<open>After a panic nothing runs.\<close>

definition unless_panicked :: "('d live_listener \<Rightarrow> 'd live_listener) \<Rightarrow> 'd live_listener \<Rightarrow> 'd live_listener" where
  "unless_panicked f n = (if llPanic n = None then f n else n)"

definition live_note_key :: "'d list \<Rightarrow> 'd live_listener \<Rightarrow> 'd live_listener" where
  "live_note_key pk n = live_act ALiveRetry (n\<lparr>llPks := llPks n @ [pk]\<rparr>)"

definition live_Flush :: "(nat \<Rightarrow> int) \<Rightarrow> 'd live_listener \<Rightarrow> 'd live_listener" where
  "live_Flush clock n =
     (let n1 = n\<lparr>llLastFlush := clock (llTick n), llTick := Suc (llTick n)\<rparr>
      in if length (llPks n1) > 0
         then (case NewRetryWithTime (clock (llTick n1)) (lsRetrySettings (llSettings n1)) of
                 Inl e \<Rightarrow> n1\<lparr>llTick := Suc (llTick n1), llPanic := Some e\<rparr>
               | Inr r \<Rightarrow> (live_act (APush \<lparr>liPrimaryKeys = llPks n1, liRetry = r\<rparr>) n1)
                   \<lparr>llTick := Suc (llTick n1), llPks := []\<rparr>)
         else n1)"

definition live_OnRowScan :: "(nat \<Rightarrow> int) \<Rightarrow> 'd live_listener \<Rightarrow> 'd live_listener" where
  "live_OnRowScan clock n =
     (let n1 = live_act (ABase EScan) n;
          now = clock (llTick n1);
          n2 = n1\<lparr>llTick := Suc (llTick n1)\<rparr>
      in if now - llLastFlush n2 > lsFlushInterval (llSettings n2) \<or>
            int (length (llPks n2)) \<ge> lsMaxBatchSize (llSettings n2)
         then live_Flush clock n2 else n2)"

definition live_evl :: "(nat \<Rightarrow> int) \<Rightarrow> ('d live_listener, 'd) row_event_listener" where
  "live_evl clock =
     \<lparr>onExtraneousRow = \<lambda>row. unless_panicked (live_note_key (erPrimaryKeyValues row)),
      onMissingRow = \<lambda>row. unless_panicked (live_note_key (mrPrimaryKeyValues row)),
      onMismatchingRow = \<lambda>row. unless_panicked (live_note_key (mmPrimaryKeyValues row)),
      onColumnMismatchNoOtherIssues = \<lambda>row b. unless_panicked (live_act (ABase (EColumn row b))),
      onMatch = unless_panicked (live_act (ABase EMatch)),
      onRowScan = unless_panicked (live_OnRowScan clock)\<rparr>"

section \<open>The re-verifier\<close>

record 'd reverify_listener =
  rlItem :: "'d live_retry_item"
  rlBase :: "'d default_listener"

text \<open>The three callbacks for a row that differs: keep its key while there are retries left, otherwise
  pass the event on.\<close>

definition reverify_differs :: "'d list \<Rightarrow> 'd row_event \<Rightarrow> 'd reverify_listener \<Rightarrow> 'd reverify_listener" where
  "reverify_differs pk e r =
     (if \<not> ShouldContinue (liRetry (rlItem r)) then r\<lparr>rlBase := dispatch default_evl e (rlBase r)\<rparr>
      else r\<lparr>rlItem := (rlItem r)\<lparr>liPrimaryKeys := liPrimaryKeys (rlItem r) @ [pk]\<rparr>\<rparr>)"

definition reverify_evl :: "('d reverify_listener, 'd) row_event_listener" where
  "reverify_evl =
     \<lparr>onExtraneousRow = \<lambda>row. reverify_differs (erPrimaryKeyValues row) (EExtraneous row),
      onMissingRow = \<lambda>row. reverify_differs (mrPrimaryKeyValues row) (EMissing row),
      onMismatchingRow = \<lambda>row. reverify_differs (mmPrimaryKeyValues row) (EMismatch row),
      onColumnMismatchNoOtherIssues = \<lambda>row b r. r\<lparr>rlBase := dispatch default_evl (EColumn row b) (rlBase r)\<rparr>,
      onMatch = \<lambda>r. r\<lparr>rlBase := dispatch default_evl EMatch (rlBase r)\<rparr>,
      onRowScan = \<lambda>r. r\<rparr>"

text \<open>\<open>newLiveReverifier\<close> before its goroutine starts: a clone of each connection and the type map. \<open>clone\<close>
  stands for \<open>dbconn.Conn.Clone\<close>.\<close>

definition live_connection ::
  "('d pg_conn \<Rightarrow> 'd pg_conn result) \<Rightarrow> 'd pg_conn \<Rightarrow> oid list \<Rightarrow> 'd pg_conn result" where
  "live_connection clone conn oids =
     (case clone conn of
        Inl e \<Rightarrow> Inl e
      | Inr c \<Rightarrow> (case first_error (pcDataType conn) oids of
            Some (oid, e) \<Rightarrow> Inl (ErrWrap (''error initializing type oid '' @ Itoa (unat oid)) e)
          | None \<Rightarrow> Inr c))"

definition newLiveReverifier ::
  "('d pg_conn \<Rightarrow> 'd pg_conn result) \<Rightarrow> 'd pg_conn \<times> 'd pg_conn \<Rightarrow> ('x) verified_table_scheme \<Rightarrow>
   ('d pg_conn \<times> 'd pg_conn) result" where
  "newLiveReverifier clone conns table =
     (case live_connection clone (fst conns) (fst (vtColumnOIDs table)) of
        Inl e \<Rightarrow> Inl e
      | Inr c1 \<Rightarrow> (case live_connection clone (snd conns) (snd (vtColumnOIDs table)) of
            Inl e \<Rightarrow> Inl e
          | Inr c2 \<Rightarrow> Inr (c1, c2)))"

definition lookup_table :: "('x) verified_table_scheme \<Rightarrow> oid list \<Rightarrow> iter_table" where
  "lookup_table table oids =
     \<lparr>tnSchema = tnSchema table, tnTable = tnTable table, itColumnsWithAttr = vtColumns table,
      itColumnOIDs = oids, itPrimaryKeyColumns = vtPrimaryKeyColumns table\<rparr>"

record 'd live_state =
  lvActions :: "'d live_action list"      \<comment> \<open>what the scan still has to do\<close>
  lvQueue :: "'d live_retry_queue"
  lvScanDone :: bool
  lvExited :: bool
  lvBase :: "'d default_listener"
  lvLogged :: "go_error list"

text \<open>One round: the branch of \<open>nextWorkCh\<close>. The lookups are generated from the batch's keys before the first
  callback, so truncating the key slice in place does not affect them.\<close>

definition live_round ::
  "'d datum_ops \<Rightarrow> pow_fun \<Rightarrow> ('x) verified_table_scheme \<Rightarrow> 'd pg_conn \<times> 'd pg_conn \<Rightarrow> 'd live_state \<Rightarrow> 'd live_state option" where
  "live_round D pw table conns st = do {
     (it, q) \<leftarrow> heapPop (lvQueue st);
     (err, l) \<leftarrow> verifyRows D table (point_ops (fst conns)) (point_ops (snd conns)) reverify_evl
       (NewPointLookupIterator (lookup_table table (fst (vtColumnOIDs table))) (liPrimaryKeys it))
       (NewPointLookupIterator (lookup_table table (snd (vtColumnOIDs table))) (liPrimaryKeys it))
       \<lparr>rlItem = it\<lparr>liPrimaryKeys := []\<rparr>, rlBase = lvBase st\<rparr>;
     let st1 = st\<lparr>lvQueue := q, lvBase := rlBase l\<rparr>;
     Some (case err of
         Some e \<Rightarrow> st1\<lparr>lvLogged := lvLogged st1 @ [e]\<rparr>
       | None \<Rightarrow>
           (if length (liPrimaryKeys (rlItem l)) > 0
            then st1\<lparr>lvQueue := heapPush ((rlItem l)\<lparr>liRetry := retry_Next pw (liRetry (rlItem l))\<rparr>) q\<rparr>
            else st1))
   }"

fun apply_action :: "'d live_action \<Rightarrow> 'd live_state \<Rightarrow> 'd live_state" where
  "apply_action (ABase e) st = st\<lparr>lvBase := dispatch default_evl e (lvBase st)\<rparr>"
| "apply_action ALiveRetry st = st\<lparr>lvBase := (lvBase st)\<lparr>dlStats :=
     (dlStats (lvBase st))\<lparr>rsNumLiveRetry := rsNumLiveRetry (dlStats (lvBase st)) + 1\<rparr>\<rparr>\<rparr>"
| "apply_action (APush it) st = st\<lparr>lvQueue := heapPush it (lvQueue st)\<rparr>"

text \<open>The steps of the two goroutines: the scan's next action (a send needs the re-verifier's receive),
  \<open>ScanComplete\<close>, a round of the re-verifier, and its exit when the scan is complete and the queue empty.\<close>

inductive live_step ::
  "'d datum_ops \<Rightarrow> pow_fun \<Rightarrow> ('x) verified_table_scheme \<Rightarrow> 'd pg_conn \<times> 'd pg_conn \<Rightarrow> 'd live_state \<Rightarrow> 'd live_state \<Rightarrow> bool"
  for D pw table conns where
  scan: "lvActions st = a # as \<Longrightarrow> \<not> lvExited st \<Longrightarrow>
    live_step D pw table conns st ((apply_action a st)\<lparr>lvActions := as\<rparr>)"
| complete: "lvActions st = [] \<Longrightarrow> \<not> lvScanDone st \<Longrightarrow> \<not> lvExited st \<Longrightarrow>
    live_step D pw table conns st (st\<lparr>lvScanDone := True\<rparr>)"
| round: "\<not> lvExited st \<Longrightarrow> lqItems (lvQueue st) \<noteq> [] \<Longrightarrow> live_round D pw table conns st = Some st' \<Longrightarrow>
    live_step D pw table conns st st'"
| exit: "\<not> lvExited st \<Longrightarrow> lvScanDone st \<Longrightarrow> lqItems (lvQueue st) = [] \<Longrightarrow>
    live_step D pw table conns st (st\<lparr>lvExited := True\<rparr>)"

section \<open>VerifyRowsOnShard in live mode\<close>

definition new_live_listener :: "int \<Rightarrow> live_settings \<Rightarrow> 'd live_listener" where
  "new_live_listener now s =
     \<lparr>llActions = [], llPks = [], llSettings = s, llLastFlush = now, llTick = 1, llPanic = None\<rparr>"

text \<open>Up to the final \<open>Flush\<close>: the error returned early, or the re-verifier's connections and everything the scan does to the
  shared state. \<open>None\<close> is a panic (or a comparison that does not return).\<close>

definition live_scan ::
  "'d datum_ops \<Rightarrow> ('d pg_conn \<Rightarrow> 'd pg_conn result) \<Rightarrow> 'd pg_conn \<times> 'd pg_conn \<Rightarrow> 'd limiter \<Rightarrow> 'd table_shard \<Rightarrow> nat \<Rightarrow>
   (nat \<Rightarrow> int) \<Rightarrow> live_settings \<Rightarrow> (('d pg_conn \<times> 'd pg_conn) \<times> 'd live_action list) result option" where
  "live_scan D clone conns wait table rowBatchSize clock settings = do {
     r1 \<leftarrow> shard_iterator (fst conns) wait table (fst (vtColumnOIDs table)) rowBatchSize;
     (case r1 of
        Inl e \<Rightarrow> Some (Inl e)
      | Inr it1 \<Rightarrow> do {
          r2 \<leftarrow> shard_iterator (snd conns) wait table (snd (vtColumnOIDs table)) rowBatchSize;
          (case r2 of
             Inl e \<Rightarrow> Some (Inl e)
           | Inr it2 \<Rightarrow>
               (case newLiveReverifier clone conns table of
                  Inl e \<Rightarrow> Some (Inl e)
                | Inr lconns \<Rightarrow> do {
                    (err, n) \<leftarrow> verifyRows D table (scan_ops (fst conns) wait) (scan_ops (snd conns) wait)
                                  (live_evl clock) it1 it2 (new_live_listener (clock 0) settings);
                    (case llPanic n of
                       Some e \<Rightarrow> None
                     | None \<Rightarrow>
                         (case err of
                            Some e \<Rightarrow> Some (Inl e)
                          | None \<Rightarrow> do {
                              let n' = live_Flush clock n;
                              (case llPanic n' of Some e \<Rightarrow> None | None \<Rightarrow> Some (Inr (lconns, llActions n')))
                            }))
                  }))
        })
   }"

definition live_start :: "'d datum_ops \<Rightarrow> 'd table_shard \<Rightarrow> 'd live_action list \<Rightarrow> 'd report list \<Rightarrow> 'd live_state" where
  "live_start D table acts sent =
     \<lparr>lvActions = acts, lvQueue = emptyRetryQueue, lvScanDone = False, lvExited = False,
      lvBase = new_default_listener D table sent, lvLogged = []\<rparr>"

text \<open>What the reporter has received when \<open>VerifyRowsOnShard\<close> returns.\<close>

definition live_finish :: "'d table_shard \<Rightarrow> 'd live_state \<Rightarrow> 'd report list" where
  "live_finish table st = dlReports (lvBase st) @
     [SummaryReport (''finished LIVE row verification on '' @
        shard_text table (tsShardNum table) (tsTotalShards table)) (dlStats (lvBase st))]"

section \<open>Lookups meet the contract of a comparison\<close>

definition lookup_world ::
  "'d datum_ops \<Rightarrow> ('x) verified_table_scheme \<Rightarrow> oid list \<Rightarrow> 'd row list \<Rightarrow> 'd pg_conn \<Rightarrow> bool" where
  "lookup_world D table oids tbl conn \<longleftrightarrow>
     table_shape (lookup_table table oids) \<and> stored_rows D (lookup_table table oids) tbl \<and>
     conn_answers D (lookup_table table oids) tbl conn"

lemma point_inv_shape:
  assumes "point_inv D (lookup_table table oids) tbl conn it"
  shows "keyed table" "three_way (dCompare D)" "r \<in> set (point_pending D tbl it) \<Longrightarrow> full_row table r"
  using assms table_shape_npk [of "lookup_table table oids"] stored_rows_length [of D "lookup_table table oids" tbl r]
  by (auto simp: point_inv_def point_world_def lookup_table_def keyed_def full_row_def stored_rows_def)

interpretation points: row_verifier
  "point_ops conn1" "point_inv D (lookup_table table oids1) tbl1 conn1" "point_pending D tbl1"
  "point_ops conn2" "point_inv D (lookup_table table oids2) tbl2 conn2" "point_pending D tbl2"
  D table
  for D table conn1 oids1 tbl1 conn2 oids2 tbl2
  by unfold_locales (auto intro: point_inv_shape)

abbreviation npk :: "('x) verified_table_scheme \<Rightarrow> nat" where
  "npk table \<equiv> length (vtPrimaryKeyColumns table)"

definition lookup_diff ::
  "'d datum_ops \<Rightarrow> ('x) verified_table_scheme \<Rightarrow> 'd row list \<Rightarrow> 'd row list \<Rightarrow> 'd list list \<Rightarrow> 'd row_event list" where
  "lookup_diff D table tbl1 tbl2 pks =
     row_diff D table (looked_up D (npk table) pks tbl1) (looked_up D (npk table) pks tbl2) {}"

definition keys_ok :: "('x) verified_table_scheme \<Rightarrow> 'd list list \<Rightarrow> bool" where
  "keys_ok table pks \<longleftrightarrow> pks \<noteq> [] \<and> list_all (\<lambda>pk. length pk = npk table) pks"

lemma lookup_verifyRows:
  assumes "lookup_world D table oids1 tbl1 conn1" "lookup_world D table oids2 tbl2 conn2" "keys_ok table pks"
  shows "verifyRows D table (point_ops conn1) (point_ops conn2) evl
      (NewPointLookupIterator (lookup_table table oids1) pks) (NewPointLookupIterator (lookup_table table oids2) pks) l =
    Some (None, fold (dispatch evl) (lookup_diff D table tbl1 tbl2 pks) l)"
proof -
  have inv: "point_inv D (lookup_table table oids) tbl conn (NewPointLookupIterator (lookup_table table oids) pks)"
    if "lookup_world D table oids tbl conn" for oids tbl conn
    using that assms(3)
    by (auto simp: point_inv_def NewPointLookupIterator_def point_pending_def looked_up_def point_world_def
        lookup_world_def keys_ok_def lookup_table_def)
  show ?thesis
    using points.verifyRows_spec [OF inv [OF assms(1)] inv [OF assms(2)], of evl l]
    by (simp add: lookup_diff_def NewPointLookupIterator_def point_pending_def lookup_table_def)
qed

end
