(* ===== verification/Live_Properties.thy ===== *)
theory Live_Properties
  imports Live_Reverify Example_Db
begin

text \<open>
  Live mode reports what a comparison of the two tables reports: for tables that do not change meanwhile and any
  interleaving of the scan with the re-verifier, the run ends and the row reports are exactly the differences
  of the shard.
\<close>

section \<open>Differences by key\<close>

text \<open>The report that an event about one row leads to, and the key it is about.\<close>

fun event_report :: "'d row_event \<Rightarrow> 'd report option" where
  "event_report (EMissing r) = Some (MissingRow r)"
| "event_report (EExtraneous r) = Some (ExtraneousRow r)"
| "event_report (EMismatch r) = Some (MismatchingRow r)"
| "event_report _ = None"

fun event_key :: "'d row_event \<Rightarrow> 'd list option" where
  "event_key (EMissing r) = Some (mrPrimaryKeyValues r)"
| "event_key (EExtraneous r) = Some (erPrimaryKeyValues r)"
| "event_key (EMismatch r) = Some (mmPrimaryKeyValues r)"
| "event_key _ = None"

fun is_row_report :: "'d report \<Rightarrow> bool" where
  "is_row_report (MissingRow r) = True"
| "is_row_report (ExtraneousRow r) = True"
| "is_row_report (MismatchingRow r) = True"
| "is_row_report _ = False"

definition diffs :: "'d row_event list \<Rightarrow> 'd report set" where
  "diffs evs = set (List.map_filter event_report evs)"

definition diff_keys :: "'d row_event list \<Rightarrow> 'd list list" where
  "diff_keys evs = List.map_filter event_key evs"

lemma diffs_simps [simp]:
  "diffs [] = {}"
  "diffs (EScan # evs) = diffs evs" "diffs (EMatch # evs) = diffs evs" "diffs (EColumn c b # evs) = diffs evs"
  "diffs (EMissing r # evs) = insert (MissingRow r) (diffs evs)"
  "diffs (EExtraneous x # evs) = insert (ExtraneousRow x) (diffs evs)"
  "diffs (EMismatch y # evs) = insert (MismatchingRow y) (diffs evs)"
  by (auto simp: diffs_def List.map_filter_def)

lemma diff_keys_simps [simp]:
  "diff_keys [] = []"
  "diff_keys (EScan # evs) = diff_keys evs" "diff_keys (EMatch # evs) = diff_keys evs" "diff_keys (EColumn c b # evs) = diff_keys evs"
  "diff_keys (EMissing r # evs) = mrPrimaryKeyValues r # diff_keys evs"
  "diff_keys (EExtraneous x # evs) = erPrimaryKeyValues x # diff_keys evs"
  "diff_keys (EMismatch y # evs) = mmPrimaryKeyValues y # diff_keys evs"
  by (auto simp: diff_keys_def List.map_filter_def)

lemma diffs_projections:
  "diffs evs = set (map MissingRow (missing_of evs)) \<union> set (map ExtraneousRow (extraneous_of evs)) \<union>
     set (map MismatchingRow (mismatch_of evs))"
proof (induction evs)
  case (Cons e evs)
  then show ?case by (cases e) auto
qed simp

fun report_key :: "'d report \<Rightarrow> 'd list" where
  "report_key (MissingRow r) = mrPrimaryKeyValues r"
| "report_key (ExtraneousRow r) = erPrimaryKeyValues r"
| "report_key (MismatchingRow r) = mmPrimaryKeyValues r"
| "report_key _ = []"

lemma diff_keys_diffs: "set (diff_keys evs) = report_key ` diffs evs"
proof (induction evs)
  case (Cons e evs)
  then show ?case by (cases e) auto
qed simp

text \<open>The differences of the rows that satisfy \<open>P\<close>, a predicate on keys.\<close>

definition diffs_where ::
  "'d datum_ops \<Rightarrow> ('x) verified_table_scheme \<Rightarrow> 'd row list \<Rightarrow> 'd row list \<Rightarrow> ('d row \<Rightarrow> bool) \<Rightarrow> 'd report set" where
  "diffs_where D table tbl1 tbl2 P =
     MissingRow ` missing_report table ` {t \<in> set tbl1. P t \<and> \<not> same_key D table t tbl2} \<union>
     ExtraneousRow ` extraneous_report table ` {g \<in> set tbl2. P g \<and> \<not> same_key D table g tbl1} \<union>
     (\<lambda>(t, g). MismatchingRow (mismatch_report D table t g)) `
       {(t, g). t \<in> set tbl1 \<and> g \<in> set tbl2 \<and> P t \<and> row_cmp D table t g = 0 \<and> list_ex (col_differs D t g) (value_cols table)}"

definition on_keys :: "'d datum_ops \<Rightarrow> ('x) verified_table_scheme \<Rightarrow> ('d row \<Rightarrow> bool) \<Rightarrow> bool" where
  "on_keys D table P \<longleftrightarrow>
     (\<forall>r r'. full_row table r \<longrightarrow> full_row table r' \<longrightarrow> row_cmp D table r r' = 0 \<longrightarrow> P r = P r')"

definition with_key :: "'d datum_ops \<Rightarrow> nat \<Rightarrow> 'd list list \<Rightarrow> 'd row \<Rightarrow> bool" where
  "with_key D n pks r = list_ex (\<lambda>pk. lex_cmp (dCompare D) (take n r) pk = 0) pks"

lemma comparable_filter: "comparable D table tbl \<Longrightarrow> comparable D table (filter P tbl)"
  by (auto simp: comparable_def pk_sorted_def list_all_iff sorted_wrt_filter)

lemma same_key_filter:
  assumes "on_keys D table P" "comparable D table tbl" "full_row table r" "P r"
  shows "same_key D table r (filter P tbl) = same_key D table r tbl"
proof -
  have "P r'" if "r' \<in> set tbl" "row_cmp D table r r' = 0" for r'
    using assms comparableD(2) [OF assms(2) that(1)] that(2) by (auto simp: on_keys_def)
  then show ?thesis by (auto simp: same_key_def list_ex_iff)
qed

lemma diffs_row_diff:
  assumes P: "on_keys D table P" and c: "comparable D table tbl1" "comparable D table tbl2"
  shows "diffs (row_diff D table (filter P tbl1) (filter P tbl2) {}) = diffs_where D table tbl1 tbl2 P"
proof -
  note proj = row_diff_projections [OF comparable_filter [OF c(1), of P] comparable_filter [OF c(2), of P], of "{}"]
  have m: "mismatch_of (row_diff D table (filter P tbl1) (filter P tbl2) {}) =
      map (\<lambda>(t, g). mismatch_report D table t g)
        (filter (\<lambda>(t, g). list_ex (col_differs D t g) (value_cols table)) (matched D table (filter P tbl1) (filter P tbl2)))"
    using proj mismatch_of_filter [of "row_diff D table (filter P tbl1) (filter P tbl2) {}"] by (simp add: mismatch_of_pair_events)
  have "set (matched D table (filter P tbl1) (filter P tbl2)) =
      {(t, g). t \<in> set tbl1 \<and> g \<in> set tbl2 \<and> P t \<and> P g \<and> row_cmp D table t g = 0}"
    by (auto simp: matched_def)
  also have "\<dots> = {(t, g). t \<in> set tbl1 \<and> g \<in> set tbl2 \<and> P t \<and> row_cmp D table t g = 0}"
    using P comparableD(2) [OF c(1)] comparableD(2) [OF c(2)] by (auto simp: on_keys_def)
  finally have mt: "set (filter (\<lambda>(t, g). list_ex (col_differs D t g) (value_cols table)) (matched D table (filter P tbl1) (filter P tbl2))) =
      {(t, g). t \<in> set tbl1 \<and> g \<in> set tbl2 \<and> P t \<and> row_cmp D table t g = 0 \<and> list_ex (col_differs D t g) (value_cols table)}"
    by auto
  have "set (filter (\<lambda>t. \<not> same_key D table t (filter P tbl2)) (filter P tbl1)) = {t \<in> set tbl1. P t \<and> \<not> same_key D table t tbl2}"
    "set (filter (\<lambda>g. \<not> same_key D table g (filter P tbl1)) (filter P tbl2)) = {g \<in> set tbl2. P g \<and> \<not> same_key D table g tbl1}"
    using same_key_filter [OF P c(2)] same_key_filter [OF P c(1)] comparableD(2) [OF c(1)] comparableD(2) [OF c(2)] by auto
  then show ?thesis unfolding diffs_projections m set_map mt using proj by (auto simp: diffs_where_def image_comp comp_def split_def)
qed

lemma report_keys [simp]:
  "mrPrimaryKeyValues (missing_report table t) = take (npk table) t"
  "erPrimaryKeyValues (extraneous_report table g) = take (npk table) g"
  "mmPrimaryKeyValues (mismatch_report D table t g) = take (npk table) g"
  by (simp_all add: missing_report_def extraneous_report_def mismatch_report_def Let_def)

text \<open>The keys of the differences stand for exactly those differences.\<close>

lemma diffs_of_keys:
  assumes P: "on_keys D table P" and c: "comparable D table tbl1" "comparable D table tbl2"
  defines "evs \<equiv> row_diff D table (filter P tbl1) (filter P tbl2) {}"
  shows "diffs_where D table tbl1 tbl2 (with_key D (npk table) (diff_keys evs)) = diffs_where D table tbl1 tbl2 P"
    and "\<forall>pk \<in> set (diff_keys evs). length pk = npk table"
proof -
  let ?n = "npk table" and ?W = "\<lambda>P. diffs_where D table tbl1 tbl2 P"
  have K: "set (diff_keys evs) = report_key ` ?W P"
    unfolding evs_def diff_keys_diffs diffs_row_diff [OF P c] ..
  have rows: "\<exists>r. k = take ?n r \<and> P r \<and> full_row table r" if "k \<in> set (diff_keys evs)" for k
    using that P comparableD(2) [OF c(1)] comparableD(2) [OF c(2)] unfolding K diffs_where_def on_keys_def by fastforce
  show "\<forall>pk \<in> set (diff_keys evs). length pk = npk table"
    using rows c(1) by (fastforce simp: full_row_def comparable_def keyed_def)
  note refl = lex_cmp_refl [OF comparableD(1) [OF c(1)]]
  have sound: "P x" if "with_key D ?n (diff_keys evs) x" "full_row table x" for x
    using that rows P by (fastforce simp: with_key_def list_ex_iff on_keys_def row_cmp_def)
  have m: "with_key D ?n (diff_keys evs) t" if "t \<in> set tbl1" "P t" "\<not> same_key D table t tbl2" for t
  proof -
    have "report_key (MissingRow (missing_report table t)) \<in> set (diff_keys evs)"
      unfolding K by (rule imageI) (use that in \<open>auto simp: diffs_where_def\<close>)
    then show ?thesis using refl by (auto simp: with_key_def list_ex_iff)
  qed
  have e: "with_key D ?n (diff_keys evs) g" if "g \<in> set tbl2" "P g" "\<not> same_key D table g tbl1" for g
  proof -
    have "report_key (ExtraneousRow (extraneous_report table g)) \<in> set (diff_keys evs)"
      unfolding K by (rule imageI) (use that in \<open>auto simp: diffs_where_def\<close>)
    then show ?thesis using refl by (auto simp: with_key_def list_ex_iff)
  qed
  have mm: "with_key D ?n (diff_keys evs) t"
    if "t \<in> set tbl1" "g \<in> set tbl2" "P t" "row_cmp D table t g = 0" "list_ex (col_differs D t g) (value_cols table)" for t g
  proof -
    have "report_key (MismatchingRow (mismatch_report D table t g)) \<in> set (diff_keys evs)"
      unfolding K by (rule imageI) (use that in \<open>auto simp: diffs_where_def\<close>)
    then show ?thesis using that(4) by (auto simp: with_key_def list_ex_iff row_cmp_def)
  qed
  have "{t \<in> set tbl1. with_key D ?n (diff_keys evs) t \<and> \<not> same_key D table t tbl2} = {t \<in> set tbl1. P t \<and> \<not> same_key D table t tbl2}"
    "{g \<in> set tbl2. with_key D ?n (diff_keys evs) g \<and> \<not> same_key D table g tbl1} = {g \<in> set tbl2. P g \<and> \<not> same_key D table g tbl1}"
    "{(t, g). t \<in> set tbl1 \<and> g \<in> set tbl2 \<and> with_key D ?n (diff_keys evs) t \<and> row_cmp D table t g = 0 \<and> list_ex (col_differs D t g) (value_cols table)} =
     {(t, g). t \<in> set tbl1 \<and> g \<in> set tbl2 \<and> P t \<and> row_cmp D table t g = 0 \<and> list_ex (col_differs D t g) (value_cols table)}"
    using sound m e mm comparableD(2) [OF c(1)] comparableD(2) [OF c(2)] by blast+
  then show "?W (with_key D ?n (diff_keys evs)) = ?W P" unfolding diffs_where_def by argo
qed

text \<open>Both the lookup by keys and the bounds of a shard are predicates on keys.\<close>

lemma on_keys_with_key:
  assumes "three_way (dCompare D)" "keyed table" "\<forall>pk \<in> set pks. length pk = npk table"
  shows "on_keys D table (with_key D (npk table) pks)"
  unfolding on_keys_def with_key_def list_ex_iff
proof (intro allI impI)
  fix r r' assume r: "full_row table r" "full_row table r'" "row_cmp D table r r' = 0"
  have "lex_cmp (dCompare D) (take (npk table) r) pk = lex_cmp (dCompare D) (take (npk table) r') pk" if "pk \<in> set pks" for pk
    by (rule lex_cmp_eq_trans [OF assms(1)]) (use r assms(2,3) that in \<open>auto simp: full_row_def keyed_def row_cmp_def\<close>)
  then show "(\<exists>pk \<in> set pks. lex_cmp (dCompare D) (take (npk table) r) pk = 0) \<longleftrightarrow>
      (\<exists>pk \<in> set pks. lex_cmp (dCompare D) (take (npk table) r') pk = 0)" by simp
qed

lemma on_keys_bounds:
  assumes "three_way (dCompare D)" "keyed table" "length start \<le> npk table" "length end' \<le> npk table"
  shows "on_keys D table (\<lambda>r. not_before D start r \<and> before_end D end' r)"
  unfolding on_keys_def
proof (intro allI impI)
  fix r r' assume r: "full_row table r" "full_row table r'" "row_cmp D table r r' = 0"
  have "lex_cmp (dCompare D) (take (length b) r) b = lex_cmp (dCompare D) (take (length b) r') b" if "length b \<le> npk table" for b
  proof (rule lex_cmp_eq_trans [OF assms(1)])
    show "lex_cmp (dCompare D) (take (length b) r) (take (length b) r') = 0"
      using lex_cmp_take [of "dCompare D" "length b" "take (npk table) r" "take (npk table) r'"] r(3) that
      by (auto simp: row_cmp_def min_def)
  qed (use r assms(2) that in \<open>auto simp: full_row_def keyed_def\<close>)
  then show "(not_before D start r \<and> before_end D end' r) = (not_before D start r' \<and> before_end D end' r')"
    using assms(3,4) by (simp add: not_before_def before_end_def)
qed

lemma diffs_where_union:
  "diffs_where D table tbl1 tbl2 (with_key D n (concat pkss)) = (\<Union>pks \<in> set pkss. diffs_where D table tbl1 tbl2 (with_key D n pks))"
proof -
  have w: "with_key D n (concat pkss) r = (\<exists>pks \<in> set pkss. with_key D n pks r)" for r by (auto simp: with_key_def list_ex_iff)
  have "{r \<in> set tbl. with_key D n (concat pkss) r \<and> Q r} = (\<Union>pks \<in> set pkss. {r \<in> set tbl. with_key D n pks r \<and> Q r})" for tbl Q
    unfolding w by blast
  moreover have "{(t, g). t \<in> set tbl1 \<and> g \<in> set tbl2 \<and> with_key D n (concat pkss) t \<and> R t g} =
      (\<Union>pks \<in> set pkss. {(t, g). t \<in> set tbl1 \<and> g \<in> set tbl2 \<and> with_key D n pks t \<and> R t g})" for R
    unfolding w by blast
  ultimately show ?thesis unfolding diffs_where_def by (simp only: image_UN UN_Un_distrib)
qed

section \<open>What the listeners do\<close>

definition row_reports :: "'d report list \<Rightarrow> 'd report set" where
  "row_reports rs = {r \<in> set rs. is_row_report r}"

lemma row_reports_dispatch: "row_reports (dlReports (dispatch default_evl e n)) = row_reports (dlReports n) \<union> diffs [e]"
  by (cases e) (auto simp: row_reports_def listener_defs Let_def split: if_splits)

lemma diffs_append: "diffs (xs @ ys) = diffs xs \<union> diffs ys"
  by (simp add: diffs_def List.map_filter_def)

lemma diffs_Cons: "diffs (e # evs) = diffs [e] \<union> diffs evs"
  using diffs_append [of "[e]" evs] by simp

lemma row_reports_fold: "row_reports (dlReports (fold (dispatch default_evl) evs n)) = row_reports (dlReports n) \<union> diffs evs"
proof (induction evs arbitrary: n)
  case (Cons e evs)
  show ?case using Cons [of "dispatch default_evl e n"] diffs_Cons [of e evs] by (auto simp: row_reports_dispatch)
qed simp

lemma reverify_dispatch:
  "dispatch reverify_evl e r =
     (case event_key e of
        Some pk \<Rightarrow> reverify_differs pk e r
      | None \<Rightarrow> if e = EScan then r else r\<lparr>rlBase := dispatch default_evl e (rlBase r)\<rparr>)"
  by (cases e) (simp_all add: reverify_evl_def)

lemma no_key_no_diff: "event_key e = None \<Longrightarrow> diffs (e # evs) = diffs evs \<and> diff_keys (e # evs) = diff_keys evs"
  by (cases e) simp_all

lemma reverify_keeps:
  "ShouldContinue (liRetry (rlItem r)) \<Longrightarrow>
   rlItem (fold (dispatch reverify_evl) evs r) = (rlItem r)\<lparr>liPrimaryKeys := liPrimaryKeys (rlItem r) @ diff_keys evs\<rparr> \<and>
   row_reports (dlReports (rlBase (fold (dispatch reverify_evl) evs r))) = row_reports (dlReports (rlBase r))"
proof (induction evs arbitrary: r)
  case (Cons e evs)
  have "diff_keys (e # evs) = (case event_key e of Some pk \<Rightarrow> pk # diff_keys evs | None \<Rightarrow> diff_keys evs)" by (cases e) simp_all
  then show ?case
    using Cons.prems Cons.IH [of "dispatch reverify_evl e r"] no_key_no_diff [of e "[]"]
    by (simp add: reverify_dispatch reverify_differs_def row_reports_dispatch split: option.splits)
qed simp

lemma reverify_reports:
  "\<not> ShouldContinue (liRetry (rlItem r)) \<Longrightarrow>
   rlItem (fold (dispatch reverify_evl) evs r) = rlItem r \<and>
   row_reports (dlReports (rlBase (fold (dispatch reverify_evl) evs r))) = row_reports (dlReports (rlBase r)) \<union> diffs evs"
proof (induction evs arbitrary: r)
  case (Cons e evs)
  show ?case
    using Cons.prems Cons.IH [of "dispatch reverify_evl e r"] no_key_no_diff [of e "[]"]
    unfolding diffs_Cons [of e evs]
    by (auto simp: reverify_dispatch reverify_differs_def row_reports_dispatch split: option.splits)
qed simp

section \<open>The re-verifier's rounds\<close>

text \<open>Two tables that do not change, read through the re-verifier's connections.\<close>

definition lookup_worlds ::
  "'d datum_ops \<Rightarrow> ('x) verified_table_scheme \<Rightarrow> 'd row list \<times> 'd row list \<Rightarrow> 'd pg_conn \<times> 'd pg_conn \<Rightarrow> bool" where
  "lookup_worlds D table tbls conns \<longleftrightarrow>
     lookup_world D table (fst (vtColumnOIDs table)) (fst tbls) (fst conns) \<and>
     lookup_world D table (snd (vtColumnOIDs table)) (snd tbls) (snd conns)"

abbreviation key_diffs ::
  "'d datum_ops \<Rightarrow> ('x) verified_table_scheme \<Rightarrow> 'd row list \<times> 'd row list \<Rightarrow> 'd list list \<Rightarrow> 'd report set" where
  "key_diffs D table tbls pks \<equiv> diffs_where D table (fst tbls) (snd tbls) (with_key D (npk table) pks)"

lemma lookup_comparable:
  assumes "lookup_world D table oids tbl conn"
  shows "comparable D table tbl"
  using assms table_shape_npk [of "lookup_table table oids"]
  by (auto simp: lookup_world_def comparable_def stored_rows_def lookup_table_def keyed_def full_row_def list_all_iff)

lemma lookup_diff_diffs:
  assumes "lookup_worlds D table tbls conns" "keys_ok table pks"
  shows "diffs (lookup_diff D table (fst tbls) (snd tbls) pks) = key_diffs D table tbls pks"
    and "key_diffs D table tbls (diff_keys (lookup_diff D table (fst tbls) (snd tbls) pks)) = key_diffs D table tbls pks"
    and "\<forall>pk \<in> set (diff_keys (lookup_diff D table (fst tbls) (snd tbls) pks)). length pk = npk table"
proof -
  have c: "comparable D table (fst tbls)" "comparable D table (snd tbls)"
    using assms(1) lookup_comparable by (auto simp: lookup_worlds_def)
  have P: "on_keys D table (with_key D (npk table) pks)"
    by (rule on_keys_with_key) (use c assms(2) in \<open>auto simp: comparable_def keys_ok_def list_all_iff\<close>)
  have l: "looked_up D (npk table) pks tbl = filter (with_key D (npk table) pks) tbl" for tbl
    by (simp add: looked_up_def with_key_def [abs_def])
  show "diffs (lookup_diff D table (fst tbls) (snd tbls) pks) = key_diffs D table tbls pks"
    unfolding lookup_diff_def l by (rule diffs_row_diff [OF P c])
  show "key_diffs D table tbls (diff_keys (lookup_diff D table (fst tbls) (snd tbls) pks)) = key_diffs D table tbls pks"
    "\<forall>pk \<in> set (diff_keys (lookup_diff D table (fst tbls) (snd tbls) pks)). length pk = npk table"
    unfolding lookup_diff_def l by (rule diffs_of_keys [OF P c])+
qed

text \<open>A round on the batch \<open>it\<close>: while retries are left the keys that differ are queued again and no row is reported,
  afterwards the differences are reported and the batch is gone.\<close>

lemma live_round_spec:
  assumes "lookup_worlds D table tbls conns" "heapPop (lvQueue st) = Some (it, q)" "keys_ok table (liPrimaryKeys it)"
  defines "ks \<equiv> diff_keys (lookup_diff D table (fst tbls) (snd tbls) (liPrimaryKeys it))"
  obtains base where "live_round D pw table conns st = Some (st\<lparr>lvBase := base, lvQueue :=
      (if ShouldContinue (liRetry it) \<and> ks \<noteq> [] then heapPush (it\<lparr>liPrimaryKeys := ks, liRetry := retry_Next pw (liRetry it)\<rparr>) q else q)\<rparr>)"
    and "row_reports (dlReports base) = row_reports (dlReports (lvBase st)) \<union>
      (if ShouldContinue (liRetry it) then {} else key_diffs D table tbls (liPrimaryKeys it))"
proof -
  let ?evs = "lookup_diff D table (fst tbls) (snd tbls) (liPrimaryKeys it)"
  let ?r = "\<lparr>rlItem = it\<lparr>liPrimaryKeys := []\<rparr>, rlBase = lvBase st\<rparr>"
  let ?l = "fold (dispatch reverify_evl) ?evs ?r"
  have v: "verifyRows D table (point_ops (fst conns)) (point_ops (snd conns)) reverify_evl
       (NewPointLookupIterator (lookup_table table (fst (vtColumnOIDs table))) (liPrimaryKeys it))
       (NewPointLookupIterator (lookup_table table (snd (vtColumnOIDs table))) (liPrimaryKeys it)) ?r = Some (None, ?l)"
    using assms(1) lookup_verifyRows [OF _ _ assms(3)] by (metis lookup_worlds_def)
  note d = lookup_diff_diffs(1) [OF assms(1,3)]
  show ?thesis
  proof (cases "ShouldContinue (liRetry it)")
    case True
    then have "rlItem ?l = it\<lparr>liPrimaryKeys := ks\<rparr>" "row_reports (dlReports (rlBase ?l)) = row_reports (dlReports (lvBase st))"
      using reverify_keeps [of ?r ?evs] by (simp_all add: ks_def)
    then show ?thesis
      using True assms(2) v by (intro that [of "rlBase ?l"]) (auto simp: live_round_def)
  next
    case False
    then have "rlItem ?l = it\<lparr>liPrimaryKeys := []\<rparr>"
      "row_reports (dlReports (rlBase ?l)) = row_reports (dlReports (lvBase st)) \<union> key_diffs D table tbls (liPrimaryKeys it)"
      using reverify_reports [of ?r ?evs] d by simp_all
    then show ?thesis
      using False assms(2) v by (intro that [of "rlBase ?l"]) (auto simp: live_round_def)
  qed
qed

section \<open>Every interleaving ends with the same reports\<close>

definition batch_ok :: "('x) verified_table_scheme \<Rightarrow> 'd live_retry_item \<Rightarrow> bool" where
  "batch_ok table it \<longleftrightarrow> keys_ok table (liPrimaryKeys it) \<and> 0 < reMaxRetries (rtSettings (liRetry it))"

fun action_ok :: "('x) verified_table_scheme \<Rightarrow> 'd live_action \<Rightarrow> bool" where
  "action_ok table (APush it) = batch_ok table it"
| "action_ok table _ = True"

fun action_diffs ::
  "'d datum_ops \<Rightarrow> ('x) verified_table_scheme \<Rightarrow> 'd row list \<times> 'd row list \<Rightarrow> 'd live_action \<Rightarrow> 'd report set" where
  "action_diffs D table tbls (APush it) = key_diffs D table tbls (liPrimaryKeys it)"
| "action_diffs D table tbls (ABase e) = diffs [e]"
| "action_diffs D table tbls ALiveRetry = {}"

definition queued_diffs ::
  "'d datum_ops \<Rightarrow> ('x) verified_table_scheme \<Rightarrow> 'd row list \<times> 'd row list \<Rightarrow> 'd live_retry_queue \<Rightarrow> 'd report set" where
  "queued_diffs D table tbls q = (\<Union>it \<in> set_mset (mset (lqItems q)). key_diffs D table tbls (liPrimaryKeys it))"

text \<open>What has been reported, what is queued and what the scan has still to send are together the same at every moment.\<close>

definition live_inv ::
  "'d datum_ops \<Rightarrow> ('x) verified_table_scheme \<Rightarrow> 'd row list \<times> 'd row list \<Rightarrow> 'd report set \<Rightarrow> 'd live_state \<Rightarrow> bool" where
  "live_inv D table tbls allDiffs st \<longleftrightarrow>
     retry_queue_inv (lvQueue st) \<and> (\<forall>it \<in># mset (lqItems (lvQueue st)). batch_ok table it) \<and>
     (\<forall>a \<in> set (lvActions st). action_ok table a) \<and>
     row_reports (dlReports (lvBase st)) \<union> queued_diffs D table tbls (lvQueue st) \<union>
       (\<Union>a \<in> set (lvActions st). action_diffs D table tbls a) = allDiffs \<and>
     (lvScanDone st \<longrightarrow> lvActions st = []) \<and> (lvExited st \<longrightarrow> lvScanDone st \<and> lqItems (lvQueue st) = [])"

definition batch_weight :: "'d live_retry_item \<Rightarrow> nat" where
  "batch_weight it = Suc (nat (reMaxRetries (rtSettings (liRetry it)) - rtIteration (liRetry it)))"

fun action_weight :: "'d live_action \<Rightarrow> nat" where
  "action_weight (APush it) = Suc (batch_weight it)"
| "action_weight _ = 1"

definition live_measure :: "'d live_state \<Rightarrow> nat" where
  "live_measure st = (\<Sum>a \<leftarrow> lvActions st. action_weight a) + (\<Sum>it \<in># mset (lqItems (lvQueue st)). batch_weight it) +
     (if lvScanDone st then 0 else 1) + (if lvExited st then 0 else 1)"

lemma queued_diffs_push [simp]:
  "queued_diffs D table tbls (heapPush it q) = key_diffs D table tbls (liPrimaryKeys it) \<union> queued_diffs D table tbls q"
  by (simp add: queued_diffs_def live.push_items del: set_mset_mset)

lemma scan_step_inv:
  assumes "live_inv D table tbls allDiffs st" "lvActions st = a # as" "\<not> lvExited st"
  shows "live_inv D table tbls allDiffs ((apply_action a st)\<lparr>lvActions := as\<rparr>) \<and>
    live_measure ((apply_action a st)\<lparr>lvActions := as\<rparr>) < live_measure st"
proof (cases a)
  case (ABase e)
  then show ?thesis using assms
    by (auto simp: live_inv_def live_measure_def row_reports_dispatch)
next
  case ALiveRetry
  then show ?thesis using assms by (auto simp: live_inv_def live_measure_def)
next
  case (APush it)
  then show ?thesis using assms live.push_inv [of "lvQueue st" it]
    by (auto simp: live_inv_def live_measure_def live.push_items simp del: set_mset_mset)
qed

lemma round_inv:
  assumes w: "lookup_worlds D table tbls conns" and inv: "live_inv D table tbls allDiffs st"
    and q: "lqItems (lvQueue st) \<noteq> []" and ex: "\<not> lvExited st"
  obtains st' where "live_round D pw table conns st = Some st'" "live_inv D table tbls allDiffs st'"
    "live_measure st' < live_measure st"
proof -
  have qi: "retry_queue_inv (lvQueue st)" using inv by (simp add: live_inv_def)
  obtain it q' where pop: "heapPop (lvQueue st) = Some (it, q')"
    using live.pop_some [of "lvQueue st"] q by auto
  note q' = live.pop_inv [OF qi pop] and items = live.pop_items [OF qi pop]
  have ok: "batch_ok table it" "\<forall>it \<in># mset (lqItems q'). batch_ok table it"
    using inv items by (auto simp: live_inv_def simp del: set_mset_mset)
  then have keys: "keys_ok table (liPrimaryKeys it)" by (simp add: batch_ok_def)
  let ?ks = "diff_keys (lookup_diff D table (fst tbls) (snd tbls) (liPrimaryKeys it))"
  let ?it = "it\<lparr>liPrimaryKeys := ?ks, liRetry := retry_Next pw (liRetry it)\<rparr>"
  let ?q = "if ShouldContinue (liRetry it) \<and> ?ks \<noteq> [] then heapPush ?it q' else q'"
  obtain base where r: "live_round D pw table conns st = Some (st\<lparr>lvBase := base, lvQueue := ?q\<rparr>)"
    and rep: "row_reports (dlReports base) = row_reports (dlReports (lvBase st)) \<union>
      (if ShouldContinue (liRetry it) then {} else key_diffs D table tbls (liPrimaryKeys it))"
    by (rule live_round_spec [OF w pop keys])
  note d = lookup_diff_diffs(2,3) [OF w keys]
  have qd: "queued_diffs D table tbls (lvQueue st) = key_diffs D table tbls (liPrimaryKeys it) \<union> queued_diffs D table tbls q'"
    using items by (simp add: queued_diffs_def del: set_mset_mset)
  have none: "key_diffs D table tbls (liPrimaryKeys it) = {}" if "?ks = []"
    using d(1) that by (simp add: diffs_where_def with_key_def)
  have diffs: "row_reports (dlReports base) \<union> queued_diffs D table tbls ?q =
      row_reports (dlReports (lvBase st)) \<union> queued_diffs D table tbls (lvQueue st)"
    using rep d(1) none by (auto simp: qd)
  have new: "batch_ok table ?it" if "?ks \<noteq> []"
    using ok(1) d(2) that by (simp add: batch_ok_def keys_ok_def list_all_iff retry_Next_def)
  have "live_inv D table tbls allDiffs (st\<lparr>lvBase := base, lvQueue := ?q\<rparr>)"
    using inv diffs ok(2) new ex live.push_inv [OF q'] q'
    by (simp add: live_inv_def live.push_items del: set_mset_mset)
  moreover have "batch_weight ?it < batch_weight it" if "ShouldContinue (liRetry it)"
    using that ok(1) by (auto simp: batch_weight_def batch_ok_def ShouldContinue_def retry_Next_def)
  then have "live_measure (st\<lparr>lvBase := base, lvQueue := ?q\<rparr>) < live_measure st"
    using items by (simp add: live_measure_def live.push_items batch_weight_def)
  ultimately show ?thesis by (rule that [OF r])
qed

lemma live_step_inv:
  assumes "lookup_worlds D table tbls conns" "live_inv D table tbls allDiffs st" "live_step D pw table conns st st'"
  shows "live_inv D table tbls allDiffs st' \<and> live_measure st' < live_measure st"
  using assms(3)
proof cases
  case (scan a as)
  then show ?thesis using scan_step_inv [OF assms(2)] by simp
next
  case complete
  then show ?thesis using assms(2) by (auto simp: live_inv_def live_measure_def)
next
  case round
  then show ?thesis using round_inv [OF assms(1,2)] by (metis option.inject)
next
  case exit
  then show ?thesis using assms(2) by (auto simp: live_inv_def live_measure_def)
qed

lemma live_progress:
  assumes "lookup_worlds D table tbls conns" "live_inv D table tbls allDiffs st" "\<not> lvExited st"
  shows "\<exists>st'. live_step D pw table conns st st'"
proof (cases "lvActions st")
  case (Cons a as)
  then show ?thesis using live_step.scan [OF Cons assms(3)] by blast
next
  case Nil
  show ?thesis
  proof (cases "lqItems (lvQueue st) = []")
    case True
    then show ?thesis using Nil assms(3) live_step.complete [OF Nil] live_step.exit [of st] by blast
  next
    case False
    then show ?thesis using round_inv [OF assms(1,2) False assms(3), of pw] live_step.round [OF assms(3) False] by metis
  qed
qed

lemma live_runs:
  assumes "lookup_worlds D table tbls conns" "live_inv D table tbls allDiffs st" "(live_step D pw table conns ^^ k) st st'"
  shows "live_inv D table tbls allDiffs st' \<and> k + live_measure st' \<le> live_measure st"
  using assms(3)
proof (induction k arbitrary: st')
  case 0
  then show ?case using assms(2) by simp
next
  case (Suc k)
  then obtain s where s: "(live_step D pw table conns ^^ k) st s" "live_step D pw table conns s st'" by auto
  show ?case using Suc.IH [OF s(1)] live_step_inv [OF assms(1) _ s(2)] by fastforce
qed

section \<open>What the scan sends\<close>

fun action_keys :: "'d live_action \<Rightarrow> 'd list list" where
  "action_keys (APush it) = liPrimaryKeys it"
| "action_keys _ = []"

abbreviation sent_keys :: "'d live_action list \<Rightarrow> 'd list list" where
  "sent_keys acts \<equiv> concat (map action_keys acts)"

fun scan_action :: "settings \<Rightarrow> 'd live_action \<Rightarrow> bool" where
  "scan_action s (APush it) \<longleftrightarrow> liPrimaryKeys it \<noteq> [] \<and> rtSettings (liRetry it) = s"
| "scan_action s (ABase e) \<longleftrightarrow> diffs [e] = {}"
| "scan_action s ALiveRetry \<longleftrightarrow> True"

text \<open>Every key noted so far is either sent or still held.\<close>

definition live_listening :: "live_settings \<Rightarrow> 'd list list \<Rightarrow> 'd live_listener \<Rightarrow> bool" where
  "live_listening s pks n \<longleftrightarrow>
     llPanic n = None \<and> llSettings n = s \<and> sent_keys (llActions n) @ llPks n = pks \<and>
     (\<forall>a \<in> set (llActions n). scan_action (lsRetrySettings s) a)"

lemma live_Flush_listening:
  assumes "live_listening s pks n" "settings_Verify (lsRetrySettings s) = None"
  shows "live_listening s pks (live_Flush clock n)" "llPks (live_Flush clock n) = []"
  using assms by (auto simp: live_listening_def live_Flush_def live_act_def NewRetryWithTime_def Let_def)

lemma live_dispatch_listening:
  assumes "live_listening s pks n" "settings_Verify (lsRetrySettings s) = None"
  shows "live_listening s (pks @ diff_keys [e]) (dispatch (live_evl clock) e n)"
proof -
  have act: "live_listening s pks (live_act (ABase e) n)" if "diffs [e] = {}" for e
    using assms(1) that by (simp add: live_listening_def live_act_def)
  have key: "live_listening s (pks @ [pk]) (live_note_key pk n)" for pk
    using assms(1) by (auto simp: live_listening_def live_act_def live_note_key_def)
  have tick: "live_listening s pks (m\<lparr>llTick := k\<rparr>) = live_listening s pks m" for m k by (simp add: live_listening_def)
  have "live_listening s pks (live_OnRowScan clock n)"
    using act [of EScan] by (auto simp: live_OnRowScan_def Let_def tick intro!: live_Flush_listening(1) [OF _ assms(2)])
  moreover have "llPanic n = None" using assms(1) by (simp add: live_listening_def)
  ultimately show ?thesis
    using act key by (cases e) (simp_all add: live_evl_def unless_panicked_def)
qed

lemma live_fold_listening:
  assumes "live_listening s pks n" "settings_Verify (lsRetrySettings s) = None"
  shows "live_listening s (pks @ diff_keys evs) (fold (dispatch (live_evl clock)) evs n)"
  using assms(1)
proof (induction evs arbitrary: pks n)
  case (Cons e evs)
  have "diff_keys (e # evs) = diff_keys [e] @ diff_keys evs" by (cases e) simp_all
  then show ?case using Cons.IH [OF live_dispatch_listening [OF Cons.prems assms(2)]] by simp
qed simp

text \<open>A shard's world is also one of lookups.\<close>

lemma shard_in_bounds:
  assumes "shard_world D table oids tbl conn"
  shows "comparable D table tbl" "on_keys D table (\<lambda>r. not_before D (tsStartPKVals table) r \<and> before_end D (tsEndPKVals table) r)"
proof -
  have w: "scan_world D (shard_scan table oids) tbl conn" using assms by (simp add: shard_world_def)
  have npk: "npk table \<le> length (vtColumns table)"
    using w table_shape_npk [of "shard_scan table oids"] by (simp add: scan_world_def shard_scan_def)
  then show c: "comparable D table tbl"
    using w by (auto simp: comparable_def scan_world_def stored_rows_def shard_scan_def keyed_def full_row_def list_all_iff)
  show "on_keys D table (\<lambda>r. not_before D (tsStartPKVals table) r \<and> before_end D (tsEndPKVals table) r)"
    by (rule on_keys_bounds) (use c w in \<open>auto simp: comparable_def scan_world_def bounds_shape_def shard_scan_def\<close>)
qed

definition live_world ::
  "'d datum_ops \<Rightarrow> ('d pg_conn \<Rightarrow> 'd pg_conn result) \<Rightarrow> 'd pg_conn \<times> 'd pg_conn \<Rightarrow> 'd table_shard \<Rightarrow> 'd row list \<times> 'd row list \<Rightarrow>
   'd pg_conn \<times> 'd pg_conn \<Rightarrow> bool" where
  "live_world D clone conns table tbls lconns \<longleftrightarrow>
     shard_world D table (fst (vtColumnOIDs table)) (fst tbls) (fst conns) \<and>
     shard_world D table (snd (vtColumnOIDs table)) (snd tbls) (snd conns) \<and>
     clone (fst conns) = Inr (fst lconns) \<and> clone (snd conns) = Inr (snd lconns) \<and>
     lookup_worlds D table tbls lconns"

lemma newLiveReverifier_ok:
  assumes "live_world D clone conns table tbls lconns"
  shows "newLiveReverifier clone conns table = Inr lconns"
proof -
  have "first_error (pcDataType (fst conns)) oids = None" "first_error (pcDataType (snd conns)) oids = None" for oids
    using assms by (auto intro!: first_error_None simp: live_world_def shard_world_def scan_world_def conn_answers_def)
  then show ?thesis
    using assms by (simp add: newLiveReverifier_def live_connection_def live_world_def)
qed

lemma live_scan_ok:
  assumes "live_world D clone conns table tbls lconns" "0 < b" "settings_Verify (lsRetrySettings s) = None"
  defines "evs \<equiv> row_diff D table (rows_in D table (fst tbls)) (rows_in D table (snd tbls)) {}"
  obtains acts where "live_scan D clone conns no_limit table b clock s = Some (Inr (lconns, acts))"
    "sent_keys acts = diff_keys evs" "\<forall>a \<in> set acts. scan_action (lsRetrySettings s) a"
proof -
  let ?n = "fold (dispatch (live_evl clock)) evs (new_live_listener (clock 0) s)"
  have w: "shard_world D table (fst (vtColumnOIDs table)) (fst tbls) (fst conns)"
    "shard_world D table (snd (vtColumnOIDs table)) (snd tbls) (snd conns)"
    using assms(1) by (auto simp: live_world_def)
  obtain it1 where it1: "shard_iterator (fst conns) no_limit table (fst (vtColumnOIDs table)) b = Some (Inr it1)"
    "scan_inv D (shard_scan table (fst (vtColumnOIDs table))) (fst tbls) (fst conns) it1"
    "scan_pending D (fst tbls) it1 = rows_in D table (fst tbls)"
    using shard_iterator_ok [OF w(1) assms(2)] by blast
  obtain it2 where it2: "shard_iterator (snd conns) no_limit table (snd (vtColumnOIDs table)) b = Some (Inr it2)"
    "scan_inv D (shard_scan table (snd (vtColumnOIDs table))) (snd tbls) (snd conns) it2"
    "scan_pending D (snd tbls) it2 = rows_in D table (snd tbls)"
    using shard_iterator_ok [OF w(2) assms(2)] by blast
  have v: "verifyRows D table (scan_ops (fst conns) no_limit) (scan_ops (snd conns) no_limit) (live_evl clock) it1 it2
      (new_live_listener (clock 0) s) = Some (None, ?n)"
    using scans.verifyRows_spec [OF it1(2) it2(2), of "live_evl clock" "new_live_listener (clock 0) s"] it1(3) it2(3)
    by (simp add: evs_def)
  have "live_listening s [] (new_live_listener (clock 0) s)" by (simp add: live_listening_def new_live_listener_def)
  from live_fold_listening [OF this assms(3), of evs clock] have n: "live_listening s (diff_keys evs) ?n" by simp
  note f = live_Flush_listening [OF n assms(3), of clock]
  show ?thesis
  proof (rule that [of "llActions (live_Flush clock ?n)"])
    show "live_scan D clone conns no_limit table b clock s = Some (Inr (lconns, llActions (live_Flush clock ?n)))"
      using it1(1) it2(1) v n f newLiveReverifier_ok [OF assms(1)] by (simp add: live_scan_def live_listening_def)
    show "sent_keys (llActions (live_Flush clock ?n)) = diff_keys evs"
      "\<forall>a \<in> set (llActions (live_Flush clock ?n)). scan_action (lsRetrySettings s) a"
      using f by (simp_all add: live_listening_def)
  qed
qed

lemma live_start_inv:
  assumes "live_world D clone conns table tbls lconns" "0 < reMaxRetries s"
    and "sent_keys acts = diff_keys (row_diff D table (rows_in D table (fst tbls)) (rows_in D table (snd tbls)) {})"
    and "\<forall>a \<in> set acts. scan_action s a"
  shows "live_inv D table tbls (row_reports sent \<union> diffs (row_diff D table (rows_in D table (fst tbls)) (rows_in D table (snd tbls)) {}))
    (live_start D table acts sent)"
proof -
  let ?P = "\<lambda>r. not_before D (tsStartPKVals table) r \<and> before_end D (tsEndPKVals table) r"
  have w: "shard_world D table (fst (vtColumnOIDs table)) (fst tbls) (fst conns)"
    "shard_world D table (snd (vtColumnOIDs table)) (snd tbls) (snd conns)"
    using assms(1) by (auto simp: live_world_def)
  note c = shard_in_bounds(1) [OF w(1)] shard_in_bounds(1) [OF w(2)] and P = shard_in_bounds(2) [OF w(1)]
  note rows = shard_rows_def [of D _ "tsStartPKVals table" "tsEndPKVals table"]
  note K = diffs_of_keys [OF P c, folded rows, folded assms(3)]
  have "action_diffs D table tbls a = key_diffs D table tbls (action_keys a)" if "a \<in> set acts" for a
    using assms(4) that by (cases a) (auto simp: diffs_where_def with_key_def)
  then have "(\<Union>a \<in> set acts. action_diffs D table tbls a) = key_diffs D table tbls (sent_keys acts)"
    by (simp add: diffs_where_union)
  also have "\<dots> = diffs (row_diff D table (rows_in D table (fst tbls)) (rows_in D table (snd tbls)) {})"
    unfolding K(1) rows diffs_row_diff [OF P c] ..
  finally have d: "(\<Union>a \<in> set acts. action_diffs D table tbls a) =
      diffs (row_diff D table (rows_in D table (fst tbls)) (rows_in D table (snd tbls)) {})" .
  have ok: "action_ok table a" if "a \<in> set acts" for a
  proof (cases a)
    case (APush it)
    then have "set (liPrimaryKeys it) \<subseteq> set (sent_keys acts)" using that by force
    then show ?thesis using APush K(2) assms(2,4) that by (auto simp: batch_ok_def keys_ok_def list_all_iff)
  qed simp_all
  have "retry_queue_inv emptyRetryQueue" by (simp add: retry_queue_inv_def emptyRetryQueue_def heap_below_def)
  then show ?thesis
    using d ok by (simp add: live_inv_def live_start_def queued_diffs_def emptyRetryQueue_def new_default_listener_def)
qed

lemma bounded_run_ends:
  assumes "\<And>k st. (R ^^ k) s st \<Longrightarrow> k \<le> N \<and> (if E st then Q st else \<exists>st'. R st st')"
  obtains k st where "(R ^^ k) s st" "E st" "Q st"
proof -
  have "\<exists>st. (R ^^ k) s st" if never: "\<forall>k st. (R ^^ k) s st \<longrightarrow> \<not> E st" for k
  proof (induction k)
    case (Suc k)
    then obtain st where st: "(R ^^ k) s st" by blast
    then obtain st' where "R st st'" using assms [OF st] never by (metis (full_types))
    then show ?case using st by (metis relpowp_Suc_I)
  qed simp
  then show ?thesis using assms that by (metis Suc_n_not_le_n)
qed

text \<open>C10: live mode reports the same rows as the plain comparison. For two tables that do not change meanwhile and
  valid retry settings with a positive \<open>MaxRetries\<close>, the scan succeeds, every interleaving of the scan with the
  re-verifier is finite and never stuck before the re-verifier exits, and when it exits the rows reported missing, extraneous or
  mismatching are those that \<open>VerifyRowsOnShard\<close> without live mode reports.\<close>

theorem live_mode_equivalent:
  assumes "live_world D clone (conn1, conn2) table (tbl1, tbl2) lconns" and "0 < rowBatchSize"
    and "settings_Verify (lsRetrySettings s) = None" and "0 < reMaxRetries (lsRetrySettings s)"
  shows "\<exists>acts reps N. live_scan D clone (conn1, conn2) no_limit table rowBatchSize clock s = Some (Inr (lconns, acts)) \<and>
    VerifyRowsOnShard D (conn1, conn2) no_limit table rowBatchSize sent = Some (None, reps) \<and>
    (\<forall>k st. (live_step D pw table lconns ^^ k) (live_start D table acts sent) st \<longrightarrow> k \<le> N \<and>
       (if lvExited st then row_reports (live_finish table st) = row_reports reps
        else \<exists>st'. live_step D pw table lconns st st'))"
proof -
  let ?evs = "row_diff D table (rows_in D table tbl1) (rows_in D table tbl2) {}"
  obtain acts where scan: "live_scan D clone (conn1, conn2) no_limit table rowBatchSize clock s = Some (Inr (lconns, acts))"
    and acts: "sent_keys acts = diff_keys ?evs" "\<forall>a \<in> set acts. scan_action (lsRetrySettings s) a"
    using live_scan_ok [OF assms(1-3)] by auto
  have inv: "live_inv D table (tbl1, tbl2) (row_reports sent \<union> diffs ?evs) (live_start D table acts sent)"
    using live_start_inv [OF assms(1,4) _ acts(2)] acts(1) by simp
  have w: "shard_world D table (fst (vtColumnOIDs table)) tbl1 conn1" "shard_world D table (snd (vtColumnOIDs table)) tbl2 conn2"
    and lw: "lookup_worlds D table (tbl1, tbl2) lconns"
    using assms(1) by (auto simp: live_world_def)
  define reps where "reps = dlReports (shard_listener D table tbl1 tbl2 sent) @
      [finished_report table (dlStats (shard_listener D table tbl1 tbl2 sent))]"
  have plain: "VerifyRowsOnShard D (conn1, conn2) no_limit table rowBatchSize sent = Some (None, reps)"
    unfolding reps_def by (rule VerifyRowsOnShard_refines [OF w assms(2)])
  have app: "row_reports (rs @ [SummaryReport i j]) = row_reports rs" for rs :: "'a report list" and i j
    by (auto simp: row_reports_def)
  have "row_reports reps = row_reports sent \<union> diffs ?evs"
    by (simp add: reps_def finished_report_def app shard_listener_def row_reports_fold new_default_listener_def)
  moreover have "row_reports (live_finish table st) = row_reports sent \<union> diffs ?evs"
    if "live_inv D table (tbl1, tbl2) (row_reports sent \<union> diffs ?evs) st" "lvExited st" for st
    using that by (auto simp: live_inv_def live_finish_def app queued_diffs_def)
  ultimately show ?thesis
    using scan plain live_runs [OF lw inv] live_progress [OF lw]
    by (intro exI [of _ acts] exI [of _ reps] exI [of _ "live_measure (live_start D table acts sent)"]) fastforce
qed

definition kv_live_settings :: live_settings where
  "kv_live_settings = \<lparr>lsMaxBatchSize = 2, lsFlushInterval = 10,
     lsRetrySettings = \<lparr>reInitialBackoff = 5, reMultiplier = 2, reMaxBackoff = 20, reMaxRetries = 3\<rparr>, lsRunsPerSecond = 0\<rparr>"

theorem live_mode_equivalent_witness:
  "\<exists>acts reps k st.
     live_scan int_datums Inr (kv_conn [[1, 10], [2, 20], [3, 30]], kv_conn [[2, 21], [3, 30], [4, 40]]) no_limit (kv_shard [] []) 2 int
       kv_live_settings =
       Some (Inr ((kv_conn [[1, 10], [2, 20], [3, 30]], kv_conn [[2, 21], [3, 30], [4, 40]]), acts)) \<and>
     VerifyRowsOnShard int_datums (kv_conn [[1, 10], [2, 20], [3, 30]], kv_conn [[2, 21], [3, 30], [4, 40]]) no_limit
       (kv_shard [] []) 2 [] = Some (None, reps) \<and>
     (live_step int_datums (\<lambda>m i. m ^ nat i) (kv_shard [] [])
        (kv_conn [[1, 10], [2, 20], [3, 30]], kv_conn [[2, 21], [3, 30], [4, 40]]) ^^ k)
       (live_start int_datums (kv_shard [] []) acts []) st \<and>
     lvExited st \<and> row_reports (live_finish (kv_shard [] []) st) = row_reports reps"
proof -
  let ?a = "[[1, 10], [2, 20], [3, 30]] :: int row list" and ?b = "[[2, 21], [3, 30], [4, 40]] :: int row list"
  have sw: "shard_world int_datums (kv_shard [] []) oids ?a (kv_conn ?a)"
    "shard_world int_datums (kv_shard [] []) oids ?b (kv_conn ?b)" for oids
    by (rule kv_world; simp add: pk_sorted_def pk_less_def int_datums_def cmp_ord_def)+
  have "lookup_world int_datums (kv_shard [] []) oids tbl conn" if "shard_world int_datums (kv_shard [] []) oids tbl conn" for oids tbl conn
    using that by (simp add: lookup_world_def shard_world_def scan_world_def shard_scan_def lookup_table_def
        table_shape_def stored_rows_def conn_answers_def)
  then have w: "live_world int_datums Inr (kv_conn ?a, kv_conn ?b) (kv_shard [] []) (?a, ?b) (kv_conn ?a, kv_conn ?b)"
    using sw by (simp add: live_world_def lookup_worlds_def)
  have v: "settings_Verify (lsRetrySettings kv_live_settings) = None" "0 < reMaxRetries (lsRetrySettings kv_live_settings)" by (simp_all add: settings_Verify_def kv_live_settings_def)
  obtain acts reps N where r: "live_scan int_datums Inr (kv_conn ?a, kv_conn ?b) no_limit (kv_shard [] []) 2 int kv_live_settings =
       Some (Inr ((kv_conn ?a, kv_conn ?b), acts))"
     "VerifyRowsOnShard int_datums (kv_conn ?a, kv_conn ?b) no_limit (kv_shard [] []) 2 [] = Some (None, reps)"
     "\<And>k st. (live_step int_datums (\<lambda>m i. m ^ nat i) (kv_shard [] []) (kv_conn ?a, kv_conn ?b) ^^ k)
       (live_start int_datums (kv_shard [] []) acts []) st \<Longrightarrow> k \<le> N \<and>
       (if lvExited st then row_reports (live_finish (kv_shard [] []) st) = row_reports reps
        else \<exists>st'. live_step int_datums (\<lambda>m i. m ^ nat i) (kv_shard [] []) (kv_conn ?a, kv_conn ?b) st st')"
    using live_mode_equivalent [OF w _ v, of 2 int "[]" "\<lambda>m i. m ^ nat i"] by auto
  show ?thesis
    by (rule bounded_run_ends [where s = "live_start int_datums (kv_shard [] []) acts []" and E = lvExited
          and Q = "\<lambda>st. row_reports (live_finish (kv_shard [] []) st) = row_reports reps", OF r(3)])
       (assumption, use r(1,2) in blast)
qed

end
