(* ===== verification/Pg_Convert.thy ===== *)
theory Pg_Convert
  imports Db_Model
begin

unbundle bit_operations_syntax

text \<open>
  \<open>pgconv/datum_converter.go\<close> and \<open>pgRows.Datums\<close> of \<open>rowiterator/row_iterator.go\<close>: how a value read by
  pgx becomes a datum of the SQL library, which is what row verification compares.

  A value has one of the Go types that \<open>rows.Values()\<close> returns; a type assertion on a value of another
  type panics, which is the outer \<open>None\<close>. The library calls (JSON, dates, addresses, decimals, \<open>Append\<close>, the
  catalog of array types) are the fields of \<open>conv_lib\<close>; floats are their bit patterns.
\<close>

section \<open>Values and datums\<close>

datatype infinity = Finite | Infinity | NegativeInfinity

record pg_numeric =
  nuInt :: int
  nuExp :: int
  nuNaN :: bool
  nuInfinity :: infinity

datatype pg_value =
    VNil
  | VBool bool
  | VInt16 "16 word"
  | VInt32 "32 word"
  | VInt64 "64 word"
  | VUint32 "32 word"
  | VFloat32 "32 word"
  | VFloat64 "64 word"
  | VString string
  | VBytes string
  | VUUID string            \<comment> \<open>\<open>[16]uint8\<close>\<close>
  | VTime int               \<comment> \<open>\<open>time.Time\<close>\<close>
  | VPgTime int             \<comment> \<open>\<open>pgtype.Time\<close>, its microseconds\<close>
  | VPrefix string          \<comment> \<open>\<open>netip.Prefix\<close>, its text\<close>
  | VNumeric pg_numeric
  | VBits string nat        \<comment> \<open>\<open>pgtype.Bits\<close>: bytes and length\<close>
  | VArray "pg_value list"
  | VInfinityModifier infinity \<comment> \<open>\<open>pgtype.InfinityModifier\<close>: an infinite date or timestamp\<close>
  | VOther string           \<comment> \<open>any other Go type, such as a decoded JSON object\<close>

datatype 'x datum =
    DNull
  | DBool bool
  | DString string
  | DName string
  | DFloat "64 word"
  | DInt int
  | DOid oid
  | DJSON 'x
  | DUuid 'x
  | DTimestamp 'x
  | DTimestampTZ 'x
  | DTime 'x
  | DDate 'x
  | DBytes string
  | DTimeTZ 'x
  | DIPAddr 'x
  | DDecimal int int        \<comment> \<open>coefficient and exponent\<close>
  | DDecimalForm string     \<comment> \<open>\<open>NaN\<close> and the infinities\<close>
  | DBitArray 'x
  | DArray oid "'x datum list"

datatype codec = EnumCodec | ArrayCodec codec | OtherCodec

record 'x conv_lib =
  clArrayElem :: "oid \<Rightarrow> oid option"        \<comment> \<open>the element type of an array OID\<close>
  clAppend :: "oid \<Rightarrow> 'x datum list \<Rightarrow> 'x datum \<Rightarrow> 'x datum list result"
  clMakeJSON :: "pg_value \<Rightarrow> 'x result"
  clParseJSON :: "string \<Rightarrow> 'x result"
  clUUIDFromBytes :: "string \<Rightarrow> 'x result"
  clMakeTimestamp :: "int \<Rightarrow> 'x result"
  clMakeTimestampTZ :: "int \<Rightarrow> 'x result"
  clTime2400 :: 'x
  clTimeOfDay :: "int \<Rightarrow> 'x"
  clMakeDate :: "int \<Rightarrow> 'x result"
  clParseTimeTZ :: "string \<Rightarrow> 'x result"
  clParseINet :: "string \<Rightarrow> 'x result"
  clParseBitArray :: "string \<Rightarrow> 'x result"
  clParseDecimal :: "string \<Rightarrow> 'x datum result"
  clDecimalFloat32 :: "32 word \<Rightarrow> 64 word option"  \<comment> \<open>\<open>decimal.NewFromFloat32(f).Float64()\<close>; \<open>None\<close> panics\<close>
  clWiden :: "32 word \<Rightarrow> 64 word"           \<comment> \<open>\<open>float64(f)\<close>\<close>
  clShow :: "pg_value \<Rightarrow> string"            \<comment> \<open>the format \<open>%v (%T)\<close>\<close>
  clShowVal :: "pg_value \<Rightarrow> string"         \<comment> \<open>the format \<open>%v\<close>\<close>

section \<open>The switch on the type OID\<close>

datatype pg_kind =
    KBool | KQChar | KText | KName | KFloat4 | KFloat8 | KInt2 | KInt4 | KInt8 | KOid | KJson | KUuid
  | KTimestamp | KTimestampTZ | KTime | KDate | KBytea | KTimeTZ | KInet | KNumeric | KBit | KNone

definition pg_kind :: "oid \<Rightarrow> pg_kind" where
  "pg_kind t =
     (if t = 16 then KBool else if t = 18 then KQChar
      else if t = 1043 \<or> t = 25 \<or> t = 1042 then KText else if t = 19 then KName
      else if t = 700 then KFloat4 else if t = 701 then KFloat8
      else if t = 21 then KInt2 else if t = 23 then KInt4 else if t = 20 then KInt8 else if t = 26 then KOid
      else if t = 114 \<or> t = 3802 then KJson else if t = 2950 then KUuid
      else if t = 1114 then KTimestamp else if t = 1184 then KTimestampTZ else if t = 1083 then KTime
      else if t = 1082 then KDate else if t = 17 then KBytea else if t = 1266 then KTimeTZ
      else if t = 869 then KInet else if t = 1700 then KNumeric else if t = 1560 \<or> t = 1562 then KBit
      else KNone)"

text \<open>\<open>fmt.Sprintf("%c", r)\<close>: the UTF-8 encoding of a rune, the replacement character for an invalid one.\<close>

definition utf8_encode :: "nat \<Rightarrow> string" where
  "utf8_encode r =
     (if r < 128 then [char_of r]
      else if r < 2048 then [char_of (192 + r div 64), char_of (128 + r mod 64)]
      else if r < 65536 then [char_of (224 + r div 4096), char_of (128 + r div 64 mod 64), char_of (128 + r mod 64)]
      else [char_of (240 + r div 262144), char_of (128 + r div 4096 mod 64), char_of (128 + r div 64 mod 64),
            char_of (128 + r mod 64)])"

definition rune_String :: "int \<Rightarrow> string" where
  "rune_String r = utf8_encode (if r < 0 \<or> r > 1114111 \<or> (55296 \<le> r \<and> r \<le> 57343) then 65533 else nat r)"

definition is_inf32 :: "32 word \<Rightarrow> bool" where
  "is_inf32 w \<longleftrightarrow> w = 0x7F800000 \<or> w = 0xFF800000"

definition is_nan32 :: "32 word \<Rightarrow> bool" where
  "is_nan32 w \<longleftrightarrow> drop_bit 23 w AND 255 = 255 \<and> w AND 0x7FFFFF \<noteq> 0"

text \<open>The comparison with \<open>NaN\<close> in the source is false for every value.\<close>

definition convertFloat4 :: "'x conv_lib \<Rightarrow> 32 word \<Rightarrow> 'x datum result option" where
  "convertFloat4 L w =
     (if is_inf32 w then Some (Inr (DFloat (clWiden L w)))
      else map_option (\<lambda>f. Inr (DFloat f)) (clDecimalFloat32 L w))"

definition convertNumeric :: "'x conv_lib \<Rightarrow> pg_numeric \<Rightarrow> 'x datum result" where
  "convertNumeric L n =
     (if nuNaN n then clParseDecimal L ''NaN''
      else if nuInfinity n = Infinity then clParseDecimal L ''Inf''
      else if nuInfinity n = NegativeInfinity then clParseDecimal L ''-Inf''
      else Inr (DDecimal (int64 (nuInt n)) (nuExp n)))"

definition bit_char :: "string \<Rightarrow> nat \<Rightarrow> char option" where
  "bit_char bs i = do {
     b \<leftarrow> go_nth bs (i div 8);
     Some (if (of_nat (of_char b) :: 8 word) AND drop_bit (i mod 8) 128 \<noteq> 0 then CHR ''1'' else CHR ''0'')
   }"

definition bit_text :: "string \<Rightarrow> nat \<Rightarrow> string option" where
  "bit_text bs n = those (map (bit_char bs) [0..<n])"

definition result_map :: "('a \<Rightarrow> 'b) \<Rightarrow> 'a result \<Rightarrow> 'b result" where
  "result_map f r = (case r of Inl e \<Rightarrow> Inl e | Inr x \<Rightarrow> Inr (f x))"

definition wrap_result :: "string \<Rightarrow> 'a result \<Rightarrow> 'a result" where
  "wrap_result msg r = (case r of Inl e \<Rightarrow> Inl (ErrWrap msg e) | Inr x \<Rightarrow> Inr x)"

text \<open>The cases of the switch: \<open>None\<close> where no case returns.\<close>

definition convert_scalar :: "'x conv_lib \<Rightarrow> pg_kind \<Rightarrow> pg_value \<Rightarrow> 'x datum result option option" where
  "convert_scalar L k v =
     (case k of
        KBool \<Rightarrow> Some (case v of VBool b \<Rightarrow> Some (Inr (DBool b)) | _ \<Rightarrow> None)
      | KQChar \<Rightarrow> Some (case v of VInt32 w \<Rightarrow> Some (Inr (DString (rune_String (sint w)))) | _ \<Rightarrow> None)
      | KText \<Rightarrow> Some (case v of VString s \<Rightarrow> Some (Inr (DString s)) | _ \<Rightarrow> None)
      | KName \<Rightarrow> Some (case v of VString s \<Rightarrow> Some (Inr (DName s)) | _ \<Rightarrow> None)
      | KFloat4 \<Rightarrow> Some (case v of VFloat32 w \<Rightarrow> convertFloat4 L w | _ \<Rightarrow> None)
      | KFloat8 \<Rightarrow> Some (case v of VFloat64 w \<Rightarrow> Some (Inr (DFloat w)) | _ \<Rightarrow> None)
      | KInt2 \<Rightarrow> Some (case v of VInt16 w \<Rightarrow> Some (Inr (DInt (sint w))) | _ \<Rightarrow> None)
      | KInt4 \<Rightarrow> Some (case v of VInt32 w \<Rightarrow> Some (Inr (DInt (sint w))) | _ \<Rightarrow> None)
      | KInt8 \<Rightarrow> Some (case v of VInt64 w \<Rightarrow> Some (Inr (DInt (sint w))) | _ \<Rightarrow> None)
      | KOid \<Rightarrow> Some (case v of VUint32 w \<Rightarrow> Some (Inr (DOid w)) | _ \<Rightarrow> None)
      | KJson \<Rightarrow> Some (Some (wrap_result (''error decoding json for '' @ clShowVal L v) (result_map DJSON (clMakeJSON L v))))
      | KUuid \<Rightarrow> Some (case v of
            VUUID b \<Rightarrow> Some (wrap_result (''error decoding UUID '' @ clShowVal L v) (result_map DUuid (clUUIDFromBytes L b)))
          | _ \<Rightarrow> None)
      | KTimestamp \<Rightarrow> Some (case v of VTime t \<Rightarrow> Some (result_map DTimestamp (clMakeTimestamp L t)) | _ \<Rightarrow> None)
      | KTimestampTZ \<Rightarrow> Some (case v of VTime t \<Rightarrow> Some (result_map DTimestampTZ (clMakeTimestampTZ L t)) | _ \<Rightarrow> None)
      | KTime \<Rightarrow> Some (case v of
            VPgTime us \<Rightarrow> Some (Inr (DTime (if us = 24 * 60 * 60 * 1000000 then clTime2400 L else clTimeOfDay L us)))
          | _ \<Rightarrow> None)
      | KDate \<Rightarrow> Some (case v of
            VTime t \<Rightarrow> Some (wrap_result (''error converting date '' @ clShowVal L v) (result_map DDate (clMakeDate L t)))
          | _ \<Rightarrow> None)
      | KBytea \<Rightarrow> Some (case v of VBytes b \<Rightarrow> Some (Inr (DBytes b)) | _ \<Rightarrow> None)
      | KTimeTZ \<Rightarrow> Some (case v of VString s \<Rightarrow> Some (result_map DTimeTZ (clParseTimeTZ L s)) | _ \<Rightarrow> None)
      | KInet \<Rightarrow> (case v of
            VPrefix s \<Rightarrow> Some (Some (case clParseINet L s of
                Inl e \<Rightarrow> Inl (ErrMsg ''failed to parse for ip address'')
              | Inr x \<Rightarrow> Inr (DIPAddr x)))
          | _ \<Rightarrow> None)
      | KNumeric \<Rightarrow> Some (case v of VNumeric n \<Rightarrow> Some (convertNumeric L n) | _ \<Rightarrow> None)
      | KBit \<Rightarrow> Some (case v of
            VBits bs n \<Rightarrow> map_option (\<lambda>s. result_map DBitArray (clParseBitArray L s)) (bit_text bs n)
          | _ \<Rightarrow> None)
      | KNone \<Rightarrow> None)"

section \<open>ConvertRowValue\<close>

text \<open>The elements of an array, with their positions for the error text, appended one by one.\<close>

fun ConvertRowValue ::
  "'x conv_lib \<Rightarrow> (oid \<Rightarrow> codec option) \<Rightarrow> pg_value \<Rightarrow> oid \<Rightarrow> 'x datum result option"
and convert_elems ::
  "'x conv_lib \<Rightarrow> (oid \<Rightarrow> codec option) \<Rightarrow> oid \<Rightarrow> pg_value list \<Rightarrow> nat \<Rightarrow> 'x datum list \<Rightarrow> 'x datum list result option" where
  "ConvertRowValue L tm v t =
     (if v = VNil then Some (Inr DNull)
      else case clArrayElem L t of
        Some et \<Rightarrow> (case v of VArray vs \<Rightarrow> map_option (result_map (DArray et)) (convert_elems L tm et vs 0 []) | _ \<Rightarrow> None)
      | None \<Rightarrow>
          (case convert_scalar L (pg_kind t) v of
             Some r \<Rightarrow> r
           | None \<Rightarrow>
               (case tm t of
                  None \<Rightarrow> Some (Inl (ErrMsg (''value '' @ clShow L v @ '' of type OID '' @ Itoa (unat t) @ '' not initialised'')))
                | Some EnumCodec \<Rightarrow> (case v of VString s \<Rightarrow> Some (Inr (DString s)) | _ \<Rightarrow> None)
                | Some (ArrayCodec EnumCodec) \<Rightarrow>
                    (case v of VArray vs \<Rightarrow> map_option (result_map (DArray 25)) (convert_elems L tm 25 vs 0 []) | _ \<Rightarrow> None)
                | Some _ \<Rightarrow>
                    Some (Inl (ErrMsg (''value '' @ clShow L v @ '' of type OID '' @ Itoa (unat t) @ '' not yet translatable''))))))"
| "convert_elems L tm et [] i acc = Some (Inr acc)"
| "convert_elems L tm et (v # vs) i acc = do {
     r \<leftarrow> ConvertRowValue L tm v et;
     (case r of
        Inl e \<Rightarrow> Some (Inl (ErrWrap (''error converting array element '' @ Itoa i) e))
      | Inr d \<Rightarrow>
          (case clAppend L et acc d of
             Inl e \<Rightarrow> Some (Inl (ErrWrap (''error appending array element '' @ Itoa i) e))
           | Inr acc' \<Rightarrow> convert_elems L tm et vs (Suc i) acc'))
   }"

declare ConvertRowValue.simps [simp del]

section \<open>ConvertRowValues and Datums\<close>

fun convert_columns ::
  "'x conv_lib \<Rightarrow> (oid \<Rightarrow> codec option) \<Rightarrow> pg_value list \<Rightarrow> string list \<Rightarrow> oid list \<Rightarrow> 'x datum list result option" where
  "convert_columns L tm [] raws ts = Some (Inr [])"
| "convert_columns L tm (v # vs) raws [] = None"
| "convert_columns L tm (v # vs) raws (t # ts) = do {
     raw \<leftarrow> (if t = 114 \<or> t = 3802 then go_nth raws 0 else Some []);
     r \<leftarrow> (if (t = 114 \<or> t = 3802) \<and> raw = ''null'' then Some (result_map DJSON (clParseJSON L ''null''))
          else ConvertRowValue L tm v t);
     (case r of
        Inl e \<Rightarrow> Some (Inl e)
      | Inr d \<Rightarrow> map_option (result_map ((#) d)) (convert_columns L tm vs (tl raws) ts))
   }"

definition ConvertRowValues ::
  "'x conv_lib \<Rightarrow> (oid \<Rightarrow> codec option) \<Rightarrow> (pg_value list \<Rightarrow> oid list \<Rightarrow> string) \<Rightarrow> pg_value list \<Rightarrow> string list \<Rightarrow> oid list \<Rightarrow>
   'x datum list result option" where
  "ConvertRowValues L tm show_mismatch vals rawVals typOIDs =
     (if length vals \<noteq> length typOIDs
      then Some (Inl (ErrMsg (''val length != oid length: '' @ show_mismatch vals typOIDs)))
      else convert_columns L tm vals rawVals typOIDs)"

definition pgRows_Datums ::
  "'x conv_lib \<Rightarrow> (oid \<Rightarrow> codec option) \<Rightarrow> (pg_value list \<Rightarrow> oid list \<Rightarrow> string) \<Rightarrow> oid list \<Rightarrow> pg_value list result \<Rightarrow> string list \<Rightarrow>
   'x datum list result option" where
  "pgRows_Datums L tm show_mismatch typOIDs values rawVals =
     (case values of
        Inl e \<Rightarrow> Some (Inl e)
      | Inr vals \<Rightarrow> ConvertRowValues L tm show_mismatch vals rawVals typOIDs)"

end
