(* ===== verification/Convert_Properties.thy ===== *)
theory Convert_Properties
  imports Pg_Convert
begin

text \<open>
  What the conversion of values guarantees: which values of the Go types pgx returns are converted to a datum of
  the type of their column, which are not converted at all, and where the conversion loses information.
\<close>

section \<open>Types\<close>


text \<open>The values the conversion has no case for: a \<open>float4\<close> that is not a number (the test against
  \<open>math.NaN()\<close> is never true) and an infinite date or timestamp.\<close>

definition scalar_hazard :: "pg_kind \<Rightarrow> pg_value \<Rightarrow> bool" where
  "scalar_hazard k v =
     (case v of
        VFloat32 w \<Rightarrow> k = KFloat4 \<and> is_nan32 w
      | VInfinityModifier m \<Rightarrow> k \<in> {KTimestamp, KTimestampTZ, KDate}
      | _ \<Rightarrow> False)"


text \<open>The element type a column is converted with, if the code takes it for an array: one of the array types of the
  library, or an array of an enum, whose elements become strings.\<close>

definition elem_type :: "'x conv_lib \<Rightarrow> (oid \<Rightarrow> codec option) \<Rightarrow> oid \<Rightarrow> oid option" where
  "elem_type L tm t =
     (case clArrayElem L t of
        Some et \<Rightarrow> Some et
      | None \<Rightarrow> if pg_kind t = KNone \<and> tm t = Some (ArrayCodec EnumCodec) then Some 25 else None)"





text \<open>What the libraries document: \<open>NewFromFloat32\<close> panics on NaN and infinities only, \<open>ParseDDecimal\<close> of the three special
  forms gives them, a successful \<open>Append\<close> adds its datum at the end. SQL has no arrays of
  arrays, and \<open>inet\<close> (OID 869) is not an array of an enum.\<close>

definition lib_documented :: "'x conv_lib \<Rightarrow> bool" where
  "lib_documented L \<longleftrightarrow>
     (\<forall>w. clDecimalFloat32 L w = None \<longleftrightarrow> is_nan32 w \<or> is_inf32 w) \<and>
     (\<forall>s \<in> {''NaN'', ''Inf'', ''-Inf''}. clParseDecimal L s = Inr (DDecimalForm s)) \<and>
     (\<forall>et ds d ds'. clAppend L et ds d = Inr ds' \<longrightarrow> ds' = ds @ [d])"


section \<open>Well-typed values do not panic and become well-typed datums\<close>






lemma elem_type_None: "elem_type L tm t = None \<Longrightarrow> clArrayElem L t = None"
  by (simp add: elem_type_def split: option.splits)




section \<open>Values without a case give no datum\<close>

text \<open>A value without a case panics.\<close>

lemma scalar_hazard_panics:
  assumes "lib_documented L" "elem_type L tm t = None" "scalar_hazard (pg_kind t) v"
  shows "ConvertRowValue L tm v t = None"
proof -
  have f4: "convertFloat4 L w = None" if "is_nan32 w" for w
  proof -
    have "\<not> is_inf32 w" using that by (auto simp: is_nan32_def is_inf32_def)
    then show ?thesis using assms(1) that by (simp add: lib_documented_def convertFloat4_def)
  qed
  have "convert_scalar L (pg_kind t) v = Some None" "v \<noteq> VNil"
    using assms(3) f4 by (auto simp: scalar_hazard_def convert_scalar_def split: pg_value.splits)
  then show ?thesis using elem_type_None [OF assms(2)] by (simp add: ConvertRowValue.simps)
qed









text \<open>A library for the examples, over strings.\<close>

definition demo_lib :: "string conv_lib" where
  "demo_lib =
     \<lparr>clArrayElem = (\<lambda>t. if t = 1016 then Some 20 else None), clAppend = (\<lambda>t ds d. Inr (ds @ [d])),
      clMakeJSON = (\<lambda>v. Inr []), clParseJSON = Inr, clUUIDFromBytes = Inr, clMakeTimestamp = (\<lambda>t. Inr []),
      clMakeTimestampTZ = (\<lambda>t. Inr []), clTime2400 = ''24:00:00'', clTimeOfDay = (\<lambda>us. []), clMakeDate = (\<lambda>t. Inr []),
      clParseTimeTZ = Inr, clParseINet = Inr, clParseBitArray = Inr, clParseDecimal = (\<lambda>s. Inr (DDecimalForm s)),
      clDecimalFloat32 = (\<lambda>w. if is_nan32 w \<or> is_inf32 w then None else Some 0), clWiden = (\<lambda>w. 0),
      clShow = (\<lambda>v. []), clShowVal = (\<lambda>v. [])\<rparr>"



section \<open>Where the conversion loses information\<close>

text \<open>C37: \<open>numeric\<close> values are cut to 64 bits. A finite value is converted exactly when its unscaled integer is an \<open>int64\<close>; otherwise
  it becomes the same datum as another value, the one that differs by a multiple of \<open>2 ^ 64\<close>, so that a comparison of the two finds no difference.\<close>

theorem numeric_conversion_exact_iff:
  assumes "\<not> nuNaN n" and "nuInfinity n = Finite" and "clArrayElem L 1700 = None"
  shows "(ConvertRowValue L tm (VNumeric n) 1700 = Some (Inr (DDecimal (nuInt n) (nuExp n))) \<longleftrightarrow> is_int64 (nuInt n)) \<and>
    (\<forall>k. ConvertRowValue L tm (VNumeric (n\<lparr>nuInt := nuInt n + k * 2 ^ 64\<rparr>)) 1700 = ConvertRowValue L tm (VNumeric n) 1700)"
proof -
  have k: "pg_kind 1700 = KNumeric" by (simp add: pg_kind_def)
  have c: "ConvertRowValue L tm (VNumeric m) 1700 = Some (Inr (DDecimal (int64 (nuInt m)) (nuExp m)))"
    if "\<not> nuNaN m" "nuInfinity m = Finite" for m
    using that assms(3) by (simp add: ConvertRowValue.simps k convert_scalar_def convertNumeric_def)
  have "int64 (i + j * 2 ^ 64) = int64 i" for i j
    using mod_mult_self1 [of "i + 2 ^ 63" j "2 ^ 64"] by (simp add: int64_def algebra_simps)
  moreover have "int64 (nuInt n) = nuInt n \<longleftrightarrow> is_int64 (nuInt n)" using int64_id int64_range by metis
  ultimately show ?thesis using assms by (auto simp: c)
qed

theorem numeric_conversion_exact_iff_witness:
  "ConvertRowValue demo_lib (\<lambda>t. None) (VNumeric \<lparr>nuInt = 18446744073709551617, nuExp = 0, nuNaN = False, nuInfinity = Finite\<rparr>) 1700 =
   ConvertRowValue demo_lib (\<lambda>t. None) (VNumeric \<lparr>nuInt = 1, nuExp = 0, nuNaN = False, nuInfinity = Finite\<rparr>) 1700"
proof -
  let ?n = "\<lparr>nuInt = 1, nuExp = 0, nuNaN = False, nuInfinity = Finite\<rparr>"
  have a: "clArrayElem demo_lib 1700 = None" by (simp add: demo_lib_def)
  have "\<forall>k. ConvertRowValue demo_lib (\<lambda>t. None) (VNumeric (?n\<lparr>nuInt := nuInt ?n + k * 2 ^ 64\<rparr>)) 1700 =
      ConvertRowValue demo_lib (\<lambda>t. None) (VNumeric ?n) 1700"
    using numeric_conversion_exact_iff [of ?n demo_lib "\<lambda>t. None"] a by simp
  from this [rule_format, of 1] show ?thesis by simp
qed

text \<open>A \<open>float4\<close> that is not a number and an infinite date or timestamp panic.\<close>

lemma float4_nan_panics:
  assumes "lib_documented L" "is_nan32 w" "clArrayElem L 700 = None"
  shows "ConvertRowValue L tm (VFloat32 w) 700 = None"
  by (rule scalar_hazard_panics [OF assms(1)]) (simp_all add: elem_type_def assms(2,3) pg_kind_def scalar_hazard_def)

lemma infinite_date_panics:
  assumes "lib_documented L" "t \<in> {1082, 1114, 1184}" "clArrayElem L t = None"
  shows "ConvertRowValue L tm (VInfinityModifier m) t = None"
  by (rule scalar_hazard_panics [OF assms(1)]) (use assms(2,3) in \<open>auto simp: elem_type_def pg_kind_def scalar_hazard_def\<close>)

end
