(* ===== verification/Type_Convert.thy ===== *)
theory Type_Convert
  imports Job_Request
begin

text \<open>
  \<open>utils/typeconv\<close>: the CockroachDB type of a PostgreSQL column (\<open>pg.go\<close>) and the file of type overrides
  (\<open>map_override.go\<close>).

  The types are those of the SQL library: its table of OIDs, its constructors (which panic on arguments out of
  range) and its parser are the fields of \<open>types_lib\<close>. A type is \<open>'ty\<close>, the nil type \<open>None\<close>. As elsewhere the outer
  \<open>None\<close> of a result is a panic.
\<close>

section \<open>strconv and strings\<close>

text \<open>\<open>strconv.Atoi\<close> returns a value and an error. Digits are read from left to right: a syntax error gives 0, a number out of
  range the nearest \<open>int64\<close>, as soon as it is noticed.\<close>

datatype num_error = ErrSyntax | ErrRange

definition digit_value :: "char \<Rightarrow> nat" where
  "digit_value c = of_char c - 48"

fun ParseUint_loop :: "nat \<Rightarrow> string \<Rightarrow> nat \<times> num_error option" where
  "ParseUint_loop n [] = (n, None)"
| "ParseUint_loop n (c # cs) =
     (if \<not> is_digit c then (0, Some ErrSyntax)
      else if 10 * n + digit_value c \<ge> 2 ^ 64 then (2 ^ 64 - 1, Some ErrRange)
      else ParseUint_loop (10 * n + digit_value c) cs)"

definition ParseUint :: "string \<Rightarrow> nat \<times> num_error option" where
  "ParseUint s = (if s = [] then (0, Some ErrSyntax) else ParseUint_loop 0 s)"

definition Atoi :: "string \<Rightarrow> int \<times> num_error option" where
  "Atoi s =
     (let neg = (s \<noteq> [] \<and> hd s = CHR ''-'');
          digits = (if s \<noteq> [] \<and> (hd s = CHR ''-'' \<or> hd s = CHR ''+'') then tl s else s)
      in case ParseUint digits of
           (n, Some ErrSyntax) \<Rightarrow> (0, Some ErrSyntax)
         | (n, e) \<Rightarrow>
             (if \<not> neg \<and> n \<ge> 2 ^ 63 then (2 ^ 63 - 1, Some ErrRange)
              else if neg \<and> n > 2 ^ 63 then (- (2 ^ 63), Some ErrRange)
              else (if neg then - int n else int n, None)))"

definition int32 :: "int \<Rightarrow> int" where
  "int32 x = (x + 2 ^ 31) mod 2 ^ 32 - 2 ^ 31"

definition is_int32 :: "int \<Rightarrow> bool" where
  "is_int32 x \<longleftrightarrow> - (2 ^ 31) \<le> x \<and> x < 2 ^ 31"

definition TrimPrefix :: "string \<Rightarrow> string \<Rightarrow> string" where
  "TrimPrefix s p = (if take (length p) s = p then drop (length p) s else s)"

definition TrimSuffix :: "string \<Rightarrow> string \<Rightarrow> string" where
  "TrimSuffix s p = rev (TrimPrefix (rev s) (rev p))"

section \<open>The types of the SQL library\<close>

datatype type_family =
  TimestampFamily | TimestampTZFamily | TimeFamily | TimeTZFamily | IntervalFamily | DecimalFamily | OtherFamily

record interval_metadata =
  imDurationType :: int
  imPrecision :: int
  imPrecisionIsSet :: bool

text \<open>The part of a syntax tree that \<open>getTypeFromName\<close> looks at.\<close>

datatype 'ty cast_type = ResolvedType 'ty | OtherTypeRef
datatype 'ty select_expr = CastExpr "'ty cast_type" | OtherExpr
datatype 'ty select_body = SelectClause "'ty select_expr list" | OtherSelect
datatype 'ty statement_ast = SelectStatement "'ty select_body" | OtherStatement

record 'ty types_lib =
  tlMapLower :: "string \<Rightarrow> string"  \<comment> \<open>\<open>strings.Map(unicode.ToLower, s)\<close>\<close>
  tlOidToType :: "oid \<Rightarrow> 'ty option"
  tlFamily :: "'ty \<Rightarrow> type_family"
  tlInternalOid :: "'ty \<Rightarrow> oid"
  tlDebugString :: "'ty \<Rightarrow> string"
  tlIntervalDurationType :: "string \<Rightarrow> int option"
  tlUNSET :: int
  tlSECOND :: int
  tlMakeTimestamp :: "int \<Rightarrow> 'ty option"
  tlMakeTimestampTZ :: "int \<Rightarrow> 'ty option"
  tlMakeTime :: "int \<Rightarrow> 'ty option"
  tlMakeTimeTZ :: "int \<Rightarrow> 'ty option"
  tlMakeInterval :: "interval_metadata \<Rightarrow> 'ty option"
  tlMakeDecimal :: "int \<Rightarrow> int \<Rightarrow> 'ty option"
  tlParse :: "string \<Rightarrow> 'ty statement_ast list result"

section \<open>ToDefaultCRDBType\<close>

record typeconv_error =
  teShortDescription :: string
  teMessage :: string
  teBlocking :: bool

definition TypeConvError_Error :: "typeconv_error \<Rightarrow> string" where
  "TypeConvError_Error e = teShortDescription e"

definition InvalidDecimalArgs :: string where "InvalidDecimalArgs = ''Invalid decimal args''"
definition UnknownTypeForOID :: string where "UnknownTypeForOID = ''Unknown OID to convert to type''"
definition OIDNotFoundForTypeFromPG :: string where
  "OIDNotFoundForTypeFromPG = ''Failed finding OID for a type from PG source''"
definition UnknownIntervalType :: string where "UnknownIntervalType = ''Unsupported interval type''"

record pg_column_meta =
  cmTypeOid :: oid
  cmColumnDefault :: string
  cmCharMaxLen :: int
  cmCharOctetLen :: int
  cmNumPrecision :: int
  cmNumPrecRadix :: int
  cmNumScale :: int
  cmDatetimePrecision :: int
  cmIntervalType :: string
  cmCollationName :: string

definition NewPGColumnMeta :: pg_column_meta where
  "NewPGColumnMeta =
     \<lparr>cmTypeOid = 0, cmColumnDefault = [], cmCharMaxLen = - 1, cmCharOctetLen = - 1, cmNumPrecision = - 1, cmNumPrecRadix = 0,
      cmNumScale = - 1, cmDatetimePrecision = 6, cmIntervalType = [], cmCollationName = []\<rparr>"

definition decimal_error :: "string \<Rightarrow> bool \<Rightarrow> typeconv_error" where
  "decimal_error msg blocking =
     \<lparr>teShortDescription = InvalidDecimalArgs, teMessage = msg, teBlocking = blocking\<rparr>"

definition convert_datetime ::
  "'ty types_lib \<Rightarrow> pg_column_meta \<Rightarrow> 'ty \<Rightarrow> ('ty option \<times> typeconv_error list) option" where
  "convert_datetime L cm defType =
     (let dp = cmDatetimePrecision cm; its = cmIntervalType cm; made = map_option (\<lambda>t. (Some t, []))
      in if dp = 6 \<and> its = [] then Some (Some defType, [])
         else case (if its = [] then Some (tlUNSET L) else tlIntervalDurationType L its) of
           None \<Rightarrow>
             Some (None, [\<lparr>teShortDescription = UnknownIntervalType,
               teMessage = ''interval type ('' @ its @ '') is not supported by CockroachDB'', teBlocking = True\<rparr>])
         | Some it \<Rightarrow>
             (let ioid = tlInternalOid L defType
              in if ioid = 1114 then made (tlMakeTimestamp L dp)
                 else if ioid = 1266 then made (tlMakeTimeTZ L dp)
                 else if ioid = 1184 then made (tlMakeTimestampTZ L dp)
                 else if ioid = 1083 then made (tlMakeTime L dp)
                 else if ioid = 1186 then
                   made (tlMakeInterval L
                     (if (it = tlSECOND L \<or> it = tlUNSET L) \<and> dp \<noteq> 6
                      then \<lparr>imDurationType = it, imPrecision = dp, imPrecisionIsSet = True\<rparr>
                      else \<lparr>imDurationType = it, imPrecision = 0, imPrecisionIsSet = False\<rparr>))
                 else Some (Some defType, [])))"

text \<open>The \<open>numeric\<close> branch. The check that there are two parts does not return, so that \<open>parts[1]\<close> panics when there is one.\<close>

definition convert_decimal ::
  "'ty types_lib \<Rightarrow> pg_column_meta \<Rightarrow> 'ty \<Rightarrow> string \<Rightarrow> string \<Rightarrow> ('ty option \<times> typeconv_error list) option" where
  "convert_decimal L cm defType dataType column =
     (let str = TrimPrefix dataType ''numeric''
      in if str = [] then Some (Some defType, [])
         else if length str < 2 then None
         else let parts = strings_Split (butlast (tl str)) (CHR '','')
              in do {
                p0 \<leftarrow> go_nth parts 0;
                p1 \<leftarrow> go_nth parts 1;
                (let (precision, perr) = Atoi p0; (scale, serr) = Atoi p1;
                     tfs =
                       (if length parts \<noteq> 2
                        then [decimal_error (''cannot find precision and scale for column '' @ column @
                                '', with received type expression '' @ dataType) True] else []) @
                       (if perr \<noteq> None
                        then [decimal_error (''cannot find precision for column '' @ column @ '' expression '' @ p0) True] else []) @
                       (if serr \<noteq> None
                        then [decimal_error (''cannot find scale for column '' @ column @ '' expression '' @ p1) True] else [])
                 in if scale < 0 then
                      map_option (\<lambda>t. (Some t, tfs @ [decimal_error (''cockroachDB does not accept negative scale value '' @
                        ItoaInt scale @ '' for column '' @ column @ '', auto correcting scale to 0'') False]))
                        (tlMakeDecimal L (int32 precision) 0)
                    else if scale > precision then
                      Some (None, tfs @ [decimal_error (''precision '' @ ItoaInt (cmNumPrecision cm) @
                        '' cannot be bigger than cm.NumScale '' @ ItoaInt (cmNumScale cm) @ '' for column '' @ column) True])
                    else map_option (\<lambda>t. (Some t, tfs)) (tlMakeDecimal L (int32 precision) (int32 scale)))
              })"

definition ToDefaultCRDBType ::
  "'ty types_lib \<Rightarrow> pg_column_meta \<Rightarrow> string \<Rightarrow> string \<Rightarrow> ('ty option \<times> typeconv_error list) option" where
  "ToDefaultCRDBType L cm dataType column =
     (if cmTypeOid cm = 0 then
        Some (None, [\<lparr>teShortDescription = OIDNotFoundForTypeFromPG,
          teMessage = ''oid is not found for a pg column '' @ column, teBlocking = False\<rparr>])
      else case tlOidToType L (cmTypeOid cm) of
        None \<Rightarrow>
          Some (None, [\<lparr>teShortDescription = UnknownTypeForOID,
            teMessage = ''looking for corresponding type for oid '' @ Itoa (unat (cmTypeOid cm)) @ '' from column '' @ column,
            teBlocking = True\<rparr>])
      | Some defType \<Rightarrow>
          (case tlFamily L defType of
             DecimalFamily \<Rightarrow> convert_decimal L cm defType dataType column
           | OtherFamily \<Rightarrow> Some (Some defType, [])
           | _ \<Rightarrow> convert_datetime L cm defType))"

section \<open>The file of type overrides\<close>

record column_type_json =
  ctColumnName :: string
  ctSourceType :: string
  ctCRDBType :: string

record table_type_json =
  ttTableName :: string
  ttColumnTypeMap :: "column_type_json option list"

text \<open>\<open>json.Unmarshal\<close> into a slice of pointers: null is the nil pointer, an object is decoded into the element that is
  already there, which happens when a key is repeated; \<open>None\<close> is a type error.\<close>

definition decode_pointer :: "('a \<Rightarrow> json \<Rightarrow> 'a option) \<Rightarrow> 'a \<Rightarrow> 'a option \<Rightarrow> json \<Rightarrow> 'a option option" where
  "decode_pointer dec fresh old j =
     (if j = JNull then Some None else map_option Some (dec (case old of Some x \<Rightarrow> x | None \<Rightarrow> fresh) j))"

fun decode_elements :: "('a \<Rightarrow> json \<Rightarrow> 'a option) \<Rightarrow> 'a \<Rightarrow> 'a option list \<Rightarrow> json list \<Rightarrow> 'a option list option" where
  "decode_elements dec fresh old [] = Some []"
| "decode_elements dec fresh old (j # js) = do {
     x \<leftarrow> decode_pointer dec fresh (case old of [] \<Rightarrow> None | y # ys \<Rightarrow> y) j;
     xs \<leftarrow> decode_elements dec fresh (tl old) js;
     Some (x # xs)
   }"

definition decode_slice ::
  "('a \<Rightarrow> json \<Rightarrow> 'a option) \<Rightarrow> 'a \<Rightarrow> 'a option list \<Rightarrow> json \<Rightarrow> 'a option list option" where
  "decode_slice dec fresh old j =
     (case j of JNull \<Rightarrow> Some [] | JArray js \<Rightarrow> decode_elements dec fresh old js | _ \<Rightarrow> None)"

definition decode_string :: "string \<Rightarrow> json \<Rightarrow> string option" where
  "decode_string old j = (case j of JString s \<Rightarrow> Some s | JNull \<Rightarrow> Some old | _ \<Rightarrow> None)"

definition set_column_field :: "column_type_json option \<Rightarrow> string \<times> json \<Rightarrow> column_type_json option" where
  "set_column_field r kv = do {
     c \<leftarrow> r;
     (if same_json_key (fst kv) ''column''
      then map_option (\<lambda>s. c\<lparr>ctColumnName := s\<rparr>) (decode_string (ctColumnName c) (snd kv))
      else if same_json_key (fst kv) ''source_type''
      then map_option (\<lambda>s. c\<lparr>ctSourceType := s\<rparr>) (decode_string (ctSourceType c) (snd kv))
      else if same_json_key (fst kv) ''crdb_type''
      then map_option (\<lambda>s. c\<lparr>ctCRDBType := s\<rparr>) (decode_string (ctCRDBType c) (snd kv))
      else Some c)
   }"

definition decode_column :: "column_type_json \<Rightarrow> json \<Rightarrow> column_type_json option" where
  "decode_column c j = (case j of JObject kvs \<Rightarrow> foldl set_column_field (Some c) kvs | _ \<Rightarrow> None)"

definition empty_column :: column_type_json where
  "empty_column = \<lparr>ctColumnName = [], ctSourceType = [], ctCRDBType = []\<rparr>"

definition set_table_field :: "table_type_json option \<Rightarrow> string \<times> json \<Rightarrow> table_type_json option" where
  "set_table_field r kv = do {
     t \<leftarrow> r;
     (if same_json_key (fst kv) ''table''
      then map_option (\<lambda>s. t\<lparr>ttTableName := s\<rparr>) (decode_string (ttTableName t) (snd kv))
      else if same_json_key (fst kv) ''column_type_map''
      then map_option (\<lambda>cs. t\<lparr>ttColumnTypeMap := cs\<rparr>) (decode_slice decode_column empty_column (ttColumnTypeMap t) (snd kv))
      else Some t)
   }"

definition decode_table :: "table_type_json \<Rightarrow> json \<Rightarrow> table_type_json option" where
  "decode_table t j = (case j of JObject kvs \<Rightarrow> foldl set_table_field (Some t) kvs | _ \<Rightarrow> None)"

definition decode_type_maps :: "json \<Rightarrow> table_type_json option list option" where
  "decode_type_maps j = decode_slice decode_table \<lparr>ttTableName = [], ttColumnTypeMap = []\<rparr> [] j"

text \<open>The maps, as association lists without repeated keys. They are printed in the order of their keys.\<close>

record 'ty type_kv =
  kvSourceType :: string
  kvCRDBType :: 'ty

type_synonym 'ty column_type_map = "(string \<times> 'ty type_kv) list"
type_synonym 'ty table_type_map = "(string \<times> 'ty column_type_map) list"

definition TypeKV_String :: "'ty types_lib \<Rightarrow> 'ty type_kv \<Rightarrow> string" where
  "TypeKV_String L kv = ''{'' @ kvSourceType kv @ '':{'' @ TrimSuffix (tlDebugString L (kvCRDBType kv)) '' '' @ ''}}''"

definition map_String :: "('v \<Rightarrow> string) \<Rightarrow> string \<Rightarrow> string \<Rightarrow> (string \<times> 'v) list \<Rightarrow> string" where
  "map_String show label sep m =
     ''['' @ strings_Join (map (\<lambda>k. ''{'' @ label @ k @ sep @ show (the (map_of m k)) @ ''}'') (sort (map fst m))) '','' @ '']''"

definition ColumnTypeMap_String :: "'ty types_lib \<Rightarrow> 'ty column_type_map \<Rightarrow> string" where
  "ColumnTypeMap_String L = map_String (TypeKV_String L) ''colName:'' '', mapping:''"

definition TableTypeMap_String :: "'ty types_lib \<Rightarrow> 'ty table_type_map \<Rightarrow> string" where
  "TableTypeMap_String L = map_String (ColumnTypeMap_String L) ''tableName:'' '', ''"

definition getTypeFromName :: "'ty types_lib \<Rightarrow> string \<Rightarrow> 'ty result option" where
  "getTypeFromName L typ =
     (case tlParse L (''SELECT 1::'' @ typ) of
        Inl e \<Rightarrow> Some (Inl e)
      | Inr [] \<Rightarrow> None
      | Inr (stmt # rest) \<Rightarrow> Some
          (case stmt of
             OtherStatement \<Rightarrow> Inl (ErrMsg ''failed to assert ast as tree.Select'')
           | SelectStatement OtherSelect \<Rightarrow> Inl (ErrMsg ''failed to assert for tree.SelectClause'')
           | SelectStatement (SelectClause []) \<Rightarrow> Inl (ErrMsg ''failed to find expression from select clause'')
           | SelectStatement (SelectClause (OtherExpr # es)) \<Rightarrow> Inl (ErrMsg ''failed to assert the cast expression'')
           | SelectStatement (SelectClause (CastExpr OtherTypeRef # es)) \<Rightarrow>
               Inl (ErrMsg (''cannot assert the type '' @ quoted typ @ '' as *types.T on crdb''))
           | SelectStatement (SelectClause (CastExpr (ResolvedType t) # es)) \<Rightarrow> Inr t))"

fun columns_loop ::
  "'ty types_lib \<Rightarrow> string \<Rightarrow> column_type_json option list \<Rightarrow> 'ty column_type_map \<Rightarrow> 'ty column_type_map result option" where
  "columns_loop L table [] m = Some (Inr m)"
| "columns_loop L table (None # cols) m = None"
| "columns_loop L table (Some col # cols) m =
     (case map_of m (ctColumnName col) of
        Some rule \<Rightarrow>
          Some (Inl (ErrMsg (''mapping rule for column '' @ quoted (ctColumnName col) @ '' from table '' @ quoted table @
            '' has been defined: '' @ TypeKV_String L rule)))
      | None \<Rightarrow>
          (if ctSourceType col = [] \<or> ctCRDBType col = [] then
             Some (Inl (ErrMsg (''mapping rule for column '' @ quoted (ctColumnName col) @ '' from table '' @ quoted table @ '' is not found'')))
           else do {
             r \<leftarrow> getTypeFromName L (ToLower (tlMapLower L) (ctCRDBType col));
             (case r of
                Inl e \<Rightarrow> Some (Inl (ErrWrap (''cannot get the crdb type for '' @ quoted (ctCRDBType col)) e))
              | Inr t \<Rightarrow> columns_loop L table cols
                  (m @ [(ctColumnName col, \<lparr>kvSourceType = ToLower (tlMapLower L) (ctSourceType col), kvCRDBType = t\<rparr>)]))
           }))"

fun tables_loop ::
  "'ty types_lib \<Rightarrow> table_type_json option list \<Rightarrow> 'ty table_type_map \<Rightarrow> 'ty table_type_map result option" where
  "tables_loop L [] res = Some (Inr res)"
| "tables_loop L (None # ms) res = None"
| "tables_loop L (Some m # ms) res =
     (case map_of res (ttTableName m) of
        Some existingMap \<Rightarrow>
          Some (Inl (ErrMsg (''mapping rule for table '' @ quoted (ttTableName m) @ '' has been defined: '' @
            ColumnTypeMap_String L existingMap)))
      | None \<Rightarrow> do {
          r \<leftarrow> columns_loop L (ttTableName m) (ttColumnTypeMap m) [];
          (case r of
             Inl e \<Rightarrow> Some (Inl e)
           | Inr mapForTable \<Rightarrow> tables_loop L ms (res @ [(ttTableName m, mapForTable)]))
        })"

definition toTableTypeMap :: "'ty types_lib \<Rightarrow> table_type_json option list \<Rightarrow> 'ty table_type_map result option" where
  "toTableTypeMap L ms = tables_loop L ms []"

text \<open>The checks of \<open>getOverrideTypeMapFromJsonBytes\<close> before the conversion: the first failure, or a panic on a nil pointer.\<close>

fun check_override_columns :: "string \<Rightarrow> column_type_json option list \<Rightarrow> go_error option option" where
  "check_override_columns table [] = Some None"
| "check_override_columns table (None # cols) = None"
| "check_override_columns table (Some col # cols) =
     (if ctColumnName col = [] then Some (Some (ErrMsg ''column name is not specified for overriding type map''))
      else if ctSourceType col = [] \<or> ctCRDBType col = [] then
        Some (Some (ErrMsg (''mapping rule for column '' @ ctColumnName col @ '' from table '' @ table @ '' is not found'')))
      else check_override_columns table cols)"

fun check_override_tables :: "table_type_json option list \<Rightarrow> go_error option option" where
  "check_override_tables [] = Some None"
| "check_override_tables (None # ms) = None"
| "check_override_tables (Some m # ms) =
     (if ttTableName m = [] then Some (Some (ErrMsg ''table name is not specified for overriding type map''))
      else do {
        r \<leftarrow> check_override_columns (ttTableName m) (ttColumnTypeMap m);
        (case r of Some e \<Rightarrow> Some (Some e) | None \<Rightarrow> check_override_tables ms)
      })"

text \<open>The bytes are what the JSON parser makes of them: a syntax error or a value; the text of a type error is \<open>type_error\<close>.
  The log messages have no effect on the result, and marshalling the decoded slice for one of them cannot fail.\<close>

definition getOverrideTypeMapFromJsonBytes ::
  "'ty types_lib \<Rightarrow> (json \<Rightarrow> go_error) \<Rightarrow> json result \<Rightarrow> 'ty table_type_map result option" where
  "getOverrideTypeMapFromJsonBytes L type_error bytes =
     (case bytes of
        Inl e \<Rightarrow> Some (Inl (ErrWrap ''unable to unmarshal json mapping'' e))
      | Inr j \<Rightarrow>
          (case decode_type_maps j of
             None \<Rightarrow> Some (Inl (ErrWrap ''unable to unmarshal json mapping'' (type_error j)))
           | Some jsonRes \<Rightarrow> do {
               r \<leftarrow> check_override_tables jsonRes;
               (case r of Some e \<Rightarrow> Some (Inl e) | None \<Rightarrow> toTableTypeMap L jsonRes)
             }))"

text \<open>A hint does not change the text of an error.\<close>

definition GetOverrideTypeMapFromFile ::
  "'ty types_lib \<Rightarrow> (json \<Rightarrow> go_error) \<Rightarrow> (string \<Rightarrow> json result result) \<Rightarrow> string \<Rightarrow> 'ty table_type_map result option" where
  "GetOverrideTypeMapFromFile L type_error ReadFile filepath =
     (case ReadFile filepath of
        Inl e \<Rightarrow> Some (Inl (ErrWrap (''failed to read json file '' @ filepath @ '' for type mapping'') e))
      | Inr bytes \<Rightarrow> getOverrideTypeMapFromJsonBytes L type_error bytes)"

end
