(* ===== verification/Type_Properties.thy ===== *)
theory Type_Properties
  imports Type_Convert
begin

text \<open>
  What the type conversion guarantees: the type of a \<open>numeric\<close> column is read back from the text PostgreSQL prints for it,
  and a file of overrides is accepted exactly when its rules are complete, unambiguous and name known types.
\<close>

section \<open>Reading numbers\<close>

lemma foldl_digits_mono: "(n :: nat) \<le> foldl (\<lambda>a c. 10 * a + (of_char c - 48)) n cs"
proof (induction cs arbitrary: n)
  case (Cons c cs)
  show ?case using Cons [of "10 * n + (of_char c - 48)"] by simp
qed simp

lemma ParseUint_loop_value:
  assumes "\<forall>c \<in> set cs. is_digit c" and "foldl (\<lambda>a c. 10 * a + (of_char c - 48)) n cs < 2 ^ 64"
  shows "ParseUint_loop n cs = (foldl (\<lambda>a c. 10 * a + (of_char c - 48)) n cs, None)"
  using assms
proof (induction cs arbitrary: n)
  case (Cons c cs)
  then have "10 * n + digit_value c < 2 ^ 64"
    using foldl_digits_mono [of "10 * n + digit_value c" cs] by (simp add: digit_value_def)
  then show ?case using Cons by (simp add: digit_value_def)
qed simp

lemma Itoa_is_digit: "c \<in> set (Itoa n) \<Longrightarrow> is_digit c"
  using Itoa_digits [of n] by (simp add: is_digit_def less_eq_char_def)

lemma Itoa_nonempty [simp]: "Itoa n \<noteq> []"
  using Itoa_digits [of n] by simp

lemma is_digit_not_punct: "is_digit c \<Longrightarrow> c \<noteq> CHR ''-'' \<and> c \<noteq> CHR ''+'' \<and> c \<noteq> CHR '',''"
  by (auto simp: is_digit_def less_eq_char_def)

lemma hd_Itoa: "hd (Itoa n) \<noteq> CHR ''-''" "hd (Itoa n) \<noteq> CHR ''+''"
  using Itoa_is_digit [of "hd (Itoa n)" n] is_digit_not_punct by auto

lemma ParseUint_Itoa: "n < 2 ^ 64 \<Longrightarrow> ParseUint (Itoa n) = (n, None)"
  using ParseUint_loop_value [of "Itoa n" 0] Itoa_value [of n] Itoa_is_digit [of _ n] by (simp add: ParseUint_def)

lemma Atoi_ItoaInt:
  assumes "is_int64 i"
  shows "Atoi (ItoaInt i) = (i, None)"
proof -
  have "ParseUint (Itoa (nat \<bar>i\<bar>)) = (nat \<bar>i\<bar>, None)"
    using assms by (intro ParseUint_Itoa) (auto simp: is_int64_def)
  then show ?thesis using assms hd_Itoa by (auto simp: Atoi_def ItoaInt_def is_int64_def abs_if split: if_splits)
qed

lemma Itoa_no_comma: "CHR '','' \<notin> set (Itoa n)"
  using Itoa_is_digit is_digit_not_punct by blast

lemma ItoaInt_no_comma: "CHR '','' \<notin> set (ItoaInt i)"
  by (simp add: ItoaInt_def Itoa_no_comma)

lemma strings_Split_none: "sep \<notin> set s \<Longrightarrow> strings_Split s sep = [s]"
  by (induction s) auto

lemma strings_Split_append: "sep \<notin> set a \<Longrightarrow> strings_Split (a @ sep # b) sep = a # strings_Split b sep"
  by (induction a) auto

lemma int32_id: "is_int32 x \<Longrightarrow> int32 x = x"
  by (simp add: is_int32_def int32_def)

section \<open>Numeric columns\<close>

text \<open>The text of a type that \<open>format_type\<close> of PostgreSQL prints.\<close>

definition numeric_text :: "int \<Rightarrow> int \<Rightarrow> string" where
  "numeric_text p s = ''numeric('' @ ItoaInt p @ '','' @ ItoaInt s @ '')''"

lemma numeric_text_parts:
  "TrimPrefix (numeric_text p s) ''numeric'' = ''('' @ ItoaInt p @ '','' @ ItoaInt s @ '')''"
  by (simp add: numeric_text_def TrimPrefix_def)

text \<open>C19: the type of a \<open>numeric\<close> column is read from the text of its type. For every precision and scale of 32 bits the decimal type with
  exactly these is made; a negative scale is set to 0 with a warning, and a scale larger than the precision is refused.\<close>

theorem numeric_text_roundtrip:
  assumes "cmTypeOid cm \<noteq> 0" and "tlOidToType L (cmTypeOid cm) = Some ty" and "tlFamily L ty = DecimalFamily"
    and "is_int32 p" and "is_int32 s"
  shows "ToDefaultCRDBType L cm (numeric_text p s) column =
    (if s < 0 then map_option (\<lambda>t. (Some t, [decimal_error (''cockroachDB does not accept negative scale value '' @ ItoaInt s @
         '' for column '' @ column @ '', auto correcting scale to 0'') False])) (tlMakeDecimal L p 0)
     else if s > p then Some (None, [decimal_error (''precision '' @ ItoaInt (cmNumPrecision cm) @
         '' cannot be bigger than cm.NumScale '' @ ItoaInt (cmNumScale cm) @ '' for column '' @ column) True])
     else map_option (\<lambda>t. (Some t, [])) (tlMakeDecimal L p s))"
proof -
  have "is_int64 p" "is_int64 s" using assms(4,5) by (auto simp: is_int64_def is_int32_def)
  then have num: "Atoi (ItoaInt p) = (p, None)" "Atoi (ItoaInt s) = (s, None)" by (simp_all add: Atoi_ItoaInt)
  have parts: "strings_Split (ItoaInt p @ '','' @ ItoaInt s) (CHR '','') = [ItoaInt p, ItoaInt s]"
    using strings_Split_append [OF ItoaInt_no_comma, of p "ItoaInt s"] strings_Split_none [OF ItoaInt_no_comma, of s] by simp
  have "convert_decimal L cm ty (numeric_text p s) column =
    (if s < 0 then map_option (\<lambda>t. (Some t, [decimal_error (''cockroachDB does not accept negative scale value '' @ ItoaInt s @
         '' for column '' @ column @ '', auto correcting scale to 0'') False])) (tlMakeDecimal L p 0)
     else if s > p then Some (None, [decimal_error (''precision '' @ ItoaInt (cmNumPrecision cm) @
         '' cannot be bigger than cm.NumScale '' @ ItoaInt (cmNumScale cm) @ '' for column '' @ column) True])
     else map_option (\<lambda>t. (Some t, [])) (tlMakeDecimal L p s))"
    using num parts assms(4,5)
    by (simp add: convert_decimal_def numeric_text_parts butlast_append int32_id go_nth_def)
  then show ?thesis using assms(1-3) by (simp add: ToDefaultCRDBType_def)
qed

text \<open>Without a scale the conversion panics: the check for two parts records an error and goes on to read the second part.\<close>

lemma numeric_without_scale_panics:
  assumes "cmTypeOid cm \<noteq> 0" and "tlOidToType L (cmTypeOid cm) = Some ty" and "tlFamily L ty = DecimalFamily"
  shows "ToDefaultCRDBType L cm (''numeric('' @ Itoa p @ '')'') column = None"
proof -
  have "strings_Split (Itoa p) (CHR '','') = [Itoa p]" by (rule strings_Split_none [OF Itoa_no_comma])
  then show ?thesis
    using assms by (simp add: ToDefaultCRDBType_def convert_decimal_def TrimPrefix_def butlast_append go_nth_def)
qed

text \<open>A library with two types: \<open>decimal(p, s)\<close> and the integers, written as \<open>(- 1, - 1)\<close>.\<close>

definition demo_types :: "(int \<times> int) types_lib" where
  "demo_types =
     \<lparr>tlMapLower = (\<lambda>s. s), tlOidToType = (\<lambda>o'. if o' = 1700 then Some (0, 0) else if o' = 20 then Some (- 1, - 1) else None),
      tlFamily = (\<lambda>t. if t = (- 1, - 1) then OtherFamily else DecimalFamily),
      tlInternalOid = (\<lambda>t. if t = (- 1, - 1) then 20 else 1700), tlDebugString = (\<lambda>t. ''type ''),
      tlIntervalDurationType = (\<lambda>s. None), tlUNSET = 0, tlSECOND = 6,
      tlMakeTimestamp = (\<lambda>p. None), tlMakeTimestampTZ = (\<lambda>p. None), tlMakeTime = (\<lambda>p. None), tlMakeTimeTZ = (\<lambda>p. None),
      tlMakeInterval = (\<lambda>m. None), tlMakeDecimal = (\<lambda>p s. if 0 \<le> s \<and> s \<le> p then Some (p, s) else None),
      tlParse = (\<lambda>s. if s = ''SELECT 1::int'' then Inr [SelectStatement (SelectClause [CastExpr (ResolvedType (- 1, - 1))])]
                      else Inl (ErrMsg ''syntax error''))\<rparr>"

theorem numeric_text_roundtrip_witness:
  "ToDefaultCRDBType demo_types (NewPGColumnMeta\<lparr>cmTypeOid := 1700\<rparr>) (numeric_text 10 2) ''price'' = Some (Some (10, 2), [])"
proof -
  have "cmTypeOid (NewPGColumnMeta\<lparr>cmTypeOid := 1700\<rparr>) \<noteq> 0"
    and "tlOidToType demo_types (cmTypeOid (NewPGColumnMeta\<lparr>cmTypeOid := 1700\<rparr>)) = Some (0, 0)"
    and "tlFamily demo_types (0, 0) = DecimalFamily" and "is_int32 10" and "is_int32 2"
    by (simp_all add: demo_types_def is_int32_def)
  from numeric_text_roundtrip [OF this, of "''price''"] show ?thesis by (simp add: demo_types_def)
qed

section \<open>Overrides\<close>

text \<open>The rules of a file that can be used: every table and column is named, no table and no column of a table twice, both types are
  given and the second is the name of a type.\<close>

definition valid_column :: "'ty types_lib \<Rightarrow> column_type_json option \<Rightarrow> bool" where
  "valid_column L c \<longleftrightarrow>
     (case c of None \<Rightarrow> False
      | Some col \<Rightarrow> ctColumnName col \<noteq> [] \<and> ctSourceType col \<noteq> [] \<and> ctCRDBType col \<noteq> [] \<and>
          (case getTypeFromName L (ToLower (tlMapLower L) (ctCRDBType col)) of Some (Inr t) \<Rightarrow> True | _ \<Rightarrow> False))"

definition column_names :: "column_type_json option list \<Rightarrow> string list" where
  "column_names cols = map (ctColumnName \<circ> the) cols"

definition valid_table :: "'ty types_lib \<Rightarrow> table_type_json option \<Rightarrow> bool" where
  "valid_table L m \<longleftrightarrow>
     (case m of None \<Rightarrow> False
      | Some tab \<Rightarrow> ttTableName tab \<noteq> [] \<and> list_all (valid_column L) (ttColumnTypeMap tab) \<and>
          distinct (column_names (ttColumnTypeMap tab)))"

definition valid_rules :: "'ty types_lib \<Rightarrow> table_type_json option list \<Rightarrow> bool" where
  "valid_rules L ms \<longleftrightarrow> list_all (valid_table L) ms \<and> distinct (map (ttTableName \<circ> the) ms)"

text \<open>The map such rules stand for.\<close>

definition column_rule :: "'ty types_lib \<Rightarrow> column_type_json \<Rightarrow> string \<times> 'ty type_kv" where
  "column_rule L col =
     (ctColumnName col, \<lparr>kvSourceType = ToLower (tlMapLower L) (ctSourceType col),
        kvCRDBType = projr (the (getTypeFromName L (ToLower (tlMapLower L) (ctCRDBType col))))\<rparr>)"

definition rules_map :: "'ty types_lib \<Rightarrow> table_type_json option list \<Rightarrow> 'ty table_type_map" where
  "rules_map L ms = map (\<lambda>m. (ttTableName (the m), map (\<lambda>c. column_rule L (the c)) (ttColumnTypeMap (the m)))) ms"

lemma columns_loop_Inr:
  assumes "\<forall>c \<in> set cols. \<forall>col. c = Some col \<longrightarrow> ctColumnName col \<noteq> []"
  shows "columns_loop L table cols m = Some (Inr res) \<longleftrightarrow>
    list_all (valid_column L) cols \<and> distinct (column_names cols) \<and> set (column_names cols) \<inter> fst ` set m = {} \<and>
    res = m @ map (\<lambda>c. column_rule L (the c)) cols"
  using assms
proof (induction L table cols m rule: columns_loop.induct)
  case (1 L table m)
  then show ?case by (auto simp: column_names_def)
next
  case (2 L table cols m)
  then show ?case by (simp add: valid_column_def)
next
  case (3 L table col cols m)
  show ?case
  proof (cases "map_of m (ctColumnName col) = None \<and> valid_column L (Some col)")
    case True
    then obtain t where t: "getTypeFromName L (ToLower (tlMapLower L) (ctCRDBType col)) = Some (Inr t)"
      and ne: "ctSourceType col \<noteq> []" "ctCRDBType col \<noteq> []"
      by (auto simp: valid_column_def split: option.splits sum.splits)
    let ?e = "(ctColumnName col, \<lparr>kvSourceType = ToLower (tlMapLower L) (ctSourceType col), kvCRDBType = t\<rparr>)"
    have e: "column_rule L col = ?e" using t by (simp add: column_rule_def)
    have step: "columns_loop L table (Some col # cols) m = columns_loop L table cols (m @ [?e])"
      using True t ne by simp
    have rec: "columns_loop L table cols (m @ [?e]) = Some (Inr res) \<longleftrightarrow>
      list_all (valid_column L) cols \<and> distinct (column_names cols) \<and> set (column_names cols) \<inter> fst ` set (m @ [?e]) = {} \<and>
      res = (m @ [?e]) @ map (\<lambda>c. column_rule L (the c)) cols"
      using "3.IH" [OF _ _ t refl] "3.prems" True ne by simp
    show ?thesis unfolding step rec using True by (auto simp: column_names_def map_of_eq_None_iff e)
  next
    case False
    have "columns_loop L table (Some col # cols) m \<noteq> Some (Inr res)"
      using False "3.prems" by (auto simp: valid_column_def split: option.splits sum.splits bind_splits)
    moreover have "\<not> (valid_column L (Some col) \<and> ctColumnName col \<notin> fst ` set m)"
      using False by (auto simp: map_of_eq_None_iff)
    ultimately show ?thesis by (auto simp: column_names_def)
  qed
qed

lemma check_override_columns_ok:
  "check_override_columns table cols = Some None \<longleftrightarrow>
     list_all (\<lambda>c. case c of None \<Rightarrow> False | Some col \<Rightarrow> ctColumnName col \<noteq> [] \<and> ctSourceType col \<noteq> [] \<and> ctCRDBType col \<noteq> []) cols"
  by (induction table cols rule: check_override_columns.induct) auto

lemma tables_loop_Inr:
  assumes "check_override_tables ms = Some None"
  shows "tables_loop L ms m = Some (Inr res) \<longleftrightarrow>
    valid_rules L ms \<and> set (map (ttTableName \<circ> the) ms) \<inter> fst ` set m = {} \<and> res = m @ rules_map L ms"
  using assms
proof (induction L ms m rule: tables_loop.induct)
  case (1 L m)
  then show ?case by (auto simp: valid_rules_def rules_map_def)
next
  case (2 L ms m)
  then show ?case by simp
next
  case (3 L tab ms m)
  have chk: "ttTableName tab \<noteq> []" "check_override_columns (ttTableName tab) (ttColumnTypeMap tab) = Some None"
    "check_override_tables ms = Some None"
    using "3.prems" by (auto split: if_splits option.splits bind_splits)
  have "\<forall>c \<in> set (ttColumnTypeMap tab). \<forall>col. c = Some col \<longrightarrow> ctColumnName col \<noteq> []"
    using chk(2) by (auto simp: check_override_columns_ok list_all_iff)
  note cols = columns_loop_Inr [OF this, of L "ttTableName tab" "[]"]
  show ?case
  proof (cases "map_of m (ttTableName tab) = None \<and> valid_table L (Some tab)")
    case True
    let ?m = "map (\<lambda>c. column_rule L (the c)) (ttColumnTypeMap tab)"
    have c: "columns_loop L (ttTableName tab) (ttColumnTypeMap tab) [] = Some (Inr ?m)"
      using True cols [of ?m] by (simp add: valid_table_def)
    have step: "tables_loop L (Some tab # ms) m = tables_loop L ms (m @ [(ttTableName tab, ?m)])" using True c by simp
    have rec: "tables_loop L ms (m @ [(ttTableName tab, ?m)]) = Some (Inr res) \<longleftrightarrow>
      valid_rules L ms \<and> set (map (ttTableName \<circ> the) ms) \<inter> fst ` set (m @ [(ttTableName tab, ?m)]) = {} \<and>
      res = (m @ [(ttTableName tab, ?m)]) @ rules_map L ms"
      using "3.IH" [OF _ c refl] chk(3) True by simp
    show ?thesis unfolding step rec using True by (auto simp: valid_rules_def rules_map_def map_of_eq_None_iff)
  next
    case False
    have "tables_loop L (Some tab # ms) m \<noteq> Some (Inr res)"
      using False cols chk(1) by (auto simp: valid_table_def split: option.splits sum.splits bind_splits)
    moreover have "\<not> (valid_table L (Some tab) \<and> ttTableName tab \<notin> fst ` set m)"
      using False by (auto simp: map_of_eq_None_iff)
    ultimately show ?thesis by (auto simp: valid_rules_def)
  qed
qed

lemma valid_rules_checked: "valid_rules L ms \<Longrightarrow> check_override_tables ms = Some None"
proof (induction ms rule: check_override_tables.induct)
  case (3 tab ms)
  have "check_override_columns (ttTableName tab) (ttColumnTypeMap tab) = Some None"
    using 3 by (auto simp: check_override_columns_ok valid_rules_def valid_table_def list_all_iff valid_column_def split: option.splits)
  then show ?case using 3 by (auto simp: valid_rules_def valid_table_def)
qed (simp_all add: valid_rules_def valid_table_def)

text \<open>C38: a file of type overrides is accepted exactly when its rules are valid, and the resulting map has exactly one entry for every
  table and column the file names, with the lower-cased source type and the type its name stands for.\<close>

theorem override_map_exact:
  "getOverrideTypeMapFromJsonBytes L type_error (Inr j) = Some (Inr res) \<longleftrightarrow>
     (\<exists>ms. decode_type_maps j = Some ms \<and> valid_rules L ms \<and> res = rules_map L ms)"
proof (cases "decode_type_maps j")
  case (Some ms)
  have "(check_override_tables ms = Some None \<and> toTableTypeMap L ms = Some (Inr res)) \<longleftrightarrow> valid_rules L ms \<and> res = rules_map L ms"
    using tables_loop_Inr [of ms L "[]" res] valid_rules_checked [of L ms] by (auto simp: toTableTypeMap_def)
  then show ?thesis
    using Some by (auto simp: getOverrideTypeMapFromJsonBytes_def split: option.splits bind_splits)
qed (simp add: getOverrideTypeMapFromJsonBytes_def)

text \<open>A list entry that is \<open>null\<close> is a nil pointer, and reading its name panics.\<close>

lemma override_null_entry_panics: "getOverrideTypeMapFromJsonBytes L type_error (Inr (JArray [JNull])) = None"
  by (simp add: getOverrideTypeMapFromJsonBytes_def decode_type_maps_def decode_slice_def decode_pointer_def)

end
