(* ===== verification/Raw_Table.thy ===== *)
theory Raw_Table
  imports Service
begin

text \<open>
  \<open>verifyservice/raw_table.go\<close> and the handler of \<open>POST /tables/raw\<close> in \<open>verifyservice/service.go\<close>: reading one table of
  one configured database as JSON.

  What the handler does to databases is recorded as a list of events. Connecting, querying and closing are the parameter
  \<open>raw_env\<close>, as are the quoting of SQL identifiers (the SQL library) and the JSON encoding of pgx values. The outer
  \<open>None\<close> of a result is a panic.
\<close>

section \<open>Requests, responses and errors\<close>

record raw_table_request =
  rqDatabase :: string
  rqSide :: string
  rqSchema :: string
  rqTable :: string

record raw_table_response =
  rsDatabase :: string
  rsSide :: string
  rsSchema :: string
  rsTable :: string
  rsColumns :: "string list"
  rsRows :: "(string \<rightharpoonup> json) list"

datatype raw_error =
    RawTableRequestError string
  | RawTableReadError string "go_error option"
  | RawOther go_error

primrec raw_Error :: "raw_error \<Rightarrow> string" where
  "raw_Error (RawTableRequestError m) = m"
| "raw_Error (RawTableReadError m cause) = m"
| "raw_Error (RawOther e) = err_Error e"

section \<open>Validation\<close>

definition side_Validate :: "string \<Rightarrow> go_error option" where
  "side_Validate d =
     (if d = ''source'' \<or> d = ''destination'' then None else Some (ErrMsg ''side must be one of: source, destination''))"

definition ident_start :: "char \<Rightarrow> bool" where
  "ident_start c \<longleftrightarrow> is_letter c \<or> c = CHR ''_''"

definition ident_char :: "char \<Rightarrow> bool" where
  "ident_char c \<longleftrightarrow> is_letter c \<or> is_digit c \<or> c = CHR ''_''"

definition rawTableIdentifierPattern :: "string \<Rightarrow> bool" where
  "rawTableIdentifierPattern s = (case s of [] \<Rightarrow> False | c # cs \<Rightarrow> ident_start c \<and> list_all ident_char cs)"

definition validateRawTableIdentifier :: "string \<Rightarrow> string \<Rightarrow> raw_error option" where
  "validateRawTableIdentifier fld val =
     (if rawTableIdentifierPattern val then None
      else Some (RawTableRequestError (fld @ '' must be a simple SQL identifier'')))"

definition raw_Validate :: "raw_table_request \<Rightarrow> raw_error option" where
  "raw_Validate r =
     (if rqDatabase r = [] then Some (RawTableRequestError ''database must be set'')
      else case side_Validate (rqSide r) of
        Some e \<Rightarrow> Some (RawTableRequestError (err_Error e))
      | None \<Rightarrow>
          (case validateRawTableIdentifier ''schema'' (rqSchema r) of
             Some e \<Rightarrow> Some e
           | None \<Rightarrow> validateRawTableIdentifier ''table'' (rqTable r)))"

section \<open>Reading\<close>

text \<open>The rows of a query: the field names, what \<open>Values()\<close> returns for each row, and \<open>Err()\<close> after the last.\<close>

record 'v raw_rows =
  rrFields :: "string list"
  rrValues :: "'v list result list"
  rrErr :: "go_error option"

record 'v raw_conn =
  rcIsPGConn :: bool
  rcTypeName :: string
  rcQuery :: "string \<Rightarrow> 'v raw_rows result"
  rcClose :: "go_error option"

record 'v raw_env =
  reConnect :: "string \<Rightarrow> string \<Rightarrow> 'v raw_conn result"
  reEscapeSQLIdent :: "string \<Rightarrow> string"
  reMarshal :: "'v \<Rightarrow> string result"
  reUnmarshal :: "string \<Rightarrow> json result"

datatype raw_event = Connect string string | Query string | CloseConn

definition connectionFor :: "os_env \<Rightarrow> verify_config \<Rightarrow> raw_table_request \<Rightarrow> raw_error + string \<times> string" where
  "connectionFor os cfg r =
     (case ResolveDatabase os cfg (rqDatabase r) of
        Inl e \<Rightarrow> Inl (RawTableRequestError (err_Error e))
      | Inr pair \<Rightarrow>
          (if rqSide r = ''source'' then Inr (ConnectionString (rdSource pair), ''source'')
           else if rqSide r = ''destination'' then Inr (ConnectionString (rdDestination pair), ''target'')
           else Inl (RawTableRequestError ''side must be one of: source, destination'')))"

definition normalizeRawTableValue :: "'v raw_env \<Rightarrow> string \<Rightarrow> 'v \<Rightarrow> raw_error + json" where
  "normalizeRawTableValue E column v =
     (case reMarshal E v of
        Inl e \<Rightarrow> Inl (RawTableReadError (''column '' @ column @ '' is not JSON representable'') (Some e))
      | Inr bytes \<Rightarrow>
          (case reUnmarshal E bytes of
             Inl e \<Rightarrow> Inl (RawTableReadError (''column '' @ column @ '' is not JSON representable'') (Some e))
           | Inr normalized \<Rightarrow> Inr normalized))"

fun normalize_columns ::
  "'v raw_env \<Rightarrow> string list \<Rightarrow> 'v list \<Rightarrow> (string \<rightharpoonup> json) \<Rightarrow> (raw_error + (string \<rightharpoonup> json)) option" where
  "normalize_columns E [] vals row = Some (Inr row)"
| "normalize_columns E (column # columns) [] row = None"
| "normalize_columns E (column # columns) (v # vals) row =
     (case normalizeRawTableValue E column v of
        Inl e \<Rightarrow> Some (Inl e)
      | Inr normalized \<Rightarrow> normalize_columns E columns vals (row(column \<mapsto> normalized)))"

definition normalizeRawTableRow ::
  "'v raw_env \<Rightarrow> string list \<Rightarrow> 'v list \<Rightarrow> (raw_error + (string \<rightharpoonup> json)) option" where
  "normalizeRawTableRow E columns vals = normalize_columns E columns vals Map.empty"

definition raw_place :: "raw_table_request \<Rightarrow> string" where
  "raw_place r = rqSchema r @ ''.'' @ rqTable r @ '' from '' @ rqSide r @ '' side on database '' @ rqDatabase r"

fun raw_rows_loop ::
  "'v raw_env \<Rightarrow> raw_table_request \<Rightarrow> string list \<Rightarrow> 'v list result list \<Rightarrow> (string \<rightharpoonup> json) list \<Rightarrow>
   (raw_error + (string \<rightharpoonup> json) list) option" where
  "raw_rows_loop E r columns [] acc = Some (Inr acc)"
| "raw_rows_loop E r columns (values # rest) acc =
     (case values of
        Inl e \<Rightarrow> Some (Inl (RawTableReadError (''read raw table row values for '' @ raw_place r) (Some e)))
      | Inr vs \<Rightarrow> do {
          row \<leftarrow> normalizeRawTableRow E columns vs;
          (case row of
             Inl e \<Rightarrow> Some (Inl e)
           | Inr m \<Rightarrow> raw_rows_loop E r columns rest (acc @ [m]))
        })"

definition raw_query :: "'v raw_env \<Rightarrow> raw_table_request \<Rightarrow> string" where
  "raw_query E r = ''SELECT * FROM '' @ reEscapeSQLIdent E (rqSchema r) @ ''.'' @ reEscapeSQLIdent E (rqTable r)"

definition raw_response :: "raw_table_request \<Rightarrow> string list \<Rightarrow> (string \<rightharpoonup> json) list \<Rightarrow> raw_table_response" where
  "raw_response r columns rows =
     \<lparr>rsDatabase = rqDatabase r, rsSide = rqSide r, rsSchema = rqSchema r, rsTable = rqTable r, rsColumns = columns, rsRows = rows\<rparr>"

text \<open>The body of \<open>ReadRawTable\<close> between opening and closing the connection.\<close>

definition read_on_connection ::
  "'v raw_env \<Rightarrow> raw_table_request \<Rightarrow> 'v raw_conn \<Rightarrow> (raw_event list \<times> (raw_error + raw_table_response)) option" where
  "read_on_connection E r conn =
     (if \<not> rcIsPGConn conn then
        Some ([], Inl (RawTableReadError (''raw table output requires postgres-compatible connection, got '' @ rcTypeName conn) None))
      else case rcQuery conn (raw_query E r) of
        Inl e \<Rightarrow> Some ([Query (raw_query E r)], Inl (RawTableReadError (''query raw table '' @ raw_place r) (Some e)))
      | Inr rows \<Rightarrow> do {
          rawRows \<leftarrow> raw_rows_loop E r (rrFields rows) (rrValues rows) [];
          Some ([Query (raw_query E r)],
            (case rawRows of
               Inl e \<Rightarrow> Inl e
             | Inr ms \<Rightarrow>
                 (case rrErr rows of
                    Some e \<Rightarrow> Inl (RawTableReadError (''iterate raw table rows for '' @ raw_place r) (Some e))
                  | None \<Rightarrow> Inr (raw_response r (rrFields rows) ms))))
        })"

text \<open>\<open>errors.CombineErrors\<close> in the deferred function keeps the first error and adds the second to it without changing its text or
  type; the error of \<open>Close\<close> is returned only when there was none.\<close>

definition combine_close :: "raw_error + raw_table_response \<Rightarrow> go_error option \<Rightarrow> raw_error + raw_table_response" where
  "combine_close r close =
     (case (r, close) of (Inr x, Some e) \<Rightarrow> Inl (RawOther e) | _ \<Rightarrow> r)"

definition ReadRawTable ::
  "os_env \<Rightarrow> 'v raw_env \<Rightarrow> verify_config \<Rightarrow> raw_table_request \<Rightarrow> (raw_event list \<times> (raw_error + raw_table_response)) option" where
  "ReadRawTable os E cfg r =
     (case raw_Validate r of
        Some e \<Rightarrow> Some ([], Inl e)
      | None \<Rightarrow>
          (case connectionFor os cfg r of
             Inl e \<Rightarrow> Some ([], Inl e)
           | Inr (connStr, preferredID) \<Rightarrow>
               (case reConnect E preferredID connStr of
                  Inl e \<Rightarrow>
                    Some ([Connect preferredID connStr],
                      Inl (RawTableReadError (''connect '' @ rqSide r @ '' side for raw table output on database '' @ rqDatabase r) (Some e)))
                | Inr conn \<Rightarrow> do {
                    (evs, res) \<leftarrow> read_on_connection E r conn;
                    Some (Connect preferredID connStr # evs @ [CloseConn], combine_close res (rcClose conn))
                  })))"

section \<open>The handler\<close>

text \<open>Decoding the request with unknown fields refused: the first type error or unknown field is remembered and returned at
  the end.\<close>

definition raw_type_error :: "string \<Rightarrow> string \<Rightarrow> json \<Rightarrow> go_error" where
  "raw_type_error fld typ j =
     ErrMsg (''json: cannot unmarshal '' @ json_kind j @ '' into Go struct field RawTableRequest.'' @ fld @ '' of type '' @ typ)"

definition set_raw_field :: "raw_table_request \<times> go_error option \<Rightarrow> string \<times> json \<Rightarrow> raw_table_request \<times> go_error option" where
  "set_raw_field st kv =
     (case st of (r, saved) \<Rightarrow>
        (let save = (\<lambda>e. case saved of Some e0 \<Rightarrow> Some e0 | None \<Rightarrow> Some e);
             set = (\<lambda>fld typ upd. case snd kv of
                 JString s \<Rightarrow> (upd s, saved) | JNull \<Rightarrow> (r, saved) | j \<Rightarrow> (r, save (raw_type_error fld typ j)))
         in if same_json_key (fst kv) ''database'' then set ''database'' ''string'' (\<lambda>s. r\<lparr>rqDatabase := s\<rparr>)
            else if same_json_key (fst kv) ''side'' then set ''side'' ''verifyservice.RawTableSide'' (\<lambda>s. r\<lparr>rqSide := s\<rparr>)
            else if same_json_key (fst kv) ''schema'' then set ''schema'' ''string'' (\<lambda>s. r\<lparr>rqSchema := s\<rparr>)
            else if same_json_key (fst kv) ''table'' then set ''table'' ''string'' (\<lambda>s. r\<lparr>rqTable := s\<rparr>)
            else (r, save (ErrMsg (''json: unknown field '' @ quoted (fst kv))))))"

definition empty_raw_request :: raw_table_request where
  "empty_raw_request = \<lparr>rqDatabase = [], rqSide = [], rqSchema = [], rqTable = []\<rparr>"

fun decode_RawTableRequest :: "json \<Rightarrow> raw_table_request result" where
  "decode_RawTableRequest (JObject kvs) =
     (case foldl set_raw_field (empty_raw_request, None) kvs of (r, Some e) \<Rightarrow> Inl e | (r, None) \<Rightarrow> Inr r)"
| "decode_RawTableRequest JNull = Inr empty_raw_request"
| "decode_RawTableRequest j =
     Inl (ErrMsg (''json: cannot unmarshal '' @ json_kind j @ '' into Go value of type verifyservice.RawTableRequest''))"

datatype raw_http_payload = RawTable raw_table_response | HttpPayload http_payload

definition http_only :: "http_response \<Rightarrow> nat \<times> raw_http_payload" where
  "http_only r = (fst r, HttpPayload (snd r))"

definition is_request_error :: "raw_error \<Rightarrow> bool" where
  "is_request_error e = (case e of RawTableRequestError m \<Rightarrow> True | _ \<Rightarrow> False)"

definition handlePostTablesRaw ::
  "os_env \<Rightarrow> (string \<Rightarrow> string result) \<Rightarrow> 'v raw_env \<Rightarrow> verify_config \<Rightarrow> decode_step \<times> decode_step \<Rightarrow>
   (raw_event list \<times> (nat \<times> raw_http_payload)) option" where
  "handlePostTablesRaw os san E cfg body =
     (if \<not> vcRawTableOutput cfg then Some ([], http_only (403, PError ''raw table output is disabled''))
      else case decodeJSONBody decode_RawTableRequest body of
        Inl err \<Rightarrow> Some ([], http_only (writeDecodeJSONError san err))
      | Inr request \<Rightarrow>
          (case raw_Validate request of
             Some e \<Rightarrow> Some ([], http_only (400, PError (raw_Error e)))
           | None \<Rightarrow> do {
               (evs, res) \<leftarrow> ReadRawTable os E cfg request;
               Some (evs,
                 (case res of
                    Inl e \<Rightarrow> http_only (if is_request_error e then 400 else 500, PError (raw_Error e))
                  | Inr response \<Rightarrow> (200, RawTable response)))
             }))"

end
