(* ===== verification/Raw_Properties.thy ===== *)
theory Raw_Properties
  imports Raw_Table Config_Properties
begin

text \<open>
  What the raw table endpoint guarantees: which databases a request can reach and with which statements, and that a
  successful answer has every row of the table.
\<close>

section \<open>What a request can reach\<close>

lemma read_on_connection_events:
  "read_on_connection E r conn = Some (evs, res) \<Longrightarrow> evs = [] \<or> evs = [Query (raw_query E r)]"
  by (auto simp: read_on_connection_def split: if_splits sum.splits bind_splits option.splits)

lemma raw_Validate_ok:
  "raw_Validate r = None \<Longrightarrow>
     rqDatabase r \<noteq> [] \<and> (rqSide r = ''source'' \<or> rqSide r = ''destination'') \<and>
     rawTableIdentifierPattern (rqSchema r) \<and> rawTableIdentifierPattern (rqTable r)"
  by (auto simp: raw_Validate_def side_Validate_def validateRawTableIdentifier_def split: if_splits option.splits)

definition raw_connect :: "resolved_database_pair \<Rightarrow> raw_table_request \<Rightarrow> raw_event" where
  "raw_connect pair r =
     (if rqSide r = ''source'' then Connect ''source'' (ConnectionString (rdSource pair))
      else Connect ''target'' (ConnectionString (rdDestination pair)))"

lemma connectionFor_ok:
  assumes "connectionFor os cfg r = Inr (connStr, preferredID)"
  shows "\<exists>pair. ResolveDatabase os cfg (rqDatabase r) = Inr pair \<and> Connect preferredID connStr = raw_connect pair r"
  using assms by (auto simp: connectionFor_def raw_connect_def split: sum.splits if_splits)

lemma ReadRawTable_events:
  assumes "ReadRawTable os E cfg r = Some (evs, res)" and "evs \<noteq> []"
  shows "\<exists>pair. raw_Validate r = None \<and> ResolveDatabase os cfg (rqDatabase r) = Inr pair \<and>
    (evs = [raw_connect pair r] \<or> evs = [raw_connect pair r, CloseConn] \<or>
     evs = [raw_connect pair r, Query (raw_query E r), CloseConn])"
proof -
  from assms obtain connStr preferredID where v: "raw_Validate r = None"
    and c: "connectionFor os cfg r = Inr (connStr, preferredID)"
    by (auto simp: ReadRawTable_def split: option.splits sum.splits)
  from connectionFor_ok [OF c] obtain pair where p: "ResolveDatabase os cfg (rqDatabase r) = Inr pair"
    and e: "Connect preferredID connStr = raw_connect pair r" by blast
  show ?thesis
  proof (cases "reConnect E preferredID connStr")
    case (Inl err)
    then show ?thesis using assms v c p e by (simp add: ReadRawTable_def)
  next
    case (Inr conn)
    then obtain evs' res' where "read_on_connection E r conn = Some (evs', res')"
      and evs: "evs = Connect preferredID connStr # evs' @ [CloseConn]"
      using assms v c by (auto simp: ReadRawTable_def split: bind_splits)
    then show ?thesis using read_on_connection_events v p e by fastforce
  qed
qed

text \<open>C18: a request for a raw table reaches nothing but the table it names. Whatever the body is, no database is contacted unless raw
  output is enabled and the body decodes to a valid request for a configured database; then exactly one connection is opened, to the
  configured side, at most one statement is sent, a SELECT of all columns of a schema and table whose names are letters, digits
  and underscores only, and an opened connection is closed.\<close>

theorem raw_table_access_confined:
  assumes "handlePostTablesRaw os san E cfg body = Some (evs, response)" and "evs \<noteq> []"
  shows "\<exists>r pair. vcRawTableOutput cfg \<and> decodeJSONBody decode_RawTableRequest body = Inr r \<and>
    ResolveDatabase os cfg (rqDatabase r) = Inr pair \<and> (rqSide r = ''source'' \<or> rqSide r = ''destination'') \<and>
    rawTableIdentifierPattern (rqSchema r) \<and> rawTableIdentifierPattern (rqTable r) \<and>
    (evs = [raw_connect pair r] \<or> evs = [raw_connect pair r, CloseConn] \<or>
     evs = [raw_connect pair r,
            Query (''SELECT * FROM '' @ reEscapeSQLIdent E (rqSchema r) @ ''.'' @ reEscapeSQLIdent E (rqTable r)), CloseConn])"
proof -
  from assms obtain r res where r: "vcRawTableOutput cfg" "decodeJSONBody decode_RawTableRequest body = Inr r"
    and read: "ReadRawTable os E cfg r = Some (evs, res)"
    by (auto simp: handlePostTablesRaw_def split: if_splits sum.splits option.splits bind_splits)
  from ReadRawTable_events [OF read assms(2)] show ?thesis
    using r raw_Validate_ok [of r] by (auto simp: raw_query_def)
qed

text \<open>An example: a database \<open>main\<close> whose table \<open>public.t\<close> has two rows of a column \<open>id\<close>; values are numbers in decimal.\<close>

definition raw_config :: verify_config where
  "raw_config = (cfgVerify example_config)\<lparr>vcRawTableOutput := True\<rparr>"

definition raw_demo :: "nat raw_env" where
  "raw_demo =
     \<lparr>reConnect = (\<lambda>i c. Inr \<lparr>rcIsPGConn = True, rcTypeName = ''*dbconn.PGConn'',
        rcQuery = (\<lambda>q. Inr \<lparr>rrFields = [''id''], rrValues = map Inr [[1], [2]], rrErr = None\<rparr>), rcClose = None\<rparr>),
      reEscapeSQLIdent = (\<lambda>s. CHR 0x22 # s @ [CHR 0x22]), reMarshal = (\<lambda>v. Inr (Itoa v)), reUnmarshal = (\<lambda>s. Inr (JNumber s))\<rparr>"

definition raw_body :: "decode_step \<times> decode_step" where
  "raw_body = (DecValue (JObject [(''database'', JString ''main''), (''side'', JString ''source''),
     (''schema'', JString ''public''), (''table'', JString ''t'')]), DecEOF)"

definition raw_demo_request :: raw_table_request where
  "raw_demo_request = \<lparr>rqDatabase = ''main'', rqSide = ''source'', rqSchema = ''public'', rqTable = ''t''\<rparr>"

lemma raw_demo_accepted:
  "vcRawTableOutput raw_config" "decodeJSONBody decode_RawTableRequest raw_body = Inr raw_demo_request"
  "raw_Validate raw_demo_request = None"
  by code_simp+

lemma raw_demo_resolves: "\<exists>pair. ResolveDatabase example_env raw_config (rqDatabase raw_demo_request) = Inr pair"
proof -
  have "isl (ResolveDatabase example_env raw_config (rqDatabase raw_demo_request)) = False" by code_simp
  then show ?thesis by (cases "ResolveDatabase example_env raw_config (rqDatabase raw_demo_request)") auto
qed

lemma raw_demo_events:
  "\<exists>evs response. handlePostTablesRaw example_env Inr raw_demo raw_config raw_body = Some (evs, response) \<and> length evs = 3"
proof -
  from raw_demo_resolves obtain pair where "ResolveDatabase example_env raw_config (rqDatabase raw_demo_request) = Inr pair" by blast
  then show ?thesis using raw_demo_accepted
    by (simp add: handlePostTablesRaw_def ReadRawTable_def connectionFor_def read_on_connection_def raw_demo_request_def raw_demo_def
        normalizeRawTableRow_def normalizeRawTableValue_def)
qed

theorem raw_table_access_confined_witness:
  "\<exists>evs response pair. handlePostTablesRaw example_env Inr raw_demo raw_config raw_body = Some (evs, response) \<and> length evs = 3 \<and>
    ResolveDatabase example_env raw_config ''main'' = Inr pair \<and> hd evs = Connect ''source'' (ConnectionString (rdSource pair))"
proof -
  from raw_demo_events obtain evs response
    where h: "handlePostTablesRaw example_env Inr raw_demo raw_config raw_body = Some (evs, response)" and l: "length evs = 3" by blast
  then have "evs \<noteq> []" by auto
  from raw_table_access_confined [OF h this] show ?thesis
    using h l raw_demo_accepted(2) by (auto simp: raw_connect_def raw_demo_request_def)
qed

section \<open>What a request returns\<close>

definition json_of_value :: "'v raw_env \<Rightarrow> 'v \<Rightarrow> json option" where
  "json_of_value E v =
     (case reMarshal E v of Inl e \<Rightarrow> None | Inr bytes \<Rightarrow> (case reUnmarshal E bytes of Inl e \<Rightarrow> None | Inr j \<Rightarrow> Some j))"

lemma normalize_columns_ok:
  assumes "length vals = length columns" and "\<forall>v \<in> set vals. json_of_value E v \<noteq> None"
    and "distinct columns" and "dom row \<inter> set columns = {}"
  shows "normalize_columns E columns vals row = Some (Inr (row ++ map_of (zip columns (map (\<lambda>v. the (json_of_value E v)) vals))))"
  using assms
proof (induction columns arbitrary: vals row)
  case (Cons column columns)
  then obtain v vs where vals: "vals = v # vs" by (cases vals) auto
  then obtain j where j: "json_of_value E v = Some j" using Cons.prems(2) by auto
  then have n: "normalizeRawTableValue E column v = Inr j"
    by (auto simp: json_of_value_def normalizeRawTableValue_def split: sum.splits)
  have d: "dom (row(column \<mapsto> j)) \<inter> set columns = {}" using Cons.prems(3,4) by auto
  have "normalize_columns E columns vs (row(column \<mapsto> j)) =
      Some (Inr (row(column \<mapsto> j) ++ map_of (zip columns (map (\<lambda>v. the (json_of_value E v)) vs))))"
    by (rule Cons.IH [OF _ _ _ d]) (use Cons.prems(1-3) vals in auto)
  moreover have "column \<notin> dom (map_of (zip columns (map (\<lambda>v. the (json_of_value E v)) vs)))"
    using Cons.prems(1,3) vals by (simp add: dom_map_of_zip)
  ultimately show ?case using n j vals by (auto simp: map_add_def fun_eq_iff split: option.splits)
qed simp

lemma raw_rows_loop_ok:
  assumes "\<forall>vs \<in> set rows. length vs = length columns \<and> (\<forall>v \<in> set vs. json_of_value E v \<noteq> None)" and "distinct columns"
  shows "raw_rows_loop E r columns (map Inr rows) acc =
    Some (Inr (acc @ map (\<lambda>vs. map_of (zip columns (map (\<lambda>v. the (json_of_value E v)) vs))) rows))"
  using assms
proof (induction rows arbitrary: acc)
  case (Cons vs rows)
  then have "normalizeRawTableRow E columns vs = Some (Inr (map_of (zip columns (map (\<lambda>v. the (json_of_value E v)) vs))))"
    using normalize_columns_ok [of vs columns E Map.empty] by (simp add: normalizeRawTableRow_def)
  then show ?case using Cons by simp
qed simp

text \<open>C36: a valid request that can be served returns the whole table. When the side of the database is reachable, the query and every
  row succeed and the values have a JSON form, the answer is 200 with the columns of the table and, for every row in order, the
  object that maps each column to the JSON form of its value.\<close>

theorem raw_table_returns_rows:
  assumes "vcRawTableOutput cfg" and "decodeJSONBody decode_RawTableRequest body = Inr r" and "raw_Validate r = None"
    and "ResolveDatabase os cfg (rqDatabase r) = Inr pair"
    and "raw_connect pair r = Connect preferredID connStr" and "reConnect E preferredID connStr = Inr conn"
    and "rcIsPGConn conn" and "rcClose conn = None"
    and "rcQuery conn (raw_query E r) = Inr \<lparr>rrFields = columns, rrValues = map Inr rows, rrErr = None\<rparr>"
    and "distinct columns" and "\<forall>vs \<in> set rows. length vs = length columns \<and> (\<forall>v \<in> set vs. json_of_value E v \<noteq> None)"
  shows "handlePostTablesRaw os san E cfg body =
    Some ([raw_connect pair r, Query (raw_query E r), CloseConn],
      (200, RawTable (raw_response r columns (map (\<lambda>vs. map_of (zip columns (map (\<lambda>v. the (json_of_value E v)) vs))) rows))))"
proof -
  have "connectionFor os cfg r = Inr (connStr, preferredID)"
    using assms(4,5) raw_Validate_ok [OF assms(3)] by (auto simp: connectionFor_def raw_connect_def split: if_splits)
  moreover have "read_on_connection E r conn = Some ([Query (raw_query E r)],
      Inr (raw_response r columns (map (\<lambda>vs. map_of (zip columns (map (\<lambda>v. the (json_of_value E v)) vs))) rows)))"
    using assms(7,9) raw_rows_loop_ok [OF assms(11,10), of r "[]"] by (simp add: read_on_connection_def)
  ultimately have "ReadRawTable os E cfg r = Some ([raw_connect pair r, Query (raw_query E r), CloseConn],
      Inr (raw_response r columns (map (\<lambda>vs. map_of (zip columns (map (\<lambda>v. the (json_of_value E v)) vs))) rows)))"
    using assms(3,5,6,8) by (simp add: ReadRawTable_def combine_close_def)
  then show ?thesis using assms(1-3) by (simp add: handlePostTablesRaw_def)
qed

theorem raw_table_returns_rows_witness:
  "\<exists>evs m1 m2. handlePostTablesRaw example_env Inr raw_demo raw_config raw_body =
     Some (evs, (200, RawTable \<lparr>rsDatabase = ''main'', rsSide = ''source'', rsSchema = ''public'', rsTable = ''t'',
       rsColumns = [''id''], rsRows = [m1, m2]\<rparr>)) \<and> m1 ''id'' = Some (JNumber ''1'') \<and> m2 ''id'' = Some (JNumber ''2'')"
proof -
  from raw_demo_resolves obtain pair where p: "ResolveDatabase example_env raw_config (rqDatabase raw_demo_request) = Inr pair" by blast
  have c: "raw_connect pair raw_demo_request = Connect ''source'' (ConnectionString (rdSource pair))"
    by (simp add: raw_connect_def raw_demo_request_def)
  have js: "json_of_value raw_demo v = Some (JNumber (Itoa v))" for v by (simp add: json_of_value_def raw_demo_def)
  obtain evs where "handlePostTablesRaw example_env Inr raw_demo raw_config raw_body =
    Some (evs, (200, RawTable (raw_response raw_demo_request [''id'']
      (map (\<lambda>vs. map_of (zip [''id''] (map (\<lambda>v. the (json_of_value raw_demo v)) vs))) [[1], [2]]))))"
    by (rule that, rule raw_table_returns_rows [OF raw_demo_accepted p c, where conn = "\<lparr>rcIsPGConn = True, rcTypeName = ''*dbconn.PGConn'',
        rcQuery = (\<lambda>q. Inr \<lparr>rrFields = [''id''], rrValues = map Inr [[1], [2]], rrErr = None\<rparr>), rcClose = None\<rparr>"])
      (auto simp: raw_demo_def json_of_value_def)
  moreover have "Itoa 1 = ''1''" "Itoa 2 = ''2''" by code_simp+
  ultimately show ?thesis
    by (intro exI [of _ evs] exI [of _ "[''id'' \<mapsto> JNumber ''1'']"] exI [of _ "[''id'' \<mapsto> JNumber ''2'']"])
      (simp add: js raw_response_def raw_demo_request_def)
qed

end
