(* ===== verification/Runtime.thy ===== *)
theory Runtime
  imports Service_Properties Example_Db
begin

text \<open>
  \<open>verifyservice/runtime.go\<close>: the process that serves the API. \<open>Run\<close> creates the service, starts a goroutine that waits for the
  context to be cancelled and then shuts the server down, serves requests, and returns when the server stops.

  The two goroutines and the service they share are a step relation; a step of the service (a request, a step of
  a job's goroutine, the call of a cancel function) may happen between any two of them. The listener, certificates and
  files are parameters. As documented for \<open>net/http\<close>, \<open>ListenAndServe\<close> returns \<open>ErrServerClosed\<close> as soon as \<open>Shutdown\<close> is called.
\<close>

section \<open>The TLS configuration of the listener\<close>

datatype client_auth = NoClientCert | RequireAndVerifyClientCert

record 'c tls_config =
  tcMinVersion :: nat
  tcCertificates :: "'c list"
  tcClientAuth :: client_auth
  tcClientCAs :: "string option"

record 'c tls_lib =
  tlLoadX509KeyPair :: "string \<Rightarrow> string \<Rightarrow> 'c result"
  tlReadFile :: "string \<Rightarrow> string result"
  tlAppendCertsFromPEM :: "string \<Rightarrow> bool"

text \<open>Version 1.2 of TLS is number 771.\<close>

definition ServerTLSConfig :: "'c tls_lib \<Rightarrow> listener_tls_config \<Rightarrow> 'c tls_config result" where
  "ServerTLSConfig L cfg =
     (case tlLoadX509KeyPair L (ltCertPath cfg) (ltKeyPath cfg) of
        Inl e \<Rightarrow> Inl e
      | Inr cert \<Rightarrow>
          (let base = \<lparr>tcMinVersion = 771, tcCertificates = [cert], tcClientAuth = NoClientCert, tcClientCAs = None\<rparr>
           in if ltClientCAPath cfg = [] then Inr base
              else case tlReadFile L (ltClientCAPath cfg) of
                Inl e \<Rightarrow> Inl e
              | Inr contents \<Rightarrow>
                  (if \<not> tlAppendCertsFromPEM L contents then Inl (ErrMsg ''parse client ca certificate'')
                   else Inr (base\<lparr>tcClientAuth := RequireAndVerifyClientCert, tcClientCAs := Some contents\<rparr>))))"

section \<open>Run\<close>

datatype serve_error = ErrServerClosed | ServeError go_error

datatype main_phase =
    Starting
  | Serving
  | ListenerStopped serve_error
  | Deferred "nat list" "go_error option"
  | RunReturned "go_error option"

datatype helper_phase = AwaitCancel | ServiceClosed | ShuttingDown | Sent "go_error option"

record run_state =
  rtService :: service
  rtCtxDone :: bool
  rtMain :: main_phase
  rtHelper :: helper_phase

definition startup_error :: "string \<Rightarrow> string \<Rightarrow> go_error \<Rightarrow> go_error" where
  "startup_error code message e =
     ErrOperator (newOperatorError ''startup'' code message [OperatorErrorDetail [] (err_Error e)])"

definition listen_setup :: "'c tls_lib \<Rightarrow> config \<Rightarrow> go_error option" where
  "listen_setup L cfg =
     (case lcTLS (cfgListener cfg) of
        None \<Rightarrow> None
      | Some t \<Rightarrow>
          (case ServerTLSConfig L t of
             Inl e \<Rightarrow> Some (startup_error ''listener_tls_setup_failed'' ''verify-service listener TLS setup failed'' e)
           | Inr c \<Rightarrow> None))"

text \<open>The result after the listener stopped: the error of \<open>Shutdown\<close> if it is already in the channel.\<close>

definition run_result :: "serve_error \<Rightarrow> helper_phase \<Rightarrow> go_error option" where
  "run_result err h =
     (case err of
        ServeError e \<Rightarrow> Some (startup_error ''listener_start_failed'' ''verify-service listener failed to start'' e)
      | ErrServerClosed \<Rightarrow> (case h of Sent shutdownErr \<Rightarrow> shutdownErr | _ \<Rightarrow> None))"

text \<open>The deferred \<open>service.Close()\<close> calls the cancel functions of the jobs active at that moment, then \<open>Run\<close> returns.\<close>

definition enter_deferred :: "go_error option \<Rightarrow> run_state \<Rightarrow> run_state" where
  "enter_deferred r st =
     st\<lparr>rtService := service_Close (rtService st), rtMain := Deferred (activeCancels (svStore (rtService st))) r\<rparr>"

definition run_start :: "config \<Rightarrow> run_state" where
  "run_start cfg = \<lparr>rtService = NewService (cfgVerify cfg), rtCtxDone = False, rtMain = Starting, rtHelper = AwaitCancel\<rparr>"

inductive run_step :: "'d datum_ops \<Rightarrow> 'c tls_lib \<Rightarrow> config \<Rightarrow> run_state \<Rightarrow> run_state \<Rightarrow> bool" for D L cfg where
  listen: "rtMain st = Starting \<Longrightarrow> listen_setup L cfg = None \<Longrightarrow> run_step D L cfg st (st\<lparr>rtMain := Serving\<rparr>)"
| listen_failed: "rtMain st = Starting \<Longrightarrow> listen_setup L cfg = Some e \<Longrightarrow> run_step D L cfg st (enter_deferred (Some e) st)"
| ctx_cancel: "run_step D L cfg st (st\<lparr>rtCtxDone := True\<rparr>)"
| helper_close: "rtHelper st = AwaitCancel \<Longrightarrow> rtCtxDone st \<Longrightarrow>
    run_step D L cfg st (st\<lparr>rtService := service_Close (rtService st), rtHelper := ServiceClosed\<rparr>)"
| helper_shutdown: "rtHelper st = ServiceClosed \<Longrightarrow> run_step D L cfg st (st\<lparr>rtHelper := ShuttingDown\<rparr>)"
| helper_send: "rtHelper st = ShuttingDown \<Longrightarrow> run_step D L cfg st (st\<lparr>rtHelper := Sent e\<rparr>)"
| server_closed: "rtMain st = Serving \<Longrightarrow> rtHelper st = ShuttingDown \<or> rtHelper st = Sent e \<Longrightarrow>
    run_step D L cfg st (st\<lparr>rtMain := ListenerStopped ErrServerClosed\<rparr>)"
| server_failed: "rtMain st = Serving \<Longrightarrow> run_step D L cfg st (st\<lparr>rtMain := ListenerStopped (ServeError err)\<rparr>)"
| select: "rtMain st = ListenerStopped err \<Longrightarrow> run_step D L cfg st (enter_deferred (run_result err (rtHelper st)) st)"
| finish: "rtMain st = Deferred cancels r \<Longrightarrow> \<forall>c \<in> set cancels. svCancelled (rtService st) c \<Longrightarrow>
    run_step D L cfg st (st\<lparr>rtMain := RunReturned r\<rparr>)"
| serve: "rtMain st \<noteq> Starting \<Longrightarrow> service_step D (rtService st) s' \<Longrightarrow> run_step D L cfg st (st\<lparr>rtService := s'\<rparr>)"

abbreviation run_steps :: "'d datum_ops \<Rightarrow> 'c tls_lib \<Rightarrow> config \<Rightarrow> run_state \<Rightarrow> run_state \<Rightarrow> bool" where
  "run_steps D L cfg \<equiv> (run_step D L cfg)\<^sup>*\<^sup>*"

section \<open>What every reachable state satisfies\<close>

text \<open>A cancel function that is to be called stays so until it is called.\<close>

definition handed_on :: "service \<Rightarrow> nat \<Rightarrow> bool" where
  "handed_on s c \<longleftrightarrow> svCancelled s c \<or> c \<in> set (svPending s)"

lemma handed_on_step:
  assumes "service_step D s s'" and "handed_on s c"
  shows "handed_on s' c"
  using assms
proof cases
  case (cancel ctx)
  then show ?thesis using assms(2) by (cases "c = ctx") (auto simp: handed_on_def call_cancel_def)
qed (auto simp: handed_on_def handlePostJobs_def startJob_def handlePostJobStop_def service_Close_def head_at_def return_at_def
    report_at_def Let_def split: sum.splits prod.splits if_splits)

lemma handed_on_Close: "handed_on s c \<Longrightarrow> handed_on (service_Close s) c" "c \<in> set (activeCancels (svStore s)) \<Longrightarrow> handed_on (service_Close s) c"
  by (auto simp: handed_on_def service_Close_def)

definition stopping :: "helper_phase \<Rightarrow> bool" where
  "stopping h \<longleftrightarrow> (case h of ShuttingDown \<Rightarrow> True | Sent e \<Rightarrow> True | _ \<Rightarrow> False)"

definition result_ok :: "'c tls_lib \<Rightarrow> config \<Rightarrow> helper_phase \<Rightarrow> go_error option \<Rightarrow> bool" where
  "result_ok L cfg h r \<longleftrightarrow>
     (case r of
        None \<Rightarrow> stopping h
      | Some e \<Rightarrow> listen_setup L cfg = Some e \<or>
          (\<exists>err. e = startup_error ''listener_start_failed'' ''verify-service listener failed to start'' err) \<or> h = Sent (Some e))"

definition run_inv :: "'d datum_ops \<Rightarrow> 'c tls_lib \<Rightarrow> config \<Rightarrow> run_state \<Rightarrow> bool" where
  "run_inv D L cfg st \<longleftrightarrow>
     service_run D (NewService (cfgVerify cfg)) (rtService st) \<and> (rtHelper st \<noteq> AwaitCancel \<longrightarrow> rtCtxDone st) \<and>
     (case rtMain st of
        Starting \<Rightarrow> True
      | Serving \<Rightarrow> True
      | ListenerStopped err \<Rightarrow> err = ErrServerClosed \<longrightarrow> stopping (rtHelper st)
      | Deferred cancels r \<Rightarrow> result_ok L cfg (rtHelper st) r \<and> (\<forall>c \<in> set cancels. handed_on (rtService st) c)
      | RunReturned r \<Rightarrow> result_ok L cfg (rtHelper st) r)"

lemma service_run_Close: "service_run D s0 s \<Longrightarrow> service_run D s0 (service_Close s)"
  by (erule rtranclp.rtrancl_into_rtrancl) (rule service_step.close)

lemma run_inv_start: "run_inv D L cfg (run_start cfg)"
  by (simp add: run_inv_def run_start_def)

lemma run_inv_deferred:
  assumes "run_inv D L cfg st" and "result_ok L cfg (rtHelper st) r"
  shows "run_inv D L cfg (enter_deferred r st)"
  using assms by (auto simp: run_inv_def enter_deferred_def service_run_Close handed_on_Close)

lemma run_result_ok:
  assumes "err = ErrServerClosed \<longrightarrow> stopping h"
  shows "result_ok L cfg h (run_result err h)"
  using assms by (cases h) (auto simp: result_ok_def run_result_def stopping_def split: serve_error.splits option.splits)

lemma run_inv_step:
  assumes "run_step D L cfg st st'" and "run_inv D L cfg st"
  shows "run_inv D L cfg st'"
  using assms
proof (cases rule: run_step.cases)
  case (listen_failed e)
  then show ?thesis using assms(2) by (auto intro!: run_inv_deferred simp: result_ok_def)
next
  case (select err)
  then have "err = ErrServerClosed \<longrightarrow> stopping (rtHelper st)" using assms(2) by (simp add: run_inv_def)
  then show ?thesis using select assms(2) by (auto intro!: run_inv_deferred run_result_ok)
next
  case helper_close
  then show ?thesis using assms(2)
    by (auto simp: run_inv_def service_run_Close handed_on_Close result_ok_def stopping_def split: main_phase.splits option.splits)
next
  case (helper_send e)
  then show ?thesis using assms(2) by (auto simp: run_inv_def result_ok_def stopping_def split: main_phase.splits option.splits)
next
  case (serve s')
  then show ?thesis using assms(2) handed_on_step [OF serve(3)]
    by (auto simp: run_inv_def split: main_phase.splits intro: rtranclp.rtrancl_into_rtrancl)
qed (auto simp: run_inv_def result_ok_def stopping_def split: main_phase.splits option.splits)

lemma run_inv_reachable: "run_steps D L cfg (run_start cfg) st \<Longrightarrow> run_inv D L cfg st"
  by (induction rule: rtranclp_induct) (auto intro: run_inv_start run_inv_step)

section \<open>How Run ends\<close>

text \<open>C15: the process does nothing to its jobs but what requests and job goroutines do, and it ends for a known reason. Every state of the
  service in a run of the process is reachable by steps of the service alone. \<open>Run\<close> returns nil only after its context was cancelled
  and the server told to shut down; any error is that of the TLS set-up, of the listener, or the one \<open>Shutdown\<close>
  returned, and without a cancellation it is an operator error of category \<open>startup\<close>.\<close>

theorem run_outcome:
  assumes "run_steps D L cfg (run_start cfg) st"
  shows "service_run D (NewService (cfgVerify cfg)) (rtService st) \<and>
    (rtMain st = RunReturned None \<longrightarrow> rtCtxDone st \<and> stopping (rtHelper st)) \<and>
    (\<forall>e. rtMain st = RunReturned (Some e) \<longrightarrow> listen_setup L cfg = Some e \<or>
       (\<exists>err. e = startup_error ''listener_start_failed'' ''verify-service listener failed to start'' err) \<or>
       rtHelper st = Sent (Some e)) \<and>
    (\<forall>r. rtMain st = RunReturned r \<longrightarrow> \<not> rtCtxDone st \<longrightarrow>
       (\<exists>e oe. r = Some e \<and> errors_As_operator e = Some oe \<and> oeCategory oe = ''startup''))"
proof -
  have inv: "run_inv D L cfg st" using run_inv_reachable [OF assms] .
  have "\<exists>e oe. r = Some e \<and> errors_As_operator e = Some oe \<and> oeCategory oe = ''startup''"
    if ret: "rtMain st = RunReturned r" and nd: "\<not> rtCtxDone st" for r
  proof -
    have h: "rtHelper st = AwaitCancel" and ok: "result_ok L cfg AwaitCancel r"
      using inv ret nd by (auto simp: run_inv_def)
    have "\<exists>code msg err. r = Some (startup_error code msg err)"
      using ok by (auto simp: result_ok_def stopping_def listen_setup_def split: option.splits sum.splits)
    then show ?thesis by (auto simp: startup_error_def newOperatorError_def)
  qed
  then show ?thesis using inv
    by (auto simp: run_inv_def result_ok_def stopping_def split: main_phase.splits option.splits)
qed

text \<open>The steps the process takes by itself: the context is not cancelled by them and the listener does not
  fail, so that what they reach needs neither an outside signal nor an error.\<close>

definition own_step :: "'d datum_ops \<Rightarrow> 'c tls_lib \<Rightarrow> config \<Rightarrow> run_state \<Rightarrow> run_state \<Rightarrow> bool" where
  "own_step D L cfg st st' \<longleftrightarrow> run_step D L cfg st st' \<and> rtCtxDone st' = rtCtxDone st \<and>
     (\<forall>e. rtMain st = Serving \<longrightarrow> rtMain st' \<noteq> ListenerStopped (ServeError e))"

abbreviation own_steps :: "'d datum_ops \<Rightarrow> 'c tls_lib \<Rightarrow> config \<Rightarrow> run_state \<Rightarrow> run_state \<Rightarrow> bool" where
  "own_steps D L cfg \<equiv> (own_step D L cfg)\<^sup>*\<^sup>*"

lemma own_step_inv: "own_step D L cfg st st' \<Longrightarrow> run_inv D L cfg st \<Longrightarrow> run_inv D L cfg st'"
  by (auto simp: own_step_def intro: run_inv_step)

lemma own_steps_inv: "own_steps D L cfg st st' \<Longrightarrow> run_inv D L cfg st \<Longrightarrow> run_inv D L cfg st'"
  by (induction rule: rtranclp_induct) (auto intro: own_step_inv)

text \<open>Steps of the service are steps of the process, and the cancel functions that are handed on can all be called.\<close>

lemma own_steps_service:
  assumes "service_run D s s'" and "rtMain st \<noteq> Starting" and "rtService st = s"
  shows "own_steps D L cfg st (st\<lparr>rtService := s'\<rparr>)"
  using assms(1)
proof (induction rule: rtranclp_induct)
  case base
  show ?case using assms(3) by (cases st) simp
next
  case (step y z)
  have "run_step D L cfg (st\<lparr>rtService := y\<rparr>) (st\<lparr>rtService := y\<rparr>\<lparr>rtService := z\<rparr>)"
    by (rule run_step.serve) (use assms(2) step(2) in auto)
  then have "own_step D L cfg (st\<lparr>rtService := y\<rparr>) (st\<lparr>rtService := z\<rparr>)" by (simp add: own_step_def)
  then show ?case using step.IH by (simp add: rtranclp.rtrancl_into_rtrancl)
qed

lemma cancels_can_be_called:
  assumes "\<forall>c \<in> set cs. handed_on s c"
  shows "\<exists>s'. service_run D s s' \<and> (\<forall>c \<in> set cs. svCancelled s' c)"
  using assms
proof (induction cs arbitrary: s)
  case (Cons c cs)
  define s1 where "s1 = (if svCancelled s c then s else call_cancel c s)"
  have one: "service_run D s s1" using Cons.prems by (auto simp: s1_def handed_on_def intro: service_step.cancel)
  have "svCancelled s1 c" by (simp add: s1_def call_cancel_def)
  then have "handed_on s1 x" if "x \<in> set (c # cs)" for x
    using Cons.prems that by (auto simp: s1_def handed_on_def call_cancel_def)
  then obtain s' where s': "service_run D s1 s'" "\<forall>x \<in> set cs. svCancelled s' x" using Cons.IH [of s1] by auto
  have "svCancelled s' c" using s'(1) \<open>svCancelled s1 c\<close>
  proof (induction rule: rtranclp_induct)
    case (step y z)
    from step(2) show ?case
    proof cases
      case (cancel ctx)
      then show ?thesis using step by (simp add: call_cancel_def)
    qed (use step in \<open>auto simp: handlePostJobs_def startJob_def handlePostJobStop_def service_Close_def head_at_def
        return_at_def report_at_def Let_def split: sum.splits prod.splits if_splits\<close>)
  qed
  then show ?case using one s' by (auto intro: rtranclp_trans)
qed auto

text \<open>The process can return by itself, the helper goroutine staying where it is.\<close>

definition returns :: "'d datum_ops \<Rightarrow> 'c tls_lib \<Rightarrow> config \<Rightarrow> run_state \<Rightarrow> bool" where
  "returns D L cfg st \<longleftrightarrow>
     (\<exists>st' r. own_steps D L cfg st st' \<and> rtMain st' = RunReturned r \<and> rtHelper st' = rtHelper st)"

lemma returns_step: "own_step D L cfg st u \<Longrightarrow> rtHelper u = rtHelper st \<Longrightarrow> returns D L cfg u \<Longrightarrow> returns D L cfg st"
  unfolding returns_def by (metis converse_rtranclp_into_rtranclp)

lemma deferred_returns:
  assumes "rtMain st = Deferred cancels r" and "run_inv D L cfg st"
  shows "returns D L cfg st"
proof -
  have "\<forall>c \<in> set cancels. handed_on (rtService st) c" using assms by (simp add: run_inv_def)
  from cancels_can_be_called [OF this, of D] obtain s' where s': "service_run D (rtService st) s'" "\<forall>c \<in> set cancels. svCancelled s' c"
    by blast
  let ?u = "st\<lparr>rtService := s'\<rparr>"
  have u: "own_steps D L cfg st ?u" by (rule own_steps_service [OF s'(1)]) (use assms(1) in auto)
  have "run_step D L cfg ?u (?u\<lparr>rtMain := RunReturned r\<rparr>)"
    by (rule run_step.finish [of _ cancels]) (use assms(1) s'(2) in auto)
  then have "own_step D L cfg ?u (?u\<lparr>rtMain := RunReturned r\<rparr>)" by (simp add: own_step_def)
  with u have "own_steps D L cfg st (?u\<lparr>rtMain := RunReturned r\<rparr>)" by (rule rtranclp.rtrancl_into_rtrancl)
  then show ?thesis unfolding returns_def
    by (intro exI [of _ "?u\<lparr>rtMain := RunReturned r\<rparr>"] exI [of _ r]) simp
qed

lemma stopped_returns:
  assumes "rtMain st = ListenerStopped err" and "run_inv D L cfg st"
  shows "returns D L cfg st"
proof -
  let ?u = "enter_deferred (run_result err (rtHelper st)) st"
  have s: "own_step D L cfg st ?u"
    using run_step.select [OF assms(1), of D L cfg] assms(1) by (simp add: own_step_def enter_deferred_def)
  have "returns D L cfg ?u"
    by (rule deferred_returns [OF _ own_step_inv [OF s assms(2)]]) (simp add: enter_deferred_def)
  with s show ?thesis by (intro returns_step [of D L cfg st ?u]) (simp_all add: enter_deferred_def)
qed

text \<open>After a cancellation the helper goroutine, and nothing else, brings the server to its shutdown.\<close>

lemma helper_shuts_down:
  assumes "rtCtxDone st"
  shows "\<exists>st'. own_steps D L cfg st st' \<and> rtMain st' = rtMain st \<and> stopping (rtHelper st')"
proof -
  have c: "\<exists>st'. own_steps D L cfg u st' \<and> rtMain st' = rtMain u \<and> stopping (rtHelper st')"
    if "rtHelper u = ServiceClosed" for u
  proof -
    have "own_step D L cfg u (u\<lparr>rtHelper := ShuttingDown\<rparr>)"
      using run_step.helper_shutdown [OF that, of D L cfg] by (simp add: own_step_def)
    then show ?thesis by (intro exI [of _ "u\<lparr>rtHelper := ShuttingDown\<rparr>"]) (auto simp: stopping_def)
  qed
  show ?thesis
  proof (cases "rtHelper st")
    case AwaitCancel
    let ?u = "st\<lparr>rtService := service_Close (rtService st), rtHelper := ServiceClosed\<rparr>"
    have "own_step D L cfg st ?u" using run_step.helper_close [OF AwaitCancel assms, of D L cfg] by (simp add: own_step_def)
    moreover obtain st' where "own_steps D L cfg ?u st'" "rtMain st' = rtMain ?u" "stopping (rtHelper st')" using c [of ?u] by auto
    ultimately show ?thesis by (intro exI [of _ st']) (simp add: converse_rtranclp_into_rtranclp)
  qed (use c in \<open>auto simp: stopping_def\<close>)
qed

lemma serving_returns:
  assumes "rtMain st = Serving" and "rtCtxDone st" and "run_inv D L cfg st"
  shows "\<exists>st' r. own_steps D L cfg st st' \<and> rtMain st' = RunReturned r \<and> stopping (rtHelper st')"
proof -
  from helper_shuts_down [OF assms(2), of D L cfg] obtain u
    where u: "own_steps D L cfg st u" "rtMain u = Serving" "stopping (rtHelper u)" using assms(1) by auto
  let ?v = "u\<lparr>rtMain := ListenerStopped ErrServerClosed\<rparr>"
  have "run_step D L cfg u ?v"
  proof (rule run_step.server_closed [OF u(2)])
    show "rtHelper u = ShuttingDown \<or> rtHelper u = Sent (case rtHelper u of Sent e \<Rightarrow> e | _ \<Rightarrow> None)"
      using u(3) by (auto simp: stopping_def split: helper_phase.splits)
  qed
  then have v: "own_step D L cfg u ?v" by (simp add: own_step_def)
  have "run_inv D L cfg ?v" by (rule own_step_inv [OF v own_steps_inv [OF u(1) assms(3)]])
  with stopped_returns [of ?v ErrServerClosed D L cfg] have "returns D L cfg ?v" by simp
  then obtain st' r where "own_steps D L cfg ?v st'" "rtMain st' = RunReturned r" "rtHelper st' = rtHelper ?v"
    by (auto simp: returns_def)
  moreover from this(1) have "own_steps D L cfg st st'" using u(1) v by (meson rtranclp.rtrancl_into_rtrancl rtranclp_trans)
  ultimately show ?thesis using u(3) by auto
qed

text \<open>C39: a cancelled process can end by itself. From every reachable state with a cancelled context there are
  steps of the two goroutines, of the service and of the pending cancel functions, none of them a
  failure of the listener, after which \<open>Run\<close> has returned; when the server was being started or serving and the listener was set up,
  this goes through the helper goroutine, which has called \<open>Shutdown\<close> by then.\<close>

theorem run_can_return:
  assumes "run_steps D L cfg (run_start cfg) st" and "rtCtxDone st"
  shows "\<exists>st' r. own_steps D L cfg st st' \<and> rtMain st' = RunReturned r \<and>
    (rtMain st = Serving \<or> rtMain st = Starting \<and> listen_setup L cfg = None \<longrightarrow> stopping (rtHelper st'))"
proof -
  have inv: "run_inv D L cfg st" using run_inv_reachable [OF assms(1)] .
  show ?thesis
  proof (cases "rtMain st")
    case Starting
    show ?thesis
    proof (cases "listen_setup L cfg")
      case None
      let ?u = "st\<lparr>rtMain := Serving\<rparr>"
      have u: "own_step D L cfg st ?u" using run_step.listen [OF Starting None, of D] by (simp add: own_step_def)
      from serving_returns [of ?u, OF _ _ own_step_inv [OF u inv]] assms(2) obtain st' r
        where "own_steps D L cfg ?u st'" "rtMain st' = RunReturned r" "stopping (rtHelper st')" by auto
      with u show ?thesis by (meson converse_rtranclp_into_rtranclp)
    next
      case (Some e)
      let ?u = "enter_deferred (Some e) st"
      have u: "own_step D L cfg st ?u"
        using run_step.listen_failed [OF Starting Some, of D] by (simp add: own_step_def enter_deferred_def)
      have "returns D L cfg ?u" by (rule deferred_returns [OF _ own_step_inv [OF u inv]]) (simp add: enter_deferred_def)
      with u have "returns D L cfg st" by (intro returns_step [of D L cfg st ?u]) (simp_all add: enter_deferred_def)
      then show ?thesis using Starting Some by (auto simp: returns_def)
    qed
  next
    case Serving
    then show ?thesis using serving_returns [OF _ assms(2) inv] by blast
  next
    case (ListenerStopped err)
    then show ?thesis using stopped_returns [OF _ inv] unfolding returns_def by auto
  next
    case (Deferred cancels r)
    then show ?thesis using deferred_returns [OF _ inv] unfolding returns_def by auto
  qed auto
qed

text \<open>\<open>Run\<close> does not wait for \<open>Shutdown\<close>: the listener has stopped as soon as \<open>Shutdown\<close> is called, the channel is still empty and
  \<open>select\<close> takes its default branch. Requests in flight are cut off and the error of \<open>Shutdown\<close> is lost.\<close>

definition run_demo_config :: config where
  "run_demo_config = \<lparr>cfgListener = \<lparr>lcBindAddr = '':8080'', lcTLS = None\<rparr>, cfgVerify = cfg_example\<rparr>"

definition demo_tls :: "string tls_lib" where
  "demo_tls = \<lparr>tlLoadX509KeyPair = (\<lambda>c k. Inr c), tlReadFile = Inr, tlAppendCertsFromPEM = (\<lambda>s. True)\<rparr>"

definition run_demo_serving :: run_state where
  "run_demo_serving = (run_start run_demo_config)\<lparr>rtMain := Serving, rtCtxDone := True\<rparr>"

definition run_demo_shutting :: run_state where
  "run_demo_shutting = run_demo_serving\<lparr>rtService := service_Close (rtService run_demo_serving), rtHelper := ShuttingDown\<rparr>"

definition run_demo_returned :: run_state where
  "run_demo_returned = (enter_deferred None run_demo_shutting)\<lparr>rtMain := RunReturned None\<rparr>"

lemma run_demo_serving_reachable: "run_steps int_datums demo_tls run_demo_config (run_start run_demo_config) run_demo_serving"
proof -
  let ?u = "(run_start run_demo_config)\<lparr>rtMain := Serving\<rparr>"
  have "run_step int_datums demo_tls run_demo_config (run_start run_demo_config) ?u"
    by (rule run_step.listen) (simp_all add: run_start_def listen_setup_def run_demo_config_def)
  moreover have "run_step int_datums demo_tls run_demo_config ?u run_demo_serving"
    unfolding run_demo_serving_def by (rule run_step.ctx_cancel)
  ultimately show ?thesis by (simp add: converse_rtranclp_into_rtranclp)
qed

lemma shutdown_not_awaited:
  "run_steps int_datums demo_tls run_demo_config (run_start run_demo_config) run_demo_returned \<and>
   rtMain run_demo_returned = RunReturned None \<and> rtHelper run_demo_returned = ShuttingDown"
proof -
  let ?step = "run_step int_datums demo_tls run_demo_config"
  let ?c = "run_demo_serving\<lparr>rtService := service_Close (rtService run_demo_serving), rtHelper := ServiceClosed\<rparr>"
  let ?v = "run_demo_shutting\<lparr>rtMain := ListenerStopped ErrServerClosed\<rparr>"
  have none: "activeCancels newJobStore = []" by code_simp
  have init: "svStore (rtService run_demo_shutting) = newJobStore"
    by (simp add: run_demo_shutting_def run_demo_serving_def run_start_def service_Close_def NewService_def)
  have "?step run_demo_serving ?c"
    by (rule run_step.helper_close) (simp_all add: run_demo_serving_def run_start_def)
  moreover have "?step ?c run_demo_shutting"
    using run_step.helper_shutdown [of ?c int_datums demo_tls run_demo_config] by (simp add: run_demo_shutting_def)
  moreover have "?step run_demo_shutting ?v"
    by (rule run_step.server_closed) (simp_all add: run_demo_shutting_def run_demo_serving_def)
  moreover have "?step ?v (enter_deferred None ?v)"
    using run_step.select [of ?v ErrServerClosed int_datums demo_tls run_demo_config]
    by (simp add: run_result_def run_demo_shutting_def)
  moreover have "?step (enter_deferred None ?v) run_demo_returned"
    using run_step.finish [of "enter_deferred None ?v" "[]" None int_datums demo_tls run_demo_config] init none
    by (simp add: enter_deferred_def run_demo_returned_def)
  ultimately show ?thesis using run_demo_serving_reachable
    by (simp add: run_demo_returned_def run_demo_shutting_def enter_deferred_def)
qed

theorem run_outcome_witness: "rtMain run_demo_returned = RunReturned None \<and> rtCtxDone run_demo_returned \<and> stopping (rtHelper run_demo_returned)"
  using run_outcome [of int_datums demo_tls run_demo_config run_demo_returned] shutdown_not_awaited by blast

theorem run_can_return_witness:
  "\<exists>st' r. own_steps int_datums demo_tls run_demo_config run_demo_serving st' \<and> rtMain st' = RunReturned r \<and>
     stopping (rtHelper st')"
proof -
  have "rtMain run_demo_serving = Serving" "rtCtxDone run_demo_serving" by (simp_all add: run_demo_serving_def)
  with run_can_return [OF run_demo_serving_reachable] show ?thesis by blast
qed

end
