(* ===== verification/Log_Reporter.thy ===== *)
theory Log_Reporter
  imports Row_Properties
begin

text \<open>
  \<open>LogReporter\<close> of \<open>verify/inconsistency/reporter.go\<close>, \<open>reportRunningSummary\<close> of \<open>stats.go\<close> and the loggers of
  \<open>moltlogger/logger.go\<close>: the structured log line that is written for each reported object. This is the output an operator reads.

  A line is its level, the \<open>type\<close> field of its logger, its fields in the order they are added, and its message. The outer \<open>None\<close> is
  the panic of an index out of range.
\<close>

section \<open>Log lines\<close>

datatype log_level = InfoLevel | WarnLevel | ErrorLevel

datatype log_value = LStr string | LInt nat | LStrs "string list" | LDict "(string \<times> string) list"

record log_line =
  llLevel :: log_level
  llType :: "string option"
  llFields :: "(string \<times> log_value) list"
  llMessage :: string

definition GetDataLogger :: "string option" where "GetDataLogger = Some ''data''"
definition GetSummaryLogger :: "string option" where "GetSummaryLogger = Some ''summary''"

section \<open>Report\<close>

definition reportableVal :: "'d datum_ops \<Rightarrow> 'd \<Rightarrow> string" where
  "reportableVal D d = dExport D d"

definition zipPrimaryKeysForReporting :: "'d datum_ops \<Rightarrow> 'd list \<Rightarrow> string list" where
  "zipPrimaryKeysForReporting D columnVals = map (reportableVal D) columnVals"

fun value_dicts ::
  "'d datum_ops \<Rightarrow> string list \<Rightarrow> 'd list \<Rightarrow> 'd list \<Rightarrow> ((string \<times> string) list \<times> (string \<times> string) list) option" where
  "value_dicts D [] truths targets = Some ([], [])"
| "value_dicts D (c # cs) (x # xs) (y # ys) =
     map_option (\<lambda>(a, b). ((c, reportableVal D x) # a, (c, reportableVal D y) # b)) (value_dicts D cs xs ys)"
| "value_dicts D (c # cs) _ _ = None"

definition reportRunningSummary :: "row_stats \<Rightarrow> string \<Rightarrow> log_line" where
  "reportRunningSummary s m =
     \<lparr>llLevel = InfoLevel, llType = GetSummaryLogger,
      llFields = [(''table_schema'', LStr (rsSchema s)), (''table_name'', LStr (rsTable s)),
        (''num_truth_rows'', LInt (rsNumVerified s)), (''num_success'', LInt (rsNumSuccess s)),
        (''num_conditional_success'', LInt (rsNumConditionalSuccess s)), (''num_missing'', LInt (rsNumMissing s)),
        (''num_mismatch'', LInt (rsNumMismatch s)), (''num_extraneous'', LInt (rsNumExtraneous s)),
        (''num_live_retry'', LInt (rsNumLiveRetry s)), (''num_column_mismatch'', LInt (rsNumColumnMismatch s))],
      llMessage =
        (if rsNumConditionalSuccess s > 0
         then m @ '' - please check all warnings and errors to determine whether column mismatches can be ignored'' else m)\<rparr>"

definition data_warning :: "string \<Rightarrow> string \<Rightarrow> (string \<times> log_value) list \<Rightarrow> string \<Rightarrow> log_line" where
  "data_warning schema table fs m =
     \<lparr>llLevel = WarnLevel, llType = GetDataLogger,
      llFields = (''table_schema'', LStr schema) # (''table_name'', LStr table) # fs, llMessage = m\<rparr>"

primrec LogReporter_Report :: "'d datum_ops \<Rightarrow> 'd report \<Rightarrow> log_line option" where
  "LogReporter_Report D (MissingTable t) = Some (data_warning (tnSchema t) (tnTable t) [] ''missing table detected'')"
| "LogReporter_Report D (ExtraneousTable t) = Some (data_warning (tnSchema t) (tnTable t) [] ''extraneous table detected'')"
| "LogReporter_Report D (MismatchingTableDefinition t info) =
     Some (data_warning (tnSchema t) (tnTable t) [(''mismatch_info'', LStr info)] ''mismatching table definition'')"
| "LogReporter_Report D (StatusReport info) =
     Some \<lparr>llLevel = InfoLevel, llType = None, llFields = [], llMessage = info\<rparr>"
| "LogReporter_Report D (SummaryReport info stats) = Some (reportRunningSummary stats info)"
| "LogReporter_Report D (MismatchingRow m) =
     map_option (\<lambda>(src, tgt). data_warning (tnSchema m) (tnTable m)
         [(''source_values'', LDict src), (''target_values'', LDict tgt),
          (''primary_key'', LStrs (zipPrimaryKeysForReporting D (mmPrimaryKeyValues m)))] ''mismatching row value'')
       (value_dicts D (mmMismatchingColumns m) (mmTruthVals m) (mmTargetVals m))"
| "LogReporter_Report D (MismatchingColumn m) =
     map_option (\<lambda>(src, tgt). data_warning (tnSchema m) (tnTable m)
         [(''source_values'', LDict src), (''target_values'', LDict tgt),
          (''primary_key'', LStrs (zipPrimaryKeysForReporting D (mcPrimaryKeyValues m)))]
         (''mismatching column(s) found - '' @ strings_Join (mcInfo m) '';''))
       (value_dicts D (mcMismatchingColumns m) (mcTruthVals m) (mcTargetVals m))"
| "LogReporter_Report D (MissingRow m) =
     Some (data_warning (tnSchema m) (tnTable m)
       [(''primary_key'', LStrs (zipPrimaryKeysForReporting D (mrPrimaryKeyValues m)))] ''missing row'')"
| "LogReporter_Report D (ExtraneousRow m) =
     Some (data_warning (tnSchema m) (tnTable m)
       [(''primary_key'', LStrs (zipPrimaryKeysForReporting D (erPrimaryKeyValues m)))] ''extraneous row'')"

text \<open>The log of a sequence of reports.\<close>

definition log_all :: "'d datum_ops \<Rightarrow> 'd report list \<Rightarrow> log_line list option" where
  "log_all D objs = those (map (LogReporter_Report D) objs)"

section \<open>Which reports can be logged\<close>

lemma reportableVal_eq: "reportableVal D = dExport D"
  by (simp add: fun_eq_iff reportableVal_def)

lemma value_dicts_zip:
  assumes "length truths = length cs" and "length targets = length cs"
  shows "value_dicts D cs truths targets = Some (zip cs (map (reportableVal D) truths), zip cs (map (reportableVal D) targets))"
  using assms by (induction cs truths targets rule: value_dicts.induct) auto

primrec aligned :: "'d report \<Rightarrow> bool" where
  "aligned (MissingTable t) = True"
| "aligned (ExtraneousTable t) = True"
| "aligned (MismatchingTableDefinition t info) = True"
| "aligned (StatusReport info) = True"
| "aligned (SummaryReport info stats) = True"
| "aligned (MismatchingRow m) \<longleftrightarrow>
     length (mmTruthVals m) = length (mmMismatchingColumns m) \<and> length (mmTargetVals m) = length (mmMismatchingColumns m)"
| "aligned (MismatchingColumn m) \<longleftrightarrow>
     length (mcTruthVals m) = length (mcMismatchingColumns m) \<and> length (mcTargetVals m) = length (mcMismatchingColumns m)"
| "aligned (MissingRow m) = True"
| "aligned (ExtraneousRow m) = True"

lemma aligned_logged: "aligned obj \<Longrightarrow> LogReporter_Report D obj \<noteq> None"
  by (cases obj) (auto simp: value_dicts_zip)

lemma log_all_aligned: "list_all aligned objs \<Longrightarrow> \<exists>ls. log_all D objs = Some ls"
proof (induction objs)
  case (Cons obj objs)
  then obtain l where "LogReporter_Report D obj = Some l" using aligned_logged [of obj D] by auto
  then show ?case using Cons by (auto simp: log_all_def)
qed (simp add: log_all_def)

fun event_aligned :: "'d row_event \<Rightarrow> bool" where
  "event_aligned (EMismatch m) = aligned (MismatchingRow m)"
| "event_aligned (EColumn m b) = aligned (MismatchingColumn m)"
| "event_aligned _ = True"

lemma match_truth_aligned: "list_all event_aligned (fst (match_truth D table t gs seen))"
  by (induction D table t gs seen rule: match_truth.induct)
    (auto simp: pair_event_def mismatch_report_def column_report_def Let_def split: prod.splits)

lemma row_diff_aligned: "list_all event_aligned (row_diff D table ts gs seen)"
proof (induction D table ts gs seen rule: row_diff.induct)
  case (1 D table gs seen)
  then show ?case by (simp add: list_all_iff)
next
  case (2 D table t ts gs seen)
  then show ?case using match_truth_aligned [of D table t gs seen] by (auto split: prod.splits)
qed

lemma dispatch_aligned:
  assumes "list_all event_aligned evs" and "list_all aligned (dlReports n)"
  shows "list_all aligned (dlReports (fold (dispatch default_evl) evs n))"
  using assms
proof (induction evs arbitrary: n)
  case (Cons e evs)
  have "list_all aligned (dlReports (dispatch default_evl e n))"
    using Cons.prems by (cases e) (auto simp: listener_defs Let_def)
  then show ?case using Cons by simp
qed simp

lemma shard_listener_aligned: "list_all aligned sent \<Longrightarrow> list_all aligned (dlReports (shard_listener D table tbl1 tbl2 sent))"
  unfolding shard_listener_def by (rule dispatch_aligned [OF row_diff_aligned]) (simp add: new_default_listener_def)

section \<open>What the log of a shard says\<close>

text \<open>The warnings with a given message, and the lines the differences of a shard are expected to give.\<close>

definition warnings :: "string \<Rightarrow> log_line list \<Rightarrow> log_line list" where
  "warnings m ls = filter (\<lambda>l. llLevel l = WarnLevel \<and> llMessage l = m) ls"

definition key_text :: "'d datum_ops \<Rightarrow> ('x) verified_table_scheme \<Rightarrow> 'd row \<Rightarrow> log_value" where
  "key_text D table r = LStrs (map (dExport D) (take (length (vtPrimaryKeyColumns table)) r))"

definition row_warning :: "('x) verified_table_scheme \<Rightarrow> (string \<times> log_value) list \<Rightarrow> string \<Rightarrow> log_line" where
  "row_warning table fs m = data_warning (tnSchema table) (tnTable table) fs m"

definition differing :: "'d datum_ops \<Rightarrow> ('x) verified_table_scheme \<Rightarrow> 'd row \<Rightarrow> 'd row \<Rightarrow> 'd row \<Rightarrow> log_value" where
  "differing D table t g r =
     LDict (map (\<lambda>v. (ColumnNames (vtColumns table) ! v, dExport D (r ! v))) (filter (col_differs D t g) (value_cols table)))"

lemma warnings_Cons:
  "warnings m (l # ls) = (if llLevel l = WarnLevel \<and> llMessage l = m then l # warnings m ls else warnings m ls)"
  by (simp add: warnings_def)

lemma log_all_Cons:
  "log_all D (obj # objs) = Some ls \<longleftrightarrow> (\<exists>l ls'. LogReporter_Report D obj = Some l \<and> log_all D objs = Some ls' \<and> ls = l # ls')"
  by (auto simp: log_all_def split: option.splits)

lemma map_Some_eqD: "map Some xs = map (\<lambda>y. Some (f y)) ys \<Longrightarrow> xs = map f ys"
  by (induction xs arbitrary: ys) (auto simp: Cons_eq_map_conv)

lemma log_all_rows:
  assumes "log_all D objs = Some ls" and "list_all aligned objs"
  shows "map Some (warnings ''missing row'' ls) = map (LogReporter_Report D \<circ> MissingRow) (missing_rows objs) \<and>
    map Some (warnings ''extraneous row'' ls) = map (LogReporter_Report D \<circ> ExtraneousRow) (extraneous_rows objs) \<and>
    map Some (warnings ''mismatching row value'' ls) = map (LogReporter_Report D \<circ> MismatchingRow) (mismatching_rows objs)"
  using assms
proof (induction objs arbitrary: ls)
  case Nil
  then show ?case by (simp add: log_all_def warnings_def)
next
  case (Cons obj objs)
  then obtain l ls' where l: "LogReporter_Report D obj = Some l" "log_all D objs = Some ls'" "ls = l # ls'"
    by (auto simp: log_all_Cons)
  show ?case using Cons.IH [OF l(2)] Cons.prems(2) l
    by (cases obj) (auto simp: warnings_Cons data_warning_def reportRunningSummary_def value_dicts_zip)
qed

text \<open>C16: the log names every difference of a shard. When \<open>VerifyRowsOnShard\<close> reports to a \<open>LogReporter\<close> no report panics, and the
  warnings in the log are, in key order, one with the primary key for every missing and every extraneous row, and one
  for every differing pair of rows with its key and exactly the differing columns, the truth values as source and the others as target
  values.\<close>

theorem shard_log_exact:
  assumes "shard_world D table (fst (vtColumnOIDs table)) tbl1 conn1"
    and "shard_world D table (snd (vtColumnOIDs table)) tbl2 conn2" and "0 < rowBatchSize"
  shows "\<exists>reps ls. VerifyRowsOnShard D (conn1, conn2) no_limit table rowBatchSize [] = Some (None, reps) \<and> log_all D reps = Some ls \<and>
    warnings ''missing row'' ls = map (\<lambda>t. row_warning table [(''primary_key'', key_text D table t)] ''missing row'')
      (filter (\<lambda>t. \<not> same_key D table t (rows_in D table tbl2)) (rows_in D table tbl1)) \<and>
    warnings ''extraneous row'' ls = map (\<lambda>g. row_warning table [(''primary_key'', key_text D table g)] ''extraneous row'')
      (filter (\<lambda>g. \<not> same_key D table g (rows_in D table tbl1)) (rows_in D table tbl2)) \<and>
    warnings ''mismatching row value'' ls = map (\<lambda>(t, g). row_warning table
        [(''source_values'', differing D table t g t), (''target_values'', differing D table t g g),
         (''primary_key'', key_text D table g)] ''mismatching row value'')
      (filter (\<lambda>(t, g). list_ex (col_differs D t g) (value_cols table))
        (matched D table (rows_in D table tbl1) (rows_in D table tbl2)))"
proof -
  let ?n = "shard_listener D table tbl1 tbl2 []"
  let ?reps = "dlReports ?n @ [finished_report table (dlStats ?n)]"
  have run: "VerifyRowsOnShard D (conn1, conn2) no_limit table rowBatchSize [] = Some (None, ?reps)"
    by (rule VerifyRowsOnShard_refines [OF assms])
  have al: "list_all aligned ?reps" using shard_listener_aligned [of "[]"] by (simp add: finished_report_def)
  from log_all_aligned [OF this] obtain ls where ls: "log_all D ?reps = Some ls" by blast
  note rows = log_all_rows [OF ls al]
  have miss: "LogReporter_Report D (MissingRow (missing_report table t)) =
      Some (row_warning table [(''primary_key'', key_text D table t)] ''missing row'')" for t
    by (simp add: missing_report_def row_warning_def key_text_def zipPrimaryKeysForReporting_def reportableVal_eq)
  have extr: "LogReporter_Report D (ExtraneousRow (extraneous_report table g)) =
      Some (row_warning table [(''primary_key'', key_text D table g)] ''extraneous row'')" for g
    by (simp add: extraneous_report_def row_warning_def key_text_def zipPrimaryKeysForReporting_def reportableVal_eq)
  have mism: "LogReporter_Report D (MismatchingRow (mismatch_report D table t g)) =
      Some (row_warning table [(''source_values'', differing D table t g t), (''target_values'', differing D table t g g),
        (''primary_key'', key_text D table g)] ''mismatching row value'')" for t g
    by (simp add: mismatch_report_def Let_def value_dicts_zip row_warning_def differing_def key_text_def
        zipPrimaryKeysForReporting_def reportableVal_eq zip_map_map zip_same_conv_map comp_def)
  note facts = shard_listener_facts [OF assms(1,2), of "[]"]
  have "map Some (warnings ''missing row'' ls) =
      map (\<lambda>t. Some (row_warning table [(''primary_key'', key_text D table t)] ''missing row''))
        (filter (\<lambda>t. \<not> same_key D table t (rows_in D table tbl2)) (rows_in D table tbl1))"
    using conjunct1 [OF rows] facts(1) by (simp add: finished_report_def comp_def miss del: LogReporter_Report.simps)
  note m = map_Some_eqD [OF this]
  have "map Some (warnings ''extraneous row'' ls) =
      map (\<lambda>g. Some (row_warning table [(''primary_key'', key_text D table g)] ''extraneous row''))
        (filter (\<lambda>g. \<not> same_key D table g (rows_in D table tbl1)) (rows_in D table tbl2))"
    using conjunct1 [OF conjunct2 [OF rows]] facts(2) by (simp add: finished_report_def comp_def extr del: LogReporter_Report.simps)
  note e = map_Some_eqD [OF this]
  have "map Some (warnings ''mismatching row value'' ls) =
      map (\<lambda>p. Some (case p of (t, g) \<Rightarrow> row_warning table [(''source_values'', differing D table t g t),
          (''target_values'', differing D table t g g), (''primary_key'', key_text D table g)] ''mismatching row value''))
        (filter (\<lambda>(t, g). list_ex (col_differs D t g) (value_cols table))
          (matched D table (rows_in D table tbl1) (rows_in D table tbl2)))"
    using conjunct2 [OF conjunct2 [OF rows]] facts(3) by (simp add: finished_report_def comp_def mism case_prod_unfold del: LogReporter_Report.simps)
  note d = map_Some_eqD [OF this]
  show ?thesis using run ls m e d by blast
qed

theorem shard_log_exact_witness:
  "\<exists>reps ls. VerifyRowsOnShard int_datums (kv_conn [[1, 10], [2, 20], [3, 30]], kv_conn [[2, 21], [3, 30], [4, 40]])
      no_limit (kv_shard [] []) 2 [] = Some (None, reps) \<and> log_all int_datums reps = Some ls \<and>
    map llFields (warnings ''missing row'' ls) =
      [[(''table_schema'', LStr (tnSchema (kv_shard [] []))), (''table_name'', LStr (tnTable (kv_shard [] []))),
        (''primary_key'', LStrs [dExport int_datums 1])]] \<and>
    length (warnings ''extraneous row'' ls) = 1 \<and> length (warnings ''mismatching row value'' ls) = 1"
proof -
  let ?a = "[[1, 10], [2, 20], [3, 30]] :: int row list" and ?b = "[[2, 21], [3, 30], [4, 40]] :: int row list"
  have w: "shard_world int_datums (kv_shard [] []) oids ?a (kv_conn ?a)"
    "shard_world int_datums (kv_shard [] []) oids ?b (kv_conn ?b)" for oids
    by (rule kv_world; simp add: pk_sorted_def pk_less_def int_datums_def cmp_ord_def)+
  have c: "row_cmp int_datums (kv_shard [] []) [x, y] [u, v] = cmp_ord x u" for x y u v
    by (simp add: row_cmp_def kv_shard_def int_datums_def)
  have d: "col_differs int_datums [x, y] [u, v] (Suc 0) = (y \<noteq> v)" for x y u v
    by (simp add: col_differs_def col_result_def preprocess_def preprocess_one_def int_datums_def cmp_ord_def)
  have k: "value_cols (kv_shard [] []) = [1]" "length (vtPrimaryKeyColumns (kv_shard [] [])) = 1"
    by (simp_all add: kv_shard_def kv_columns_def)
  show ?thesis
    using shard_log_exact [OF w, of 2] k unfolding kv_all_rows
    by (auto simp: same_key_def matched_def c d cmp_ord_def row_warning_def data_warning_def key_text_def)
qed

end
