(* ===== verification/Command_Line.thy ===== *)
theory Command_Line
  imports Verify_Runner Live_Reverify Log_Reporter Config_Properties
begin

text \<open>
  The commands of the tool: \<open>cmd/verify/verify.go\<close>, \<open>cmd/verifyservice/verifyservice.go\<close>, the helpers of
  \<open>cmd/internal/cmdutil\<close> and \<open>Execute\<close> of \<open>cmd/root.go\<close>.

  Parsing the arguments is the command line library's: a command starts from the values of its flags and from which of
  them were given. What a command prints and logs, and with which arguments it calls the verification, are its result.
\<close>

section \<open>Flags\<close>

text \<open>A registered flag and whether the user set it.\<close>

type_synonym flag_set = "(string \<times> bool) list"

definition flag_text :: "string \<Rightarrow> string" where
  "flag_text f = ''Flag '' @ [CHR 0x22] @ f @ [CHR 0x22]"

fun check_dependents :: "flag_set \<Rightarrow> string \<Rightarrow> bool \<Rightarrow> string list \<Rightarrow> go_error option" where
  "check_dependents flags dep depChanged [] = None"
| "check_dependents flags dep depChanged (v # vs) =
     (case map_of flags v of
        None \<Rightarrow> Some (ErrMsg (flag_text v @ '' not found''))
      | Some changed \<Rightarrow>
          (if \<not> depChanged \<and> changed
           then Some (ErrMsg (flag_text v @ '' set without explicitly setting dependency '' @ [CHR 0x22] @ dep @ [CHR 0x22]))
           else check_dependents flags dep depChanged vs))"

definition CheckFlagDependency :: "flag_set \<Rightarrow> string \<Rightarrow> string list \<Rightarrow> go_error option" where
  "CheckFlagDependency flags dep dependents =
     (case map_of flags dep of
        None \<Rightarrow> Some (ErrMsg (flag_text dep @ '' not found''))
      | Some changed \<Rightarrow> check_dependents flags dep changed dependents)"

section \<open>The verify command\<close>

text \<open>The flags, with durations in nanoseconds. A negative row batch size is not modelled.\<close>

record verify_flags =
  vfSource :: string
  vfTarget :: string
  vfLogFile :: string
  vfConcurrency :: int
  vfTableSplits :: int
  vfRowBatchSize :: nat
  vfRowsPerSecond :: int
  vfFixup :: bool
  vfRows :: bool
  vfContinuous :: bool
  vfContinuousPause :: int
  vfLive :: bool
  vfLiveSettings :: live_settings
  vfTestOnly :: bool
  vfTableFilter :: filter_config

definition default_live_settings :: live_settings where
  "default_live_settings =
     \<lparr>lsMaxBatchSize = 1000, lsFlushInterval = 1000000000,
      lsRetrySettings = \<lparr>reInitialBackoff = 250000000, reMultiplier = 2, reMaxBackoff = 1000000000, reMaxRetries = 5\<rparr>,
      lsRunsPerSecond = 0\<rparr>"

definition verify_flag_defaults :: "string \<Rightarrow> string \<Rightarrow> verify_flags" where
  "verify_flag_defaults source target =
     \<lparr>vfSource = source, vfTarget = target, vfLogFile = [], vfConcurrency = 0, vfTableSplits = 1, vfRowBatchSize = 20000,
      vfRowsPerSecond = 0, vfFixup = False, vfRows = True, vfContinuous = False, vfContinuousPause = 0, vfLive = False,
      vfLiveSettings = default_live_settings, vfTestOnly = False, vfTableFilter = DefaultFilterConfig\<rparr>"

text \<open>The flags the command registers itself, in order, before those of the logger, the connections, the filter and the metrics.\<close>

definition verify_flag_names :: "string list" where
  "verify_flag_names =
     [''log-file'', ''concurrency'', ''table-splits'', ''row-batch-size'', ''rows-per-second'', ''fixup'', ''rows'', ''continuous'',
      ''continuous-pause-between-runs'', ''live'', ''live-runs-per-second'', ''live-max-batch-size'', ''live-flush-interval'',
      ''live-retries-max-iterations'', ''live-retry-max-backoff'', ''live-retry-initial-backoff'', ''live-retry-multiplier'', ''test-only'']"

definition live_dependents :: "string list" where
  "live_dependents =
     [''live-runs-per-second'', ''live-max-batch-size'', ''live-flush-interval'', ''live-retries-max-iterations'',
      ''live-retry-max-backoff'', ''live-retry-initial-backoff'', ''live-retry-multiplier'']"

definition verify_PreRunE :: "flag_set \<Rightarrow> go_error option" where
  "verify_PreRunE flags =
     (case CheckFlagDependency flags ''continuous'' [''continuous-pause-between-runs''] of
        Some e \<Rightarrow> Some e
      | None \<Rightarrow> CheckFlagDependency flags ''live'' live_dependents)"

definition WithLive :: "bool \<Rightarrow> live_settings \<Rightarrow> live_settings option \<Rightarrow> live_settings option" where
  "WithLive l s o' = (if l then Some s else o')"

text \<open>What \<open>Verify\<close> is called with: the two connections, the connection of the fix reporter, the options and the live settings.\<close>

record 'c verify_call =
  vkConns :: "'c \<times> 'c"
  vkFixup :: "'c option"
  vkOpts :: verify_opts
  vkLive :: "live_settings option"

definition verify_command_opts :: "verify_flags \<Rightarrow> verify_opts" where
  "verify_command_opts f = apply_opts
     [WithConcurrency (vfConcurrency f), WithTableSplits (vfTableSplits f), WithRowBatchSize (vfRowBatchSize f),
      WithContinuous (vfContinuous f) (vfContinuousPause f), WithDBFilter (vfTableFilter f),
      WithRowsPerSecond (vfRowsPerSecond f), WithRows (vfRows f), WithTestOnly (vfTestOnly f)]"

definition LoadDBConns :: "(string \<Rightarrow> string \<Rightarrow> 'c result) \<Rightarrow> string \<Rightarrow> string \<Rightarrow> ('c \<times> 'c) result" where
  "LoadDBConns connect source target =
     (case connect ''source'' source of
        Inl e \<Rightarrow> Inl e
      | Inr s \<Rightarrow> (case connect ''target'' target of Inl e \<Rightarrow> Inl e | Inr t \<Rightarrow> Inr (s, t)))"

text \<open>The result: the call of \<open>Verify\<close>, if it came to that, and the error. The outer \<open>None\<close> is the panic when the connection for
  repairs cannot be cloned.\<close>

definition verify_RunE ::
  "(string \<Rightarrow> go_error option) \<Rightarrow> (string \<Rightarrow> string \<Rightarrow> 'c result) \<Rightarrow> ('c \<Rightarrow> 'c result) \<Rightarrow> ('c verify_call \<Rightarrow> go_error option) \<Rightarrow>
   verify_flags \<Rightarrow> ('c verify_call option \<times> go_error option) option" where
  "verify_RunE open_log connect clone verify f =
     (case open_log (vfLogFile f) of
        Some e \<Rightarrow> Some (None, Some e)
      | None \<Rightarrow>
          (case LoadDBConns connect (vfSource f) (vfTarget f) of
             Inl e \<Rightarrow> Some (None, Some e)
           | Inr conns \<Rightarrow> do {
               fixup \<leftarrow> (if vfFixup f then case clone (snd conns) of Inl e \<Rightarrow> None | Inr c \<Rightarrow> Some (Some c) else Some None);
               (let call = \<lparr>vkConns = conns, vkFixup = fixup, vkOpts = verify_command_opts f,
                            vkLive = WithLive (vfLive f) (vfLiveSettings f) None\<rparr>
                in Some (Some call, map_option (ErrWrap ''error verifying'') (verify call)))
             }))"

section \<open>The verify-service commands\<close>

definition summarizeSSLMode :: "string \<Rightarrow> string" where
  "summarizeSSLMode mode = (if mode = [] then ''default'' else mode)"

definition summarizeSSLModeInventory ::
  "resolved_database_pair list \<Rightarrow> (resolved_database_pair \<Rightarrow> string) \<Rightarrow> string" where
  "summarizeSSLModeInventory databases selectMode =
     (if databases = [] then summarizeSSLMode []
      else case sort (remdups (map (summarizeSSLMode \<circ> selectMode) databases)) of
        [m] \<Rightarrow> m
      | orderedModes \<Rightarrow> ''mixed('' @ strings_Join orderedModes '','' @ '')'')"

definition newCommandLogger :: "string \<Rightarrow> go_error option" where
  "newCommandLogger logFormat =
     (if logFormat \<noteq> ''text'' \<and> logFormat \<noteq> ''json''
      then Some (ErrMsg (''invalid --log-format '' @ quoted logFormat @ '': must be one of text, json'')) else None)"

datatype command_error = PlainError go_error | LoggedCommandError go_error

primrec command_Error :: "command_error \<Rightarrow> string" where
  "command_Error (PlainError e) = err_Error e"
| "command_Error (LoggedCommandError e) = err_Error e"

definition IsLoggedCommandError :: "command_error \<Rightarrow> bool" where
  "IsLoggedCommandError e = (case e of LoggedCommandError c \<Rightarrow> True | PlainError c \<Rightarrow> False)"

text \<open>The operator log gets structured lines; with the format \<open>text\<close> only the caller prints.\<close>

definition writeJSONCommandError ::
  "(string \<Rightarrow> string result) \<Rightarrow> string \<Rightarrow> go_error \<Rightarrow> log_line list \<times> command_error" where
  "writeJSONCommandError san logFormat err =
     (if logFormat = ''json'' then
        ([case ExtractOperatorError san (Some err) of
            Some p \<Rightarrow>
              \<lparr>llLevel = ErrorLevel, llType = None,
               llFields = [(''event'', LStr ''command.failed''), (''category'', LStr (opCategory p)), (''code'', LStr (opCode p))] @
                 (if opDetails p \<noteq> [] then [(''details'', LDict (map (\<lambda>d. (odField d, odReason d)) (opDetails p)))] else []),
               llMessage = opMessage p\<rparr>
          | None \<Rightarrow>
              \<lparr>llLevel = ErrorLevel, llType = None, llFields = [(''event'', LStr ''command.failed'')], llMessage = err_Error err\<rparr>],
         LoggedCommandError err)
      else ([], PlainError err))"

record command_result =
  cmStdout :: string
  cmLog :: "log_line list"
  cmError :: "command_error option"

definition command_failed :: "log_line list \<times> command_error \<Rightarrow> command_result" where
  "command_failed r = \<lparr>cmStdout = [], cmLog = fst r, cmError = Some (snd r)\<rparr>"

definition nl :: string where "nl = [CHR 0x0A]"

definition validateConfigCommand ::
  "(string \<Rightarrow> config result) \<Rightarrow> os_env \<Rightarrow> (string \<Rightarrow> string result) \<Rightarrow> string \<Rightarrow> string \<Rightarrow> command_result" where
  "validateConfigCommand decode os san configPath logFormat =
     (case newCommandLogger logFormat of
        Some e \<Rightarrow> command_failed ([], PlainError e)
      | None \<Rightarrow>
          (case LoadConfig decode os configPath of
             Inl err \<Rightarrow> command_failed (writeJSONCommandError san logFormat err)
           | Inr cfg \<Rightarrow>
               (case ResolveAllDatabases os (cfgVerify cfg) of
                  Inl err \<Rightarrow> command_failed (writeJSONCommandError san logFormat err)
                | Inr dbs \<Rightarrow>
                    (let mode = listener_Mode (cfgListener cfg);
                         src = summarizeSSLModeInventory dbs (rcSSLMode \<circ> rdSource);
                         dst = summarizeSSLModeInventory dbs (rcSSLMode \<circ> rdDestination)
                     in if logFormat = ''json'' then
                          \<lparr>cmStdout = [],
                           cmLog = [\<lparr>llLevel = InfoLevel, llType = None,
                             llFields = [(''event'', LStr ''config.validated''), (''listener_mode'', LStr mode),
                               (''database_count'', LInt (length dbs)), (''source_sslmode'', LStr src), (''destination_sslmode'', LStr dst)],
                             llMessage = ''verify-service config validated''\<rparr>], cmError = None\<rparr>
                        else
                          \<lparr>cmStdout = ''verify-service config is valid'' @ nl @ ''listener mode: '' @ mode @ nl @
                             ''database count: '' @ Itoa (length dbs) @ nl @ ''source sslmode: '' @ src @ nl @
                             ''destination sslmode: '' @ dst @ nl, cmLog = [], cmError = None\<rparr>))))"

text \<open>The \<open>run\<close> command; \<open>run\<close> is \<open>verifyservice.Run\<close>.\<close>

definition runCommand ::
  "(string \<Rightarrow> config result) \<Rightarrow> os_env \<Rightarrow> (string \<Rightarrow> string result) \<Rightarrow> (config \<Rightarrow> go_error option) \<Rightarrow> string \<Rightarrow> string \<Rightarrow> command_result" where
  "runCommand decode os san run configPath logFormat =
     (case newCommandLogger logFormat of
        Some e \<Rightarrow> command_failed ([], PlainError e)
      | None \<Rightarrow>
          (case LoadConfig decode os configPath of
             Inl err \<Rightarrow> command_failed (writeJSONCommandError san logFormat err)
           | Inr cfg \<Rightarrow>
               (let starting =
                  (if logFormat = ''json''
                   then [\<lparr>llLevel = InfoLevel, llType = None, llFields = [(''event'', LStr ''runtime.starting'')],
                          llMessage = ''verify-service runtime starting''\<rparr>] else [])
                in case run cfg of
                     None \<Rightarrow> \<lparr>cmStdout = [], cmLog = starting, cmError = None\<rparr>
                   | Some err \<Rightarrow>
                       (case writeJSONCommandError san logFormat err of
                          (ls, e) \<Rightarrow> \<lparr>cmStdout = [], cmLog = starting @ ls, cmError = Some e\<rparr>))))"

text \<open>\<open>Execute\<close>: what is written to standard error after the command, and the exit code.\<close>

definition Execute :: "command_error option \<Rightarrow> string \<times> nat" where
  "Execute r =
     (case r of
        None \<Rightarrow> ([], 0)
      | Some e \<Rightarrow> (if IsLoggedCommandError e then ([], 1) else (command_Error e @ nl, 1)))"

end
