(* ===== verification/Command_Properties.thy ===== *)
theory Command_Properties
  imports Command_Line
begin

text \<open>
  What the commands guarantee: which combinations of flags are accepted, that a configuration the \<open>validate-config\<close>
  command accepts is one the service can load, and that every failure is reported exactly once.
\<close>

section \<open>Flags\<close>

definition given :: "flag_set \<Rightarrow> string \<Rightarrow> bool" where
  "given flags f \<longleftrightarrow> map_of flags f = Some True"

definition registered :: "flag_set \<Rightarrow> string \<Rightarrow> bool" where
  "registered flags f \<longleftrightarrow> f \<in> fst ` set flags"

lemma registered_iff: "registered flags f \<longleftrightarrow> map_of flags f \<noteq> None"
  by (simp add: registered_def map_of_eq_None_iff)

lemma check_dependents_None:
  "check_dependents flags dep b vs = None \<longleftrightarrow> list_all (registered flags) vs \<and> (b \<or> list_all (\<lambda>v. \<not> given flags v) vs)"
  proof (induction vs)
  case (Cons v vs)
  show ?case using Cons by (cases "map_of flags v") (auto simp: registered_iff given_def)
qed simp

lemma CheckFlagDependency_None:
  "CheckFlagDependency flags dep vs = None \<longleftrightarrow>
     list_all (registered flags) (dep # vs) \<and> (given flags dep \<or> list_all (\<lambda>v. \<not> given flags v) vs)"
  by (auto simp: CheckFlagDependency_def check_dependents_None registered_iff given_def split: option.splits)

text \<open>The \<open>verify\<close> command accepts its flags exactly when none is useless: with the flags it registers, and possibly more, the check before
  the run passes if and only if the pause is given only together with \<open>continuous\<close> and the settings of live mode only together with
  \<open>live\<close>.\<close>

theorem verify_flags_checked:
  assumes "set verify_flag_names \<subseteq> fst ` set flags"
  shows "verify_PreRunE flags = None \<longleftrightarrow>
    (given flags ''continuous-pause-between-runs'' \<longrightarrow> given flags ''continuous'') \<and>
    (\<forall>f \<in> set live_dependents. given flags f \<longrightarrow> given flags ''live'')"
proof -
  have "list_all (\<lambda>f. f \<in> set verify_flag_names) (''continuous'' # ''continuous-pause-between-runs'' # ''live'' # live_dependents)"
    by code_simp
  then have "list_all (registered flags) (''continuous'' # ''continuous-pause-between-runs'' # ''live'' # live_dependents)"
    using assms unfolding list_all_iff registered_def by blast
  then show ?thesis
    using CheckFlagDependency_None [of flags "''continuous''" "[''continuous-pause-between-runs'']"]
      CheckFlagDependency_None [of flags "''live''" live_dependents]
    by (auto simp: verify_PreRunE_def list_all_iff split: option.splits)
qed

definition demo_flags :: flag_set where
  "demo_flags = (''live-max-batch-size'', True) # map (\<lambda>f. (f, False)) verify_flag_names"

theorem verify_flags_checked_witness: "verify_PreRunE demo_flags \<noteq> None"
proof -
  have r: "set verify_flag_names \<subseteq> fst ` set demo_flags" by (simp add: demo_flags_def image_image subset_insertI)
  have "''live-max-batch-size'' \<in> set live_dependents" "given demo_flags ''live-max-batch-size''" "\<not> given demo_flags ''live''"
    by (simp_all add: given_def demo_flags_def live_dependents_def verify_flag_names_def)
  then show ?thesis using verify_flags_checked [OF r] by blast
qed

section \<open>The call of Verify\<close>

lemma verify_command_opts_fields:
  "voConcurrency (verify_command_opts f) = vfConcurrency f" "voTableSplits (verify_command_opts f) = vfTableSplits f"
  "voRowBatchSize (verify_command_opts f) = vfRowBatchSize f" "voRows (verify_command_opts f) = vfRows f"
  "voContinuous (verify_command_opts f) = vfContinuous f" "voContinuousPause (verify_command_opts f) = vfContinuousPause f"
  "voDbFilter (verify_command_opts f) = vfTableFilter f" "voRowsPerSecond (verify_command_opts f) = vfRowsPerSecond f"
  "voTestOnly (verify_command_opts f) = vfTestOnly f"
  by (simp_all add: verify_command_opts_def apply_opts_def WithConcurrency_def WithTableSplits_def WithRowBatchSize_def WithContinuous_def
      WithDBFilter_def WithRowsPerSecond_def WithRows_def WithTestOnly_def)

text \<open>Without flags every table is one shard, read in batches of 20000 rows by as many workers as there are CPUs.\<close>

lemma default_command_workers:
  "numGoroutines env (verify_command_opts (verify_flag_defaults s t)) n = veNumCPU env"
  by (simp add: numGoroutines_def verify_command_opts_fields verify_flag_defaults_def)

section \<open>Validating a configuration\<close>

lemma loaded_config_resolves:
  assumes "LoadConfig decode os path = Inr cfg"
  shows "\<exists>ps. ResolveAllDatabases os (cfgVerify cfg) = Inr ps \<and> ps \<noteq> []"
proof -
  let ?v = "cfgVerify cfg"
  have "config_Validate os cfg = None" using assms by (auto simp: LoadConfig_def split: sum.splits option.splits)
  then have v: "vcDatabases ?v \<noteq> []" "validate_from os ?v [] 0 (vcDatabases ?v) = None"
    by (auto simp: config_Validate_def verify_validate_def split: option.splits if_splits)
  from validate_from_None [OF v(2)] obtain ps where "resolve_from os ?v 0 (vcDatabases ?v) = Inr ps"
    "map rdName ps = map dmName (vcDatabases ?v)" by auto
  then show ?thesis using v(1) by (auto simp: ResolveAllDatabases_def)
qed

definition error_lines :: "log_line list \<Rightarrow> log_line list" where
  "error_lines ls = filter (\<lambda>l. llLevel l = ErrorLevel) ls"

lemma writeJSONCommandError_once:
  "length (error_lines (fst (writeJSONCommandError san fmt e))) +
     (if fst (Execute (Some (snd (writeJSONCommandError san fmt e)))) = [] then 0 else 1) = 1"
  by (auto simp: writeJSONCommandError_def error_lines_def Execute_def IsLoggedCommandError_def nl_def split: option.splits)

lemma Execute_code: "snd (Execute r) = (if r = None then 0 else 1)"
  by (auto simp: Execute_def split: option.splits)

text \<open>\<open>validate-config\<close> accepts exactly the configurations the service can load. It exits with 0 if and only if the log format is
  known and \<open>LoadConfig\<close> succeeds, resolving the databases never fails then; and a failure is reported exactly once,
  as one error line of the JSON log or as text on standard error.\<close>

theorem validate_config_outcome:
  "let r = validateConfigCommand decode os san path fmt
   in (snd (Execute (cmError r)) = 0 \<longleftrightarrow> (fmt = ''text'' \<or> fmt = ''json'') \<and> (\<exists>cfg. LoadConfig decode os path = Inr cfg)) \<and>
    length (error_lines (cmLog r)) + (if fst (Execute (cmError r)) = [] then 0 else 1) = snd (Execute (cmError r))"
proof (cases "newCommandLogger fmt")
  case (Some e)
  then have "validateConfigCommand decode os san path fmt = command_failed ([], PlainError e)" by (simp add: validateConfigCommand_def)
  then show ?thesis using Some
    by (auto simp: command_failed_def newCommandLogger_def error_lines_def Execute_def IsLoggedCommandError_def nl_def split: if_splits)
next
  case ok: None
  then have fmt: "fmt = ''text'' \<or> fmt = ''json''" by (auto simp: newCommandLogger_def split: if_splits)
  show ?thesis
  proof (cases "LoadConfig decode os path")
    case (Inl e)
    then have "validateConfigCommand decode os san path fmt = command_failed (writeJSONCommandError san fmt e)" using ok by (simp add: validateConfigCommand_def)
    then show ?thesis using Inl writeJSONCommandError_once [of san fmt e] by (simp add: command_failed_def Execute_code)
  next
    case (Inr cfg)
    from loaded_config_resolves [OF Inr] obtain dbs where "ResolveAllDatabases os (cfgVerify cfg) = Inr dbs" by blast
    then have "cmError (validateConfigCommand decode os san path fmt) = None \<and>
        error_lines (cmLog (validateConfigCommand decode os san path fmt)) = []"
      using ok Inr by (simp add: validateConfigCommand_def error_lines_def Let_def)
    then show ?thesis using Inr fmt by (simp add: Execute_def)
  qed
qed

text \<open>The same holds for the \<open>run\<close> command, whose error is that of loading the configuration or of the process.\<close>

lemma run_command_error_once:
  fixes decode os san run path fmt
  defines "r \<equiv> runCommand decode os san run path fmt"
  shows "length (error_lines (cmLog r)) + (if fst (Execute (cmError r)) = [] then 0 else 1) = snd (Execute (cmError r))"
proof (cases "newCommandLogger fmt")
  case (Some e)
  then show ?thesis
    by (simp add: r_def runCommand_def command_failed_def error_lines_def Execute_def IsLoggedCommandError_def nl_def)
next
  case ok: None
  show ?thesis
  proof (cases "LoadConfig decode os path")
    case (Inl e)
    then show ?thesis using ok writeJSONCommandError_once [of san fmt e]
      by (simp add: r_def runCommand_def command_failed_def Execute_code)
  next
    case (Inr cfg)
    show ?thesis
    proof (cases "run cfg")
      case None
      then show ?thesis using ok Inr by (simp add: r_def runCommand_def error_lines_def Execute_def Let_def)
    next
      case (Some e)
      then show ?thesis using ok Inr writeJSONCommandError_once [of san fmt e]
        by (auto simp: r_def runCommand_def error_lines_def Execute_code Let_def split: prod.splits)
    qed
  qed
qed

text \<open>The summary of the SSL modes names each mode in use once, in order.\<close>

lemma ssl_summary_single:
  assumes "dbs \<noteq> []" and "\<forall>d \<in> set dbs. summarizeSSLMode (sel d) = m"
  shows "summarizeSSLModeInventory dbs sel = m"
proof -
  have "set (map (summarizeSSLMode \<circ> sel) dbs) = {m}" using assms by (cases dbs) auto
  then have "remdups (map (summarizeSSLMode \<circ> sel) dbs) = [m]"
    by (metis card.empty card_insert_disjoint distinct_remdups empty_iff finite.emptyI length_remdups_card_conv
        length_Suc_conv length_0_conv list.set_intros(1) set_remdups singletonD)
  then show ?thesis using assms(1) by (simp add: summarizeSSLModeInventory_def)
qed

end
