(* ===== verification/Redact.thy ===== *)
theory Redact
  imports Config_Properties Db_Model
begin

text \<open>
  \<open>SanitizeExternalStorageURI\<close> of \<open>utils/redact.go\<close>, which hides the secrets of a URI that is shown, with what it uses of
  \<open>net/url\<close>: \<open>Parse\<close>, \<open>Query\<close> and \<open>String\<close> for any URL.

  The checks on the host of a URL differ between Go releases and are the parameter \<open>parseHost\<close>. An error of
  \<open>Parse\<close> is its text.
\<close>

section \<open>URLs\<close>

record full_url = go_url +
  fuOpaque :: string
  fuForceQuery :: bool
  fuOmitHost :: bool
  fuRawPath :: string
  fuFragment :: string
  fuRawFragment :: string

definition empty_url :: full_url where
  "empty_url = \<lparr>urlScheme = [], urlUser = None, urlHost = [], urlPath = [], urlRawQuery = [], fuOpaque = [], fuForceQuery = False,
     fuOmitHost = False, fuRawPath = [], fuFragment = [], fuRawFragment = []\<rparr>"

text \<open>\<open>strings.Cut\<close> at a byte.\<close>

definition cut :: "char \<Rightarrow> string \<Rightarrow> string \<times> string" where
  "cut c s = (takeWhile (\<lambda>x. x \<noteq> c) s, tl (dropWhile (\<lambda>x. x \<noteq> c) s))"

definition is_ctl :: "char \<Rightarrow> bool" where
  "is_ctl c \<longleftrightarrow> (of_char c :: nat) < 32 \<or> (of_char c :: nat) = 127"

fun scheme_loop :: "string \<Rightarrow> string \<Rightarrow> string \<Rightarrow> (string \<times> string) option" where
  "scheme_loop raw acc [] = Some ([], raw)"
| "scheme_loop raw acc (c # cs) =
     (if is_letter c then scheme_loop raw (acc @ [c]) cs
      else if is_digit c \<or> c \<in> set ''+-.'' then (if acc = [] then Some ([], raw) else scheme_loop raw (acc @ [c]) cs)
      else if c = CHR '':'' then (if acc = [] then None else Some (acc, cs))
      else Some ([], raw))"

definition getScheme :: "string \<Rightarrow> (string \<times> string) option" where
  "getScheme raw = scheme_loop raw [] raw"

definition escape_error :: string where "escape_error = ''invalid URL escape''"

definition valid_userinfo_char :: "char \<Rightarrow> bool" where
  "valid_userinfo_char c \<longleftrightarrow> is_alnum c \<or> c \<in> set ''-._:~!$&()*+,;=%@'' \<or> c = CHR 0x27"

definition parseUserinfo :: "string \<Rightarrow> string + string \<times> string option" where
  "parseUserinfo ui =
     (if \<not> list_all valid_userinfo_char ui then Inl ''net/url: invalid userinfo''
      else if CHR '':'' \<notin> set ui then
        (case url_unescape EncodeUserPassword ui of None \<Rightarrow> Inl escape_error | Some u \<Rightarrow> Inr (u, None))
      else
        (case (url_unescape EncodeUserPassword (fst (cut (CHR '':'') ui)), url_unescape EncodeUserPassword (snd (cut (CHR '':'') ui))) of
           (Some u, Some p) \<Rightarrow> Inr (u, Some p)
         | _ \<Rightarrow> Inl escape_error))"

definition parseAuthority ::
  "(string \<Rightarrow> string + string) \<Rightarrow> string \<Rightarrow> string + (string \<times> string option) option \<times> string" where
  "parseAuthority parseHost authority =
     (if CHR ''@'' \<notin> set authority then
        (case parseHost authority of Inl m \<Rightarrow> Inl m | Inr host \<Rightarrow> Inr (None, host))
      else
        (case parseHost (rev (fst (cut (CHR ''@'') (rev authority)))) of
           Inl m \<Rightarrow> Inl m
         | Inr host \<Rightarrow>
             (case parseUserinfo (rev (snd (cut (CHR ''@'') (rev authority)))) of
                Inl m \<Rightarrow> Inl m
              | Inr ui \<Rightarrow> Inr (Some ui, host))))"

definition setPath :: "string \<Rightarrow> full_url \<Rightarrow> string + full_url" where
  "setPath p u =
     (case url_unescape EncodePath p of
        None \<Rightarrow> Inl escape_error
      | Some path \<Rightarrow> Inr (u\<lparr>urlPath := path, fuRawPath := (if url_escape EncodePath path = p then [] else p)\<rparr>))"

text \<open>A query that is only a question mark is kept as such.\<close>

definition split_query :: "string \<Rightarrow> string \<times> string \<times> bool" where
  "split_query rest =
     (if rest \<noteq> [] \<and> last rest = CHR ''?'' \<and> length (filter (\<lambda>c. c = CHR ''?'') rest) = 1 then (butlast rest, [], True)
      else (fst (cut (CHR ''?'') rest), snd (cut (CHR ''?'') rest), False))"

definition parse_url :: "(string \<Rightarrow> string + string) \<Rightarrow> string \<Rightarrow> string + full_url" where
  "parse_url parseHost raw =
     (if list_ex is_ctl raw then Inl ''net/url: invalid control character in URL''
      else if raw = ''*'' then Inr (empty_url\<lparr>urlPath := ''*''\<rparr>)
      else case getScheme raw of
        None \<Rightarrow> Inl ''missing protocol scheme''
      | Some (sch, rest0) \<Rightarrow>
          (case split_query rest0 of (rest, rawQuery, force) \<Rightarrow>
             (let scheme = map to_lower_char sch;
                  u = empty_url\<lparr>urlScheme := scheme, urlRawQuery := rawQuery, fuForceQuery := force\<rparr>
              in if take 1 rest \<noteq> ''/'' \<and> scheme \<noteq> [] then Inr (u\<lparr>fuOpaque := rest\<rparr>)
                 else if take 1 rest \<noteq> ''/'' \<and> CHR '':'' \<in> set (fst (cut (CHR ''/'') rest))
                 then Inl ''first path segment in URL cannot contain colon''
                 else if (scheme \<noteq> [] \<or> take 3 rest \<noteq> ''///'') \<and> take 2 rest = ''//'' then
                   (case parseAuthority parseHost (takeWhile (\<lambda>c. c \<noteq> CHR ''/'') (drop 2 rest)) of
                      Inl m \<Rightarrow> Inl m
                    | Inr (user, host) \<Rightarrow>
                        setPath (dropWhile (\<lambda>c. c \<noteq> CHR ''/'') (drop 2 rest)) (u\<lparr>urlUser := user, urlHost := host\<rparr>))
                 else setPath rest (u\<lparr>fuOmitHost := (scheme \<noteq> [] \<and> take 1 rest = ''/'')\<rparr>))))"

text \<open>Fragments have their own set of characters that need no escape.\<close>

definition escape_fragment :: "string \<Rightarrow> string" where
  "escape_fragment s =
     concat (map (\<lambda>c. if is_alnum c \<or> c \<in> set ''-_.~$&+,/:;=?@!()*'' then [c]
       else [CHR ''%'', upper_hex (of_char c div 16), upper_hex (of_char c mod 16)]) s)"

definition url_Parse :: "(string \<Rightarrow> string + string) \<Rightarrow> string \<Rightarrow> full_url result" where
  "url_Parse parseHost raw =
     (case cut (CHR ''#'') raw of (u, frag) \<Rightarrow>
        (case parse_url parseHost u of
           Inl m \<Rightarrow> Inl (ErrMsg (''parse '' @ quoted u @ '': '' @ m))
         | Inr url \<Rightarrow>
             (if frag = [] then Inr url
              else case url_unescape EncodePath frag of
                None \<Rightarrow> Inl (ErrMsg (''parse '' @ quoted raw @ '': '' @ escape_error))
              | Some f \<Rightarrow> Inr (url\<lparr>fuFragment := f, fuRawFragment := (if escape_fragment f = frag then [] else frag)\<rparr>))))"

text \<open>\<open>EscapedPath\<close> and \<open>EscapedFragment\<close> keep the original spelling when it is a valid encoding of the value.\<close>

definition valid_encoded_path :: "string \<Rightarrow> bool" where
  "valid_encoded_path s = list_all (\<lambda>c. c \<in> set ''!$&()*+,;=:@[]%'' \<or> c = CHR 0x27 \<or> \<not> shouldEscape c EncodePath) s"

definition EscapedPath :: "full_url \<Rightarrow> string" where
  "EscapedPath u =
     (if fuRawPath u \<noteq> [] \<and> valid_encoded_path (fuRawPath u) \<and> url_unescape EncodePath (fuRawPath u) = Some (urlPath u)
      then fuRawPath u else escapedPath (urlPath u))"

definition valid_encoded_fragment :: "string \<Rightarrow> bool" where
  "valid_encoded_fragment s = list_all (\<lambda>c. c \<in> set ''!$&()*+,;=:@[]%'' \<or> c = CHR 0x27 \<or> is_alnum c \<or> c \<in> set ''-_.~/?'') s"

definition EscapedFragment :: "full_url \<Rightarrow> string" where
  "EscapedFragment u =
     (if fuRawFragment u \<noteq> [] \<and> valid_encoded_fragment (fuRawFragment u) \<and>
         url_unescape EncodePath (fuRawFragment u) = Some (fuFragment u)
      then fuRawFragment u else escape_fragment (fuFragment u))"

definition full_url_String :: "full_url \<Rightarrow> string" where
  "full_url_String u =
     (let head = (if urlScheme u \<noteq> [] then urlScheme u @ '':'' else []);
          authority =
            (if (urlScheme u \<noteq> [] \<or> urlHost u \<noteq> [] \<or> urlUser u \<noteq> None) \<and> \<not> (fuOmitHost u \<and> urlHost u = [] \<and> urlUser u = None)
             then (if urlHost u \<noteq> [] \<or> urlPath u \<noteq> [] \<or> urlUser u \<noteq> None then ''//'' else []) @
                  (case urlUser u of Some ui \<Rightarrow> userinfo_String ui @ ''@'' | None \<Rightarrow> []) @
                  (if urlHost u \<noteq> [] then url_escape EncodeHost (urlHost u) else [])
             else []);
          path = EscapedPath u;
          slash = (if path \<noteq> [] \<and> hd path \<noteq> CHR ''/'' \<and> urlHost u \<noteq> [] then ''/'' else []);
          dot = (if head @ authority @ slash = [] \<and> CHR '':'' \<in> set (fst (cut (CHR ''/'') path)) then ''./'' else [])
      in head @ (if fuOpaque u \<noteq> [] then fuOpaque u else authority @ slash @ dot @ path) @
         (if fuForceQuery u \<or> urlRawQuery u \<noteq> [] then ''?'' @ urlRawQuery u else []) @
         (if fuFragment u \<noteq> [] then ''#'' @ EscapedFragment u else []))"

section \<open>Queries\<close>

text \<open>\<open>URL.Query\<close> drops the pairs it cannot decode. Values are pairs in order; a key may occur several times.\<close>

definition parse_pair :: "string \<Rightarrow> (string \<times> string) option" where
  "parse_pair s =
     (if CHR '';'' \<in> set s \<or> s = [] then None
      else case (url_unescape EncodeQueryComponent (fst (cut (CHR ''='') s)), url_unescape EncodeQueryComponent (snd (cut (CHR ''='') s))) of
        (Some k, Some v) \<Rightarrow> Some (k, v)
      | _ \<Rightarrow> None)"

definition url_Query :: "string \<Rightarrow> (string \<times> string) list" where
  "url_Query raw = List.map_filter parse_pair (strings_Split raw (CHR ''&''))"

section \<open>SanitizeExternalStorageURI\<close>

definition redactionMarker :: string where "redactionMarker = ''redacted''"
definition RedactedQueryParams :: "string list" where "RedactedQueryParams = []"
definition redactedDatabaseQueryParams :: "string list" where
  "redactedDatabaseQueryParams = [''password'', ''pass'', ''passwd'', ''pwd'', ''sslpassword'']"

definition redact_user :: "string \<times> string option \<Rightarrow> string \<times> string option" where
  "redact_user ui = (case ui of (username, Some p) \<Rightarrow> (username, Some redactionMarker) | (username, None) \<Rightarrow> ui)"

definition redact_query :: "string list \<Rightarrow> (string \<times> string) list \<Rightarrow> (string \<times> string) list" where
  "redact_query extraParams params =
     fold (\<lambda>p q. if p \<in> fst ` set q then query_Set q p redactionMarker else q) (RedactedQueryParams @ extraParams) params"

definition SanitizeExternalStorageURI :: "(string \<Rightarrow> string + string) \<Rightarrow> string list \<Rightarrow> string \<Rightarrow> string result" where
  "SanitizeExternalStorageURI parseHost extraParams path =
     (case url_Parse parseHost path of
        Inl e \<Rightarrow> Inl e
      | Inr uri \<Rightarrow>
          Inr (full_url_String (uri\<lparr>urlUser := map_option redact_user (urlUser uri),
            urlRawQuery := query_Encode (redact_query extraParams (url_Query (urlRawQuery uri)))\<rparr>)))"

end
