(* ===== verification/Redact_Properties.thy ===== *)
theory Redact_Properties
  imports Redact
begin

text \<open>
  What redaction guarantees for the connection strings of the configuration: they parse, and what is shown of them does not depend on the password.
\<close>

section \<open>The characters of encoded text\<close>

lemma upper_hex_elem: "d < 16 \<Longrightarrow> upper_hex d \<in> set ''0123456789ABCDEF''"
proof -
  assume "d < 16"
  moreover have "list_all (\<lambda>d. upper_hex d \<in> set ''0123456789ABCDEF'') [0..<16]" by code_simp
  ultimately show ?thesis unfolding list_all_iff set_upt by (metis atLeastLessThan_iff zero_le)
qed

lemma escape_char_elems:
  assumes "x \<in> set (escape_char mode c)"
  shows "x \<in> set ''+%0123456789ABCDEF'' \<or> (x = c \<and> \<not> shouldEscape c mode)"
proof (cases "c = CHR '' '' \<and> mode = EncodeQueryComponent")
  case True
  then show ?thesis using assms by (simp add: escape_char_def)
next
  case False
  then consider "\<not> shouldEscape c mode" "x = c" | "x = CHR ''%''" | "x = upper_hex (of_char c div 16)" | "x = upper_hex (of_char c mod 16)"
    using assms by (auto simp: escape_char_def split: if_splits)
  then show ?thesis
  proof cases
    case 3
    then show ?thesis using upper_hex_elem [OF of_char_div_16, of c] by simp
  next
    case 4
    then show ?thesis using upper_hex_elem [of "of_char c mod 16"] by simp
  qed simp_all
qed

lemma url_escape_all:
  assumes "list_all P ''+%0123456789ABCDEF''" and "\<And>c. \<not> shouldEscape c mode \<Longrightarrow> P c" and "x \<in> set (url_escape mode s)"
  shows "P x"
proof -
  from assms(3) obtain c where "x \<in> set (escape_char mode c)" by (auto simp: url_escape_def)
  from escape_char_elems [OF this] show "P x" using assms(1,2) unfolding list_all_iff by blast
qed

text \<open>No mode leaves a control character or the start of a fragment as it is.\<close>

definition url_clean :: "char \<Rightarrow> bool" where
  "url_clean c \<longleftrightarrow> \<not> is_ctl c \<and> c \<noteq> CHR ''#''"

definition plain_chars :: string where
  "plain_chars = host_extra @ ''-_.~$&+,/:;=?@''"

lemma plain_split: "c \<in> set ''-_.~'' \<or> c \<in> set ''$&+,/:;=?@'' \<longleftrightarrow> c \<in> set ''-_.~$&+,/:;=?@''"
  by simp

lemma unescaped_plain: "\<not> shouldEscape c mode \<Longrightarrow> is_alnum c \<or> c \<in> set plain_chars"
  unfolding shouldEscape_def plain_chars_def set_append by (metis UnI1 UnI2 plain_split)

lemma alnum_clean: "is_alnum c \<Longrightarrow> url_clean c"
  by (auto simp: is_alnum_def url_clean_def is_ctl_def less_eq_char_def)

lemma unescaped_clean: "\<not> shouldEscape c mode \<Longrightarrow> url_clean c"
proof -
  assume "\<not> shouldEscape c mode"
  moreover have "list_all url_clean plain_chars" by code_simp
  ultimately show ?thesis using unescaped_plain [of c mode] alnum_clean [of c] unfolding list_all_iff by blast
qed

lemma url_escape_clean: "x \<in> set (url_escape mode s) \<Longrightarrow> url_clean x"
proof (rule url_escape_all [where P = url_clean])
  show "list_all url_clean ''+%0123456789ABCDEF''" by code_simp
qed (use unescaped_clean in auto)

lemma url_escape_avoids:
  assumes "shouldEscape x mode" and "x \<notin> set ''+%0123456789ABCDEF''"
  shows "x \<notin> set (url_escape mode s)"
proof
  assume "x \<in> set (url_escape mode s)"
  then obtain c where "x \<in> set (escape_char mode c)" by (auto simp: url_escape_def)
  from escape_char_elems [OF this] show False using assms by blast
qed

lemma url_escape_host: "CHR ''/'' \<notin> set (url_escape EncodeHost s)" "CHR ''?'' \<notin> set (url_escape EncodeHost s)"
    "CHR ''@'' \<notin> set (url_escape EncodeHost s)"
  by (rule url_escape_avoids; code_simp)+

lemma url_escape_path: "CHR ''?'' \<notin> set (url_escape EncodePath s)"
  by (rule url_escape_avoids; code_simp)

lemma url_escape_userinfo:
  assumes "x \<in> set (url_escape EncodeUserPassword s)"
  shows "valid_userinfo_char x"
proof (rule url_escape_all [OF _ _ assms])
  show "list_all valid_userinfo_char ''+%0123456789ABCDEF''" by code_simp
  show "valid_userinfo_char c" if "\<not> shouldEscape c EncodeUserPassword" for c
  proof (cases "is_alnum c")
    case False
    then have "shouldEscape c EncodeUserPassword =
        (if c \<in> set ''-_.~'' then False else if c \<in> set ''$&+,/:;=?@'' then c \<in> set ''@/?:'' else True)"
      unfolding shouldEscape_def by (simp only: if_False url_mode.case url_mode.distinct simp_thms)
    then have "c \<in> set ''-_.~'' \<or> c \<in> set ''$&+,/:;=?@'' \<and> c \<notin> set ''@/?:''" using that by presburger
    then have "c \<in> set ''-_.~$&+,;=''" by auto
    moreover have "list_all valid_userinfo_char ''-_.~$&+,;=''" by code_simp
    ultimately show ?thesis unfolding list_all_iff by blast
  qed (simp add: valid_userinfo_char_def)
qed

section \<open>Parsing a connection string\<close>

lemma cut_none: "c \<notin> set s \<Longrightarrow> cut c s = (s, [])"
  by (simp add: cut_def takeWhile_all)

lemma cut_append: "c \<notin> set a \<Longrightarrow> cut c (a @ c # b) = (a, b)"
  by (simp add: cut_def takeWhile_stop dropWhile_stop)

lemma user_escape_not: "x \<in> set ''@/?:'' \<Longrightarrow> x \<notin> set (url_escape EncodeUserPassword s)"
  by (rule escape_user_not)

lemma parseUserinfo_escaped:
  "parseUserinfo (url_escape EncodeUserPassword u @ CHR '':'' # url_escape EncodeUserPassword p) = Inr (u, Some p)"
proof -
  let ?E = "url_escape EncodeUserPassword"
  have "valid_userinfo_char (CHR '':'')" by code_simp
  then have "list_all valid_userinfo_char (?E u @ CHR '':'' # ?E p)"
    using url_escape_userinfo [of _ u] url_escape_userinfo [of _ p] by (auto simp: list_all_iff)
  moreover have "cut (CHR '':'') (?E u @ CHR '':'' # ?E p) = (?E u, ?E p)" by (rule cut_append) (simp add: user_escape_not)
  ultimately show ?thesis by (simp add: parseUserinfo_def url_unescape_escape)
qed

lemma parseAuthority_user:
  assumes "CHR ''@'' \<notin> set H" and "parseHost H = Inr h" and "parseUserinfo A = Inr ui"
  shows "parseAuthority parseHost (A @ CHR ''@'' # H) = Inr (Some ui, h)"
proof -
  have "cut (CHR ''@'') (rev H @ CHR ''@'' # rev A) = (rev H, rev A)" by (rule cut_append) (use assms(1) in simp)
  then show ?thesis using assms by (simp add: parseAuthority_def)
qed

lemma split_query_first:
  assumes "CHR ''?'' \<notin> set B" and "Q \<noteq> []"
  shows "split_query (B @ CHR ''?'' # Q) = (B, Q, False)"
proof -
  have "\<not> (last (B @ CHR ''?'' # Q) = CHR ''?'' \<and> length (filter (\<lambda>c. c = CHR ''?'') (B @ CHR ''?'' # Q)) = 1)"
  proof
    assume a: "last (B @ CHR ''?'' # Q) = CHR ''?'' \<and> length (filter (\<lambda>c. c = CHR ''?'') (B @ CHR ''?'' # Q)) = 1"
    then have "CHR ''?'' \<in> set Q" using assms(2) last_in_set [of Q] by auto
    then have "filter (\<lambda>c. c = CHR ''?'') Q \<noteq> []" by (auto simp: filter_empty_conv)
    with a show False by simp
  qed
  moreover have "cut (CHR ''?'') (B @ CHR ''?'' # Q) = (B, Q)" using assms(1) by (rule cut_append)
  ultimately show ?thesis unfolding split_query_def by simp
qed

lemma getScheme_postgresql: "getScheme (''postgresql://'' @ s) = Some (''postgresql'', ''//'' @ s)"
  by (simp add: getScheme_def is_letter_def is_digit_def less_eq_char_def)

text \<open>Everything but the user is determined by what follows it.\<close>

definition parsed_connection :: "string \<times> string option \<Rightarrow> string \<Rightarrow> string \<Rightarrow> string \<Rightarrow> full_url" where
  "parsed_connection ui host path query =
     empty_url\<lparr>urlScheme := ''postgresql'', urlRawQuery := query, urlUser := Some ui, urlHost := host, urlPath := path\<rparr>"

lemma url_Parse_connection:
  fixes A path query hostport
  defines "H \<equiv> url_escape EncodeHost hostport" and "P \<equiv> url_escape EncodePath path"
  assumes "parseUserinfo A = Inr ui" and "\<forall>c \<in> set A. url_clean c \<and> c \<noteq> CHR ''/'' \<and> c \<noteq> CHR ''?''"
    and "parseHost H = Inr h" and "query \<noteq> []" and "\<forall>c \<in> set query. url_clean c" and "P \<noteq> []" and "hd P = CHR ''/''"
  shows "url_Parse parseHost (''postgresql://'' @ A @ CHR ''@'' # H @ P @ CHR ''?'' # query) = Inr (parsed_connection ui h path query)"
proof -
  let ?B = "''//'' @ A @ CHR ''@'' # H @ P"
  let ?raw = "''postgresql://'' @ A @ CHR ''@'' # H @ P @ CHR ''?'' # query"
  have "list_all url_clean ''postgresql://''" "url_clean (CHR ''@'')" "url_clean (CHR ''?'')" by code_simp+
  moreover have "list_all url_clean A" "list_all url_clean query" using assms(4,7) by (simp_all add: list_all_iff)
  moreover have "list_all url_clean H" "list_all url_clean P" by (simp_all add: H_def P_def list_all_iff url_escape_clean)
  ultimately have "list_all url_clean ?raw" by (simp only: list_all_append list.pred_inject simp_thms)
  then have cl: "url_clean x" if "x \<in> set ?raw" for x using that unfolding list_all_iff by blast
  then have nofrag: "cut (CHR ''#'') ?raw = (?raw, [])" by (intro cut_none) (auto simp: url_clean_def)
  have noctl: "\<not> list_ex is_ctl ?raw" using cl unfolding list_ex_iff url_clean_def by blast
  have sch: "getScheme ?raw = Some (''postgresql'', ''//'' @ A @ CHR ''@'' # H @ P @ CHR ''?'' # query)"
    by (rule getScheme_postgresql)
  have q: "CHR ''?'' \<notin> set ?B"
    using assms(4) url_escape_host(2) url_escape_path unfolding H_def P_def by auto
  have split: "split_query (''//'' @ A @ CHR ''@'' # H @ P @ CHR ''?'' # query) = (?B, query, False)"
    using split_query_first [OF q assms(6)] by simp
  have slash: "CHR ''/'' \<notin> set (A @ CHR ''@'' # H)"
    using assms(4) url_escape_host(1) unfolding H_def by auto
  obtain P' where P': "P = CHR ''/'' # P'" using assms(8,9) by (cases P) auto
  have auth: "takeWhile (\<lambda>c. c \<noteq> CHR ''/'') (A @ CHR ''@'' # H @ P) = A @ CHR ''@'' # H"
    "dropWhile (\<lambda>c. c \<noteq> CHR ''/'') (A @ CHR ''@'' # H @ P) = P"
    using takeWhile_stop [OF slash, of P'] dropWhile_stop [OF slash, of P'] unfolding P' by simp_all
  have pa: "parseAuthority parseHost (A @ CHR ''@'' # H) = Inr (Some ui, h)"
    by (rule parseAuthority_user [of H parseHost h A, OF _ assms(5,3)]) (simp add: H_def url_escape_host(3))
  have low: "map to_lower_char ''postgresql'' = ''postgresql''" by code_simp
  have sp: "setPath P v = Inr (v\<lparr>urlPath := path, fuRawPath := []\<rparr>)" for v
    by (simp add: setPath_def P_def url_unescape_escape)
  have "parse_url parseHost ?raw = Inr (parsed_connection ui h path query)"
    using noctl sch split auth pa low sp
    by (simp add: parse_url_def Let_def parsed_connection_def empty_url_def)
  then show ?thesis using nofrag by (simp add: url_Parse_def)
qed

lemma url_escape_user_part:
  "c \<in> set (url_escape EncodeUserPassword s) \<Longrightarrow> url_clean c \<and> c \<noteq> CHR ''/'' \<and> c \<noteq> CHR ''?''"
  using url_escape_clean [of c] user_escape_not [of "CHR ''/''" s] user_escape_not [of "CHR ''?''" s] by auto

lemma userinfo_part:
  "c \<in> set (url_escape EncodeUserPassword u @ CHR '':'' # url_escape EncodeUserPassword p) \<Longrightarrow>
     url_clean c \<and> c \<noteq> CHR ''/'' \<and> c \<noteq> CHR ''?''"
proof -
  have "url_clean (CHR '':'')" by code_simp
  then show "c \<in> set (url_escape EncodeUserPassword u @ CHR '':'' # url_escape EncodeUserPassword p) \<Longrightarrow>
     url_clean c \<and> c \<noteq> CHR ''/'' \<and> c \<noteq> CHR ''?''" using url_escape_user_part by auto
qed

lemma strings_Join_elems: "x \<in> set (strings_Join xs sep) \<Longrightarrow> x \<in> set sep \<or> (\<exists>y \<in> set xs. x \<in> set y)"
  by (induction xs sep rule: strings_Join.induct) auto

lemma query_Encode_clean: "c \<in> set (query_Encode q) \<Longrightarrow> url_clean c"
proof -
  have sep: "url_clean (CHR ''&'')" "url_clean (CHR ''='')" by code_simp+
  assume "c \<in> set (query_Encode q)"
  then show "url_clean c"
    unfolding query_Encode_def using sep url_escape_clean by (fastforce dest!: strings_Join_elems)
qed

lemma strings_Join_nonempty: "xs \<noteq> [] \<Longrightarrow> \<forall>x \<in> set xs. x \<noteq> [] \<Longrightarrow> strings_Join xs sep \<noteq> []"
  by (induction xs sep rule: strings_Join.induct) auto

lemma query_Encode_nonempty: "q \<noteq> [] \<Longrightarrow> query_Encode q \<noteq> []"
proof -
  assume "q \<noteq> []"
  then have "sort_key fst q \<noteq> []" by (metis length_0_conv length_sort)
  then show ?thesis unfolding query_Encode_def by (intro strings_Join_nonempty) auto
qed

definition connection_query :: "resolved_connection \<Rightarrow> (string \<times> string) list" where
  "connection_query c =
     (let q0 = query_Set [] ''sslmode'' (rcSSLMode c);
          q1 = (if dtCACertPath (rcTLS c) \<noteq> [] then query_Set q0 ''sslrootcert'' (dtCACertPath (rcTLS c)) else q0)
      in if dtClientCertPath (rcTLS c) \<noteq> []
         then query_Set (query_Set q1 ''sslcert'' (dtClientCertPath (rcTLS c))) ''sslkey'' (dtClientKeyPath (rcTLS c)) else q1)"

lemma connection_query_nonempty: "connection_query c \<noteq> []"
  by (simp add: connection_query_def query_Set_def Let_def)

abbreviation host_port :: "resolved_connection \<Rightarrow> string" where
  "host_port c \<equiv> JoinHostPort (rcHost c) (ItoaInt (rcPort c))"

lemma ConnectionString_parts:
  assumes "p \<noteq> []"
  shows "ConnectionString (c\<lparr>rcPassword := p\<rparr>) =
    ''postgresql://'' @ url_escape EncodeUserPassword (rcUsername c) @ CHR '':'' # url_escape EncodeUserPassword p @ CHR ''@'' #
    url_escape EncodeHost (host_port c) @ url_escape EncodePath (CHR ''/'' # rcDatabase c) @ CHR ''?'' # query_Encode (connection_query c)"
proof -
  have slash: "\<not> shouldEscape (CHR ''/'') EncodePath" by code_simp
  have path: "escapedPath (CHR ''/'' # rcDatabase c) = url_escape EncodePath (CHR ''/'' # rcDatabase c)"
    "hd (url_escape EncodePath (CHR ''/'' # rcDatabase c)) = CHR ''/''"
    using slash by (simp_all add: escapedPath_def url_escape_def escape_char_def)
  have "host_port c \<noteq> []" by (simp add: JoinHostPort_def)
  then show ?thesis using assms path query_Encode_nonempty [OF connection_query_nonempty, of c]
    by (cases "dtCACertPath (rcTLS c) = []"; cases "dtClientCertPath (rcTLS c) = []")
      (simp_all add: ConnectionString_def connection_query_def url_String_def userinfo_String_def Let_def)
qed

lemma read_user_of:
  "read_user (''postgresql://'' @ url_escape EncodeUserPassword u @ CHR '':'' # url_escape EncodeUserPassword p @ CHR ''@'' # rest) =
     (Some u, Some p)"
proof -
  let ?E = "url_escape EncodeUserPassword"
  have at: "CHR ''@'' \<notin> set (?E s)" "CHR '':'' \<notin> set (?E s)" for s by (rule escape_user_not; simp)+
  have "takeWhile (\<lambda>x. x \<noteq> CHR ''@'') (?E u @ CHR '':'' # ?E p @ CHR ''@'' # rest) = ?E u @ CHR '':'' # ?E p"
    using takeWhile_stop [of "CHR ''@''" "?E u @ CHR '':'' # ?E p" rest] by (simp add: at)
  then show ?thesis by (simp add: read_user_def takeWhile_stop dropWhile_stop at url_unescape_escape)
qed

section \<open>Redaction of connection strings\<close>

text \<open>What is shown of a connection with a password, given its host as it was parsed.\<close>

definition shown_connection :: "resolved_connection \<Rightarrow> string \<Rightarrow> string" where
  "shown_connection c h =
     full_url_String ((parsed_connection (rcUsername c, Some redactionMarker) h (CHR ''/'' # rcDatabase c) [])
       \<lparr>urlRawQuery := query_Encode (redact_query redactedDatabaseQueryParams (url_Query (query_Encode (connection_query c))))\<rparr>)"

lemma sanitized_connection:
  assumes "parseHost (url_escape EncodeHost (host_port c)) = Inr h" and "p \<noteq> []"
  shows "SanitizeExternalStorageURI parseHost redactedDatabaseQueryParams (ConnectionString (c\<lparr>rcPassword := p\<rparr>)) =
    Inr (shown_connection c h)"
proof -
  let ?path = "CHR ''/'' # rcDatabase c" and ?q = "query_Encode (connection_query c)"
  have slash: "\<not> shouldEscape (CHR ''/'') EncodePath" by code_simp
  then have path: "url_escape EncodePath ?path \<noteq> []" "hd (url_escape EncodePath ?path) = CHR ''/''"
    by (simp_all add: url_escape_def escape_char_def)
  have "url_Parse parseHost (ConnectionString (c\<lparr>rcPassword := p\<rparr>)) = Inr (parsed_connection (rcUsername c, Some p) h ?path ?q)"
    using url_Parse_connection [where parseHost = parseHost and hostport = "host_port c" and query = ?q, OF
        parseUserinfo_escaped _ assms(1) query_Encode_nonempty [OF connection_query_nonempty] _ path, of "rcUsername c" p]
      userinfo_part query_Encode_clean by (simp add: ConnectionString_parts [OF assms(2)])
  then show ?thesis
    by (simp add: SanitizeExternalStorageURI_def parsed_connection_def empty_url_def redact_user_def shown_connection_def)
qed

lemma shown_connection_user: "read_user (shown_connection c h) = (Some (rcUsername c), Some ''redacted'')"
proof -
  obtain rest where "shown_connection c h = ''postgresql://'' @ url_escape EncodeUserPassword (rcUsername c) @ CHR '':'' #
      url_escape EncodeUserPassword ''redacted'' @ CHR ''@'' # rest"
    by (simp add: shown_connection_def full_url_String_def parsed_connection_def empty_url_def userinfo_String_def Let_def redactionMarker_def)
  then show ?thesis using read_user_of by simp
qed

text \<open>C14: what is shown of a connection string does not depend on its password. For a connection of the configuration whose host is
  accepted, redacting its connection string gives one text for all passwords, and the password that can be read from it is the
  redaction marker; the user name is kept.\<close>

theorem connection_string_redacted:
  assumes "parseHost (url_escape EncodeHost (host_port c)) = Inr h"
  shows "\<exists>shown. read_user shown = (Some (rcUsername c), Some ''redacted'') \<and>
    (\<forall>p. p \<noteq> [] \<longrightarrow>
       SanitizeExternalStorageURI parseHost redactedDatabaseQueryParams (ConnectionString (c\<lparr>rcPassword := p\<rparr>)) = Inr shown)"
  using sanitized_connection [where parseHost = parseHost, OF assms] shown_connection_user by blast

definition secret_connection :: resolved_connection where
  "secret_connection = \<lparr>rcHost = ''db'', rcPort = 5432, rcDatabase = ''app'', rcUsername = ''ops'', rcPassword = ''p@ss:word'',
     rcSSLMode = ''require'', rcTLS = \<lparr>dtCACertPath = [], dtClientCertPath = [], dtClientKeyPath = []\<rparr>\<rparr>"

theorem connection_string_redacted_witness:
  "\<exists>shown. SanitizeExternalStorageURI Inr redactedDatabaseQueryParams (ConnectionString secret_connection) = Inr shown \<and>
     read_user shown = (Some ''ops'', Some ''redacted'')"
proof -
  have "secret_connection\<lparr>rcPassword := ''p@ss:word''\<rparr> = secret_connection" by (simp add: secret_connection_def)
  moreover have "(Inr :: string \<Rightarrow> string + string) (url_escape EncodeHost (host_port secret_connection)) =
      Inr (url_escape EncodeHost (host_port secret_connection))" by (rule refl)
  from connection_string_redacted [where parseHost = Inr and c = secret_connection, OF this] obtain shown where "read_user shown = (Some (rcUsername secret_connection), Some ''redacted'')"
    "SanitizeExternalStorageURI Inr redactedDatabaseQueryParams (ConnectionString (secret_connection\<lparr>rcPassword := ''p@ss:word''\<rparr>)) = Inr shown"
    by blast
  ultimately show ?thesis by (auto simp: secret_connection_def)
qed

end
