(* ===== verification/Db_Conn.thy ===== *)
theory Db_Conn
  imports Redact_Properties
begin

text \<open>
  \<open>dbconn\<close>: opening a connection from a connection string (\<open>dbconn.go\<close>, \<open>pg.go\<close>), the type map of a connection
  (\<open>GetDataType\<close>), \<open>CheckIfAfterVersion\<close> of \<open>crdb.go\<close> and the connection for tests of \<open>fake.go\<close>.

  Parsing a configuration, dialling and the queries are those of pgx, the parameter \<open>pgx_lib\<close>.
\<close>

section \<open>Connections\<close>

record 'cfg pgx_lib =
  pxParseConfig :: "string \<Rightarrow> 'cfg result"
  pxConnectConfig :: "'cfg \<Rightarrow> unit result"
  pxVersion :: "'cfg \<Rightarrow> string result"
  pxConnString :: "'cfg \<Rightarrow> string"
  pxDatabase :: "'cfg \<Rightarrow> string"

record 'cfg pg_connection =
  pcId :: string
  pcConfig :: 'cfg
  pcVersion :: string
  pcConnStr :: string
  pcIsCockroach :: bool
  pcDatabase :: string
  pcTestOnly :: bool

text \<open>\<open>strings.Contains\<close>, \<open>strings.SplitN(s, sep, 2)[0]\<close> and the replacement of every occurrence of a literal, for a non-empty
  pattern.\<close>

fun strings_Contains :: "string \<Rightarrow> string \<Rightarrow> bool" where
  "strings_Contains [] p = (p = [])"
| "strings_Contains (c # cs) p = (take (length p) (c # cs) = p \<or> strings_Contains cs p)"

fun before_sep :: "string \<Rightarrow> string \<Rightarrow> string" where
  "before_sep [] sep = []"
| "before_sep (c # cs) sep = (if take (length sep) (c # cs) = sep then [] else c # before_sep cs sep)"

function replace_all :: "string \<Rightarrow> string \<Rightarrow> string \<Rightarrow> string" where
  "replace_all p r [] = []"
| "replace_all p r (c # cs) =
     (if p \<noteq> [] \<and> take (length p) (c # cs) = p then r @ replace_all p r (drop (length p) (c # cs)) else c # replace_all p r cs)"
  by pat_completeness auto
termination
  by (relation "measure (\<lambda>(p, r, s). length s)") (auto simp: neq_Nil_conv)

definition ConnectPGConfig :: "'cfg pgx_lib \<Rightarrow> string \<Rightarrow> 'cfg \<Rightarrow> bool \<Rightarrow> 'cfg pg_connection result" where
  "ConnectPGConfig L i cfg testOnly =
     (case pxConnectConfig L cfg of
        Inl e \<Rightarrow> Inl (ErrWrap ''error connect'' e)
      | Inr u \<Rightarrow>
          (case pxVersion L cfg of
             Inl e \<Rightarrow> Inl e
           | Inr version \<Rightarrow>
               Inr \<lparr>pcId = i, pcConfig = cfg, pcVersion = version,
                    pcConnStr = (if testOnly then replace_all ''defaultdb'' (pxDatabase L cfg) (pxConnString L cfg) else pxConnString L cfg),
                    pcIsCockroach = strings_Contains version ''CockroachDB'', pcDatabase = pxDatabase L cfg, pcTestOnly = False\<rparr>))"

definition ConnectPG :: "'cfg pgx_lib \<Rightarrow> string \<Rightarrow> string \<Rightarrow> 'cfg pg_connection result" where
  "ConnectPG L i connStr =
     (case pxParseConfig L connStr of Inl e \<Rightarrow> Inl e | Inr cfg \<Rightarrow> ConnectPGConfig L i cfg False)"

definition PGConn_Clone :: "'cfg pgx_lib \<Rightarrow> 'cfg pg_connection \<Rightarrow> 'cfg pg_connection result" where
  "PGConn_Clone L c = ConnectPGConfig L (pcId c) (pcConfig c) (pcTestOnly c)"

definition PGConn_Dialect :: "'cfg pg_connection \<Rightarrow> string" where
  "PGConn_Dialect c = (if pcIsCockroach c then ''CockroachDB'' else ''PostgreSQL'')"

text \<open>\<open>URL.Hostname\<close> and \<open>URL.Port\<close>.\<close>

definition valid_optional_port :: "string \<Rightarrow> bool" where
  "valid_optional_port s = (case s of [] \<Rightarrow> True | c # cs \<Rightarrow> c = CHR '':'' \<and> list_all is_digit cs)"

definition split_host_port :: "string \<Rightarrow> string \<times> string" where
  "split_host_port hostPort =
     (let (rport, rhost) = cut (CHR '':'') (rev hostPort); port = rev rport;
          (host, p) = (if CHR '':'' \<in> set hostPort \<and> valid_optional_port (CHR '':'' # port) then (rev rhost, port) else (hostPort, []))
      in (if host \<noteq> [] \<and> hd host = CHR ''['' \<and> last host = CHR '']'' then butlast (tl host) else host, p))"

definition Connect ::
  "'cfg pgx_lib \<Rightarrow> (string \<Rightarrow> string + string) \<Rightarrow> string \<Rightarrow> string \<Rightarrow> 'cfg pg_connection result" where
  "Connect L parseHost preferredID connStr =
     (if connStr = [] then Inl (ErrMsg ''empty connection string'')
      else let before = before_sep connStr ''://''
           in if strings_Contains before ''postgres'' then
                (case url_Parse parseHost connStr of
                   Inl e \<Rightarrow> Inl (ErrWrap (''unable to parse url: '' @ connStr) e)
                 | Inr u \<Rightarrow>
                     ConnectPG L
                       (if preferredID = [] then (case split_host_port (urlHost u) of (h, p) \<Rightarrow> h @ '':'' @ p) else preferredID) connStr)
              else Inl (ErrMsg (''only postgres and postgresql schemes are supported, got '' @ before @ '' from '' @ connStr)))"

section \<open>The type map\<close>

record pg_type =
  ptName :: string
  ptOID :: oid

type_synonym type_map = "oid \<rightharpoonup> pg_type"

text \<open>\<open>regtype\<close> and \<open>load\<close> are the two queries; \<open>isPG\<close> whether the connection is a \<open>*PGConn\<close>. The type of any enum has OID 3500.\<close>

definition GetDataType ::
  "(oid \<Rightarrow> string result) \<Rightarrow> (string \<Rightarrow> pg_type result) \<Rightarrow> bool \<Rightarrow> oid \<Rightarrow> type_map \<Rightarrow> pg_type result \<times> type_map" where
  "GetDataType regtype load isPG t tm =
     (case tm t of
        Some typ \<Rightarrow> (Inr typ, tm)
      | None \<Rightarrow>
          (if t = 3500 then (Inr \<lparr>ptName = ''enum'', ptOID = t\<rparr>, tm)
           else if \<not> isPG then
             (Inl (ErrMsg (''only postgres types expected here, got *dbconn.PGConn, OID '' @ Itoa (unat t))), tm)
           else case regtype t of
             Inl e \<Rightarrow> (Inl (ErrWrap (''error getting data type info for oid '' @ Itoa (unat t)) e), tm)
           | Inr typName \<Rightarrow>
               (case load typName of
                  Inl e \<Rightarrow> (Inl (ErrWrap (''error loading type '' @ typName) e), tm)
                | Inr typ \<Rightarrow> (Inr typ, tm(ptOID typ \<mapsto> typ)))))"

definition CheckIfAfterVersion :: "(string \<Rightarrow> bool result) \<Rightarrow> string \<Rightarrow> bool result" where
  "CheckIfAfterVersion query version =
     (case query (''SELECT crdb_internal.is_at_least_version('' @ [CHR 0x27] @ version @ [CHR 0x27] @ '');'') of
        Inl e \<Rightarrow> Inl (ErrWrap (''failed checking if the version of crdb is at least '' @ version) e)
      | Inr b \<Rightarrow> Inr b)"

section \<open>What a connection is\<close>

text \<open>A second request for a type that was loaded is answered from the type map, without a query.\<close>

lemma GetDataType_cached:
  assumes "GetDataType regtype load isPG t tm = (Inr typ, tm')" and "t = 3500 \<or> ptOID typ = t"
  shows "GetDataType regtype' load' isPG' t tm' = (Inr typ, tm')"
  using assms by (auto simp: GetDataType_def split: option.splits if_splits sum.splits)

text \<open>Loading a type keeps every other entry of the map, and an error leaves the map as it was.\<close>

lemma GetDataType_frame:
  assumes "GetDataType regtype load isPG t tm = (r, tm')"
  shows "(\<forall>e. r = Inl e \<longrightarrow> tm' = tm) \<and> (\<forall>typ. r = Inr typ \<longrightarrow> (\<forall>o'. o' \<noteq> ptOID typ \<longrightarrow> tm' o' = tm o'))"
  using assms by (auto simp: GetDataType_def split: option.splits if_splits sum.splits)

text \<open>A clone of a connection is a connection of the same kind to the same database under the same ID, provided the server answers as before.\<close>

lemma clone_same:
  assumes "ConnectPG L i connStr = Inr c"
  shows "PGConn_Clone L c = Inr c"
  using assms by (auto simp: ConnectPG_def PGConn_Clone_def ConnectPGConfig_def split: sum.splits)

text \<open>A connection opened for tests is not: the flag is not stored, so its clone has the connection string of the template database.\<close>

lemma test_clone_differs:
  assumes "ConnectPGConfig L i cfg True = Inr c" and "replace_all ''defaultdb'' (pxDatabase L cfg) (pxConnString L cfg) \<noteq> pxConnString L cfg"
  shows "\<exists>c'. PGConn_Clone L c = Inr c' \<and> pcConnStr c' \<noteq> pcConnStr c"
  using assms by (auto simp: PGConn_Clone_def ConnectPGConfig_def split: sum.splits)

section \<open>Configured connections can be dialled\<close>

lemma ConnectionString_scheme: "\<exists>rest. ConnectionString c = ''postgresql://'' @ rest"
  using ConnectionString_user [of c] by auto

lemma parseUserinfo_name: "parseUserinfo (url_escape EncodeUserPassword u) = Inr (u, None)"
proof -
  have "list_all valid_userinfo_char (url_escape EncodeUserPassword u)" by (simp add: list_all_iff url_escape_userinfo)
  then show ?thesis by (simp add: parseUserinfo_def user_escape_not url_unescape_escape)
qed

lemma ConnectionString_no_password:
  assumes "rcPassword c = []"
  shows "ConnectionString c =
    ''postgresql://'' @ url_escape EncodeUserPassword (rcUsername c) @ CHR ''@'' #
    url_escape EncodeHost (host_port c) @ url_escape EncodePath (CHR ''/'' # rcDatabase c) @ CHR ''?'' # query_Encode (connection_query c)"
proof -
  have slash: "\<not> shouldEscape (CHR ''/'') EncodePath" by code_simp
  have path: "escapedPath (CHR ''/'' # rcDatabase c) = url_escape EncodePath (CHR ''/'' # rcDatabase c)"
    "hd (url_escape EncodePath (CHR ''/'' # rcDatabase c)) = CHR ''/''"
    using slash by (simp_all add: escapedPath_def url_escape_def escape_char_def)
  have "host_port c \<noteq> []" by (simp add: JoinHostPort_def)
  moreover have "userinfo_String (rcUsername c, None) = url_escape EncodeUserPassword (rcUsername c)"
    by (simp add: userinfo_String_def url_escape_def)
  ultimately show ?thesis using assms path query_Encode_nonempty [OF connection_query_nonempty, of c]
    by (cases "dtCACertPath (rcTLS c) = []"; cases "dtClientCertPath (rcTLS c) = []")
      (simp_all add: ConnectionString_def connection_query_def url_String_def Let_def)
qed

lemma url_Parse_ConnectionString:
  assumes "parseHost (url_escape EncodeHost (host_port c)) = Inr h"
  shows "\<exists>ui. url_Parse parseHost (ConnectionString c) =
    Inr (parsed_connection ui h (CHR ''/'' # rcDatabase c) (query_Encode (connection_query c)))"
proof -
  have slash: "\<not> shouldEscape (CHR ''/'') EncodePath" by code_simp
  then have path: "url_escape EncodePath (CHR ''/'' # rcDatabase c) \<noteq> []"
    "hd (url_escape EncodePath (CHR ''/'' # rcDatabase c)) = CHR ''/''" by (simp_all add: url_escape_def escape_char_def)
  note parse = url_Parse_connection [where parseHost = parseHost and hostport = "host_port c"
      and query = "query_Encode (connection_query c)", OF _ _ assms query_Encode_nonempty [OF connection_query_nonempty] _ path]
  show ?thesis
  proof (cases "rcPassword c = []")
    case True
    show ?thesis using parse [OF parseUserinfo_name, of "rcUsername c"] url_escape_user_part query_Encode_clean
      by (auto simp: ConnectionString_no_password [OF True])
  next
    case False
    have "c\<lparr>rcPassword := rcPassword c\<rparr> = c" by (cases c) simp
    then have cs: "ConnectionString c = ConnectionString (c\<lparr>rcPassword := rcPassword c\<rparr>)" by simp
    show ?thesis using parse [OF parseUserinfo_escaped, of "rcUsername c" "rcPassword c"] userinfo_part query_Encode_clean
      unfolding cs ConnectionString_parts [OF False] by auto
  qed
qed

text \<open>A configured connection is dialled as configured. When the host of a resolved connection is accepted, \<open>Connect\<close> hands its connection
  string, whatever its user, password, database and paths contain, to pgx under the given ID: the scheme is recognised and
  the URL parses.\<close>

theorem configured_connection_dialled:
  assumes "parseHost (url_escape EncodeHost (host_port c)) = Inr h" and "preferredID \<noteq> []"
  shows "Connect L parseHost preferredID (ConnectionString c) = ConnectPG L preferredID (ConnectionString c)"
proof -
  from ConnectionString_scheme obtain rest where r: "ConnectionString c = ''postgresql://'' @ rest" by blast
  have "before_sep (''postgresql://'' @ rest) ''://'' = ''postgresql''" by simp
  moreover have "strings_Contains ''postgresql'' ''postgres''" by simp
  ultimately show ?thesis
    using url_Parse_ConnectionString [where parseHost = parseHost, OF assms(1)] assms(2) by (auto simp: Connect_def r)
qed

definition demo_pgx :: "string pgx_lib" where
  "demo_pgx = \<lparr>pxParseConfig = Inr, pxConnectConfig = (\<lambda>c. Inr ()), pxVersion = (\<lambda>c. Inr ''PostgreSQL 16''), pxConnString = (\<lambda>c. c),
     pxDatabase = (\<lambda>c. ''app'')\<rparr>"

theorem configured_connection_dialled_witness:
  "\<exists>c. Connect demo_pgx Inr ''source'' (ConnectionString secret_connection) = Inr c \<and> pcId c = ''source'' \<and>
     pcConnStr c = ConnectionString secret_connection"
proof -
  have "(Inr :: string \<Rightarrow> string + string) (url_escape EncodeHost (host_port secret_connection)) =
      Inr (url_escape EncodeHost (host_port secret_connection))" by (rule refl)
  from configured_connection_dialled [where parseHost = Inr and c = secret_connection and preferredID = "''source''" and L = demo_pgx, OF this]
  have "Connect demo_pgx Inr ''source'' (ConnectionString secret_connection) = ConnectPG demo_pgx ''source'' (ConnectionString secret_connection)"
    by simp
  then show ?thesis by (simp add: ConnectPG_def ConnectPGConfig_def demo_pgx_def)
qed

end
