(* ===== verification/Error_Redaction.thy ===== *)
theory Error_Redaction
  imports Redact_Properties
begin

text \<open>
  Connection strings inside operator errors (\<open>verifyservice/error.go\<close> with
  \<open>utils/redact.go\<close>). The locale \<open>uri_redactor\<close> is what \<open>sanitizeOperatorText\<close> relies on:
  a family of secret URIs that the scanner finds whole and whose sanitised form does not depend on the
  secret. It is interpreted on the connection strings of the configuration, the URI scanner and
  \<open>SanitizeExternalStorageURI\<close>.
\<close>

section \<open>A text is sanitised piece by piece\<close>

lemma scheme_uri_char: "is_scheme_char c \<Longrightarrow> is_uri_char c"
  by (auto simp: is_scheme_char_def is_letter_def is_digit_def is_uri_char_def less_eq_char_def)

lemma suffix_uri_char: "is_uri_suffix c \<Longrightarrow> is_uri_char c"
  by (auto simp: is_uri_suffix_def is_uri_char_def)

text \<open>A text that ends in white space or a quote has all its matches inside: what follows cannot change them.\<close>

lemma match_uri_append:
  assumes "a \<noteq> []" "\<not> is_uri_char (last a)"
  shows "match_uri (a @ t) = map_option (\<lambda>(u, r). (u, r @ t)) (match_uri a)"
proof -
  obtain c cs where a: "a = c # cs" using assms(1) by (cases a) auto
  show ?thesis
  proof (cases "is_letter c")
    case True
    then have "is_uri_char c" by (simp add: scheme_uri_char is_scheme_char_def)
    then have cs: "cs \<noteq> []" "\<not> is_uri_char (last cs)" using assms(2) a by (auto split: if_splits)
    then have x: "last cs \<in> set cs" "\<not> is_scheme_char (last cs)" using scheme_uri_char by auto
    define r1 where "r1 = dropWhile is_scheme_char cs"
    have r1: "takeWhile is_scheme_char (cs @ t) = takeWhile is_scheme_char cs" "dropWhile is_scheme_char (cs @ t) = r1 @ t"
      using x by (auto simp: r1_def)
    have "r1 \<noteq> []" using x by (auto simp: r1_def)
    then have l: "\<not> is_uri_char (last r1)" using cs(2) by (metis r1_def last_appendR takeWhile_dropWhile_id)
    have sep: "is_uri_char (CHR '':'')" "is_uri_char (CHR ''/'')" by code_simp+
    show ?thesis
    proof (cases "take 3 r1 = ''://''")
      case True
      then have t: "take 3 (r1 @ t) = ''://''" "3 \<le> length r1" by (auto simp: take_Cons' split: if_splits dest!: arg_cong [of _ _ length])
      have "r1 = ''://'' @ drop 3 r1" using append_take_drop_id [of 3 r1] True by simp
      then have "drop 3 r1 \<noteq> []" using l sep by (metis append_Nil2 last.simps list.distinct(1))
      then have y: "last (drop 3 r1) \<in> set (drop 3 r1)" "\<not> is_uri_char (last (drop 3 r1))"
        using l \<open>r1 = ''://'' @ drop 3 r1\<close> by (metis last_in_set, metis last_appendR)
      have "takeWhile is_uri_char (drop 3 (r1 @ t)) = takeWhile is_uri_char (drop 3 r1)"
        "dropWhile is_uri_char (drop 3 (r1 @ t)) = dropWhile is_uri_char (drop 3 r1) @ t"
        using y t(2) by auto
      then show ?thesis using True t(1) r1 by (simp add: a match_uri_def Let_def flip: r1_def)
    next
      case False
      have "take 3 (r1 @ t) \<noteq> ''://''"
      proof
        assume e: "take 3 (r1 @ t) = ''://''"
        then have "length r1 < 3" using False by (cases "length r1 < 3") auto
        then obtain ys where "r1 @ ys = ''://''" using e by auto
        then have "set r1 \<subseteq> set ''://''" by (metis Un_upper1 set_append)
        then show False using l sep last_in_set [OF \<open>r1 \<noteq> []\<close>] by auto
      qed
      then show ?thesis using False r1 by (simp add: a match_uri_def Let_def flip: r1_def)
    qed
  qed (simp add: a match_uri_def)
qed

lemma sanitize_append:
  "a = [] \<or> \<not> is_uri_char (last a) \<Longrightarrow>
   sanitizeOperatorText san (a @ t) = sanitizeOperatorText san a @ sanitizeOperatorText san t"
proof (induction "length a" arbitrary: a rule: less_induct)
  case less
  have nil: "sanitizeOperatorText san [] = []" by (simp add: sanitizeOperatorText.simps match_uri_def)
  show ?case
  proof (cases a)
    case Nil
    then show ?thesis by (simp add: nil)
  next
    case (Cons c cs)
    then have l: "a \<noteq> []" "\<not> is_uri_char (last a)" using less.prems by auto
    show ?thesis
    proof (cases "match_uri a")
      case None
      have "cs = [] \<or> \<not> is_uri_char (last cs)" using l Cons by auto
      from less.hyps [OF _ this] show ?thesis
        using None match_uri_append [OF l, of t] Cons
        by (simp add: sanitizeOperatorText.simps [of san "c # cs @ t"] sanitizeOperatorText.simps [of san "c # cs"])
    next
      case (Some ur)
      obtain u r where ur: "ur = (u, r)" by (cases ur)
      have s: "a = u @ r" "u \<noteq> []" using match_uri_split Some ur by auto
      then have "r = [] \<or> \<not> is_uri_char (last r)" using l by auto
      from less.hyps [OF _ this] show ?thesis
        using Some ur s match_uri_append [OF l, of t]
        by (simp add: sanitizeOperatorText.simps [of san "u @ r @ t"] sanitizeOperatorText.simps [of san "u @ r"])
    qed
  qed
qed

text \<open>Where a URI may stand in a text: after text that ends in white space or a quote, if any, and an opening such as a
  bracket, a name and an equals sign, without a colon and not running into the scheme; before closing
  punctuation, if any, and then white space, a quote or the end.\<close>

definition uri_context :: "string \<Rightarrow> string \<Rightarrow> string \<Rightarrow> string \<Rightarrow> bool" where
  "uri_context before opening punct rest \<longleftrightarrow>
     (before = [] \<or> \<not> is_uri_char (last before)) \<and>
     CHR '':'' \<notin> set opening \<and> (opening = [] \<or> \<not> is_scheme_char (last opening)) \<and>
     list_all is_uri_suffix punct \<and> (rest = [] \<or> \<not> is_uri_char (hd rest))"

section \<open>The interface of redaction\<close>

locale uri_redactor =
  fixes san :: "string \<Rightarrow> string result" and ok :: "'c \<Rightarrow> bool" and uri :: "'c \<Rightarrow> string \<Rightarrow> string" and shown :: "'c \<Rightarrow> string"
  assumes san_uri: "ok c \<Longrightarrow> p \<noteq> [] \<Longrightarrow> san (uri c p) = Inr (shown c)"
    and uri_found: "ok c \<Longrightarrow> p \<noteq> [] \<Longrightarrow> list_all is_uri_suffix punct \<Longrightarrow> rest = [] \<or> \<not> is_uri_char (hd rest) \<Longrightarrow>
      match_uri ((uri c p @ punct) @ rest) = Some (uri c p @ punct, rest)"
    and uri_whole: "ok c \<Longrightarrow> p \<noteq> [] \<Longrightarrow> list_all is_uri_suffix punct \<Longrightarrow>
      splitOperatorURISuffix (uri c p @ punct) = (uri c p, punct)"
begin

lemma text_hides_secret:
  assumes "ok c" and "p \<noteq> []" and "uri_context before opening punct rest"
  shows "sanitizeOperatorText san (before @ opening @ uri c p @ punct @ rest) =
    sanitizeOperatorText san before @ opening @ shown c @ punct @ sanitizeOperatorText san rest"
proof -
  have ctx: "before = [] \<or> \<not> is_uri_char (last before)" "CHR '':'' \<notin> set opening" "opening = [] \<or> \<not> is_scheme_char (last opening)"
    "list_all is_uri_suffix punct" "rest = [] \<or> \<not> is_uri_char (hd rest)" using assms(3) by (simp_all add: uri_context_def)
  have "redact_uri san (uri c p @ punct) = shown c @ punct"
    by (simp add: redact_uri_def uri_whole [OF assms(1,2) ctx(4)] san_uri [OF assms(1,2)])
  then show ?thesis
    using sanitize_append [OF ctx(1), of san "opening @ (uri c p @ punct) @ rest"]
      sanitize_before_uri [OF ctx(2,3) uri_found [OF assms(1,2) ctx(4,5)], of san] by simp
qed

end

section \<open>Connection strings are found in a text\<close>

text \<open>Quotes end a connection string in a text; every part but the host escapes them.\<close>

definition quote_marks :: string where
  "quote_marks = [CHR 0x22, CHR 0x27]"

lemma quotes_escaped: "q \<in> set quote_marks \<Longrightarrow> mode \<noteq> EncodeHost \<Longrightarrow> shouldEscape q mode"
proof -
  have "list_all (\<lambda>q. shouldEscape q EncodePath \<and> shouldEscape q EncodeUserPassword \<and> shouldEscape q EncodeQueryComponent) quote_marks"
    by code_simp
  then show "q \<in> set quote_marks \<Longrightarrow> mode \<noteq> EncodeHost \<Longrightarrow> shouldEscape q mode"
    unfolding list_all_iff by (cases mode) blast+
qed

lemma unescaped_uri_char:
  assumes "\<not> shouldEscape c mode" and "mode = EncodeHost \<longrightarrow> c \<notin> set quote_marks"
  shows "is_uri_char c"
proof (cases "is_alnum c")
  case True
  then show ?thesis by (auto simp: is_alnum_def is_uri_char_def less_eq_char_def)
next
  case False
  have "c \<notin> set quote_marks" using assms quotes_escaped by blast
  moreover have "list_all (\<lambda>c. c \<in> set quote_marks \<or> is_uri_char c) plain_chars" by code_simp
  ultimately show ?thesis using unescaped_plain [OF assms(1)] False unfolding list_all_iff by blast
qed

lemma url_escape_uri_char:
  assumes "x \<in> set (url_escape mode s)" and "mode = EncodeHost \<longrightarrow> set s \<inter> set quote_marks = {}"
  shows "is_uri_char x"
proof -
  from assms(1) obtain c where c: "c \<in> set s" "x \<in> set (escape_char mode c)" by (auto simp: url_escape_def)
  have hex: "list_all is_uri_char ''+%0123456789ABCDEF''" by code_simp
  from escape_char_elems [OF c(2)] show ?thesis
  proof
    assume "x \<in> set ''+%0123456789ABCDEF''"
    then show ?thesis using hex unfolding list_all_iff by blast
  next
    assume "x = c \<and> \<not> shouldEscape c mode"
    then show ?thesis using unescaped_uri_char [of c mode] assms(2) c(1) by blast
  qed
qed

lemma query_Encode_uri_char: "x \<in> set (query_Encode q) \<Longrightarrow> is_uri_char x"
proof -
  have sep: "is_uri_char (CHR ''&'')" "is_uri_char (CHR ''='')" by code_simp+
  assume "x \<in> set (query_Encode q)"
  then show "is_uri_char x"
    unfolding query_Encode_def using sep url_escape_uri_char [of _ EncodeQueryComponent] by (fastforce dest!: strings_Join_elems)
qed

lemma match_uri_postgresql:
  assumes "body \<noteq> []" and "list_all is_uri_char body" and "rest = [] \<or> \<not> is_uri_char (hd rest)"
  shows "match_uri (''postgresql://'' @ body @ rest) = Some (''postgresql://'' @ body, rest)"
proof -
  have "takeWhile is_uri_char (body @ rest) = body" "dropWhile is_uri_char (body @ rest) = rest"
    using assms(2,3) by (induction body) (cases rest; simp)+
  then show ?thesis using assms(1)
    by (simp add: match_uri_def is_scheme_char_def is_letter_def is_digit_def less_eq_char_def Let_def)
qed

lemma splitOperatorURISuffix_whole:
  assumes "raw \<noteq> []" "\<not> is_uri_suffix (last raw)" "list_all is_uri_suffix punct"
  shows "splitOperatorURISuffix (raw @ punct) = (raw, punct)"
proof -
  have "dropWhile is_uri_suffix (rev raw) = rev raw" using assms(1,2) by (cases raw rule: rev_cases) auto
  moreover have "dropWhile is_uri_suffix (rev punct @ rev raw) = dropWhile is_uri_suffix (rev raw)"
    by (rule dropWhile_append2) (use assms(3) in \<open>simp add: list_all_iff\<close>)
  ultimately have "dropWhile is_uri_suffix (rev (raw @ punct)) = rev raw" by simp
  then show ?thesis using assms(1) by (simp add: splitOperatorURISuffix_def Let_def)
qed

section \<open>Connection strings in operator errors\<close>

text \<open>The host is accepted by the parser of URLs and has no quotes, and the string does not end in punctuation.\<close>

definition shown_host :: "(string \<Rightarrow> string + string) \<Rightarrow> resolved_connection \<Rightarrow> string" where
  "shown_host parseHost c = projr (parseHost (url_escape EncodeHost (host_port c)))"

definition plain_connection :: "(string \<Rightarrow> string + string) \<Rightarrow> resolved_connection \<Rightarrow> bool" where
  "plain_connection parseHost c \<longleftrightarrow>
     parseHost (url_escape EncodeHost (host_port c)) = Inr (shown_host parseHost c) \<and> set (host_port c) \<inter> set quote_marks = {} \<and>
     \<not> is_uri_suffix (last (query_Encode (connection_query c)))"

lemma ConnectionString_uri_chars:
  assumes "set (host_port c) \<inter> set quote_marks = {}" and "p \<noteq> []"
  shows "\<exists>body. ConnectionString (c\<lparr>rcPassword := p\<rparr>) = ''postgresql://'' @ body \<and> body \<noteq> [] \<and> list_all is_uri_char body \<and>
    last body = last (query_Encode (connection_query c))"
proof -
  have sep: "is_uri_char (CHR '':'')" "is_uri_char (CHR ''@'')" "is_uri_char (CHR ''?'')" by code_simp+
  have e: "list_all is_uri_char (url_escape EncodeUserPassword s)" "list_all is_uri_char (url_escape EncodePath s)" for s
    using url_escape_uri_char [of _ EncodeUserPassword s] url_escape_uri_char [of _ EncodePath s] by (simp_all add: list_all_iff)
  have h: "list_all is_uri_char (url_escape EncodeHost (host_port c))"
    using url_escape_uri_char [of _ EncodeHost "host_port c"] assms(1) unfolding list_all_iff by blast
  have q: "list_all is_uri_char (query_Encode (connection_query c))" by (simp add: list_all_iff query_Encode_uri_char)
  have ne: "query_Encode (connection_query c) \<noteq> []" by (rule query_Encode_nonempty [OF connection_query_nonempty])
  show ?thesis unfolding ConnectionString_parts [OF assms(2)]
    by (intro exI conjI, rule refl) (use sep e h q ne in simp_all)
qed

interpretation connections: uri_redactor "SanitizeExternalStorageURI parseHost redactedDatabaseQueryParams" "plain_connection parseHost"
  "\<lambda>c p. ConnectionString (c\<lparr>rcPassword := p\<rparr>)" "\<lambda>c. shown_connection c (shown_host parseHost c)"
proof unfold_locales
  fix c :: resolved_connection and p punct rest :: string
  assume ok: "plain_connection parseHost c" and p: "p \<noteq> []"
  then have q: "set (host_port c) \<inter> set quote_marks = {}" by (simp add: plain_connection_def)
  from ConnectionString_uri_chars [OF q p] obtain body where body: "ConnectionString (c\<lparr>rcPassword := p\<rparr>) = ''postgresql://'' @ body"
    "body \<noteq> []" "list_all is_uri_char body" "last body = last (query_Encode (connection_query c))" by blast
  show "SanitizeExternalStorageURI parseHost redactedDatabaseQueryParams (ConnectionString (c\<lparr>rcPassword := p\<rparr>)) =
      Inr (shown_connection c (shown_host parseHost c))"
    by (rule sanitized_connection) (use ok p in \<open>simp_all add: plain_connection_def\<close>)
  assume punct: "list_all is_uri_suffix punct"
  show "splitOperatorURISuffix (ConnectionString (c\<lparr>rcPassword := p\<rparr>) @ punct) = (ConnectionString (c\<lparr>rcPassword := p\<rparr>), punct)"
    by (rule splitOperatorURISuffix_whole [OF _ _ punct]) (use ok body in \<open>simp_all add: plain_connection_def\<close>)
  assume rest: "rest = [] \<or> \<not> is_uri_char (hd rest)"
  have "list_all is_uri_char (body @ punct)" using body(3) punct suffix_uri_char by (auto simp: list_all_iff)
  from match_uri_postgresql [OF _ this rest] body(2)
  show "match_uri ((ConnectionString (c\<lparr>rcPassword := p\<rparr>) @ punct) @ rest) = Some (ConnectionString (c\<lparr>rcPassword := p\<rparr>) @ punct, rest)"
    by (simp add: body(1))
qed

text \<open>C35: the password of a configured connection is not shown where its connection string is body in an error. Let a text
  contain the connection string of a connection whose host the parser of URLs accepts and has no quotes and
  whose string does not end in punctuation, in a \<open>uri_context\<close>: after white space, a quote, a bracket or an assignment,
  before closing punctuation and then white space, a quote or the end. When the text is the message of
  an operator error or the reason of one of its details, what an operator is shown of it is the same for every password: the
  sanitised text before, the connection with the redaction marker, and the sanitised text after.\<close>

theorem operator_error_hides_password:
  fixes parseHost
  defines "san \<equiv> SanitizeExternalStorageURI parseHost redactedDatabaseQueryParams"
  assumes "plain_connection parseHost c" and "p \<noteq> []" and "uri_context before opening punct rest"
    and "body = before @ opening @ ConnectionString (c\<lparr>rcPassword := p\<rparr>) @ punct @ rest"
    and "clean = sanitizeOperatorText san before @ opening @ shown_connection c (shown_host parseHost c) @ punct @
      sanitizeOperatorText san rest"
  shows "opMessage (payload san (Some (OperatorError category code body details cause))) = clean \<and>
    (\<forall>i < length details. odReason (details ! i) = body \<longrightarrow>
      odReason (opDetails (payload san (Some (OperatorError category code message details cause))) ! i) = clean)"
proof -
  have "sanitizeOperatorText san body = clean"
    unfolding assms(5,6) san_def by (rule connections.text_hides_secret [OF assms(2-4)])
  then show ?thesis by (simp add: payload_def sanitizeOperatorErrorDetails_def)
qed

definition quoting :: "string \<Rightarrow> string" where
  "quoting uri = ''verify execution failed: dial ('' @ uri @ '') refused''"

theorem operator_error_hides_password_witness:
  "let shown = quoting (shown_connection secret_connection (url_escape EncodeHost (host_port secret_connection)));
       e = OperatorError ''c'' ''d'' (quoting (ConnectionString secret_connection))
         [OperatorErrorDetail [] (quoting (ConnectionString secret_connection))] None;
       view = payload (SanitizeExternalStorageURI Inr redactedDatabaseQueryParams) (Some e)
   in opMessage view = shown \<and> odReason (opDetails view ! 0) = shown"
proof -
  let ?san = "SanitizeExternalStorageURI Inr redactedDatabaseQueryParams"
  have same: "secret_connection\<lparr>rcPassword := ''p@ss:word''\<rparr> = secret_connection" by (simp add: secret_connection_def)
  have host: "shown_host Inr secret_connection = url_escape EncodeHost (host_port secret_connection)" by (simp add: shown_host_def)
  have marks: "set (host_port secret_connection) \<inter> set quote_marks = {}"
    by (simp add: secret_connection_def JoinHostPort_def ItoaInt_def Itoa.simps digit_char_def quote_marks_def) code_simp
  have suffix: "\<not> is_uri_suffix (last (query_Encode (connection_query secret_connection)))" by code_simp
  have plain: "plain_connection Inr secret_connection"
    using marks suffix by (simp add: plain_connection_def shown_host_def)
  have ctx: "uri_context ''verify execution failed: dial '' ''('' '')'' '' refused''" by code_simp
  have clean: "sanitizeOperatorText ?san ''verify execution failed: dial '' = ''verify execution failed: dial ''"
    "sanitizeOperatorText ?san '' refused'' = '' refused''" by code_simp+
  have q: "quoting u = ''verify execution failed: dial '' @ ''('' @ u @ '')'' @ '' refused''" for u by (simp add: quoting_def)
  from operator_error_hides_password [where parseHost = Inr and p = "''p@ss:word''" and category = "''c''" and code = "''d''" and cause = None and
      details = "[OperatorErrorDetail [] (quoting (ConnectionString secret_connection))]" and
      message = "quoting (ConnectionString secret_connection)" and
      body = "quoting (ConnectionString secret_connection)" and
      clean = "quoting (shown_connection secret_connection (url_escape EncodeHost (host_port secret_connection)))", OF plain _ ctx]
  show ?thesis unfolding same host clean Let_def using q by simp
qed

text \<open>A URI that does not parse is shown as it stands, password included: here the text that follows makes the escape
  sequence of its path invalid.\<close>

lemma unparsable_uri_shown:
  "sanitizeOperatorText (SanitizeExternalStorageURI Inr redactedDatabaseQueryParams) ''dial postgresql://ops:secret@db/app%zz'' =
   ''dial postgresql://ops:secret@db/app%zz''"
  by code_simp

end
