(* ===== verification/Http_Api.thy ===== *)
theory Http_Api
  imports Raw_Table Service_Properties
begin

text \<open>
  The HTTP interface of the service: \<open>Handler\<close>, \<open>writeJSON\<close> and \<open>writeJSONError\<close> of \<open>verifyservice/service.go\<close>, the JSON form of
  the views of \<open>job.go\<close>, \<open>result.go\<close>, \<open>error.go\<close> and \<open>raw_table.go\<close>, and the log line of a failed database.

  A request is its method, the decoded segments of its path, as \<open>http.ServeMux\<close> matches them, and its body. Paths that
  \<open>ServeMux\<close> redirects because they are not clean, and the text of a JSON value, are outside the model; the rendering of times is
  the parameter \<open>fmt\<close>. An answer is what the handler writes; the server drops the body of an answer to \<open>HEAD\<close>. The outer \<open>None\<close> of \<open>serve\<close> is a panic.
\<close>

section \<open>The JSON form of views\<close>

definition json_strings :: "string list \<Rightarrow> json" where
  "json_strings xs = JArray (map JString xs)"

definition cloneOrNil_json :: "string list \<Rightarrow> json" where
  "cloneOrNil_json xs = (if length xs = 0 then JNull else json_strings xs)"

text \<open>\<open>encoding/json\<close> writes the keys of a map in order; \<open>omitempty\<close> leaves out a nil or empty map, slice or string.\<close>

definition omit_map :: "string \<Rightarrow> string_map \<Rightarrow> (string \<times> json) list" where
  "omit_map key m =
     (case m of None \<Rightarrow> [] | Some [] \<Rightarrow> [] | Some kvs \<Rightarrow> [(key, JObject (map (\<lambda>(k, v). (k, JString v)) (sort_key fst kvs)))])"

definition omit_strings :: "string \<Rightarrow> string list \<Rightarrow> (string \<times> json) list" where
  "omit_strings key xs = (if xs = [] then [] else [(key, json_strings xs)])"

definition omit_string :: "string \<Rightarrow> string \<Rightarrow> (string \<times> json) list" where
  "omit_string key s = (if s = [] then [] else [(key, JString s)])"

definition findingView_json :: "job_finding \<Rightarrow> json" where
  "findingView_json f =
     JObject ([(''kind'', JString (jfKind f)), (''schema'', JString (fst (jfTable f))), (''table'', JString (snd (jfTable f)))] @
       omit_map ''primary_key'' (jfPrimaryKey f) @ omit_strings ''mismatching_columns'' (jfMismatchingColumns f) @
       omit_map ''source_values'' (jfSourceValues f) @ omit_map ''destination_values'' (jfDestinationValues f) @
       omit_strings ''info'' (jfInfo f) @ omit_string ''message'' (jfMessage f))"

definition detail_json :: "operatorErrorDetail \<Rightarrow> json" where
  "detail_json d = (case d of OperatorErrorDetail fld reason \<Rightarrow> JObject (omit_string ''field'' fld @ omit_string ''reason'' reason))"

definition operatorErrorPayload_json :: "operator_error_payload \<Rightarrow> json" where
  "operatorErrorPayload_json p =
     JObject ([(''category'', JString (opCategory p)), (''code'', JString (opCode p)), (''message'', JString (opMessage p))] @
       (if opDetails p = [] then [] else [(''details'', JArray (map detail_json (opDetails p)))]))"

definition json_option :: "('a \<Rightarrow> json) \<Rightarrow> 'a option \<Rightarrow> json" where
  "json_option f x = (case x of None \<Rightarrow> JNull | Some a \<Rightarrow> f a)"

definition json_time :: "(nat \<Rightarrow> string) \<Rightarrow> nat \<Rightarrow> json" where
  "json_time fmt t = JString (fmt t)"

definition databaseStatusView_json :: "(nat \<Rightarrow> string) \<Rightarrow> database_view \<Rightarrow> json" where
  "databaseStatusView_json fmt d =
     JObject [(''name'', JString (dvName d)), (''status'', JString (status_text (dvStatus d))),
       (''started_at'', json_time fmt (dvStartedAt d)), (''finished_at'', json_option (json_time fmt) (dvFinishedAt d)),
       (''schemas'', cloneOrNil_json (dvSchemas d)), (''tables'', cloneOrNil_json (dvTables d)),
       (''rows_checked'', json_option (\<lambda>n. JNumber (Itoa n)) (dvRowsChecked d)),
       (''error'', json_option operatorErrorPayload_json (dvError d)),
       (''findings'', if length (dvFindings d) = 0 then JNull else JArray (map findingView_json (dvFindings d)))]"

definition jobStatusView_json :: "(nat \<Rightarrow> string) \<Rightarrow> job_view \<Rightarrow> json" where
  "jobStatusView_json fmt v =
     JObject [(''job_id'', JString (jvJobID v)), (''status'', JString (status_text (jvStatus v))),
       (''created_at'', json_time fmt (jvCreatedAt v)), (''started_at'', json_time fmt (jvStartedAt v)),
       (''finished_at'', json_option (json_time fmt) (jvFinishedAt v)),
       (''databases'', JArray (map (databaseStatusView_json fmt) (jvDatabases v)))]"

text \<open>The keys of a row are among the columns.\<close>

definition raw_row_json :: "string list \<Rightarrow> (string \<rightharpoonup> json) \<Rightarrow> json" where
  "raw_row_json columns row = JObject (List.map_filter (\<lambda>k. map_option (\<lambda>v. (k, v)) (row k)) (sort (remdups columns)))"

definition rawTableResponse_json :: "raw_table_response \<Rightarrow> json" where
  "rawTableResponse_json r =
     JObject [(''database'', JString (rsDatabase r)), (''side'', JString (rsSide r)), (''schema'', JString (Raw_Table.rsSchema r)),
       (''table'', JString (Raw_Table.rsTable r)), (''columns'', json_strings (rsColumns r)),
       (''rows'', JArray (map (raw_row_json (rsColumns r)) (rsRows r)))]"

fun payload_json :: "(nat \<Rightarrow> string) \<Rightarrow> http_payload \<Rightarrow> json" where
  "payload_json fmt (PJob v) = jobStatusView_json fmt v"
| "payload_json fmt (PJobs vs) = JArray (map (jobStatusView_json fmt) vs)"
| "payload_json fmt (POperatorError p) = JObject [(''error'', operatorErrorPayload_json p)]"
| "payload_json fmt (PError m) = JObject [(''error'', JString m)]"

section \<open>Routing\<close>

record http_request =
  hqMethod :: string
  hqPath :: "string list"
  hqBody :: "decode_step \<times> decode_step"

datatype route = PostJobs | GetJobs | GetJob string | PostJobStop string | PostTablesRaw | GetMetrics

text \<open>The patterns registered by \<open>Handler\<close>, by method and path. A wildcard matches one segment that is not empty.\<close>

fun match_route :: "string \<Rightarrow> string list \<Rightarrow> route option" where
  "match_route method [a] =
     (if a = ''jobs'' then (if method = ''POST'' then Some PostJobs else if method = ''GET'' then Some GetJobs else None)
      else if a = ''metrics'' \<and> method = ''GET'' then Some GetMetrics
      else None)"
| "match_route method [a, b] =
     (if a = ''jobs'' \<and> b \<noteq> [] then (if method = ''GET'' then Some (GetJob b) else None)
      else if a = ''tables'' \<and> b = ''raw'' \<and> method = ''POST'' then Some PostTablesRaw
      else None)"
| "match_route method [a, b, c] =
     (if a = ''jobs'' \<and> b \<noteq> [] \<and> c = ''stop'' \<and> method = ''POST'' then Some (PostJobStop b) else None)"
| "match_route method _ = None"

text \<open>A pattern for \<open>GET\<close> also serves \<open>HEAD\<close>. \<open>Allow\<close> lists the methods that some pattern takes at this path.\<close>

definition mux_handler :: "string \<Rightarrow> string list \<Rightarrow> route option" where
  "mux_handler method path = match_route (if method = ''HEAD'' then ''GET'' else method) path"

definition allowed_methods :: "string list \<Rightarrow> string list" where
  "allowed_methods path = filter (\<lambda>m. mux_handler m path \<noteq> None) [''GET'', ''HEAD'', ''POST'']"

section \<open>Answers\<close>

datatype http_body = JsonBody json | MetricsBody "(string \<times> string list \<times> nat) list" | TextBody string

record http_answer =
  haStatus :: nat
  haContentType :: string
  haAllow :: "string list"
  haBody :: http_body

definition writeJSON :: "nat \<Rightarrow> json \<Rightarrow> http_answer" where
  "writeJSON status j = \<lparr>haStatus = status, haContentType = ''application/json'', haAllow = [], haBody = JsonBody j\<rparr>"

definition write_response :: "(nat \<Rightarrow> string) \<Rightarrow> http_response \<Rightarrow> http_answer" where
  "write_response fmt r = writeJSON (fst r) (payload_json fmt (snd r))"

fun write_raw_response :: "(nat \<Rightarrow> string) \<Rightarrow> nat \<times> raw_http_payload \<Rightarrow> http_answer" where
  "write_raw_response fmt (status, RawTable r) = writeJSON status (rawTableResponse_json r)"
| "write_raw_response fmt (status, HttpPayload p) = write_response fmt (status, p)"

text \<open>\<open>http.Error\<close>: what the mux answers when no pattern matches.\<close>

definition mux_error :: "string list \<Rightarrow> http_answer" where
  "mux_error path =
     (if allowed_methods path = []
      then \<lparr>haStatus = 404, haContentType = ''text/plain; charset=utf-8'', haAllow = [], haBody = TextBody (''404 page not found'' @ [CHR 0x0A])\<rparr>
      else \<lparr>haStatus = 405, haContentType = ''text/plain; charset=utf-8'', haAllow = allowed_methods path,
             haBody = TextBody (''Method Not Allowed'' @ [CHR 0x0A])\<rparr>)"

text \<open>The content type of the metrics is the choice of \<open>promhttp\<close>.\<close>

definition metrics_answer :: "string \<Rightarrow> service \<Rightarrow> http_answer" where
  "metrics_answer contentType s =
     \<lparr>haStatus = 200, haContentType = contentType, haAllow = [], haBody = MetricsBody (metrics_Collect (svStore s))\<rparr>"

record 'v http_env =
  heOS :: os_env
  heSan :: "string \<Rightarrow> string result"
  heRaw :: "'v raw_env"
  heTime :: "nat \<Rightarrow> string"
  heMetricsType :: string

fun serve_route ::
  "'v http_env \<Rightarrow> nat \<Rightarrow> decode_step \<times> decode_step \<Rightarrow> route \<Rightarrow> service \<Rightarrow> (service \<times> raw_event list \<times> http_answer) option" where
  "serve_route E now body PostJobs s =
     (case handlePostJobs (heOS E) (heSan E) body now s of (s', r) \<Rightarrow> Some (s', [], write_response (heTime E) r))"
| "serve_route E now body GetJobs s = Some (s, [], write_response (heTime E) (handleGetJobs (heSan E) s))"
| "serve_route E now body (GetJob jobID) s = Some (s, [], write_response (heTime E) (handleGetJob (heSan E) jobID s))"
| "serve_route E now body (PostJobStop jobID) s =
     (case handlePostJobStop (heSan E) jobID body s of (s', r) \<Rightarrow> Some (s', [], write_response (heTime E) r))"
| "serve_route E now body PostTablesRaw s =
     map_option (\<lambda>(evs, r). (s, evs, write_raw_response (heTime E) r))
       (handlePostTablesRaw (heOS E) (heSan E) (heRaw E) (svVerifyConfig s) body)"
| "serve_route E now body GetMetrics s = Some (s, [], metrics_answer (heMetricsType E) s)"

definition serve ::
  "'v http_env \<Rightarrow> nat \<Rightarrow> http_request \<Rightarrow> service \<Rightarrow> (service \<times> raw_event list \<times> http_answer) option" where
  "serve E now q s =
     (case mux_handler (hqMethod q) (hqPath q) of
        None \<Rightarrow> Some (s, [], mux_error (hqPath q))
      | Some r \<Rightarrow> serve_route E now (hqBody q) r s)"

section \<open>The log of failures\<close>

record job_log_line =
  jlLevel :: string
  jlFields :: "(string \<times> json) list"
  jlMessage :: string

definition logJobFailure :: "(string \<Rightarrow> string result) \<Rightarrow> operatorError \<Rightarrow> job_log_line" where
  "logJobFailure san failure =
     (let view = operator_view san (Some failure)
      in \<lparr>jlLevel = ''error'',
          jlFields = [(''event'', JString ''job.failed''), (''category'', JString (opCategory view)), (''code'', JString (opCode view))] @
            (if length (opDetails view) > 0 then [(''details'', JArray (map detail_json (opDetails view)))] else []),
          jlMessage = opMessage view\<rparr>)"

text \<open>What \<open>runJob\<close> logs at the head of its loop and when \<open>Run\<close> returns.\<close>

definition head_log :: "(string \<Rightarrow> string result) \<Rightarrow> bool \<Rightarrow> job_runner \<Rightarrow> job_log_line list" where
  "head_log san cancelled r =
     (case rnPlans r of
        [] \<Rightarrow> []
      | p # ps \<Rightarrow>
          (if cancelled then []
           else case RunRequest p of Inl err \<Rightarrow> [logJobFailure san (classifyRunFailure err)] | Inr q \<Rightarrow> []))"

definition return_log :: "(string \<Rightarrow> string result) \<Rightarrow> nat \<Rightarrow> go_error option \<Rightarrow> job_runner \<Rightarrow> job_store \<Rightarrow> job_log_line list" where
  "return_log san now err r st =
     (case err of
        Some e \<Rightarrow> (if errors_Is_canceled e then [] else [logJobFailure san (classifyRunFailure e)])
      | None \<Rightarrow>
          (case snd (completeDatabase (rnJobID r) (plan_name (hd (rnPlans r))) now st) of
             Some failure \<Rightarrow> [logJobFailure san failure] | None \<Rightarrow> []))"

end
