(* ===== verification/Http_Properties.thy ===== *)
theory Http_Properties
  imports Http_Api
begin

text \<open>
  What the HTTP interface promises: which requests change the service, what an answer looks like, that an accepted job can be
  read back, and that failures are logged as they are shown.
\<close>

section \<open>Answers\<close>

lemma write_response_simps [simp]:
  "haStatus (write_response fmt r) = fst r" "haBody (write_response fmt r) = JsonBody (payload_json fmt (snd r))"
  by (simp_all add: write_response_def writeJSON_def)

lemma post_outcome:
  "handlePostJobs os san body now s = (s', r) \<Longrightarrow>
     (\<exists>plan j. startJob plan now s = (s', j) \<and> r = (202, PJob (job_response san j))) \<or> s' = s \<and> fst r \<in> {400, 413}"
  by (auto simp: handlePostJobs_def writeDecodeJSONError_def writeOperatorError_def split: sum.splits if_splits option.splits prod.splits)

lemma stop_outcome:
  "handlePostJobStop san k body s = (s', r) \<Longrightarrow>
     (\<exists>j. jsJobs (svStore s) k = Some j \<and> job_active j \<and> fst r = 200) \<or> s' = s \<and> fst r \<in> {400, 404, 413}"
  by (auto simp: handlePostJobStop_def store_stop_def writeDecodeJSONError_def writeOperatorError_def Let_def
      split: sum.splits if_splits option.splits prod.splits)

text \<open>C12: only two requests change the service. When a request leaves a different state, it is a \<open>POST /jobs\<close> answered 202, and one
  job was added, or a \<open>POST /jobs/{job_id}/stop\<close> of a running or stopping job, answered 200. Every other request, whatever its
  method, path and body and whatever error it meets, leaves the service as it was; and only \<open>POST /tables/raw\<close>, with raw output
  enabled, reaches a database.\<close>

theorem error_answers_change_nothing:
  assumes "serve E now q s = Some (s', evs, a)"
  shows "(s' = s \<or>
      mux_handler (hqMethod q) (hqPath q) = Some PostJobs \<and> haStatus a = 202 \<and>
        jsOrder (svStore s') = jsOrder (svStore s) @ [job_id (Suc (svCounter s))] \<or>
      (\<exists>k j. mux_handler (hqMethod q) (hqPath q) = Some (PostJobStop k) \<and> haStatus a = 200 \<and>
        jsJobs (svStore s) k = Some j \<and> job_active j)) \<and>
    (evs = [] \<or> mux_handler (hqMethod q) (hqPath q) = Some PostTablesRaw \<and> vcRawTableOutput (svVerifyConfig s))"
proof (cases "mux_handler (hqMethod q) (hqPath q)")
  case (Some r)
  with assms have sr: "serve_route E now (hqBody q) r s = Some (s', evs, a)" by (simp add: serve_def)
  show ?thesis
  proof (cases r)
    case PostJobs
    then show ?thesis using sr Some
      by (auto simp: startJob_def store_add_def newJob_def Let_def split: prod.splits dest!: post_outcome)
  next
    case (PostJobStop k)
    then show ?thesis using sr Some by (auto split: prod.splits dest!: stop_outcome)
  qed (use sr Some in \<open>auto simp: handlePostTablesRaw_def split: prod.splits if_splits\<close>)
qed (use assms in \<open>auto simp: serve_def\<close>)

section \<open>An accepted job can be read back\<close>

text \<open>The steps that start no further job. What the store keeps when another job is started is left open.\<close>

definition quiet_step :: "'d datum_ops \<Rightarrow> service \<Rightarrow> service \<Rightarrow> bool" where
  "quiet_step D s s' \<longleftrightarrow> service_step D s s' \<and> svCounter s' = svCounter s"

lemma names_kept_by_update:
  "keeps_names f \<Longrightarrow> jsJobs st k = Some j \<Longrightarrow>
   \<exists>j'. jsJobs (update_job i f st) k = Some j' \<and> map djName (jbDatabases j') = map djName (jbDatabases j)"
  by (auto simp: keeps_names_def)

lemma step_keeps_names:
  assumes "service_step D s s'" "svc_inv s" "jsJobs (svStore s) k = Some j"
  shows "\<exists>j'. jsJobs (svStore s') k = Some j' \<and> map djName (jbDatabases j') = map djName (jbDatabases j)"
  using assms
proof (induction rule: service_step.induct)
  case (post s os san body now)
  then show ?case using post_keeps [of s k] by blast
next
  case (stop s san jobID body)
  then have "\<exists>j'. jsJobs (fst (store_stop san jobID (svStore s))) k = Some j' \<and>
      map djName (jbDatabases j') = map djName (jbDatabases j)"
    by (auto simp: jsJobs_stop job_markStopping_def o_def)
  then show ?case using stop_store [of san jobID body s] stop(2) by (metis (no_types))
next
  case (head i s now)
  then show ?case using head_updates [of i now s] names_kept_by_update by metis
next
  case (report i s obj)
  then show ?case using report_updates [of D i obj s] names_kept_by_update by metis
next
  case (return i s now err)
  then show ?case using return_updates [of i now err s] names_kept_by_update by metis
qed (simp_all add: service_Close_def call_cancel_def)

lemma quiet_run_keeps_names:
  assumes "(quiet_step D)\<^sup>*\<^sup>* s s'" "svc_inv s" "jsJobs (svStore s) k = Some j"
  shows "svc_inv s' \<and> (\<exists>j'. jsJobs (svStore s') k = Some j' \<and> map djName (jbDatabases j') = map djName (jbDatabases j))"
  using assms(1)
proof (induction rule: rtranclp_induct)
  case base
  then show ?case using assms(2,3) by blast
next
  case (step s1 s2)
  then have "service_step D s1 s2" by (simp add: quiet_step_def)
  then show ?case using step.IH step_keeps_names [of D s1 s2 k] svc_inv_run [of D s1 s2] by (metis r_into_rtranclp)
qed

lemma get_known:
  assumes "svc_inv s" "jsJobs (svStore s) k = Some j" "k \<noteq> []"
  shows "\<exists>v. jvJobID v = k \<and> map dvName (jvDatabases v) = map djName (jbDatabases j) \<and>
    serve E now \<lparr>hqMethod = ''GET'', hqPath = [''jobs'', k], hqBody = b\<rparr> s =
      Some (s, [], writeJSON 200 (jobStatusView_json (heTime E) v))"
proof -
  have "jbId j = k" using assms(2) svc_inv_store_ok [OF assms(1)] by (auto simp: store_ok_def)
  then show ?thesis using assms(2,3)
    by (intro exI [of _ "job_response (heSan E) j"])
      (simp add: serve_def mux_handler_def handleGetJob_def store_get_def write_response_def job_response_def
        database_response_def o_def)
qed

lemma job_id_nonempty: "job_id n \<noteq> []"
  by (simp add: job_id_def)

text \<open>C13: an accepted job can be read back. In a reachable state let \<open>POST /jobs\<close> be answered 202. The body is
  the view of a job with an id that was not in the store, and as long as no further job is started,
  whatever requests and steps of goroutines follow, \<open>GET /jobs/{job_id}\<close> with that id is answered 200
  with a view of the job of that id over the same databases.\<close>

theorem accepted_job_retrievable:
  assumes "distinct (map dmName (vcDatabases cfg))" and "service_run D (NewService cfg) s"
    and "serve E now \<lparr>hqMethod = ''POST'', hqPath = [''jobs''], hqBody = body\<rparr> s = Some (s1, evs, a)" and "haStatus a = 202"
    and "(quiet_step D)\<^sup>*\<^sup>* s1 s2"
  shows "\<exists>v v'. haBody a = JsonBody (jobStatusView_json (heTime E) v) \<and> jvJobID v \<notin> dom (jsJobs (svStore s)) \<and>
    jvJobID v' = jvJobID v \<and> map dvName (jvDatabases v') = map dvName (jvDatabases v) \<and>
    serve E t \<lparr>hqMethod = ''GET'', hqPath = [''jobs'', jvJobID v], hqBody = b\<rparr> s2 =
      Some (s2, [], writeJSON 200 (jobStatusView_json (heTime E) v'))"
proof -
  obtain r where post: "handlePostJobs (heOS E) (heSan E) body now s = (s1, r)" and a: "a = write_response (heTime E) r"
    using assms(3) by (auto simp: serve_def mux_handler_def split: prod.splits)
  then obtain plan j where plan: "startJob plan now s = (s1, j)" "r = (202, PJob (job_response (heSan E) j))"
    using post_outcome [OF post] assms(4) by auto
  have known: "jsJobs (svStore s1) (jbId j) = Some j" "jbId j \<noteq> []" "jbId j = job_id (Suc (svCounter s))"
    using plan(1) by (auto simp: startJob_def store_add_def newJob_def Let_def job_id_nonempty)
  have inv: "svc_inv s" by (rule reachable_inv [OF assms(1,2)])
  have fresh: "jbId j \<notin> dom (jsJobs (svStore s))"
  proof
    assume "jbId j \<in> dom (jsJobs (svStore s))"
    then have "jbId j \<in> set (jsOrder (svStore s))" using svc_inv_store_ok [OF inv] by (auto simp: store_ok_def)
    then show False using svc_inv_ids [OF inv] known(3) by auto
  qed
  have "svc_inv s1" using svc_inv_post [OF inv, of "heOS E" "heSan E" body now] post by (metis fst_conv)
  from quiet_run_keeps_names [OF assms(5) this known(1)] obtain j' where j': "svc_inv s2"
    "jsJobs (svStore s2) (jbId j) = Some j'" "map djName (jbDatabases j') = map djName (jbDatabases j)" by blast
  obtain v' where v': "jvJobID v' = jbId j" "map dvName (jvDatabases v') = map djName (jbDatabases j')"
    "serve E t \<lparr>hqMethod = ''GET'', hqPath = [''jobs'', jbId j], hqBody = b\<rparr> s2 =
      Some (s2, [], writeJSON 200 (jobStatusView_json (heTime E) v'))"
    using get_known [OF j'(1,2) known(2)] by blast
  have "map dvName (jvDatabases (job_response (heSan E) j)) = map djName (jbDatabases j)"
    by (simp add: job_response_def database_response_def o_def)
  then show ?thesis using v' j'(3) fresh
    by (intro exI [of _ "job_response (heSan E) j"] exI [of _ v'])
      (simp add: a plan(2) write_response_def job_response_def writeJSON_def)
qed

section \<open>Failures are logged as they are shown\<close>

lemma databaseNamed_update:
  "databaseNamed n ds = Some d \<Longrightarrow> djName (f d) = n \<Longrightarrow> databaseNamed n (update_named n f ds) = Some (f d)"
  by (induction ds) (auto split: if_splits)

lemma databaseNamed_map:
  "databaseNamed n ds = Some d \<Longrightarrow> (\<And>x. djName (f x) = djName x) \<Longrightarrow> databaseNamed n (map f ds) = Some (f d)"
  by (induction ds) (auto split: if_splits)

lemma databaseNamed_name: "databaseNamed n ds = Some d \<Longrightarrow> djName d = n \<and> d \<in> set ds"
  by (induction ds) (auto split: if_splits)

lemma databaseNamed_exists: "n \<in> djName ` set ds \<Longrightarrow> \<exists>d. databaseNamed n ds = Some d"
  by (induction ds) auto

lemma databaseNamed_distinct:
  "databaseNamed n ds = Some d \<Longrightarrow> distinct (map djName ds) \<Longrightarrow> d' \<in> set ds \<Longrightarrow> djName d' = n \<Longrightarrow> d' = d"
  by (induction ds) (auto split: if_splits dest: databaseNamed_name)

text \<open>The database that the goroutine is running is live.\<close>

lemma running_database:
  assumes "runner_ok r j" "rnPhase r = InRun"
  obtains d where "databaseNamed (plan_name (hd (rnPlans r))) (jbDatabases j) = Some d" "live d"
proof -
  obtain past todo where dt: "jbDatabases j = past @ todo" "map djName todo = map plan_name (rnPlans r)" "\<forall>d \<in> set todo. live d"
    using runner_ok_open [OF assms(1)] assms(2) by (metis runner_phase.distinct(6))
  have "rnPlans r \<noteq> []" using assms by (simp add: runner_ok_def)
  then obtain t ts where t: "todo = t # ts" "djName t = plan_name (hd (rnPlans r))" using dt(2) by (cases todo; cases "rnPlans r") auto
  have dist: "distinct (map djName (jbDatabases j))" using assms(1) by (simp add: runner_ok_def)
  obtain d where d: "databaseNamed (plan_name (hd (rnPlans r))) (jbDatabases j) = Some d"
    using databaseNamed_exists [of "plan_name (hd (rnPlans r))" "jbDatabases j"] dt(1) t by force
  moreover have "t = d" by (rule databaseNamed_distinct [OF d dist _ t(2)]) (simp add: dt(1) t(1))
  ultimately show ?thesis using that dt(3) t(1) by auto
qed

text \<open>A line shows an error when it has its category, code and message.\<close>

definition line_shows :: "job_log_line \<Rightarrow> operator_error_payload \<Rightarrow> bool" where
  "line_shows l p \<longleftrightarrow> jlMessage l = opMessage p \<and> (''category'', JString (opCategory p)) \<in> set (jlFields l) \<and>
     (''code'', JString (opCode p)) \<in> set (jlFields l)"

lemma log_shows: "line_shows (logJobFailure san f) (payload san (Some f))"
  by (simp add: line_shows_def logJobFailure_def operator_view_def payload_def Let_def)

definition logged_as_shown :: "(string \<Rightarrow> string result) \<Rightarrow> job_log_line list \<Rightarrow> database_job \<Rightarrow> bool" where
  "logged_as_shown san log d \<longleftrightarrow>
     (if djStatus d = Failed then \<exists>l p. log = [l] \<and> dvError (database_response san d) = Some p \<and> line_shows l p else log = [])"

lemma logged_as_shown_Failed:
  "djStatus d = Failed \<Longrightarrow> djErr d = Some f \<Longrightarrow> logged_as_shown san [logJobFailure san f] d"
  using log_shows by (auto simp: logged_as_shown_def database_response_def)

text \<open>C32: failures are logged as they are shown. In a reachable state let the run of a database return, with or without an error. Then
  the database is no longer running, and one line is logged if it failed, with the category, the code and the redacted message that
  the interface shows for it, and none if it succeeded or was stopped.\<close>

theorem failures_logged_as_shown:
  assumes "distinct (map dmName (vcDatabases cfg))" and "service_run D (NewService cfg) s"
    and "i < length (svRunners s)" and "rnPhase (svRunners s ! i) = InRun"
  shows "\<exists>j d. jsJobs (svStore (return_at i now err s)) (rnJobID (svRunners s ! i)) = Some j \<and>
    databaseNamed (plan_name (hd (rnPlans (svRunners s ! i)))) (jbDatabases j) = Some d \<and> \<not> live d \<and>
    logged_as_shown san (return_log san now err (svRunners s ! i) (svStore s)) d"
proof -
  let ?r = "svRunners s ! i" and ?n = "plan_name (hd (rnPlans (svRunners s ! i)))"
  obtain j where j: "jsJobs (svStore s) (rnJobID ?r) = Some j" "runner_ok ?r j"
    using svc_inv_runner_job [OF reachable_inv [OF assms(1,2)] assms(3)] by blast
  obtain d where d: "databaseNamed ?n (jbDatabases j) = Some d" "live d" by (rule running_database [OF j(2) assms(4)])
  have name: "djName d = ?n" using databaseNamed_name [OF d(1)] by simp
  consider (stop) e where "err = Some e" "errors_Is_canceled e" | (fail) e where "err = Some e" "\<not> errors_Is_canceled e"
    | (success) "err = None" by (cases err) auto
  then show ?thesis
  proof cases
    case stop
    have "databaseNamed ?n (jbDatabases (job_stop now j)) = Some (markStopped now d)"
      using databaseNamed_map [OF d(1), of "markStopped now"] by (simp add: job_stop_def job_finish_def)
    moreover have "djStatus (markStopped now d) = Stopped" using d(2) by (auto simp: markStopped_def)
    ultimately show ?thesis using j(1) stop
      by (simp add: return_at_def run_return_def stopJob_def return_log_def logged_as_shown_def)
  next
    case fail
    let ?f = "database_fail now (classifyRunFailure e)"
    have "databaseNamed ?n (jbDatabases (update_database ?n ?f j)) = Some (?f d)"
      using databaseNamed_update [OF d(1), of ?f] name by (simp add: update_database_def)
    moreover have "djStatus (?f d) = Failed" "djErr (?f d) = Some (classifyRunFailure e)" by (simp_all add: database_fail_def)
    ultimately show ?thesis using j(1) fail logged_as_shown_Failed [of "?f d"]
      by (simp add: return_at_def run_return_def failDatabase_def return_log_def)
  next
    case success
    let ?f = "\<lambda>d. fst (database_complete now d)"
    have "databaseNamed ?n (jbDatabases (update_database ?n ?f j)) = Some (?f d)"
      using databaseNamed_update [OF d(1), of ?f] name by (simp add: update_database_def)
    moreover have "snd (completeDatabase (rnJobID ?r) ?n now (svStore s)) = snd (database_complete now d)"
      using j(1) d(1) by (simp add: completeDatabase_def)
    moreover have "(case snd (database_complete now d) of
        Some f \<Rightarrow> djStatus (?f d) = Failed \<and> djErr (?f d) = Some f | None \<Rightarrow> djStatus (?f d) = Succeeded)"
      by (simp add: database_complete_def split: option.splits)
    ultimately show ?thesis using j(1) success logged_as_shown_Failed [of "?f d"]
      by (auto simp: return_at_def run_return_def return_log_def logged_as_shown_def split: option.splits)
  qed
qed

section \<open>Witnesses\<close>

definition demo_env :: "string http_env" where
  "demo_env = \<lparr>heOS = env_example, heSan = Inr,
     heRaw = \<lparr>reConnect = (\<lambda>i c. Inl (ErrMsg ''refused'')), reEscapeSQLIdent = (\<lambda>s. s), reMarshal = Inr, reUnmarshal = (\<lambda>s. Inr (JString s))\<rparr>,
     heTime = Itoa, heMetricsType = ''text/plain''\<rparr>"

definition demo_post_request :: http_request where
  "demo_post_request = \<lparr>hqMethod = ''POST'', hqPath = [''jobs''], hqBody = demo_body\<rparr>"

lemma demo_serve_post:
  "\<exists>a. serve demo_env 0 \<lparr>hqMethod = ''POST'', hqPath = [''jobs''], hqBody = demo_body\<rparr> (NewService cfg_example) = Some (demo_accepted, [], a) \<and>
    haStatus a = 202"
proof -
  have p: "fst (handlePostJobs env_example Inr demo_body 0 (NewService cfg_example)) = demo_accepted"
    by (simp add: demo_post demo_accepted_def NewService_def)
  obtain r where r: "handlePostJobs env_example Inr demo_body 0 (NewService cfg_example) = (demo_accepted, r)"
    using p by (metis prod.collapse)
  have "svCounter demo_accepted \<noteq> svCounter (NewService cfg_example)"
    by (simp add: demo_accepted_def startJob_def NewService_def Let_def)
  then have "fst r = 202" using post_outcome [OF r] by auto
  then show ?thesis using r by (simp add: serve_def mux_handler_def demo_env_def)
qed

theorem error_answers_change_nothing_witness:
  "\<exists>a. serve demo_env 0 demo_post_request (NewService cfg_example) = Some (demo_accepted, [], a) \<and> haStatus a = 202 \<and>
     jsOrder (svStore demo_accepted) = [job_id 1]"
proof -
  obtain a where a: "serve demo_env 0 demo_post_request (NewService cfg_example) = Some (demo_accepted, [], a)"
    using demo_serve_post by (auto simp: demo_post_request_def)
  have "demo_accepted \<noteq> NewService cfg_example" by (auto simp: demo_accepted_def startJob_def NewService_def Let_def)
  moreover have "mux_handler (hqMethod demo_post_request) (hqPath demo_post_request) = Some PostJobs" by code_simp
  ultimately show ?thesis using a error_answers_change_nothing [OF a] by (auto simp: NewService_def newJobStore_def)
qed

theorem accepted_job_retrievable_witness:
  "\<exists>a v v'. serve demo_env 0 demo_post_request (NewService cfg_example) = Some (demo_accepted, [], a) \<and>
     haBody a = JsonBody (jobStatusView_json Itoa v) \<and> jvJobID v' = jvJobID v \<and>
     serve demo_env 9 \<lparr>hqMethod = ''GET'', hqPath = [''jobs'', jvJobID v], hqBody = (DecEOF, DecEOF)\<rparr> demo_running =
       Some (demo_running, [], writeJSON 200 (jobStatusView_json Itoa v'))"
proof -
  obtain a where a: "serve demo_env 0 \<lparr>hqMethod = ''POST'', hqPath = [''jobs''], hqBody = demo_body\<rparr> (NewService cfg_example) =
      Some (demo_accepted, [], a)" "haStatus a = 202" using demo_serve_post by auto
  have "service_step (D :: int datum_ops) demo_accepted demo_running" for D
    unfolding demo_running_def by (rule service_step.head) (simp_all add: demo_phases)
  moreover have "svCounter demo_running = svCounter demo_accepted" by code_simp
  ultimately have run: "(quiet_step (D :: int datum_ops))\<^sup>*\<^sup>* demo_accepted demo_running" for D
    by (simp add: quiet_step_def r_into_rtranclp)
  have t: "heTime demo_env = Itoa" by (simp add: demo_env_def)
  from accepted_job_retrievable [OF demo_config rtranclp.rtrancl_refl a run, of 9 "(DecEOF, DecEOF)"] a(1) show ?thesis
    unfolding t demo_post_request_def by blast
qed

theorem failures_logged_as_shown_witness:
  "\<exists>j d. jsJobs (svStore (return_at 0 2 (Some (ErrMsg ''refused'')) demo_running)) (rnJobID (svRunners demo_running ! 0)) = Some j \<and>
     databaseNamed (plan_name (hd (rnPlans (svRunners demo_running ! 0)))) (jbDatabases j) = Some d \<and> \<not> live d \<and>
     logged_as_shown Inr (return_log Inr 2 (Some (ErrMsg ''refused'')) (svRunners demo_running ! 0) (svStore demo_running)) d"
  by (rule failures_logged_as_shown [OF demo_config demo_reachable(2)]) (simp_all add: demo_phases)

end
