(* ===== verification/Config_Yaml.thy ===== *)
theory Config_Yaml
  imports Config_Properties
begin

text \<open>
  Decoding the configuration (\<open>UnmarshalYAML\<close> and \<open>decodeKnownFieldsNode\<close> of \<open>verifyservice/config.go\<close>). The YAML library is the
  parameter \<open>yaml_lib\<close>: the kind of a node and the decoding of a node, with unknown fields refused, into a string, a credential
  mapping, a verify section or a database mapping.
\<close>

datatype yaml_kind = DocumentNode | SequenceNode | MappingNode | ScalarNode | AliasNode

record 'n verify_config_decode =
  vdSource :: "database_config option"
  vdDestination :: "database_config option"
  vdDatabases :: "'n list"
  vdRawTableOutput :: bool

record 'n yaml_lib =
  ylKind :: "'n \<Rightarrow> yaml_kind"
  ylString :: "'n \<Rightarrow> string result"
  ylCredential :: "'n \<Rightarrow> (string option \<times> string option \<times> string option) result"
  ylVerify :: "'n \<Rightarrow> 'n verify_config_decode result"
  ylMapping :: "'n \<Rightarrow> database_mapping_config result"

definition CredentialValue_UnmarshalYAML :: "'n yaml_lib \<Rightarrow> 'n \<Rightarrow> credential_value result" where
  "CredentialValue_UnmarshalYAML L node =
     (case ylKind L node of
        ScalarNode \<Rightarrow> (case ylString L node of Inl e \<Rightarrow> Inl e | Inr literal \<Rightarrow> Inr (credential_scalar literal))
      | MappingNode \<Rightarrow>
          (case ylCredential L node of
             Inl e \<Rightarrow> Inl e
           | Inr (v, envRef, secretFile) \<Rightarrow> Inr (credential_mapping v envRef secretFile))
      | _ \<Rightarrow> Inl (ErrMsg ''credential value must be a string or mapping object''))"

fun unmarshal_databases :: "'n yaml_lib \<Rightarrow> nat \<Rightarrow> 'n list \<Rightarrow> database_mapping_config list result" where
  "unmarshal_databases L index [] = Inr []"
| "unmarshal_databases L index (node # nodes) =
     (if ylKind L node \<noteq> MappingNode
      then Inl (ErrMsg (''verify.databases['' @ Itoa index @ ''] must be a mapping object''))
      else case ylMapping L node of
        Inl e \<Rightarrow> Inl e
      | Inr database \<Rightarrow>
          (case unmarshal_databases L (Suc index) nodes of Inl e \<Rightarrow> Inl e | Inr databases \<Rightarrow> Inr (database # databases)))"

definition VerifyConfig_UnmarshalYAML :: "'n yaml_lib \<Rightarrow> 'n \<Rightarrow> verify_config result" where
  "VerifyConfig_UnmarshalYAML L node =
     (case ylVerify L node of
        Inl e \<Rightarrow> Inl e
      | Inr decoded \<Rightarrow>
          (case unmarshal_databases L 0 (vdDatabases decoded) of
             Inl e \<Rightarrow> Inl e
           | Inr databases \<Rightarrow>
               Inr \<lparr>vcSource = vdSource decoded, vcDestination = vdDestination decoded, vcDatabases = databases,
                    vcRawTableOutput = vdRawTableOutput decoded\<rparr>))"

section \<open>What is decoded\<close>

text \<open>The databases are those of the list, in its order.\<close>

lemma unmarshal_databases_iff:
  "unmarshal_databases L i nodes = Inr ds \<longleftrightarrow>
     list_all (\<lambda>n. ylKind L n = MappingNode) nodes \<and> map (ylMapping L) nodes = map Inr ds"
proof (induction nodes arbitrary: i ds)
  case (Cons n ns)
  have tail: "unmarshal_databases L (Suc i) ns = Inr xs \<longleftrightarrow> list_all (\<lambda>n. ylKind L n = MappingNode) ns \<and> map (ylMapping L) ns = map Inr xs"
    for xs by (rule Cons.IH)
  show ?case
  proof (cases "ylMapping L n")
    case (Inr d)
    have "unmarshal_databases L i (n # ns) = Inr ds \<longleftrightarrow>
        ylKind L n = MappingNode \<and> (\<exists>xs. unmarshal_databases L (Suc i) ns = Inr xs \<and> ds = d # xs)"
      using Inr by (auto split: sum.splits)
    then show ?thesis unfolding tail using Inr by (cases ds) auto
  qed (cases ds; simp)
qed auto

text \<open>The first entry that is not a mapping or cannot be decoded decides the error.\<close>

lemma unmarshal_databases_error:
  "list_all (\<lambda>n. ylKind L n = MappingNode) before \<Longrightarrow> map (ylMapping L) before = map Inr ds \<Longrightarrow>
   unmarshal_databases L i (before @ n # rest) = Inl e \<longleftrightarrow>
     (if ylKind L n \<noteq> MappingNode then e = ErrMsg (''verify.databases['' @ Itoa (i + length before) @ ''] must be a mapping object'')
      else ylMapping L n = Inl e \<or> (\<exists>d. ylMapping L n = Inr d \<and> unmarshal_databases L (Suc (i + length before)) rest = Inl e))"
proof (induction before arbitrary: i ds)
  case Nil
  then show ?case by (auto split: sum.splits)
next
  case (Cons b bs)
  then obtain d ds' where d: "ylMapping L b = Inr d" "ds = d # ds'" "map (ylMapping L) bs = map Inr ds'" by (cases ds) auto
  have "unmarshal_databases L i ((b # bs) @ n # rest) = Inl e \<longleftrightarrow> unmarshal_databases L (Suc i) (bs @ n # rest) = Inl e"
    using Cons.prems(1) d(1) by (auto split: sum.splits)
  then show ?case using Cons.IH [OF _ d(3), of "Suc i"] Cons.prems(1) by simp
qed

text \<open>A credential that is written, even an empty one, is declared: it replaces the default of its side.\<close>

lemma written_credential_overrides:
  "CredentialValue_UnmarshalYAML L node = Inr v \<Longrightarrow> mergeCredential defaults v = v"
  by (auto simp: CredentialValue_UnmarshalYAML_def mergeCredential_def declared_def credential_scalar_def credential_mapping_def
      split: yaml_kind.splits sum.splits)

lemma scalar_credential_resolves:
  assumes "ylKind L node = ScalarNode" "ylString L node = Inr literal"
  shows "map_sum id (resolveCredential os path) (CredentialValue_UnmarshalYAML L node) =
    Inr (if literal = [] then Inl (newCredentialConfigError (path @ ''.value'') ''must not be empty'') else Inr literal)"
proof -
  have "CredentialValue_UnmarshalYAML L node = Inr (credential_scalar literal)"
    using assms by (simp add: CredentialValue_UnmarshalYAML_def)
  moreover have "resolveCredential os path (credential_scalar literal) =
      (if literal = [] then Inl (newCredentialConfigError (path @ ''.value'') ''must not be empty'') else Inr literal)"
    by (simp add: resolveCredential_def sourceCount_def credential_scalar_def empty_credential_def)
  ultimately show ?thesis by simp
qed

text \<open>A verify section is accepted exactly when it decodes and each of its databases is a mapping that decodes.\<close>

lemma VerifyConfig_UnmarshalYAML_iff:
  "VerifyConfig_UnmarshalYAML L node = Inr cfg \<longleftrightarrow>
     (\<exists>decoded. ylVerify L node = Inr decoded \<and> list_all (\<lambda>n. ylKind L n = MappingNode) (vdDatabases decoded) \<and>
        map (ylMapping L) (vdDatabases decoded) = map Inr (vcDatabases cfg) \<and>
        vcSource cfg = vdSource decoded \<and> vcDestination cfg = vdDestination decoded \<and> vcRawTableOutput cfg = vdRawTableOutput decoded)"
proof -
  have "VerifyConfig_UnmarshalYAML L node = Inr cfg \<longleftrightarrow>
      (\<exists>decoded. ylVerify L node = Inr decoded \<and> unmarshal_databases L 0 (vdDatabases decoded) = Inr (vcDatabases cfg) \<and>
        vcSource cfg = vdSource decoded \<and> vcDestination cfg = vdDestination decoded \<and> vcRawTableOutput cfg = vdRawTableOutput decoded)"
    by (cases cfg) (auto simp: VerifyConfig_UnmarshalYAML_def split: sum.splits)
  then show ?thesis unfolding unmarshal_databases_iff by simp
qed

end
