(* ===== verification/Verify_Metrics.thy ===== *)
theory Verify_Metrics
  imports Row_Properties Fix_Reporter Db_Verify
begin

text \<open>
  \<open>verify/verifymetrics/metrics.go\<close> and what the verification adds to its counters. A counter is read from the list of increments
  (metric with its category, table, amount) that the default listener (\<open>dlMetrics\<close>) and the fix reporter (\<open>fxMetrics\<close>) record; the
  registry and the exposition of Prometheus are outside the model. The gauges of live mode are set from the retry queue and
  \<open>NumShards\<close> counts the workers; they have no counter here.
\<close>

section \<open>Categories and counters\<close>

definition rowStatusCategories :: "string list" where
  "rowStatusCategories = [''extraneous'', ''missing'', ''mismatching'', ''mismatching_column'', ''success'', ''conditional_success'']"

definition tableCategories :: "string list" where
  "tableCategories = [''verified'', ''missing'', ''extraneous'']"

definition fixupCategories :: "string list" where
  "fixupCategories = [''mismatching'', ''missing'', ''extraneous'']"

type_synonym increments = "(string \<times> string \<times> nat) list"

text \<open>\<open>init\<close> creates the counters with value zero.\<close>

definition metrics_init :: increments where
  "metrics_init =
     map (\<lambda>t. (''num_tables:'' @ t, [], 0)) tableCategories @
     map (\<lambda>f. (''num_row_fixups:'' @ f, ''overall'', 0)) fixupCategories @
     map (\<lambda>r. (''row_verification_status:'' @ r, ''overall'', 0)) rowStatusCategories"

definition counter :: "increments \<Rightarrow> string \<Rightarrow> string \<Rightarrow> nat" where
  "counter ms metric table = sum_list (map (\<lambda>(m, t, k). k) (filter (\<lambda>(m, t, k). m = metric \<and> t = table) ms))"

definition reportTableCategories :: "obj_result \<Rightarrow> increments" where
  "reportTableCategories result =
     [(''num_tables:missing'', [], length (orMissingTables result)),
      (''num_tables:extraneous'', [], length (orExtraneousTables result)),
      (''num_tables:verified'', [], length (orVerified result))]"

lemma counter_Nil [simp]: "counter [] m t = 0"
  by (simp add: counter_def)

lemma counter_append [simp]: "counter (xs @ ys) m t = counter xs m t + counter ys m t"
  by (simp add: counter_def)

lemma counter_Cons [simp]: "counter ((m', t', k) # xs) m t = (if m' = m \<and> t' = t then k else 0) + counter xs m t"
  by (simp add: counter_def)

text \<open>The counters of tables after a run of \<open>Verify\<close> in a fresh process.\<close>

lemma table_counters:
  "counter (metrics_init @ reportTableCategories r) ''num_tables:verified'' [] = length (orVerified r)"
  "counter (metrics_init @ reportTableCategories r) ''num_tables:missing'' [] = length (orMissingTables r)"
  "counter (metrics_init @ reportTableCategories r) ''num_tables:extraneous'' [] = length (orExtraneousTables r)"
  by (simp_all add: metrics_init_def tableCategories_def fixupCategories_def rowStatusCategories_def reportTableCategories_def)

section \<open>The counters of rows\<close>

abbreviation row_counter :: "'d default_listener \<Rightarrow> string \<Rightarrow> nat" where
  "row_counter n category \<equiv>
     counter (dlMetrics n) (''row_verification_status:'' @ category) (SchemaTableString (tnSchema (dlTable n)) (tnTable (dlTable n)))"

text \<open>The counters agree with the statistics, and only counters of known categories and of this table are used.\<close>

definition metrics_agree :: "'d default_listener \<Rightarrow> bool" where
  "metrics_agree n \<longleftrightarrow>
     row_counter n ''extraneous'' = rsNumExtraneous (dlStats n) \<and>
     row_counter n ''missing'' = rsNumMissing (dlStats n) \<and>
     row_counter n ''mismatching'' = rsNumMismatch (dlStats n) \<and>
     row_counter n ''mismatching_column'' = rsNumColumnMismatch (dlStats n) \<and>
     row_counter n ''success'' = rsNumSuccess (dlStats n) \<and>
     row_counter n ''conditional_success'' = rsNumConditionalSuccess (dlStats n) \<and>
     counter (dlMetrics n) ''rows_read'' (SchemaTableString (tnSchema (dlTable n)) (tnTable (dlTable n))) = rsNumVerified (dlStats n) \<and>
     list_all (\<lambda>(m, t, k). t = SchemaTableString (tnSchema (dlTable n)) (tnTable (dlTable n)) \<and>
       m \<in> set (''rows_read'' # map (\<lambda>c. ''row_verification_status:'' @ c) rowStatusCategories)) (dlMetrics n)"

lemma metrics_agree_new: "metrics_agree (new_default_listener D table sent)"
  by (simp add: metrics_agree_def new_default_listener_def new_row_stats_def)

lemma metrics_agree_dispatch: "metrics_agree n \<Longrightarrow> metrics_agree (dispatch default_evl e n)"
  by (cases e) (simp_all add: metrics_agree_def listener_defs Let_def rowStatusCategories_def)

lemma metrics_agree_fold: "metrics_agree n \<Longrightarrow> metrics_agree (fold (dispatch default_evl) evs n)"
  by (induction evs arbitrary: n) (simp_all add: metrics_agree_dispatch)

text \<open>C21: the metrics of a shard are its statistics. When the rows of a shard are compared, the counters of row statuses that the run has
  added for the table are, category by category, the numbers of the final statistics of the shard (which the last report carries),
  the counter of rows read is the number of rows of the truth, and no other counter and no other table is touched.\<close>

theorem metrics_match_statistics:
  assumes "shard_world D table (fst (vtColumnOIDs table)) tbl1 conn1"
    and "shard_world D table (snd (vtColumnOIDs table)) tbl2 conn2" and "0 < rowBatchSize"
  shows "\<exists>it1 it2 n. shard_iterator conn1 no_limit table (fst (vtColumnOIDs table)) rowBatchSize = Some (Inr it1) \<and>
    shard_iterator conn2 no_limit table (snd (vtColumnOIDs table)) rowBatchSize = Some (Inr it2) \<and>
    verifyRows D table (scan_ops conn1 no_limit) (scan_ops conn2 no_limit) default_evl it1 it2 (new_default_listener D table sent) =
      Some (None, n) \<and>
    VerifyRowsOnShard D (conn1, conn2) no_limit table rowBatchSize sent =
      Some (None, dlReports n @ [finished_report table (dlStats n)]) \<and>
    metrics_agree n \<and>
    counter (dlMetrics n) ''rows_read'' (SchemaTableString (tnSchema (dlTable n)) (tnTable (dlTable n))) = length (rows_in D table tbl1)"
proof -
  obtain it1 where it1: "shard_iterator conn1 no_limit table (fst (vtColumnOIDs table)) rowBatchSize = Some (Inr it1)"
    "scan_inv D (shard_scan table (fst (vtColumnOIDs table))) tbl1 conn1 it1" "scan_pending D tbl1 it1 = rows_in D table tbl1"
    using shard_iterator_ok [OF assms(1,3)] by blast
  obtain it2 where it2: "shard_iterator conn2 no_limit table (snd (vtColumnOIDs table)) rowBatchSize = Some (Inr it2)"
    "scan_inv D (shard_scan table (snd (vtColumnOIDs table))) tbl2 conn2 it2" "scan_pending D tbl2 it2 = rows_in D table tbl2"
    using shard_iterator_ok [OF assms(2,3)] by blast
  let ?n = "shard_listener D table tbl1 tbl2 sent"
  have "verifyRows D table (scan_ops conn1 no_limit) (scan_ops conn2 no_limit) default_evl it1 it2 (new_default_listener D table sent) =
      Some (None, ?n)"
    using scans.verifyRows_spec [OF it1(2) it2(2), of default_evl "new_default_listener D table sent"] it1(3) it2(3)
    by (simp add: shard_listener_def)
  moreover have "metrics_agree ?n" unfolding shard_listener_def by (intro metrics_agree_fold metrics_agree_new)
  moreover have "rsNumVerified (dlStats ?n) = length (rows_in D table tbl1)" using shard_stats [of D table tbl1 tbl2 sent] by simp
  ultimately show ?thesis using it1(1) it2(1) VerifyRowsOnShard_refines [OF assms, of sent] by (auto simp: metrics_agree_def)
qed

theorem metrics_match_statistics_witness:
  "\<exists>it1 it2 n. verifyRows int_datums (kv_shard [] []) (scan_ops (kv_conn kv_rows) no_limit) (scan_ops (kv_conn kv_rows) no_limit)
      default_evl it1 it2 (new_default_listener int_datums (kv_shard [] []) []) = Some (None, n) \<and>
    counter (dlMetrics n) ''rows_read'' (SchemaTableString (tnSchema (dlTable n)) (tnTable (dlTable n))) = 5"
proof -
  note w = kv_rows_world and r = kv_all_rows
  have "length kv_rows = 5" by (simp add: kv_rows_def)
  then show ?thesis using metrics_match_statistics [OF w w, of 2 "[]"] unfolding r by auto
qed

section \<open>The counters of repairs\<close>

text \<open>Every report that is repaired is counted once, under its kind and its table, and nothing else is.\<close>

lemma count_fixup_counter:
  "counter (fxMetrics (count_fixup obj fx)) m t =
     counter (fxMetrics fx) m t + (case fix_label obj of Some (k, t') \<Rightarrow> (if m = ''num_row_fixups:'' @ k \<and> t = t' then 1 else 0) | None \<Rightarrow> 0)"
  by (auto simp: count_fixup_def split: option.splits)

definition labelled :: "string \<Rightarrow> string \<Rightarrow> 'd report \<Rightarrow> bool" where
  "labelled m t obj \<longleftrightarrow> (case fix_label obj of Some (k, t') \<Rightarrow> m = ''num_row_fixups:'' @ k \<and> t = t' | None \<Rightarrow> False)"

lemma FixReporter_counter:
  "FixReporter_Report isPG exec obj fx = Some fx' \<Longrightarrow>
   counter (fxMetrics fx') m t = counter (fxMetrics fx) m t + (if labelled m t obj then 1 else 0)"
  by (cases obj) (auto simp: FixReporter_Report_def count_fixup_counter labelled_def bind_eq_Some_conv split: if_splits option.splits)

lemma fix_all_counter:
  "fix_all isPG exec objs fx = Some fx' \<Longrightarrow>
   counter (fxMetrics fx') m t = counter (fxMetrics fx) m t + length (filter (labelled m t) objs)"
proof (induction objs arbitrary: fx)
  case (Cons obj objs)
  then obtain fx1 where "FixReporter_Report isPG exec obj fx = Some fx1" "fix_all isPG exec objs fx1 = Some fx'"
    by (auto simp: bind_eq_Some_conv)
  with Cons.IH FixReporter_counter show ?case by fastforce
qed simp

end
