(* ===== verification/Logger_Setup.thy ===== *)
theory Logger_Setup
  imports Log_Reporter
begin

text \<open>
  \<open>Logger\<close> of \<open>moltlogger/logger.go\<close>: where log lines go and from which level on. The file system and the names of the levels
  (\<open>zerolog.ParseLevel\<close>) are parameters; a writer is standard output, as JSON or for a console, or a file. What is written is
  the list of lines per writer.
\<close>

datatype log_writer = Stdout | ConsoleWriter | LogFile string

record logger_config =
  lcLevel :: string
  lcUseConsoleWriter :: bool

definition loggerConfigInst :: logger_config where
  "loggerConfigInst = \<lparr>lcLevel = ''info'', lcUseConsoleWriter = False\<rparr>"

record log_env =
  leDir :: "string \<Rightarrow> string"
  leMkdirAll :: "string \<Rightarrow> go_error option"
  leOpenFile :: "string \<Rightarrow> go_error option"
  leParseLevel :: "string \<Rightarrow> int result"

record logger =
  lgWriters :: "log_writer list"
  lgLevel :: "int option"   \<comment> \<open>\<open>None\<close>: no level was set, every line is written\<close>
  lgTimestamp :: bool

definition log_writers :: "logger_config \<Rightarrow> log_writer list" where
  "log_writers cfg = [if lcUseConsoleWriter cfg then ConsoleWriter else Stdout]"

text \<open>The empty \<open>zerolog.Logger{}\<close> has no writer.\<close>

definition Logger :: "log_env \<Rightarrow> logger_config \<Rightarrow> string \<Rightarrow> logger \<times> go_error option" where
  "Logger E cfg fileName =
     (let none = \<lparr>lgWriters = [], lgLevel = None, lgTimestamp = False\<rparr>;
          with_file = (if fileName \<noteq> [] then
             (case leMkdirAll E (leDir E fileName) of
                Some err \<Rightarrow> Inl err
              | None \<Rightarrow> (case leOpenFile E fileName of Some err \<Rightarrow> Inl err | None \<Rightarrow> Inr (log_writers cfg @ [LogFile fileName])))
           else Inr (log_writers cfg))
      in case with_file of
           Inl err \<Rightarrow> (none, Some err)
         | Inr ws \<Rightarrow>
             (case leParseLevel E (lcLevel cfg) of
                Inl err \<Rightarrow> (\<lparr>lgWriters = ws, lgLevel = None, lgTimestamp = False\<rparr>, Some err)
              | Inr lvl \<Rightarrow> (\<lparr>lgWriters = ws, lgLevel = Some lvl, lgTimestamp = True\<rparr>, None)))"

text \<open>zerolog writes a line of a level to the writer, the multi-writer to each of its writers in order.\<close>

fun level_number :: "log_level \<Rightarrow> int" where
  "level_number InfoLevel = 1"
| "level_number WarnLevel = 2"
| "level_number ErrorLevel = 3"

definition log_to :: "logger \<Rightarrow> log_line list \<Rightarrow> (log_writer \<times> log_line) list" where
  "log_to lg ls =
     concat (map (\<lambda>l. map (\<lambda>w. (w, l)) (lgWriters lg))
       (filter (\<lambda>l. case lgLevel lg of None \<Rightarrow> True | Some lvl \<Rightarrow> lvl \<le> level_number (llLevel l)) ls))"

definition lines_of :: "log_writer \<Rightarrow> (log_writer \<times> log_line) list \<Rightarrow> log_line list" where
  "lines_of w out = map snd (filter (\<lambda>(w', l). w' = w) out)"

lemma filter_eq_distinct: "distinct xs \<Longrightarrow> x \<in> set xs \<Longrightarrow> filter (\<lambda>y. y = x) xs = [x]"
  by (induction xs) (auto simp: filter_empty_conv)

lemma lines_of_log:
  "distinct (lgWriters lg) \<Longrightarrow> w \<in> set (lgWriters lg) \<Longrightarrow>
   lines_of w (log_to lg ls) = filter (\<lambda>l. case lgLevel lg of None \<Rightarrow> True | Some lvl \<Rightarrow> lvl \<le> level_number (llLevel l)) ls"
proof (induction ls)
  case (Cons l ls)
  have "filter (\<lambda>w'. w' = w) (lgWriters lg) = [w]" by (rule filter_eq_distinct [OF Cons.prems])
  then show ?case using Cons by (auto simp: lines_of_def log_to_def filter_map o_def case_prod_unfold)
qed (simp add: lines_of_def log_to_def)

text \<open>A logger without error writes to one standard writer, and to the file if one is named, the same lines: those of its level and above.\<close>

lemma logger_writes_everywhere:
  assumes "Logger E cfg fileName = (lg, None)" and "leParseLevel E (lcLevel cfg) = Inr lvl"
  shows "set (lgWriters lg) = set (log_writers cfg) \<union> (if fileName = [] then {} else {LogFile fileName})"
    and "w \<in> set (lgWriters lg) \<Longrightarrow> lines_of w (log_to lg ls) = filter (\<lambda>l. lvl \<le> level_number (llLevel l)) ls"
proof -
  have lg: "lgWriters lg = log_writers cfg @ (if fileName = [] then [] else [LogFile fileName])" "lgLevel lg = Some lvl"
    using assms by (auto simp: Logger_def Let_def split: if_splits option.splits)
  then show "set (lgWriters lg) = set (log_writers cfg) \<union> (if fileName = [] then {} else {LogFile fileName})" by auto
  have "distinct (lgWriters lg)" by (auto simp: lg(1) log_writers_def)
  then show "w \<in> set (lgWriters lg) \<Longrightarrow> lines_of w (log_to lg ls) = filter (\<lambda>l. lvl \<le> level_number (llLevel l)) ls"
    by (simp add: lines_of_log lg(2))
qed

end
