(* ===== verification/Formatting.thy ===== *)
theory Formatting
  imports Complex_Main Go_Prelude "HOL-Library.Signed_Division"
begin

text \<open>
  \<open>FormatDurationToTimeString\<close> and \<open>MaybeFormatDurationForTest\<close> of \<open>utils/formatting.go\<close>: the text of a duration in the last log line of
  \<open>molt verify\<close>. A duration is a number of nanoseconds. \<open>Duration.Hours\<close>, \<open>Minutes\<close> and \<open>Seconds\<close> compute in \<open>float64\<close>; a float is
  the rational number it stands for and the rounding to the nearest float is the parameter \<open>rnd\<close>.
\<close>

section \<open>Durations as floats\<close>

definition duration_in :: "(rat \<Rightarrow> rat) \<Rightarrow> int \<Rightarrow> int \<Rightarrow> rat" where
  "duration_in rnd unit d =
     (let whole = d sdiv unit; nsec = d smod unit
      in rnd (rnd (of_int whole) + rnd (rnd (of_int nsec) / of_int unit)))"

definition Second :: int where "Second = 10 ^ 9"
definition Minute :: int where "Minute = 60 * Second"
definition Hour :: int where "Hour = 60 * Minute"

text \<open>Conversion of a float to \<open>int\<close> discards the fraction.\<close>

definition float_to_int :: "rat \<Rightarrow> int" where
  "float_to_int x = (if x < 0 then \<lceil>x\<rceil> else \<lfloor>x\<rfloor>)"

text \<open>The verb \<open>%0nd\<close>: the sign counts towards the width.\<close>

definition zero_padded :: "nat \<Rightarrow> string \<Rightarrow> string" where
  "zero_padded width s = replicate (width - length s) (CHR ''0'') @ s"

definition fmt_padded :: "nat \<Rightarrow> int \<Rightarrow> string" where
  "fmt_padded width i =
     (if i < 0 then CHR ''-'' # zero_padded (width - 1) (Itoa (nat (- i))) else zero_padded width (Itoa (nat i)))"

definition FormatDurationToTimeString :: "(rat \<Rightarrow> rat) \<Rightarrow> int \<Rightarrow> string" where
  "FormatDurationToTimeString rnd d =
     (let hours = float_to_int (duration_in rnd Hour d);
          minutes = float_to_int (duration_in rnd Minute d) smod 60;
          seconds = float_to_int (duration_in rnd Second d) smod 60
      in fmt_padded 3 hours @ ''h '' @ fmt_padded 2 minutes @ ''m '' @ fmt_padded 2 seconds @ ''s'')"

definition MaybeFormatDurationForTest :: "bool \<Rightarrow> int \<Rightarrow> int" where
  "MaybeFormatDurationForTest testOnly d = (if \<not> testOnly then d else Second)"

section \<open>Whole seconds are shown exactly\<close>

text \<open>What IEEE 754 promises of rounding to nearest: it is monotonic, keeps integers of 53 bits, and is off by at most one part in
  \<open>2 ^ 53\<close>, here for numbers of moderate size.\<close>

definition float_rounding :: "(rat \<Rightarrow> rat) \<Rightarrow> bool" where
  "float_rounding rnd \<longleftrightarrow> mono rnd \<and> (\<forall>i. \<bar>i\<bar> \<le> 2 ^ 53 \<longrightarrow> rnd (of_int i) = of_int i) \<and>
     (\<forall>x. 1 / 2 ^ 20 \<le> x \<longrightarrow> x \<le> 2 ^ 40 \<longrightarrow> \<bar>rnd x - x\<bar> \<le> x / 2 ^ 53)"

lemma rounding_int: "float_rounding rnd \<Longrightarrow> 0 \<le> i \<Longrightarrow> i \<le> 2 ^ 53 \<Longrightarrow> rnd (of_int i) = of_int i"
  unfolding float_rounding_def by (metis abs_of_nonneg)

lemma rounding_near:
  assumes "float_rounding rnd" "x = 0 \<or> 1 / 2 ^ 20 \<le> x" "x \<le> 2 ^ 40"
  shows "\<bar>rnd x - x\<bar> \<le> x / 2 ^ 53"
proof (cases "x = 0")
  case True
  then show ?thesis using rounding_int [OF assms(1), of 0] by simp
next
  case False
  then show ?thesis using assms unfolding float_rounding_def by blast
qed

text \<open>An integer and a fraction that is not close to one: rounding does not reach the next integer.\<close>

lemma rounding_below:
  assumes fl: "float_rounding rnd" and h: "0 \<le> h" "h \<le> 2 ^ 34" and q: "q = 0 \<or> 1 / 3600 \<le> q" "q \<le> 1 - 1 / 3600"
  shows "\<lfloor>rnd (of_int h + rnd q)\<rfloor> = h" and "0 \<le> rnd (of_int h + rnd q)"
proof -
  have mono: "x \<le> y \<Longrightarrow> rnd x \<le> rnd y" for x y using fl by (simp add: float_rounding_def monoD)
  have "q = 0 \<or> 1 / 2 ^ 20 \<le> q" using q(1) by auto
  then have near: "\<bar>rnd q - q\<bar> \<le> q / 2 ^ 53" using rounding_near [OF fl] q(2) by simp
  have b1: "rnd q \<le> q + q / 2 ^ 53" using near by linarith
  have b2: "q - q / 2 ^ 53 \<le> rnd q" using near by linarith
  have rq: "rnd q = 0 \<or> 1 / 2 ^ 20 \<le> rnd q" "0 \<le> rnd q" "rnd q \<le> 1 - 1 / 3601"
    using b1 b2 q by (auto simp: field_simps)
  define x where "x = of_int h + rnd q"
  have hx: "(0 :: rat) \<le> of_int h" "of_int h \<le> (2 :: rat) ^ 34" "h = 0 \<or> (1 :: rat) \<le> of_int h" using h by auto
  have "x = 0 \<or> 1 / 2 ^ 20 \<le> x" "x \<le> 2 ^ 40" using hx rq by (auto simp: x_def)
  then have "\<bar>rnd x - x\<bar> \<le> x / 2 ^ 53" by (rule rounding_near [OF fl])
  then have "rnd x \<le> x + x / 2 ^ 53" by linarith
  moreover have "x \<le> 2 ^ 35" "x \<le> of_int h + (1 - 1 / 3601)" using hx rq by (simp_all add: x_def)
  moreover from this(1) have "x / 2 ^ 53 < 1 / 3601" by (simp add: field_simps)
  ultimately have high: "rnd x < of_int h + 1" by linarith
  have low: "of_int h \<le> rnd x"
    using mono [of "of_int h" x] rounding_int [OF fl h(1)] h(2) rq(2) by (simp add: x_def)
  show "\<lfloor>rnd (of_int h + rnd q)\<rfloor> = h" using low high by (simp add: x_def [symmetric] floor_eq_iff)
  show "0 \<le> rnd (of_int h + rnd q)" using low hx(1) by (simp add: x_def)
qed

lemma duration_whole_part:
  assumes fl: "float_rounding rnd" and u: "0 < u" "u \<le> 3600" and s: "0 \<le> s" "s \<le> 2 ^ 34"
  shows "float_to_int (duration_in rnd (u * 10 ^ 9) (s * 10 ^ 9)) = s div u"
proof -
  define h where "h = s div u"
  define n where "n = s mod u"
  have h: "0 \<le> h" "h \<le> 2 ^ 34" and n: "0 \<le> n" "n \<le> u - 1"
    using u s pos_mod_bound [of u s] pos_mod_sign [of u s] zdiv_mono2 [of s 1 u] pos_imp_zdiv_nonneg_iff [of u s]
    unfolding h_def n_def by simp_all
  have div: "s * 10 ^ 9 sdiv (u * 10 ^ 9) = h" "s * 10 ^ 9 smod (u * 10 ^ 9) = n * 10 ^ 9"
    using u s by (simp_all add: signed_divide_int_def signed_modulo_int_def h_def n_def mod_mult_mult2 sgn_if)
  have "n * 10 ^ 9 \<le> 2 ^ 53" using n u by simp
  then have exact: "rnd (of_int (n * 10 ^ 9)) = of_int (n * 10 ^ 9)" "rnd (of_int h) = of_int h"
    using n h by (intro rounding_int [OF fl]; simp)+
  define q :: rat where "q = of_int n / of_int u"
  have u': "(0 :: rat) < of_int u" "of_int u \<le> (3600 :: rat)" "of_int n \<le> (of_int u :: rat) - 1" "n = 0 \<or> (1 :: rat) \<le> of_int n"
    using u n by (auto simp: of_int_le_iff [symmetric] simp del: of_int_le_iff)
  have "q = 0 \<or> 1 / 3600 \<le> q" using u' by (auto simp: q_def field_simps)
  moreover have "q \<le> 1 - 1 / 3600" using u' by (simp add: q_def field_simps)
  ultimately have floor: "\<lfloor>rnd (of_int h + rnd q)\<rfloor> = h" "0 \<le> rnd (of_int h + rnd q)" by (rule rounding_below [OF fl h])+
  have "of_int (n * 10 ^ 9) / of_int (u * 10 ^ 9) = q" by (simp add: q_def)
  then have "duration_in rnd (u * 10 ^ 9) (s * 10 ^ 9) = rnd (of_int h + rnd q)"
    by (simp only: duration_in_def Let_def div exact)
  then show ?thesis using floor by (simp add: float_to_int_def h_def)
qed

text \<open>The text of a duration of whole seconds has its hours, minutes and seconds, whatever the rounding.\<close>

theorem whole_seconds_shown_exactly:
  assumes "float_rounding rnd" and "0 \<le> s" and "s \<le> 2 ^ 34"
  shows "FormatDurationToTimeString rnd (s * Second) =
    fmt_padded 3 (s div 3600) @ ''h '' @ fmt_padded 2 (s div 60 mod 60) @ ''m '' @ fmt_padded 2 (s mod 60) @ ''s''"
proof -
  note part = duration_whole_part [OF assms(1) _ _ assms(2,3)]
  have "float_to_int (duration_in rnd Hour (s * Second)) = s div 3600" "float_to_int (duration_in rnd Minute (s * Second)) = s div 60"
    "float_to_int (duration_in rnd Second (s * Second)) = s"
    using part [of 3600] part [of 60] part [of 1] by (simp_all add: Hour_def Minute_def Second_def)
  moreover have "s div 60 smod 60 = s div 60 mod 60" "s smod 60 = s mod 60"
    using assms(2) by (simp_all add: signed_modulo_int_def sgn_if)
  ultimately show ?thesis by (simp add: FormatDurationToTimeString_def)
qed

theorem whole_seconds_shown_exactly_witness:
  "FormatDurationToTimeString (\<lambda>x. x) (3725 * Second) = ''001h 02m 05s''"
proof -
  have "float_rounding (\<lambda>x. x)" by (simp add: float_rounding_def mono_def)
  from whole_seconds_shown_exactly [OF this, of 3725] show ?thesis
    by (simp add: fmt_padded_def zero_padded_def Itoa.simps digit_char_def) code_simp
qed

end
