(* ===== verification/Spec2Isabelle.thy ===== *)
theory Spec2Isabelle
  imports Row_Properties Shard_Properties Db_Properties Table_Properties Config_Properties Request_Properties
    Service_Properties Fix_Properties Verify_Runner Live_Properties Convert_Properties Type_Properties Raw_Properties
    Runtime Command_Properties Db_Conn Error_Redaction Http_Properties Config_Yaml Verify_Metrics Logger_Setup Formatting
begin

text \<open>
  Verification of the MOLT verify tool (\<open>src/cockroachdb_molt/molt\<close>), the Go program that compares a PostgreSQL-compatible source
  (the \<^emph>\<open>truth\<close>) with a CockroachDB destination (the \<^emph>\<open>target\<close>), once from the command line (\<open>molt verify\<close>) or for jobs posted to an HTTP
  service (\<open>molt verify-service run\<close>).

  \<^bold>\<open>The parts of the program and how they interact.\<close>
  A verification (\<open>verify.Verify\<close>) lists the tables of both databases (\<open>verify/dbverify\<close>), filters the list (\<open>utils/obj_filter.go\<close>),
  compares the definitions of each pair and keeps the columns that can be compared (\<open>verify/tableverify\<close>), cuts each table into ranges
  of its key (\<open>verify/shard_table.go\<close>) and hands these shards to worker goroutines. A worker reads both sides of a shard in key order with
  a paging iterator (\<open>rowiterator\<close>), merges the two sequences (\<open>verify/rowverify\<close>) and sends what differs to a listener, which counts it and
  reports it to a reporter (\<open>verify/inconsistency\<close>): a log, a repair of the target, or a job of the service. In live mode a row that
  differs is first queued and compared again later by a second goroutine. The service (\<open>verifyservice\<close>) loads a configuration, compiles a
  request into a plan of databases and filters, runs one goroutine per job over the databases of its plan, and answers requests from a
  store of jobs that a mutex protects; errors and connection strings it shows are redacted.

  \<^bold>\<open>Conventions.\<close> The result of an operation that can panic or run forever has an outer \<open>option\<close>, \<open>None\<close> being that outcome; Go errors are
  values of \<open>go_error\<close> and a result \<open>'a result\<close> is \<open>go_error + 'a\<close>. Loops that may not end are \<open>partial_function (option)\<close> (retries, the reading of
  pages and the merge), and their theorems state that they return; all others are total, and no fuel is used. \<open>int64\<close> arithmetic that can overflow is
  written out (\<open>int64\<close>, \<open>uint64\<close> reduce a result; values of pgx are \<open>word\<close>s): the bounds of shards, the backoff of retries, the digits of \<open>numeric\<close>; counters that cannot reach their limits are \<open>nat\<close>. Goroutines that
  share state are \<open>inductive\<close> step relations. Code outside \<open>src/\<close> is a parameter: datums and their comparison (\<open>datum_ops\<close>), a
  connection (\<open>pg_conn\<close>, \<open>db_conn\<close>: the answers to the syntax trees of the queries), regular expressions, pgx, the SQL library's
  types and parsers, YAML, the operating system. What a theorem needs of them is a named predicate (\<open>shard_world\<close>: a connection answers a query as SQL defines
  it on a table with a key; \<open>lib_documented\<close>: the documented behaviour of the constructors of datums), and its witness has a concrete instance (\<open>Example_Db\<close>, \<open>demo_lib\<close>).

  \<^bold>\<open>Foundations.\<close>
  \<^item> \<open>Go_Prelude\<close>: errors, slices, three-way comparison, decimal numbers, strings, list lemmas. \<open>Db_Model\<close>: \<open>dbtable/table.go\<close>, columns,
    syntax trees of queries and their meaning. \<open>Net_Url\<close>, \<open>Path_Match\<close>: what the program uses of \<open>net/url\<close>, \<open>net\<close> and \<open>path\<close>. \<open>Example_Db\<close>: a database of integers for the witnesses.

  \<^bold>\<open>Verification.\<close>
  \<^item> \<open>Inconsistency\<close>: \<open>verify/inconsistency/{row,stats,table}.go\<close>. \<open>Row_Iterator\<close>: \<open>rowiterator/{scan_iterator,point_lookup_iterator}.go\<close>; the locale
    \<open>row_iterator\<close> is the contract of an iterator over a list of pending rows, interpreted as \<open>scan\<close> and \<open>point\<close> on both implementations.
    A scan yields exactly the rows of its range in key order for every positive batch size.
  \<^item> \<open>Row_Verify\<close>, \<open>Row_Diff\<close>, \<open>Row_Report\<close>, \<open>Row_Properties\<close>: \<open>verify/rowverify/{rowverify,row_event_listener}.go\<close>. \<open>row_diff\<close> specifies the events of a comparison;
    the locale \<open>row_verifier\<close> (two iterators) proves that \<open>verifyRows\<close> returns and feeds exactly these events to any listener; \<open>scans\<close> and \<open>points\<close>
    interpret it. The reports of a shard are exactly its missing, extraneous and mismatching rows, and the statistics account for every row.
  \<^item> \<open>Shard_Table\<close>, \<open>Shard_Properties\<close>: \<open>verify/shard_table.go\<close> with \<open>int64\<close> wrap-around. The shards cover every row, and without overflow each exactly once.
  \<^item> \<open>Db_Verify\<close>, \<open>Db_Properties\<close>: \<open>verify/dbverify\<close>, \<open>utils/obj_filter.go\<close>. \<open>Table_Verify\<close>, \<open>Table_Properties\<close>: \<open>verify/tableverify\<close>.
    Tables are paired by their names up to case and filtered exactly; the columns kept are comparable and the others, on either side, are reported.
    \<open>strings.ToLower\<close> is written out for ASCII names; its Unicode tables are a parameter.
  \<^item> \<open>Worker_Pool\<close>, \<open>Verify\<close>, \<open>Verify_Properties\<close>: \<open>verify/verify.go\<close>. For every schedule the reports are the differences of the two databases, and no schedule is infinite.
  \<^item> \<open>Retry\<close>: \<open>retry/retry.go\<close>. \<open>Live_Queue\<close> (locale \<open>retry_queue\<close>, interpreted as \<open>live\<close> on \<open>container/heap\<close>), \<open>Live_Reverify\<close>, \<open>Live_Properties\<close>:
    \<open>verify/rowverify/{live_retry_queue,live_reverifier}.go\<close>. Every interleaving of scan and re-verifier ends with the reports of the plain comparison.
  \<^item> \<open>Log_Reporter\<close>, \<open>Logger_Setup\<close>: the log of a verification (\<open>reporter.go\<close>, \<open>moltlogger/logger.go\<close>) has one warning per difference.
    \<open>Fix_Reporter\<close>, \<open>Fix_Properties\<close>: the repair leaves no difference in a table that its unqualified name denotes in the search path of the target, which is the name the statements carry, and touches no other table. \<open>Verify_Metrics\<close>: \<open>verify/verifymetrics\<close>; the counters of a shard are its statistics.
  \<^item> \<open>Pg_Convert\<close>, \<open>Convert_Properties\<close>: \<open>pgconv\<close>, values to datums: type sound except for the values the code has no case for (\<open>float4\<close> NaN, infinite dates and timestamps,
    arrays of several dimensions), which are not decoded, with the bound under which a \<open>numeric\<close> is converted exactly.
    \<open>Type_Convert\<close>, \<open>Type_Properties\<close>: \<open>utils/typeconv\<close>, column types and type overrides. \<open>Db_Conn\<close>: \<open>dbconn\<close>, opening connections.

  \<^bold>\<open>Service.\<close>
  \<^item> \<open>Verify_Config\<close>, \<open>Config_Yaml\<close>, \<open>Config_Properties\<close>: \<open>verifyservice/{config,resolved_config}.go\<close>. A configuration that validates resolves.
    \<open>Job_Request\<close>, \<open>Request_Properties\<close>: \<open>filter.go\<close>; a request plans exactly the databases its globs select, and the regular expressions of a plan keep the tables
    its globs select, for ASCII names and globs without classes or escapes.
  \<^item> \<open>Operator_Error\<close>, \<open>Redact\<close>, \<open>Redact_Properties\<close>, \<open>Error_Redaction\<close>: \<open>error.go\<close>, \<open>utils/redact.go\<close>. The locale \<open>uri_redactor\<close> is what the redaction of a text needs of
    secret URIs; interpreted as \<open>connections\<close> on the connection strings of the configuration, it shows that a connection string quoted in an error,
    set off by white space, quotes or brackets, is shown without its password. A URI that does not parse is shown as it stands.
  \<^item> \<open>Job_Result\<close>, \<open>Job\<close>, \<open>Store_Interface\<close>, \<open>Job_Store\<close>: \<open>result.go\<close>, \<open>job.go\<close>, \<open>job_store.go\<close>, \<open>metrics.go\<close>; the locale \<open>keyed_store\<close> (interpreted as \<open>store\<close>) links a store to a list
    of runners. \<open>Service\<close>, \<open>Service_Invariant\<close>, \<open>Service_Properties\<close>: \<open>service.go\<close>, handlers and job goroutines as \<open>service_step\<close>; the invariant \<open>svc_inv\<close> of
    reachable states, the life of a job, that every job finishes and that finished jobs do not change. The guide says that a new job evicts
    the result of the last one; the code has no eviction, and the properties say nothing of how long a job is kept.
  \<^item> \<open>Http_Api\<close>, \<open>Http_Properties\<close>: routing, JSON of the answers, logs of failures. \<open>Raw_Table\<close>, \<open>Raw_Properties\<close>: \<open>raw_table.go\<close>. \<open>Verify_Runner\<close>: \<open>verify_runner.go\<close>, from a job to \<open>Verify\<close>; a
    job that succeeds means equal tables. \<open>Runtime\<close>: \<open>runtime.go\<close>, start, serving and shutdown of the process; after a cancellation it can return by itself, through the \<open>Shutdown\<close> of the helper goroutine.
  \<^item> \<open>Command_Line\<close>, \<open>Command_Properties\<close>: \<open>cmd\<close>, flags and commands. \<open>Formatting\<close>: the duration in the last line of a run (\<open>utils/formatting.go\<close>), exact for whole seconds whatever the rounding of floats.

  \<^bold>\<open>Not modelled.\<close> The migration runner of the repository is a separate Rust program. Code that only sets up a library is left out: the definition of
  the cobra commands beyond their flags and actions, the declaration of Prometheus metrics, the metrics server, the adapters \<open>comparectx\<close> and \<open>parsectx\<close>.
  Rate limits delay a run and do not change its result; their \<open>float64\<close> computation is left out, as are \<open>utils/cli.go\<close> and \<open>MatchesFileConvention\<close>, which nothing calls. The text of JSON and YAML values, and redirects of the HTTP mux, belong to the libraries. Code for tests only: \<open>testutils\<close>, \<open>dbconn/fake.go\<close>, \<open>TestOnlyCleanDatabase\<close>, the
  \<open>MaybeFormat\<close> functions other than that of durations. Views of a job are taken atomically; the one the code takes without the mutex, in the answer to \<open>POST /jobs\<close>, is a data race whose outcome Go leaves undefined.
\<close>

end
